(* ===== verification/RTS_Prelude.thy ===== *)
theory RTS_Prelude
  imports Main "HOL-Library.Word"
begin

text \<open>
  Prelude of the scheduler library.

  \<^item> the machine types of \<^verbatim>\<open>include/rts/rts_types.h\<close> (32-bit ticks and counters,
    8-bit priorities, 32-bit addresses of the Cortex-M4F target);
  \<^item> the compile-time configuration as a record, and the \<^verbatim>\<open>#error\<close> and
    \<^verbatim>\<open>_Static_assert\<close> conditions a build has to pass;
  \<^item> the kernel's three ways of stopping (\<^verbatim>\<open>RTS_ASSERT\<close>, \<^verbatim>\<open>RTS_FATAL_UNLESS\<close>,
    \<^verbatim>\<open>RTS_KERNEL_FATAL\<close>) as a result type \<open>rts_fatal + 'a\<close>, with the sequencing
    operator the translated functions are written with;
  \<^item> doubly linked segments over two pointer fields, shared by the three linked
    structures of the kernel (intrusive lists, wait queues, owned-mutex lists).
\<close>

unbundle bit_operations_syntax

named_theorems kernel_simps \<open>rewrite rules that run translated kernel code symbolically\<close>
named_theorems frame_simps \<open>fields an operation leaves alone\<close>

section \<open>Machine types\<close>

type_synonym rts_tick = "32 word"
type_synonym rts_count = "32 word"
type_synonym rts_priority = "8 word"
type_synonym uintptr = "32 word"
type_synonym uint32 = "32 word"

lemma unat_u32: "unat (t :: 32 word) < 2 ^ 32"
  using unsigned_less [of t] by simp

lemma unat_u8: "unat (t :: 8 word) < 256"
  using unsigned_less [of t] by simp

text \<open>\<open>size_t\<close> counts are natural numbers; the guards against \<open>SIZE_MAX\<close> of the source are kept.\<close>

definition SIZE_MAX :: nat where
  "SIZE_MAX = 2 ^ 32 - 1"

datatype rts_status =
    RTS_STATUS_OK
  | RTS_STATUS_INVALID_ARGUMENT
  | RTS_STATUS_INVALID_CONTEXT
  | RTS_STATUS_INVALID_STATE
  | RTS_STATUS_INVALID_TASK_CONFIG
  | RTS_STATUS_INVALID_PRIORITY
  | RTS_STATUS_INVALID_STACK
  | RTS_STATUS_CAPACITY_EXHAUSTED
  | RTS_STATUS_ALREADY_INITIALIZED
  | RTS_STATUS_ALREADY_STARTED
  | RTS_STATUS_TIMEOUT
  | RTS_STATUS_FULL
  | RTS_STATUS_PORT_ERROR

definition RTS_TASK_STACK_ALIGNMENT :: "32 word" where
  "RTS_TASK_STACK_ALIGNMENT = 16"

definition RTS_DELAY_MAX :: rts_tick where
  "RTS_DELAY_MAX = 0x7fffffff"

definition RTS_WAIT_FOREVER :: rts_tick where
  "RTS_WAIT_FOREVER = 0xffffffff"

definition RTS_IDLE_PRIORITY :: rts_priority where
  "RTS_IDLE_PRIORITY = 0"

section \<open>Configuration\<close>

datatype rts_policy_kind =
    RTS_POLICY_KIND_FIXED_PRIORITY
  | RTS_POLICY_KIND_RMS
  | RTS_POLICY_KIND_EDF

text \<open>
  One field per macro of the selected \<^verbatim>\<open>rts_config.h\<close>; a 0/1 macro is a \<open>bool\<close>. The three
  policy selectors, of which exactly one is 1, are one field.
\<close>

record rts_config =
  RTS_MAX_TASKS :: nat
  RTS_CPU_COUNT :: nat
  RTS_MAX_TIMERS :: nat
  RTS_TIMER_SERVICE_PRIORITY :: nat
  RTS_TIMER_SERVICE_STACK_SIZE_BYTES :: nat
  RTS_TIMER_CALLBACK_QUEUE_CAPACITY :: nat
  RTS_PRIORITY_COUNT :: nat
  RTS_TICK_RATE_HZ :: nat
  RTS_ENABLE_TICKLESS_IDLE :: bool
  RTS_TICKLESS_MAX_SLEEP_TICKS :: rts_tick
  RTS_POLICY :: rts_policy_kind
  RTS_ENABLE_TIME_SLICING :: bool
  RTS_TIME_SLICE_TICKS :: rts_tick
  RTS_ENABLE_ASSERTIONS :: bool
  RTS_ENABLE_DIAGNOSTICS :: bool
  RTS_ENABLE_TRACE :: bool
  RTS_ENABLE_STACK_GUARDS :: bool
  RTS_ENABLE_STACK_WATERMARK :: bool
  RTS_ENABLE_RUNTIME_STATS :: bool
  RTS_ENABLE_INVARIANT_CHECKS :: bool
  RTS_TRACE_CAPACITY :: nat
  RTS_STACK_GUARD_SIZE_BYTES :: nat
  RTS_IDLE_STACK_SIZE_BYTES :: nat
  RTS_MAX_MUTEXES_PER_TASK :: nat

text \<open>The \<^verbatim>\<open>#error\<close> conditions of \<^verbatim>\<open>rts_types.h\<close>.\<close>

definition rts_types_checks :: "rts_config \<Rightarrow> bool" where
  "rts_types_checks cfg \<longleftrightarrow>
     RTS_CPU_COUNT cfg = 1 \<and>
     1 \<le> RTS_MAX_MUTEXES_PER_TASK cfg \<and>
     1 \<le> RTS_MAX_TASKS cfg \<and>
     1 \<le> RTS_MAX_TIMERS cfg \<and>
     1 \<le> RTS_TIMER_SERVICE_PRIORITY cfg \<and>
     RTS_TIMER_SERVICE_PRIORITY cfg < RTS_PRIORITY_COUNT cfg \<and>
     1 \<le> RTS_TIMER_SERVICE_STACK_SIZE_BYTES cfg \<and>
     RTS_MAX_TIMERS cfg \<le> RTS_TIMER_CALLBACK_QUEUE_CAPACITY cfg \<and>
     2 \<le> RTS_PRIORITY_COUNT cfg \<and> RTS_PRIORITY_COUNT cfg \<le> 256 \<and>
     1 \<le> RTS_TICK_RATE_HZ cfg \<and>
     1 \<le> RTS_TICKLESS_MAX_SLEEP_TICKS cfg \<and>
     RTS_TICKLESS_MAX_SLEEP_TICKS cfg \<le> 0x7fffffff \<and>
     (RTS_ENABLE_TIME_SLICING cfg \<longrightarrow> 1 \<le> RTS_TIME_SLICE_TICKS cfg) \<and>
     (RTS_ENABLE_TRACE cfg \<longrightarrow> 1 \<le> RTS_TRACE_CAPACITY cfg) \<and>
     (RTS_ENABLE_STACK_GUARDS cfg \<longrightarrow> 4 \<le> RTS_STACK_GUARD_SIZE_BYTES cfg)"

text \<open>The static assertions of \<^verbatim>\<open>config_internal.h\<close>.\<close>

definition config_internal_checks :: "rts_config \<Rightarrow> bool" where
  "config_internal_checks cfg \<longleftrightarrow>
     RTS_CPU_COUNT cfg = 1 \<and>
     RTS_PRIORITY_COUNT cfg \<le> 256 \<and>
     0 < RTS_IDLE_STACK_SIZE_BYTES cfg \<and>
     RTS_TIMER_SERVICE_STACK_SIZE_BYTES cfg mod 16 = 0 \<and>
     RTS_MAX_TIMERS cfg \<le> RTS_TIMER_CALLBACK_QUEUE_CAPACITY cfg \<and>
     RTS_TICKLESS_MAX_SLEEP_TICKS cfg \<le> 0x7fffffff \<and>
     (RTS_POLICY cfg = RTS_POLICY_KIND_RMS \<longrightarrow>
        RTS_MAX_TASKS cfg + 1 < RTS_PRIORITY_COUNT cfg \<and>
        RTS_MAX_TASKS cfg < RTS_TIMER_SERVICE_PRIORITY cfg)"

text \<open>
  A build that compiles. The last two conjuncts are what C requires of the static arrays
  of TCBs and timers: their element counts are below \<open>SIZE_MAX\<close>.
\<close>

definition config_ok :: "rts_config \<Rightarrow> bool" where
  "config_ok cfg \<longleftrightarrow> rts_types_checks cfg \<and> config_internal_checks cfg \<and>
     RTS_MAX_TASKS cfg + 2 < SIZE_MAX \<and> RTS_TIMER_CALLBACK_QUEUE_CAPACITY cfg < SIZE_MAX"

definition RTS_SCHEDULABLE_TASK_CAPACITY :: "rts_config \<Rightarrow> nat" where
  "RTS_SCHEDULABLE_TASK_CAPACITY cfg = RTS_MAX_TASKS cfg + 2"

text \<open>The configuration of \<^verbatim>\<open>tests/config/rts_config.h\<close>, used by the concrete instances.\<close>

definition test_config :: rts_config where
  "test_config = \<lparr>
     RTS_MAX_TASKS = 8, RTS_CPU_COUNT = 1, RTS_MAX_TIMERS = 8,
     RTS_TIMER_SERVICE_PRIORITY = 63, RTS_TIMER_SERVICE_STACK_SIZE_BYTES = 512,
     RTS_TIMER_CALLBACK_QUEUE_CAPACITY = 8, RTS_PRIORITY_COUNT = 65,
     RTS_TICK_RATE_HZ = 1000, RTS_ENABLE_TICKLESS_IDLE = True,
     RTS_TICKLESS_MAX_SLEEP_TICKS = 60000, RTS_POLICY = RTS_POLICY_KIND_FIXED_PRIORITY,
     RTS_ENABLE_TIME_SLICING = True, RTS_TIME_SLICE_TICKS = 10,
     RTS_ENABLE_ASSERTIONS = True, RTS_ENABLE_DIAGNOSTICS = True, RTS_ENABLE_TRACE = True,
     RTS_ENABLE_STACK_GUARDS = True, RTS_ENABLE_STACK_WATERMARK = True,
     RTS_ENABLE_RUNTIME_STATS = True, RTS_ENABLE_INVARIANT_CHECKS = True,
     RTS_TRACE_CAPACITY = 64, RTS_STACK_GUARD_SIZE_BYTES = 16,
     RTS_IDLE_STACK_SIZE_BYTES = 256, RTS_MAX_MUTEXES_PER_TASK = 8\<rparr>"

lemma test_config_ok: "config_ok test_config"
  by (simp add: config_ok_def rts_types_checks_def config_internal_checks_def test_config_def
      SIZE_MAX_def)

section \<open>Fatal outcomes and sequencing\<close>

datatype rts_fatal =
    RTS_FATAL_ASSERTION
  | RTS_FATAL_INVALID_STATE
  | RTS_FATAL_LIST_CORRUPTION
  | RTS_FATAL_STACK_CORRUPTION
  | RTS_FATAL_SWITCH_CORRUPTION
  | RTS_FATAL_WAIT_CORRUPTION
  | RTS_FATAL_CONTEXT_CORRUPTION
  | RTS_FATAL_TASK_RETURNED
  | RTS_FATAL_HARDFAULT
  | RTS_FATAL_TARGET_CONFIGURATION
  | RTS_FATAL_TIMER_CORRUPTION
  | RTS_FATAL_TIMER_CALLBACK_QUEUE_OVERFLOW
  | RTS_NO_RETURN

text \<open>
  \<open>RTS_NO_RETURN\<close> is no reason code of the source: it is the outcome of a loop over a linked
  list that is still running after more steps than the list can have nodes, which happens only
  on a cyclic list, where the C loop never ends.

  \<^verbatim>\<open>rts_assert_fail\<close> and \<^verbatim>\<open>rts_kernel_fatal_at\<close> do not return: the call is the value
  \<open>Inl reason\<close> and everything after it is skipped. \<open>bnd\<close> is the C semicolon between a call
  that may be fatal and the rest.
\<close>

definition bnd :: "rts_fatal + 'a \<Rightarrow> ('a \<Rightarrow> rts_fatal + 'b) \<Rightarrow> rts_fatal + 'b" where
  "bnd r k = (case r of Inl e \<Rightarrow> Inl e | Inr x \<Rightarrow> k x)"

text \<open>\<open>RTS_ASSERT(c)\<close>: compiled away unless \<open>RTS_ENABLE_ASSERTIONS\<close>.\<close>

definition rts_assert :: "rts_config \<Rightarrow> bool \<Rightarrow> rts_fatal + 'a \<Rightarrow> rts_fatal + 'a" where
  "rts_assert cfg c k = (if c \<or> \<not> RTS_ENABLE_ASSERTIONS cfg then k else Inl RTS_FATAL_ASSERTION)"

text \<open>\<open>RTS_FATAL_UNLESS(c)\<close>: kept in every build.\<close>

definition fatal_unless :: "bool \<Rightarrow> rts_fatal + 'a \<Rightarrow> rts_fatal + 'a" where
  "fatal_unless c k = (if c then k else Inl RTS_FATAL_ASSERTION)"

text \<open>
  The \<^verbatim>\<open>..._REQUIRE_...(c)\<close> macros of the list and queue modules: when \<open>c\<close> fails, assert
  it and return early with \<open>r\<close>.
\<close>

definition require :: "rts_config \<Rightarrow> bool \<Rightarrow> 'a \<Rightarrow> rts_fatal + 'a \<Rightarrow> rts_fatal + 'a" where
  "require cfg c r k = (if c then k else rts_assert cfg c (Inr r))"

text \<open>\<open>c && f()\<close> where \<open>f\<close> may stop fatally: \<open>f\<close> is evaluated only if \<open>c\<close> holds.\<close>

definition and_then :: "bool \<Rightarrow> rts_fatal + bool \<Rightarrow> rts_fatal + bool" where
  "and_then c r = (if c then r else Inr False)"

lemma and_then_simps [simp]: "and_then True r = r" "and_then False r = Inr False"
  by (simp_all add: and_then_def)

lemma bnd_simps [simp]: "bnd (Inr x) k = k x" "bnd (Inl e) k = Inl e"
  by (simp_all add: bnd_def)

lemma bnd_Inr_iff: "bnd r k = Inr y \<longleftrightarrow> (\<exists>x. r = Inr x \<and> k x = Inr y)"
  by (cases r) (simp_all add: bnd_def)

lemma bnd_assoc: "bnd (bnd r k) j = bnd r (\<lambda>x. bnd (k x) j)"
  by (cases r) simp_all

lemma rts_assert_True [simp]: "rts_assert cfg True k = k"
  by (simp add: rts_assert_def)

lemma fatal_unless_True [simp]: "fatal_unless True k = k"
  by (simp add: fatal_unless_def)

lemma require_True [simp]: "require cfg True r k = k"
  by (simp add: require_def)

lemma fatal_unless_Inr_iff: "fatal_unless c k = Inr y \<longleftrightarrow> c \<and> k = Inr y"
  by (simp add: fatal_unless_def)

lemma require_Inr_iff:
  "require cfg c r k = Inr y \<longleftrightarrow> (c \<and> k = Inr y) \<or> (\<not> c \<and> \<not> RTS_ENABLE_ASSERTIONS cfg \<and> y = r)"
  by (auto simp: require_def rts_assert_def)

lemma rts_assert_Inr_iff:
  "rts_assert cfg c k = Inr y \<longleftrightarrow> (c \<or> \<not> RTS_ENABLE_ASSERTIONS cfg) \<and> k = Inr y"
  by (simp add: rts_assert_def)

section \<open>Doubly linked segments\<close>

text \<open>First and last pointer of a list, with the pointer of the surrounding list as default.\<close>

definition hd_or :: "'n list \<Rightarrow> 'n option \<Rightarrow> 'n option" where
  "hd_or xs q = (case xs of [] \<Rightarrow> q | x # _ \<Rightarrow> Some x)"

definition last_or :: "'n option \<Rightarrow> 'n list \<Rightarrow> 'n option" where
  "last_or p xs = (if xs = [] then p else Some (last xs))"

lemma hd_or_simps [simp]: "hd_or [] q = q" "hd_or (x # xs) q = Some x"
  by (simp_all add: hd_or_def)

lemma last_or_simps [simp]:
  "last_or p [] = p" "last_or p (xs @ [x]) = Some x" "last_or p (x # xs) = last_or (Some x) xs"
  by (simp_all add: last_or_def)

lemma hd_or_append: "hd_or (xs @ ys) q = hd_or xs (hd_or ys q)"
  by (cases xs) simp_all

lemma last_or_append: "last_or p (xs @ ys) = last_or (last_or p xs) ys"
  by (simp add: last_or_def)

lemma hd_or_None [simp]: "hd_or xs None = None \<longleftrightarrow> xs = []"
  by (cases xs) simp_all

lemma last_or_None [simp]: "last_or None xs = None \<longleftrightarrow> xs = []"
  by (simp add: last_or_def)

text \<open>The default is irrelevant once the list is known to be nonempty.\<close>

lemma hd_or_nonempty: "xs \<noteq> [] \<Longrightarrow> hd_or xs q = Some (hd xs)"
  by (cases xs) simp_all

lemma hd_or_last: "last_or None xs = Some x \<Longrightarrow> hd_or xs q = Some (hd xs)"
  by (cases xs) simp_all

lemma last_or_hd: "hd_or xs None = Some x \<Longrightarrow> last_or p xs = Some (last xs)"
  by (cases xs) (simp_all add: last_or_def)

lemma hd_or_SomeD: "hd_or xs None = Some x \<Longrightarrow> x \<in> set xs"
  by (cases xs) simp_all

lemma last_or_SomeD: "last_or None xs = Some x \<Longrightarrow> x \<in> set xs"
  by (auto simp: last_or_def split: if_splits)

text \<open>
  \<open>lseg P N p xs q\<close>: following the \<open>N\<close> (next) field visits \<open>xs\<close> in order and ends at \<open>q\<close>,
  and the \<open>P\<close> (previous) fields lead back to \<open>p\<close>.
\<close>

fun lseg :: "('n \<Rightarrow> 'n option) \<Rightarrow> ('n \<Rightarrow> 'n option) \<Rightarrow> 'n option \<Rightarrow> 'n list \<Rightarrow> 'n option \<Rightarrow> bool" where
  "lseg P N p [] q = True"
| "lseg P N p (x # xs) q = (P x = p \<and> N x = hd_or xs q \<and> lseg P N (Some x) xs q)"

lemma lseg_append:
  "lseg P N p (xs @ ys) q \<longleftrightarrow> lseg P N p xs (hd_or ys q) \<and> lseg P N (last_or p xs) ys q"
  by (induction xs arbitrary: p) (auto simp: hd_or_append)

lemma lseg_cong:
  "(\<And>x. x \<in> set xs \<Longrightarrow> P' x = P x \<and> N' x = N x) \<Longrightarrow> lseg P' N' p xs q = lseg P N p xs q"
  by (induction xs arbitrary: p) auto

lemma lseg_head_previous: "lseg P N p (x # xs) q \<Longrightarrow> P x = p"
  by simp

lemma lseg_last_next: "lseg P N p (xs @ [x]) q \<Longrightarrow> N x = q"
  by (simp add: lseg_append)

text \<open>Writing through a pointer that may be null: a null pointer writes nothing.\<close>

definition upd_opt :: "('n \<Rightarrow> 'v) \<Rightarrow> 'n option \<Rightarrow> 'v \<Rightarrow> ('n \<Rightarrow> 'v)" where
  "upd_opt f r v = (case r of None \<Rightarrow> f | Some x \<Rightarrow> f(x := v))"

lemma upd_opt_simps [simp]: "upd_opt f None v = f" "upd_opt f (Some x) v = f(x := v)"
  by (simp_all add: upd_opt_def)

lemma lseg_retarget_next:
  assumes "lseg P N p xs q" and "distinct xs"
  shows "lseg P (upd_opt N (last_or None xs) r) p xs r"
proof (cases xs rule: rev_cases)
  case Nil
  then show ?thesis by simp
next
  case (snoc ys y)
  have "lseg P (N(y := r)) p ys (Some y) = lseg P N p ys (Some y)"
    using assms(2) snoc by (intro lseg_cong) auto
  with assms(1) snoc show ?thesis by (simp add: lseg_append)
qed

lemma lseg_retarget_previous:
  assumes "lseg P N p xs q" and "distinct xs"
  shows "lseg (upd_opt P (hd_or xs None) r) N r xs q"
proof (cases xs)
  case Nil
  then show ?thesis by simp
next
  case (Cons y ys)
  have "lseg (P(y := r)) N (Some y) ys q = lseg P N (Some y) ys q"
    using assms(2) Cons by (intro lseg_cong) auto
  with assms(1) Cons show ?thesis by simp
qed

text \<open>Linking \<open>n\<close> between two neighbours, and unlinking it.\<close>

lemma lseg_link:
  assumes seg: "lseg P N None (xs @ ys) None" and d: "distinct (xs @ ys)"
    and fresh: "n \<notin> set (xs @ ys)"
  shows "lseg ((upd_opt P (hd_or ys None) (Some n))(n := last_or None xs))
              ((upd_opt N (last_or None xs) (Some n))(n := hd_or ys None)) None (xs @ n # ys) None"
    (is "lseg ?P ?N _ _ _")
proof -
  have "lseg P N None xs (hd_or ys None)" and ys: "lseg P N (last_or None xs) ys None"
    using seg by (simp_all add: lseg_append)
  then have 1: "lseg P (upd_opt N (last_or None xs) (Some n)) None xs (Some n)"
    using d by (auto intro: lseg_retarget_next)
  have 2: "lseg (upd_opt P (hd_or ys None) (Some n)) N (Some n) ys None"
    using ys d by (auto intro: lseg_retarget_previous)
  have "lseg ?P ?N None xs (Some n) = lseg P (upd_opt N (last_or None xs) (Some n)) None xs (Some n)"
    using d fresh by (intro lseg_cong) (auto simp: upd_opt_def split: option.splits dest: hd_or_SomeD)
  moreover have "lseg ?P ?N (Some n) ys None = lseg (upd_opt P (hd_or ys None) (Some n)) N (Some n) ys None"
    using d fresh by (intro lseg_cong) (auto simp: upd_opt_def split: option.splits dest: last_or_SomeD)
  ultimately show ?thesis using 1 2 by (simp add: lseg_append)
qed

lemma lseg_unlink:
  assumes seg: "lseg P N None (xs @ n # ys) None" and d: "distinct (xs @ n # ys)"
  shows "lseg ((upd_opt P (hd_or ys None) (last_or None xs))(n := None))
              ((upd_opt N (last_or None xs) (hd_or ys None))(n := None)) None (xs @ ys) None"
    (is "lseg ?P ?N _ _ _")
proof -
  have xs: "lseg P N None xs (Some n)" and ys: "lseg P N (Some n) ys None"
    using seg by (simp_all add: lseg_append)
  have 1: "lseg P (upd_opt N (last_or None xs) (hd_or ys None)) None xs (hd_or ys None)"
    using xs d by (auto intro: lseg_retarget_next)
  have 2: "lseg (upd_opt P (hd_or ys None) (last_or None xs)) N (last_or None xs) ys None"
    using ys d by (auto intro: lseg_retarget_previous)
  have "lseg ?P ?N None xs (hd_or ys None) =
        lseg P (upd_opt N (last_or None xs) (hd_or ys None)) None xs (hd_or ys None)"
    using d by (intro lseg_cong) (auto simp: upd_opt_def split: option.splits dest: hd_or_SomeD)
  moreover have "lseg ?P ?N (last_or None xs) ys None =
        lseg (upd_opt P (hd_or ys None) (last_or None xs)) N (last_or None xs) ys None"
    using d by (intro lseg_cong) (auto simp: upd_opt_def split: option.splits dest: last_or_SomeD)
  ultimately show ?thesis using 1 2 by (simp add: lseg_append)
qed

lemma lseg_neighbours:
  assumes "lseg P N None (xs @ n # ys) None"
  shows "P n = last_or None xs" and "N n = hd_or ys None"
  using assms by (simp_all add: lseg_append)

end
