(* ===== verification/Tick_Time.thy ===== *)
theory Tick_Time
  imports RTS_Prelude
begin

text \<open>
  Wrap-safe tick arithmetic (\<^verbatim>\<open>kernel/time_internal.h\<close>) and the ordering contract the kernel's
  sorted queues rely on. The comparison of two 32-bit ticks is only an order inside a
  window of \<open>2 ^ 31\<close> ticks; the locale \<open>stable_order\<close> states what a queue needs of a
  comparison on the keys it holds, and the tick comparison is one of its instances.
\<close>

section \<open>Tick comparison\<close>

definition RTS_TICK_HALF_RANGE :: rts_tick where
  "RTS_TICK_HALF_RANGE = 0x80000000"

definition RTS_TICK_MAX_ADVANCE :: rts_tick where
  "RTS_TICK_MAX_ADVANCE = 0x7fffffff"

definition rts_tick_before :: "rts_tick \<Rightarrow> rts_tick \<Rightarrow> bool" where
  "rts_tick_before a b =
     (let distance = a - b in
      distance \<noteq> RTS_TICK_HALF_RANGE \<and> (distance AND RTS_TICK_HALF_RANGE) \<noteq> 0)"

definition rts_tick_reached :: "rts_tick \<Rightarrow> rts_tick \<Rightarrow> bool" where
  "rts_tick_reached now deadline \<longleftrightarrow> now = deadline \<or> rts_tick_before deadline now"

definition rts_tick_elapsed :: "rts_tick \<Rightarrow> rts_tick \<Rightarrow> rts_tick" where
  "rts_tick_elapsed start end_tick = end_tick - start"

definition rts_tick_relative_is_valid :: "rts_tick \<Rightarrow> bool" where
  "rts_tick_relative_is_valid relative_ticks \<longleftrightarrow> relative_ticks \<le> RTS_TICK_MAX_ADVANCE"

text \<open>The sign bit of the difference, read as an unsigned comparison.\<close>

lemma bit_31_iff: "bit (d :: 32 word) 31 \<longleftrightarrow> 2 ^ 31 \<le> unat d"
proof -
  have "bit d 31 \<longleftrightarrow> bit (unat d) 31"
    by (simp add: bit_unsigned_iff)
  also have "\<dots> \<longleftrightarrow> odd (unat d div 2 ^ 31)"
    by (simp add: bit_iff_odd)
  also have "\<dots> \<longleftrightarrow> 2 ^ 31 \<le> unat d"
  proof (cases "unat d < 2 ^ 31")
    case False
    moreover have "unat d < 2 * 2 ^ 31"
      using unat_u32 [of d] by simp
    ultimately have "unat d div 2 ^ 31 = 1"
      by (intro div_nat_eqI) simp_all
    with False show ?thesis by simp
  qed simp
  finally show ?thesis .
qed

lemma and_half_range:
  "(d AND RTS_TICK_HALF_RANGE) \<noteq> 0 \<longleftrightarrow> 2 ^ 31 \<le> unat (d :: 32 word)"
proof -
  have half: "RTS_TICK_HALF_RANGE = 2 ^ 31"
    by (simp add: RTS_TICK_HALF_RANGE_def)
  show ?thesis
    unfolding half and_exp_eq_0_iff_not_bit by (simp only: not_not bit_31_iff)
qed

text \<open>
  The whole comparison as one statement about distances: \<open>a\<close> is before \<open>b\<close> iff counting up
  from \<open>a\<close> reaches \<open>b\<close> in at least one and fewer than \<open>2 ^ 31\<close> steps.
\<close>

lemma rts_tick_before_iff: "rts_tick_before a b \<longleftrightarrow> 0 < unat (b - a) \<and> unat (b - a) < 2 ^ 31"
proof -
  have half: "a - b = RTS_TICK_HALF_RANGE \<longleftrightarrow> unat (a - b) = 2 ^ 31"
    unfolding RTS_TICK_HALF_RANGE_def by (subst word_unat_eq_iff) simp
  have "rts_tick_before a b \<longleftrightarrow> 2 ^ 31 < unat (a - b)"
    unfolding rts_tick_before_def Let_def and_half_range half by auto
  also have "\<dots> \<longleftrightarrow> 0 < unat (b - a) \<and> unat (b - a) < 2 ^ 31"
    using unat_u32 [of a] unat_u32 [of b] by (simp add: unat_sub_if_size word_size) linarith
  finally show ?thesis .
qed

lemma rts_tick_reached_iff: "rts_tick_reached now deadline \<longleftrightarrow> unat (now - deadline) < 2 ^ 31"
proof (cases "now = deadline")
  case False
  then have "now - deadline \<noteq> 0" by simp
  then have "0 < unat (now - deadline)" by (simp add: unat_gt_0)
  with False show ?thesis by (simp add: rts_tick_reached_def rts_tick_before_iff)
qed (simp add: rts_tick_reached_def)

lemma RTS_TICK_MAX_ADVANCE_iff: "t \<le> RTS_TICK_MAX_ADVANCE \<longleftrightarrow> unat t < 2 ^ 31"
  by (simp add: RTS_TICK_MAX_ADVANCE_def word_le_nat_alt less_Suc_eq_le [symmetric])

text \<open>Distances add up when they stay below the modulus.\<close>

lemma unat_tick_split:
  fixes a b c :: rts_tick
  assumes "unat (b - a) + unat (c - b) < 2 ^ 32"
  shows "unat (c - a) = unat (b - a) + unat (c - b)"
proof -
  have "unat ((b - a) + (c - b)) = unat (b - a) + unat (c - b)"
    using assms by (intro unat_add_lem [THEN iffD1]) simp
  then show ?thesis by simp
qed

lemma rts_tick_before_window:
  assumes "unat (x - base) < 2 ^ 31" and "unat (y - base) < 2 ^ 31"
  shows "rts_tick_before x y \<longleftrightarrow> unat (x - base) < unat (y - base)"
proof -
  have "unat (y - x) = (if unat (x - base) \<le> unat (y - base) then unat (y - base) - unat (x - base)
      else unat (y - base) + 2 ^ 32 - unat (x - base))"
    using unat_sub_if_size [of "y - base" "x - base"] by (simp add: word_size)
  with assms show ?thesis unfolding rts_tick_before_iff by auto
qed

section \<open>Stable insertion into an ordered list\<close>

text \<open>
  The reference for the four ordered queues of the kernel (delayed tasks, active timers, EDF
  ready tasks, waiters of an object): walk from the head while the new element is not strictly
  before the queued one, and link it there.
\<close>

fun stable_insert :: "('a \<Rightarrow> 'a \<Rightarrow> bool) \<Rightarrow> 'a \<Rightarrow> 'a list \<Rightarrow> 'a list" where
  "stable_insert lt x [] = [x]"
| "stable_insert lt x (y # ys) = (if lt x y then x # y # ys else y # stable_insert lt x ys)"

definition ordered_by :: "('a \<Rightarrow> 'a \<Rightarrow> bool) \<Rightarrow> 'a list \<Rightarrow> bool" where
  "ordered_by lt xs = sorted_wrt (\<lambda>x y. \<not> lt y x) xs"

lemma set_stable_insert [simp]: "set (stable_insert lt x xs) = insert x (set xs)"
  by (induction xs) auto

lemma length_stable_insert [simp]: "length (stable_insert lt x xs) = Suc (length xs)"
  by (induction xs) auto

lemma distinct_stable_insert [simp]:
  "distinct (stable_insert lt x xs) \<longleftrightarrow> x \<notin> set xs \<and> distinct xs"
  by (induction xs) auto

lemma stable_insert_split:
  "stable_insert lt x xs = takeWhile (\<lambda>y. \<not> lt x y) xs @ x # dropWhile (\<lambda>y. \<not> lt x y) xs"
  by (induction xs) auto

lemma stable_insert_cong:
  "(\<And>y. y \<in> set xs \<Longrightarrow> lt x y = lt' x y) \<Longrightarrow> stable_insert lt x xs = stable_insert lt' x xs"
  by (induction xs) auto

lemma ordered_by_simps [simp]:
  "ordered_by lt []" "ordered_by lt (x # xs) \<longleftrightarrow> (\<forall>y\<in>set xs. \<not> lt y x) \<and> ordered_by lt xs"
  by (auto simp: ordered_by_def)

lemma ordered_by_append:
  "ordered_by lt (xs @ ys) \<longleftrightarrow>
     ordered_by lt xs \<and> ordered_by lt ys \<and> (\<forall>x\<in>set xs. \<forall>y\<in>set ys. \<not> lt y x)"
  by (auto simp: ordered_by_def sorted_wrt_append)

lemma ordered_by_remove1: "ordered_by lt xs \<Longrightarrow> ordered_by lt (remove1 x xs)"
proof (induction xs)
  case (Cons y ys)
  then show ?case using set_remove1_subset [of x ys] by auto
qed simp

lemma ordered_by_cong:
  "(\<And>x y. x \<in> set xs \<Longrightarrow> y \<in> set xs \<Longrightarrow> lt x y = lt' x y) \<Longrightarrow> ordered_by lt xs = ordered_by lt' xs"
  by (induction xs) auto

text \<open>
  What an ordered queue needs of its comparison, on the elements it may hold: strictness and
  transitivity of the complement. Nothing more is available for wrapping ticks.
\<close>

locale stable_order =
  fixes before :: "'a \<Rightarrow> 'a \<Rightarrow> bool" and carrier :: "'a set"
  assumes before_asym: "\<lbrakk>x \<in> carrier; y \<in> carrier; before x y\<rbrakk> \<Longrightarrow> \<not> before y x"
    and not_before_trans:
      "\<lbrakk>x \<in> carrier; y \<in> carrier; z \<in> carrier; \<not> before y x; \<not> before z y\<rbrakk> \<Longrightarrow> \<not> before z x"
begin

lemma stable_insert_ordered:
  assumes "ordered_by before xs" and "set xs \<subseteq> carrier" and "x \<in> carrier"
  shows "ordered_by before (stable_insert before x xs)"
  using assms
proof (induction xs)
  case (Cons y ys)
  show ?case
  proof (cases "before x y")
    case True
    have "\<not> before z x" if "z \<in> set ys" for z
      using not_before_trans [of x y z] before_asym [of x y] True that Cons.prems by auto
    with True Cons.prems before_asym [of x y] show ?thesis by auto
  next
    case False
    with Cons show ?thesis by auto
  qed
qed simp

lemma stable_insert_after_equals:
  assumes "ordered_by before xs" and "set xs \<subseteq> carrier" and "x \<in> carrier"
    and "y \<in> set (dropWhile (\<lambda>y. \<not> before x y) xs)"
  shows "before x y"
  using assms
proof (induction xs)
  case (Cons z zs)
  show ?case
  proof (cases "before x z")
    case True
    then have y: "y \<in> set (z # zs)" using Cons.prems by simp
    with Cons.prems have "\<not> before y z \<or> y = z" and c: "y \<in> carrier" "z \<in> carrier" by auto
    with True show ?thesis
      using not_before_trans [of z y x] Cons.prems(3) by auto
  next
    case False
    with Cons show ?thesis by auto
  qed
qed simp

lemma ordered_head_minimal:
  assumes "ordered_by before (x # xs)" and "y \<in> set (x # xs)" and "set (x # xs) \<subseteq> carrier"
  shows "\<not> before y x"
  using assms before_asym [of x x] by auto

end

text \<open>Ticks within half the range of a common base are such an order, whatever carries them.\<close>

definition tick_window :: "rts_tick \<Rightarrow> rts_tick set" where
  "tick_window base = {t. unat (t - base) < 2 ^ 31}"

interpretation tick: stable_order "\<lambda>x y. rts_tick_before (key x) (key y)"
  "{x. key x \<in> tick_window base}" for key :: "'a \<Rightarrow> rts_tick" and base :: rts_tick
proof unfold_locales
  fix x y z
  assume "x \<in> {x. key x \<in> tick_window base}" and "y \<in> {x. key x \<in> tick_window base}"
  then have w: "unat (key x - base) < 2 ^ 31" "unat (key y - base) < 2 ^ 31"
    by (simp_all add: tick_window_def)
  show "\<not> rts_tick_before (key y) (key x)" if "rts_tick_before (key x) (key y)"
    using that w by (simp add: rts_tick_before_window [of _ base])
  show "\<not> rts_tick_before (key z) (key x)"
    if "z \<in> {x. key x \<in> tick_window base}" "\<not> rts_tick_before (key y) (key x)"
      "\<not> rts_tick_before (key z) (key y)"
    using that w by (simp add: tick_window_def rts_tick_before_window [of _ base])
qed

end
