(* ===== verification/Intrusive_List.thy ===== *)
theory Intrusive_List
  imports Tick_Time
begin

text \<open>
  The intrusive doubly linked list (\<^verbatim>\<open>kernel/intrusive_list.c\<close>). Nodes live inside the objects
  they link and lists inside the queues that own them, so the memory is two stores: one cell
  per node address \<open>'n\<close> and one per list address \<open>'l\<close>; \<open>'o\<close> is the type of the opaque
  \<open>object\<close> pointer. A null pointer is \<open>None\<close>.

  \<open>mem_abs m A\<close> says that every list \<open>l\<close> of the memory \<open>m\<close> is well formed and holds
  exactly the nodes \<open>A l\<close> in that order. Under it no operation of the module can fail, and
  each is an operation on the abstract lists (\<open>push_back_refines\<close>, \<open>insert_before_refines\<close>,
  \<open>remove_refines\<close>): the client components reason about \<open>A\<close> only.
\<close>

section \<open>Memory and operations\<close>

record ('n, 'l, 'o) rts_list_node =
  nd_previous :: "'n option"
  nd_next :: "'n option"
  nd_owner :: "'l option"
  nd_object :: "'o option"

record 'n rts_list =
  ls_head :: "'n option"
  ls_tail :: "'n option"
  ls_count :: nat

record ('n, 'l, 'o) list_mem =
  node_at :: "'n \<Rightarrow> ('n, 'l, 'o) rts_list_node"
  list_at :: "'l \<Rightarrow> 'n rts_list"

definition write_node :: "'n \<Rightarrow> (('n, 'l, 'o) rts_list_node \<Rightarrow> ('n, 'l, 'o) rts_list_node) \<Rightarrow>
    ('n, 'l, 'o) list_mem \<Rightarrow> ('n, 'l, 'o) list_mem" where
  "write_node n f m = m\<lparr>node_at := (node_at m)(n := f (node_at m n))\<rparr>"

definition write_list :: "'l \<Rightarrow> ('n rts_list \<Rightarrow> 'n rts_list) \<Rightarrow>
    ('n, 'l, 'o) list_mem \<Rightarrow> ('n, 'l, 'o) list_mem" where
  "write_list l f m = m\<lparr>list_at := (list_at m)(l := f (list_at m l))\<rparr>"

definition rts_list_endpoints_are_valid :: "'l \<Rightarrow> ('n, 'l, 'o) list_mem \<Rightarrow> bool" where
  "rts_list_endpoints_are_valid l m =
     (let ls = list_at m l in
      if ls_count ls = 0 then ls_head ls = None \<and> ls_tail ls = None
      else (case (ls_head ls, ls_tail ls) of
              (Some h, Some t) \<Rightarrow>
                nd_previous (node_at m h) = None \<and> nd_next (node_at m t) = None \<and>
                nd_owner (node_at m h) = Some l \<and> nd_owner (node_at m t) = Some l
            | _ \<Rightarrow> False))"

definition rts_list_initialize ::
  "rts_config \<Rightarrow> 'l option \<Rightarrow> ('n, 'l, 'o) list_mem \<Rightarrow> rts_fatal + ('n, 'l, 'o) list_mem" where
  "rts_list_initialize cfg lp m =
     require cfg (lp \<noteq> None) m (
     Inr (write_list (the lp) (\<lambda>_. \<lparr>ls_head = None, ls_tail = None, ls_count = 0\<rparr>) m))"

definition rts_list_node_initialize ::
  "rts_config \<Rightarrow> 'n option \<Rightarrow> ('n, 'l, 'o) list_mem \<Rightarrow> rts_fatal + ('n, 'l, 'o) list_mem" where
  "rts_list_node_initialize cfg np m =
     require cfg (np \<noteq> None) m (
     Inr (write_node (the np)
       (\<lambda>_. \<lparr>nd_previous = None, nd_next = None, nd_owner = None, nd_object = None\<rparr>) m))"

definition rts_list_is_empty ::
  "rts_config \<Rightarrow> 'l option \<Rightarrow> ('n, 'l, 'o) list_mem \<Rightarrow> rts_fatal + bool" where
  "rts_list_is_empty cfg lp m =
     require cfg (lp \<noteq> None) False (
     require cfg (rts_list_endpoints_are_valid (the lp) m) False (
     Inr (ls_count (list_at m (the lp)) = 0)))"

definition rts_list_node_is_linked ::
  "rts_config \<Rightarrow> 'n option \<Rightarrow> ('n, 'l, 'o) list_mem \<Rightarrow> rts_fatal + bool" where
  "rts_list_node_is_linked cfg np m =
     require cfg (np \<noteq> None) False (
     let nd = node_at m (the np) in
     if nd_owner nd = None then
       require cfg (nd_previous nd = None) False (
       require cfg (nd_next nd = None) False (
       Inr False))
     else Inr True)"

definition rts_list_push_back ::
  "rts_config \<Rightarrow> 'l option \<Rightarrow> 'n option \<Rightarrow> ('n, 'l, 'o) list_mem \<Rightarrow>
   rts_fatal + ('n, 'l, 'o) list_mem" where
  "rts_list_push_back cfg lp np m =
     require cfg (lp \<noteq> None) m (
     require cfg (np \<noteq> None) m (
     let l = the lp; n = the np; nd = node_at m n; old_tail = ls_tail (list_at m l) in
     require cfg (rts_list_endpoints_are_valid l m) m (
     require cfg (nd_owner nd = None) m (
     require cfg (nd_previous nd = None) m (
     require cfg (nd_next nd = None) m (
     require cfg (ls_count (list_at m l) < SIZE_MAX) m (
     let m = write_node n (\<lambda>x. x\<lparr>nd_previous := old_tail, nd_next := None, nd_owner := Some l\<rparr>) m;
         m = (case old_tail of
                None \<Rightarrow> write_list l (\<lambda>x. x\<lparr>ls_head := Some n\<rparr>) m
              | Some t \<Rightarrow> write_node t (\<lambda>x. x\<lparr>nd_next := Some n\<rparr>) m);
         m = write_list l (\<lambda>x. x\<lparr>ls_tail := Some n, ls_count := ls_count x + 1\<rparr>) m in
     rts_assert cfg (rts_list_endpoints_are_valid l m) (Inr m))))))))"

definition rts_list_insert_before ::
  "rts_config \<Rightarrow> 'l option \<Rightarrow> 'n option \<Rightarrow> 'n option \<Rightarrow> ('n, 'l, 'o) list_mem \<Rightarrow>
   rts_fatal + ('n, 'l, 'o) list_mem" where
  "rts_list_insert_before cfg lp pp np m =
     require cfg (lp \<noteq> None) m (
     require cfg (pp \<noteq> None) m (
     require cfg (np \<noteq> None) m (
     let l = the lp; position = the pp; n = the np; nd = node_at m n;
         previous = nd_previous (node_at m position) in
     require cfg (rts_list_endpoints_are_valid l m) m (
     require cfg (nd_owner (node_at m position) = Some l) m (
     require cfg (nd_owner nd = None) m (
     require cfg (nd_previous nd = None) m (
     require cfg (nd_next nd = None) m (
     require cfg (ls_count (list_at m l) < SIZE_MAX) m (
     require cfg (case previous of
                    None \<Rightarrow> ls_head (list_at m l) = Some position
                  | Some p \<Rightarrow> nd_owner (node_at m p) = Some l) m (
     require cfg (case previous of
                    None \<Rightarrow> True
                  | Some p \<Rightarrow> nd_next (node_at m p) = Some position) m (
     let m = write_node n
               (\<lambda>x. x\<lparr>nd_previous := previous, nd_next := Some position, nd_owner := Some l\<rparr>) m;
         m = write_node position (\<lambda>x. x\<lparr>nd_previous := Some n\<rparr>) m;
         m = (case previous of
                None \<Rightarrow> write_list l (\<lambda>x. x\<lparr>ls_head := Some n\<rparr>) m
              | Some p \<Rightarrow> write_node p (\<lambda>x. x\<lparr>nd_next := Some n\<rparr>) m);
         m = write_list l (\<lambda>x. x\<lparr>ls_count := ls_count x + 1\<rparr>) m in
     rts_assert cfg (rts_list_endpoints_are_valid l m) (Inr m))))))))))))"

definition rts_list_remove ::
  "rts_config \<Rightarrow> 'l option \<Rightarrow> 'n option \<Rightarrow> ('n, 'l, 'o) list_mem \<Rightarrow>
   rts_fatal + ('n, 'l, 'o) list_mem" where
  "rts_list_remove cfg lp np m =
     require cfg (lp \<noteq> None) m (
     require cfg (np \<noteq> None) m (
     let l = the lp; n = the np;
         previous = nd_previous (node_at m n); nxt = nd_next (node_at m n) in
     require cfg (rts_list_endpoints_are_valid l m) m (
     require cfg (nd_owner (node_at m n) = Some l) m (
     require cfg (0 < ls_count (list_at m l)) m (
     require cfg (case previous of
                    None \<Rightarrow> ls_head (list_at m l) = Some n
                  | Some p \<Rightarrow> nd_owner (node_at m p) = Some l) m (
     require cfg (case previous of
                    None \<Rightarrow> True
                  | Some p \<Rightarrow> nd_next (node_at m p) = Some n) m (
     require cfg (case nxt of
                    None \<Rightarrow> ls_tail (list_at m l) = Some n
                  | Some q \<Rightarrow> nd_owner (node_at m q) = Some l) m (
     require cfg (case nxt of
                    None \<Rightarrow> True
                  | Some q \<Rightarrow> nd_previous (node_at m q) = Some n) m (
     let m = (case previous of
                None \<Rightarrow> write_list l (\<lambda>x. x\<lparr>ls_head := nxt\<rparr>) m
              | Some p \<Rightarrow> write_node p (\<lambda>x. x\<lparr>nd_next := nxt\<rparr>) m);
         m = (case nxt of
                None \<Rightarrow> write_list l (\<lambda>x. x\<lparr>ls_tail := previous\<rparr>) m
              | Some q \<Rightarrow> write_node q (\<lambda>x. x\<lparr>nd_previous := previous\<rparr>) m);
         m = write_node n (\<lambda>x. x\<lparr>nd_previous := None, nd_next := None, nd_owner := None\<rparr>) m;
         m = write_list l (\<lambda>x. x\<lparr>ls_count := ls_count x - 1\<rparr>) m in
     rts_assert cfg (rts_list_endpoints_are_valid l m) (Inr m))))))))))"

section \<open>Abstraction\<close>

definition list_of_nodes :: "'n list \<Rightarrow> 'n rts_list" where
  "list_of_nodes xs = \<lparr>ls_head = hd_or xs None, ls_tail = last_or None xs, ls_count = length xs\<rparr>"

definition mem_abs :: "('n, 'l, 'o) list_mem \<Rightarrow> ('l \<Rightarrow> 'n list) \<Rightarrow> bool" where
  "mem_abs m A \<longleftrightarrow>
     (\<forall>l. distinct (A l)) \<and>
     (\<forall>l. list_at m l = list_of_nodes (A l)) \<and>
     (\<forall>l. lseg (\<lambda>n. nd_previous (node_at m n)) (\<lambda>n. nd_next (node_at m n)) None (A l) None) \<and>
     (\<forall>l n. nd_owner (node_at m n) = Some l \<longleftrightarrow> n \<in> set (A l)) \<and>
     (\<forall>n. nd_owner (node_at m n) = None \<longrightarrow>
        nd_previous (node_at m n) = None \<and> nd_next (node_at m n) = None)"

lemma mem_absD:
  assumes "mem_abs m A"
  shows "distinct (A l)" and "list_at m l = list_of_nodes (A l)"
    and "lseg (\<lambda>n. nd_previous (node_at m n)) (\<lambda>n. nd_next (node_at m n)) None (A l) None"
    and "nd_owner (node_at m n) = Some l \<longleftrightarrow> n \<in> set (A l)"
    and "nd_owner (node_at m n) = None \<Longrightarrow> nd_previous (node_at m n) = None"
    and "nd_owner (node_at m n) = None \<Longrightarrow> nd_next (node_at m n) = None"
  using assms unfolding mem_abs_def by blast+

lemma mem_abs_unlinked:
  "mem_abs m A \<Longrightarrow> nd_owner (node_at m n) = None \<longleftrightarrow> (\<forall>l. n \<notin> set (A l))"
  by (metis mem_absD(4) not_None_eq)

lemma mem_abs_disjoint: "mem_abs m A \<Longrightarrow> n \<in> set (A l) \<Longrightarrow> n \<in> set (A l') \<Longrightarrow> l = l'"
  by (metis mem_absD(4) option.inject)

lemma list_of_nodes_simps [simp]:
  "ls_head (list_of_nodes xs) = hd_or xs None" "ls_tail (list_of_nodes xs) = last_or None xs"
  "ls_count (list_of_nodes xs) = length xs"
  by (simp_all add: list_of_nodes_def)

text \<open>The endpoint check of the code holds of every abstracted list.\<close>

lemma mem_abs_endpoints:
  assumes "mem_abs m A"
  shows "rts_list_endpoints_are_valid l m"
proof (cases "A l = []")
  case True
  with mem_absD(2) [OF assms, of l] show ?thesis
    by (simp add: rts_list_endpoints_are_valid_def)
next
  case False
  then obtain h t where h: "hd_or (A l) None = Some h" and t: "last_or None (A l) = Some t"
    by (metis hd_or_None last_or_None not_None_eq)
  obtain xs where xs: "A l = h # xs" using h False by (cases "A l") auto
  obtain ys where ys: "A l = ys @ [t]" using t False by (cases "A l" rule: rev_cases) auto
  have "nd_previous (node_at m h) = None"
    using mem_absD(3) [OF assms, of l] xs by simp
  moreover have "nd_next (node_at m t) = None"
    using mem_absD(3) [OF assms, of l] by (simp add: ys lseg_append)
  moreover have "nd_owner (node_at m h) = Some l" "nd_owner (node_at m t) = Some l"
    using mem_absD(4) [OF assms, of _ l] h t by (auto dest: hd_or_SomeD last_or_SomeD)
  ultimately show ?thesis
    using False h t mem_absD(2) [OF assms, of l] by (simp add: rts_list_endpoints_are_valid_def)
qed

text \<open>
  A memory whose pointer fields are those of \<open>m\<close> with \<open>n\<close> linked between \<open>xs\<close> and \<open>ys\<close>
  abstracts to the list with \<open>n\<close> inserted there; dually for unlinking.
\<close>

lemma mem_abs_link:
  assumes abs: "mem_abs m A" and split: "A l = xs @ ys" and fresh: "nd_owner (node_at m n) = None"
    and P: "\<And>k. nd_previous (node_at m' k) =
      ((upd_opt (\<lambda>k. nd_previous (node_at m k)) (hd_or ys None) (Some n))(n := last_or None xs)) k"
    and N: "\<And>k. nd_next (node_at m' k) =
      ((upd_opt (\<lambda>k. nd_next (node_at m k)) (last_or None xs) (Some n))(n := hd_or ys None)) k"
    and own: "\<And>k. nd_owner (node_at m' k) = (if k = n then Some l else nd_owner (node_at m k))"
    and ls: "\<And>k. list_at m' k = (if k = l then list_of_nodes (xs @ n # ys) else list_at m k)"
  shows "mem_abs m' (A(l := xs @ n # ys))"
proof -
  note D = mem_absD [OF abs]
  have n: "n \<notin> set (A k)" for k
    using fresh D(4) [of n k] by auto
  have ends: "hd_or ys None = Some k \<Longrightarrow> k \<in> set (A l)" "last_or None xs = Some k \<Longrightarrow> k \<in> set (A l)" for k
    using split by (auto dest: hd_or_SomeD last_or_SomeD)
  have "lseg (\<lambda>k. nd_previous (node_at m' k)) (\<lambda>k. nd_next (node_at m' k)) None (xs @ n # ys) None"
    unfolding P N using D(1,3) [of l] n [of l] unfolding split by (intro lseg_link) auto
  moreover have "lseg (\<lambda>k. nd_previous (node_at m' k)) (\<lambda>k. nd_next (node_at m' k)) None (A l') None"
    if "l' \<noteq> l" for l'
  proof -
    have "k \<notin> set (A l)" if "k \<in> set (A l')" for k
      using that \<open>l' \<noteq> l\<close> mem_abs_disjoint [OF abs] by blast
    then have "lseg (\<lambda>k. nd_previous (node_at m' k)) (\<lambda>k. nd_next (node_at m' k)) None (A l') None =
        lseg (\<lambda>k. nd_previous (node_at m k)) (\<lambda>k. nd_next (node_at m k)) None (A l') None"
      unfolding P N using n [of l'] ends
      by (intro lseg_cong) (auto simp: upd_opt_def split: option.splits)
    with D(3) show ?thesis by simp
  qed
  moreover have "nd_previous (node_at m' k) = None \<and> nd_next (node_at m' k) = None"
    if "nd_owner (node_at m' k) = None" for k
  proof -
    have "k \<noteq> n" and k: "nd_owner (node_at m k) = None"
      using that own [of k] by (auto split: if_splits)
    moreover have "k \<notin> set (A l)" using k D(4) [of k l] by simp
    ultimately show ?thesis
      unfolding P N using ends D(5,6) [OF k] by (auto simp: upd_opt_def split: option.splits)
  qed
  moreover have "nd_owner (node_at m' k) = Some l' \<longleftrightarrow> k \<in> set ((A(l := xs @ n # ys)) l')" for k l'
    using D(4) [of k l'] n [of l'] split unfolding own by auto
  ultimately show ?thesis
    unfolding mem_abs_def using D(1,2) n [of l] split D(1) [of l] by (auto simp: ls)
qed

lemma mem_abs_unlink:
  assumes abs: "mem_abs m A" and split: "A l = xs @ n # ys"
    and P: "\<And>k. nd_previous (node_at m' k) =
      ((upd_opt (\<lambda>k. nd_previous (node_at m k)) (hd_or ys None) (last_or None xs))(n := None)) k"
    and N: "\<And>k. nd_next (node_at m' k) =
      ((upd_opt (\<lambda>k. nd_next (node_at m k)) (last_or None xs) (hd_or ys None))(n := None)) k"
    and own: "\<And>k. nd_owner (node_at m' k) = (if k = n then None else nd_owner (node_at m k))"
    and ls: "\<And>k. list_at m' k = (if k = l then list_of_nodes (xs @ ys) else list_at m k)"
  shows "mem_abs m' (A(l := xs @ ys))"
proof -
  note D = mem_absD [OF abs]
  have ends: "hd_or ys None = Some k \<Longrightarrow> k \<in> set (A l)" "last_or None xs = Some k \<Longrightarrow> k \<in> set (A l)" for k
    using split by (auto dest: hd_or_SomeD last_or_SomeD)
  have n: "n \<in> set (A l)" using split by simp
  have "lseg (\<lambda>k. nd_previous (node_at m' k)) (\<lambda>k. nd_next (node_at m' k)) None (xs @ ys) None"
    unfolding P N using D(1,3) [of l] unfolding split by (intro lseg_unlink) auto
  moreover have "lseg (\<lambda>k. nd_previous (node_at m' k)) (\<lambda>k. nd_next (node_at m' k)) None (A l') None"
    if "l' \<noteq> l" for l'
  proof -
    have "k \<notin> set (A l)" if "k \<in> set (A l')" for k
      using that \<open>l' \<noteq> l\<close> mem_abs_disjoint [OF abs] by blast
    then have "lseg (\<lambda>k. nd_previous (node_at m' k)) (\<lambda>k. nd_next (node_at m' k)) None (A l') None =
        lseg (\<lambda>k. nd_previous (node_at m k)) (\<lambda>k. nd_next (node_at m k)) None (A l') None"
      unfolding P N using n ends
      by (intro lseg_cong) (auto simp: upd_opt_def split: option.splits)
    with D(3) show ?thesis by simp
  qed
  moreover have "nd_previous (node_at m' k) = None \<and> nd_next (node_at m' k) = None"
    if "nd_owner (node_at m' k) = None" for k
  proof (cases "k = n")
    case False
    then have k: "nd_owner (node_at m k) = None" using that own [of k] by simp
    then have "k \<notin> set (A l)" using D(4) [of k l] by simp
    then show ?thesis
      unfolding P N using ends D(5,6) [OF k] False by (auto simp: upd_opt_def split: option.splits)
  qed (simp add: P N)
  moreover have "nd_owner (node_at m' k) = Some l' \<longleftrightarrow> k \<in> set ((A(l := xs @ ys)) l')" for k l'
    using D(4) [of k l'] D(1) [of l] mem_abs_disjoint [OF abs n] split unfolding own by auto
  ultimately show ?thesis
    unfolding mem_abs_def using D(1,2) split D(1) [of l] by (auto simp: ls)
qed

section \<open>Refinement\<close>

text \<open>
  \<open>same_objects\<close>: the opaque association of a node belongs to the embedding module; no list
  operation but the node initialiser writes it.
\<close>

definition same_objects :: "('n, 'l, 'o) list_mem \<Rightarrow> ('n, 'l, 'o) list_mem \<Rightarrow> bool" where
  "same_objects m m' \<longleftrightarrow> (\<forall>n. nd_object (node_at m' n) = nd_object (node_at m n))"

lemmas write_simps = write_node_def write_list_def

theorem push_back_refines:
  assumes abs: "mem_abs m A" and fresh: "nd_owner (node_at m n) = None"
    and room: "length (A l) < SIZE_MAX"
  shows "\<exists>m'. rts_list_push_back cfg (Some l) (Some n) m = Inr m' \<and>
     mem_abs m' (A(l := A l @ [n])) \<and> same_objects m m'"
proof -
  note D = mem_absD [OF abs]
  let ?m1 = "write_node n (\<lambda>x. x\<lparr>nd_previous := last_or None (A l), nd_next := None, nd_owner := Some l\<rparr>) m"
  let ?m2 = "case last_or None (A l) of None \<Rightarrow> write_list l (\<lambda>x. x\<lparr>ls_head := Some n\<rparr>) ?m1
              | Some t \<Rightarrow> write_node t (\<lambda>x. x\<lparr>nd_next := Some n\<rparr>) ?m1"
  let ?m' = "write_list l (\<lambda>x. x\<lparr>ls_tail := Some n, ls_count := ls_count x + 1\<rparr>) ?m2"
  have n: "n \<notin> set (A l)" using fresh D(4) [of n l] by simp
  then have t: "last_or None (A l) = Some t \<Longrightarrow> t \<noteq> n" for t
    by (auto dest: last_or_SomeD)
  have "mem_abs ?m' (A(l := A l @ [n]))"
    using t D(2) [of l] by (intro mem_abs_link [OF abs _ fresh, of l "A l" "[]"])
      (auto simp: write_simps upd_opt_def list_of_nodes_def hd_or_append hd_or_last split: option.splits)
  moreover have "same_objects m ?m'"
    by (auto simp: same_objects_def write_simps split: option.splits)
  moreover have "rts_list_push_back cfg (Some l) (Some n) m =
      rts_assert cfg (rts_list_endpoints_are_valid l ?m') (Inr ?m')"
    unfolding rts_list_push_back_def Let_def option.sel
    by (cases "last_or None (A l)")
      (simp_all add: mem_abs_endpoints [OF abs] fresh D(2,5,6) room del: last_or_None)
  ultimately show ?thesis
    using mem_abs_endpoints [of ?m' "A(l := A l @ [n])" l] by auto
qed

theorem insert_before_refines:
  assumes abs: "mem_abs m A" and fresh: "nd_owner (node_at m n) = None"
    and split: "A l = xs @ position # ys" and room: "length (A l) < SIZE_MAX"
  shows "\<exists>m'. rts_list_insert_before cfg (Some l) (Some position) (Some n) m = Inr m' \<and>
     mem_abs m' (A(l := xs @ n # position # ys)) \<and> same_objects m m'"
proof -
  note D = mem_absD [OF abs]
  let ?p = "last_or None xs"
  let ?m1 = "write_node n (\<lambda>x. x\<lparr>nd_previous := ?p, nd_next := Some position, nd_owner := Some l\<rparr>) m"
  let ?m2 = "write_node position (\<lambda>x. x\<lparr>nd_previous := Some n\<rparr>) ?m1"
  let ?m3 = "case ?p of None \<Rightarrow> write_list l (\<lambda>x. x\<lparr>ls_head := Some n\<rparr>) ?m2
              | Some p \<Rightarrow> write_node p (\<lambda>x. x\<lparr>nd_next := Some n\<rparr>) ?m2"
  let ?m' = "write_list l (\<lambda>x. x\<lparr>ls_count := ls_count x + 1\<rparr>) ?m3"
  have n: "n \<notin> set (A l)" using fresh D(4) [of n l] by simp
  have seg: "lseg (\<lambda>n. nd_previous (node_at m n)) (\<lambda>n. nd_next (node_at m n)) None
      (xs @ position # ys) None"
    using D(3) [of l] split by simp
  have p: "?p = Some q \<Longrightarrow> q \<noteq> n \<and> q \<noteq> position \<and> nd_next (node_at m q) = Some position \<and>
      nd_owner (node_at m q) = Some l" for q
  proof -
    assume q: "?p = Some q"
    then obtain zs where zs: "xs = zs @ [q]" by (cases xs rule: rev_cases) auto
    then show ?thesis
      using n D(1) [of l] D(4) [of q l] seg split by (auto simp: lseg_append)
  qed
  have "position \<noteq> n" using n split by auto
  have "mem_abs ?m' (A(l := xs @ n # position # ys))"
    using p D(2) [of l] \<open>position \<noteq> n\<close> split
    by (intro mem_abs_link [OF abs _ fresh, of l xs "position # ys"])
      (auto simp: write_simps upd_opt_def list_of_nodes_def hd_or_append last_or_append
        last_or_def hd_or_nonempty split: option.splits)
  moreover have "same_objects m ?m'"
    by (auto simp: same_objects_def write_simps split: option.splits)
  moreover have "rts_list_insert_before cfg (Some l) (Some position) (Some n) m =
      rts_assert cfg (rts_list_endpoints_are_valid l ?m') (Inr ?m')"
  proof -
    have "nd_owner (node_at m position) = Some l"
      using D(4) [of position l] split by simp
    moreover have "?p = None \<Longrightarrow> ls_head (list_at m l) = Some position"
      using D(2) [of l] split by simp
    ultimately show ?thesis
      unfolding rts_list_insert_before_def Let_def option.sel
      using p by (cases ?p) (simp_all add: mem_abs_endpoints [OF abs] fresh D(2,5,6) room
        lseg_neighbours [OF seg] del: last_or_None)
  qed
  ultimately show ?thesis
    using mem_abs_endpoints [of ?m' "A(l := xs @ n # position # ys)" l] by auto
qed

theorem remove_refines:
  assumes abs: "mem_abs m A" and split: "A l = xs @ n # ys"
  shows "\<exists>m'. rts_list_remove cfg (Some l) (Some n) m = Inr m' \<and>
     mem_abs m' (A(l := xs @ ys)) \<and> same_objects m m' \<and> nd_owner (node_at m' n) = None"
proof -
  note D = mem_absD [OF abs]
  let ?p = "last_or None xs" and ?q = "hd_or ys None"
  let ?m1 = "case ?p of None \<Rightarrow> write_list l (\<lambda>x. x\<lparr>ls_head := ?q\<rparr>) m
              | Some p \<Rightarrow> write_node p (\<lambda>x. x\<lparr>nd_next := ?q\<rparr>) m"
  let ?m2 = "case ?q of None \<Rightarrow> write_list l (\<lambda>x. x\<lparr>ls_tail := ?p\<rparr>) ?m1
              | Some q \<Rightarrow> write_node q (\<lambda>x. x\<lparr>nd_previous := ?p\<rparr>) ?m1"
  let ?m3 = "write_node n (\<lambda>x. x\<lparr>nd_previous := None, nd_next := None, nd_owner := None\<rparr>) ?m2"
  let ?m' = "write_list l (\<lambda>x. x\<lparr>ls_count := ls_count x - 1\<rparr>) ?m3"
  have seg: "lseg (\<lambda>n. nd_previous (node_at m n)) (\<lambda>n. nd_next (node_at m n)) None (xs @ n # ys) None"
    using D(3) [of l] split by simp
  have p: "?p = Some k \<Longrightarrow> k \<noteq> n \<and> nd_next (node_at m k) = Some n \<and>
      nd_owner (node_at m k) = Some l" for k
  proof -
    assume k: "?p = Some k"
    then obtain zs where zs: "xs = zs @ [k]" by (cases xs rule: rev_cases) auto
    then show ?thesis using D(1) [of l] D(4) [of k l] seg split by (auto simp: lseg_append)
  qed
  have q: "?q = Some k \<Longrightarrow> k \<noteq> n \<and> nd_previous (node_at m k) = Some n \<and>
      nd_owner (node_at m k) = Some l" for k
    using D(1) [of l] D(4) [of k l] seg split by (cases ys) (auto simp: lseg_append)
  have pq: "?p = Some k \<Longrightarrow> ?q = Some j \<Longrightarrow> k \<noteq> j" for k j
    using D(1) [of l] split by (auto dest!: hd_or_SomeD last_or_SomeD)
  have "mem_abs ?m' (A(l := xs @ ys))"
    using p q pq D(2) [of l] split
    by (intro mem_abs_unlink [OF abs split])
      (auto simp: write_simps upd_opt_def list_of_nodes_def hd_or_append last_or_append
        hd_or_last last_or_hd split: option.splits)
  moreover have "same_objects m ?m'"
    by (auto simp: same_objects_def write_simps split: option.splits)
  moreover have "nd_owner (node_at ?m' n) = None"
    by (simp add: write_simps)
  moreover have "rts_list_remove cfg (Some l) (Some n) m =
      rts_assert cfg (rts_list_endpoints_are_valid l ?m') (Inr ?m')"
  proof -
    have "nd_owner (node_at m n) = Some l" and "0 < ls_count (list_at m l)"
      using D(2) [of l] D(4) [of n l] split by simp_all
    moreover have "?p = None \<Longrightarrow> ls_head (list_at m l) = Some n"
      and "?q = None \<Longrightarrow> ls_tail (list_at m l) = Some n"
      using D(2) [of l] split by (simp_all add: last_or_append)
    ultimately show ?thesis
      unfolding rts_list_remove_def Let_def option.sel
      using p q by (cases ?p; cases ?q) (simp_all add: mem_abs_endpoints [OF abs] D(2)
        lseg_neighbours [OF seg] del: last_or_None hd_or_None)
  qed
  ultimately show ?thesis
    using mem_abs_endpoints [of ?m' "A(l := xs @ ys)" l] by auto
qed

section \<open>Reading a list back\<close>

text \<open>
  The content of a list, by following \<open>next\<close> from the head \<open>count\<close> times. It is the only
  abstraction a memory can have, so the abstraction relation becomes a function.
\<close>

fun walk :: "nat \<Rightarrow> ('n, 'l, 'o) list_mem \<Rightarrow> 'n option \<Rightarrow> 'n list" where
  "walk 0 m p = []"
| "walk (Suc k) m p = (case p of None \<Rightarrow> [] | Some n \<Rightarrow> n # walk k m (nd_next (node_at m n)))"

definition nodes_of :: "('n, 'l, 'o) list_mem \<Rightarrow> 'l \<Rightarrow> 'n list" where
  "nodes_of m l = walk (ls_count (list_at m l)) m (ls_head (list_at m l))"

definition mem_ok :: "('n, 'l, 'o) list_mem \<Rightarrow> bool" where
  "mem_ok m \<longleftrightarrow> mem_abs m (nodes_of m)"

lemma walk_lseg:
  "lseg P (\<lambda>n. nd_next (node_at m n)) p xs None \<Longrightarrow> walk (length xs) m (hd_or xs None) = xs"
  by (induction xs arbitrary: p) auto

lemma mem_abs_nodes_of:
  assumes "mem_abs m A"
  shows "nodes_of m = A"
proof
  fix l
  show "nodes_of m l = A l"
    using walk_lseg [OF mem_absD(3) [OF assms, of l]] mem_absD(2) [OF assms, of l]
    by (simp add: nodes_of_def)
qed

lemma mem_abs_iff: "mem_abs m A \<longleftrightarrow> mem_ok m \<and> nodes_of m = A"
  using mem_abs_nodes_of [of m A] by (auto simp: mem_ok_def)

lemma mem_okD:
  assumes "mem_ok m"
  shows "distinct (nodes_of m l)" and "list_at m l = list_of_nodes (nodes_of m l)"
    and "nd_owner (node_at m n) = Some l \<longleftrightarrow> n \<in> set (nodes_of m l)"
    and "nd_owner (node_at m n) = None \<longleftrightarrow> (\<forall>l. n \<notin> set (nodes_of m l))"
    and "nd_owner (node_at m n) = None \<Longrightarrow> nd_previous (node_at m n) = None"
    and "nd_owner (node_at m n) = None \<Longrightarrow> nd_next (node_at m n) = None"
    and "rts_list_endpoints_are_valid l m"
  using assms mem_absD [of m "nodes_of m"] mem_abs_unlinked [of m "nodes_of m"]
    mem_abs_endpoints [of m "nodes_of m"] unfolding mem_ok_def by blast+

lemma mem_ok_disjoint:
  "mem_ok m \<Longrightarrow> n \<in> set (nodes_of m l) \<Longrightarrow> n \<in> set (nodes_of m l') \<Longrightarrow> l = l'"
  unfolding mem_ok_def by (rule mem_abs_disjoint)

lemma mem_ok_split:
  assumes "mem_ok m" and "nodes_of m l = xs @ n # ys"
  shows "nd_previous (node_at m n) = last_or None xs" and "nd_next (node_at m n) = hd_or ys None"
proof -
  have "lseg (\<lambda>n. nd_previous (node_at m n)) (\<lambda>n. nd_next (node_at m n)) None (xs @ n # ys) None"
    using mem_absD(3) [of m "nodes_of m" l] assms unfolding mem_ok_def by simp
  from lseg_neighbours [OF this] show "nd_previous (node_at m n) = last_or None xs"
    "nd_next (node_at m n) = hd_or ys None" .
qed

text \<open>The operations, as the clients use them.\<close>

lemma push_back_ok:
  assumes "mem_ok m" and "nd_owner (node_at m n) = None" and "length (nodes_of m l) < SIZE_MAX"
  obtains m' where "rts_list_push_back cfg (Some l) (Some n) m = Inr m'" and "mem_ok m'"
    and "nodes_of m' = (nodes_of m)(l := nodes_of m l @ [n])" and "same_objects m m'"
  using push_back_refines [of m "nodes_of m" n l cfg] assms unfolding mem_abs_iff by auto

lemma insert_before_ok:
  assumes "mem_ok m" and "nd_owner (node_at m n) = None" and "nodes_of m l = xs @ position # ys"
    and "length (nodes_of m l) < SIZE_MAX"
  obtains m' where "rts_list_insert_before cfg (Some l) (Some position) (Some n) m = Inr m'"
    and "mem_ok m'" and "nodes_of m' = (nodes_of m)(l := xs @ n # position # ys)"
    and "same_objects m m'"
  using insert_before_refines [of m "nodes_of m" n l xs position ys cfg] assms
  unfolding mem_abs_iff by auto

lemma remove_ok:
  assumes "mem_ok m" and "n \<in> set (nodes_of m l)"
  obtains m' where "rts_list_remove cfg (Some l) (Some n) m = Inr m'" and "mem_ok m'"
    and "nodes_of m' = (nodes_of m)(l := remove1 n (nodes_of m l))" and "same_objects m m'"
    and "nd_owner (node_at m' n) = None"
proof -
  obtain xs ys where s: "nodes_of m l = xs @ n # ys" using assms(2) by (meson split_list)
  have "remove1 n (nodes_of m l) = xs @ ys"
    using mem_okD(1) [OF assms(1), of l] by (simp add: s remove1_append)
  with that remove_refines [of m "nodes_of m" l xs n ys cfg] assms(1) s show ?thesis
    unfolding mem_abs_iff by auto
qed

text \<open>Linking in front of a position, or at the end where the position is null.\<close>

definition link_at :: "rts_config \<Rightarrow> 'l \<Rightarrow> 'n \<Rightarrow> 'n option \<Rightarrow> ('n, 'l, 'o) list_mem \<Rightarrow>
    rts_fatal + ('n, 'l, 'o) list_mem" where
  "link_at cfg l n position m =
     (case position of
        None \<Rightarrow> rts_list_push_back cfg (Some l) (Some n) m
      | Some p \<Rightarrow> rts_list_insert_before cfg (Some l) (Some p) (Some n) m)"

lemma link_at_ok:
  assumes "mem_ok m" and "nd_owner (node_at m n) = None" and "nodes_of m l = xs @ ys"
    and "length (nodes_of m l) < SIZE_MAX"
  obtains m' where "link_at cfg l n (hd_or ys None) m = Inr m'"
    and "mem_ok m'" and "nodes_of m' = (nodes_of m)(l := xs @ n # ys)" and "same_objects m m'"
proof (cases ys)
  case Nil
  with push_back_ok [OF assms(1,2,4), of cfg] assms(3) that show ?thesis
    by (auto simp: link_at_def)
next
  case (Cons y zs)
  with insert_before_ok [OF assms(1,2) _ assms(4), of xs y zs cfg] assms(3) that show ?thesis
    by (auto simp: link_at_def)
qed

text \<open>Static storage is zero: every list empty, every node unlinked.\<close>

definition zero_mem :: "('n, 'l, 'o) list_mem" where
  "zero_mem = \<lparr>node_at = \<lambda>_. \<lparr>nd_previous = None, nd_next = None, nd_owner = None, nd_object = None\<rparr>,
     list_at = \<lambda>_. \<lparr>ls_head = None, ls_tail = None, ls_count = 0\<rparr>\<rparr>"

lemma zero_mem_abs: "mem_abs zero_mem (\<lambda>_. [])"
  by (simp add: mem_abs_def zero_mem_def list_of_nodes_def)

lemma zero_mem_ok: "mem_ok zero_mem"
  by (rule conjunct1 [OF zero_mem_abs [unfolded mem_abs_iff]])

lemma zero_mem_nodes: "nodes_of zero_mem = (\<lambda>_. [])"
  by (rule conjunct2 [OF zero_mem_abs [unfolded mem_abs_iff]])

text \<open>Writing only the opaque field keeps the abstraction.\<close>

lemma mem_abs_same_links:
  assumes "mem_abs m A" and "list_at m' = list_at m"
    and "\<And>n. nd_previous (node_at m' n) = nd_previous (node_at m n)"
    and "\<And>n. nd_next (node_at m' n) = nd_next (node_at m n)"
    and "\<And>n. nd_owner (node_at m' n) = nd_owner (node_at m n)"
  shows "mem_abs m' A"
  using assms(1) unfolding mem_abs_def by (simp add: assms(2-5))

definition set_object :: "'n \<Rightarrow> 'o option \<Rightarrow> ('n, 'l, 'o) list_mem \<Rightarrow> ('n, 'l, 'o) list_mem" where
  "set_object n ob m = write_node n (\<lambda>x. x\<lparr>nd_object := ob\<rparr>) m"

lemma mem_abs_set_object: "mem_abs m A \<Longrightarrow> mem_abs (set_object n ob m) A"
  by (erule mem_abs_same_links) (simp_all add: set_object_def write_node_def)

lemma set_object_simps [simp]:
  "mem_ok m \<Longrightarrow> mem_ok (set_object n ob m)"
  "mem_ok m \<Longrightarrow> nodes_of (set_object n ob m) = nodes_of m"
  "nd_owner (node_at (set_object n ob m) k) = nd_owner (node_at m k)"
  "nd_object (node_at (set_object n ob m) k) = (if k = n then ob else nd_object (node_at m k))"
  using mem_abs_set_object [of m "nodes_of m" n ob]
  unfolding mem_abs_iff by (auto simp: set_object_def write_node_def)

end
