(* ===== verification/Ring_Buffer.thy ===== *)
theory Ring_Buffer
  imports RTS_Prelude
begin

text \<open>
  Ring buffers over a fixed array, shared by the timer callback queue and the trace buffer: the
  logical content of \<open>n\<close> entries starting at \<open>head\<close>, and how writing one slot, dropping the
  oldest entry and overwriting change it.
\<close>

definition ring_items :: "nat \<Rightarrow> nat \<Rightarrow> nat \<Rightarrow> 'a list \<Rightarrow> 'a list" where
  "ring_items cap head n buf = map (\<lambda>i. buf ! ((head + i) mod cap)) [0..<n]"

lemma length_ring_items [simp]: "length (ring_items cap head n buf) = n"
  by (simp add: ring_items_def)

lemma ring_items_0 [simp]: "ring_items cap head 0 buf = []"
  by (simp add: ring_items_def)

lemma nth_ring_items: "i < n \<Longrightarrow> ring_items cap head n buf ! i = buf ! ((head + i) mod cap)"
  by (simp add: ring_items_def)

lemma ring_items_cong:
  "(\<And>i. i < n \<Longrightarrow> buf ! ((head + i) mod cap) = buf' ! ((head + i) mod cap)) \<Longrightarrow>
   ring_items cap head n buf = ring_items cap head n buf'"
  by (simp add: ring_items_def)

text \<open>Two logical positions less than one turn apart are different slots.\<close>

lemma ring_slot_inj:
  fixes i j head cap :: nat
  assumes "i < cap" and "j < cap" and "(head + i) mod cap = (head + j) mod cap"
  shows "i = j"
proof (cases "i \<le> j")
  case True
  then have "cap dvd j - i"
    using assms(3) mod_eq_dvd_iff_nat [of "head + i" "head + j" cap] by simp
  with assms(2) True show ?thesis by (auto dest: dvd_imp_le)
next
  case False
  then have "cap dvd i - j"
    using assms(3) mod_eq_dvd_iff_nat [of "head + j" "head + i" cap] by simp
  with assms(1) False show ?thesis by (auto dest: dvd_imp_le)
qed

lemma ring_items_write:
  assumes "length buf = cap" and "n \<le> cap" and "k < n"
  shows "ring_items cap head n (buf[(head + k) mod cap := x]) = (ring_items cap head n buf)[k := x]"
proof (rule nth_equalityI)
  fix i assume i: "i < length (ring_items cap head n (buf[(head + k) mod cap := x]))"
  have "(head + i) mod cap = (head + k) mod cap \<longleftrightarrow> i = k"
    using ring_slot_inj [of i cap k head] i assms by auto
  moreover have "(head + i) mod cap < cap" using assms by simp
  ultimately show "ring_items cap head n (buf[(head + k) mod cap := x]) ! i =
      (ring_items cap head n buf)[k := x] ! i"
    using i assms by (cases "i = k") (auto simp: nth_ring_items nth_list_update)
qed simp

lemma ring_items_Suc:
  "ring_items cap head (Suc n) buf = ring_items cap head n buf @ [buf ! ((head + n) mod cap)]"
  by (simp add: ring_items_def)

lemma ring_items_outside:
  assumes "length buf = cap" and "n \<le> k" and "k < cap"
  shows "ring_items cap head n (buf[(head + k) mod cap := x]) = ring_items cap head n buf"
proof (rule ring_items_cong)
  fix i assume "i < n"
  then have "(head + i) mod cap \<noteq> (head + k) mod cap"
    using ring_slot_inj [of i cap k head] assms by auto
  then show "buf[(head + k) mod cap := x] ! ((head + i) mod cap) = buf ! ((head + i) mod cap)"
    by simp
qed

lemma ring_items_push:
  assumes "length buf = cap" and "n < cap"
  shows "ring_items cap head (Suc n) (buf[(head + n) mod cap := x]) = ring_items cap head n buf @ [x]"
  using assms by (simp add: ring_items_Suc ring_items_outside)

lemma ring_items_Cons:
  "ring_items cap head (Suc n) buf = buf ! (head mod cap) # ring_items cap (Suc head mod cap) n buf"
proof -
  have "(Suc head mod cap + i) mod cap = (head + Suc i) mod cap" for i
    by (simp add: mod_add_left_eq)
  then show ?thesis
    by (simp add: ring_items_def upt_conv_Cons map_Suc_upt [symmetric] del: upt_Suc)
qed

lemma ring_items_head_mod: "ring_items cap (head mod cap) n buf = ring_items cap head n buf"
  by (simp add: ring_items_def mod_add_left_eq)

text \<open>Dropping the oldest entry, with its slot overwritten by anything.\<close>

lemma ring_items_pop:
  assumes "length buf = cap" and "Suc n \<le> cap"
  shows "ring_items cap (Suc head mod cap) n (buf[head mod cap := z]) = tl (ring_items cap head (Suc n) buf)"
proof -
  have "buf[head mod cap := z] ! ((Suc head mod cap + i) mod cap) = buf ! ((Suc head mod cap + i) mod cap)"
    if "i < n" for i
  proof -
    have "(Suc head mod cap + i) mod cap = (head + Suc i) mod cap"
      by (simp add: mod_add_left_eq)
    moreover have "(head + Suc i) mod cap \<noteq> (head + 0) mod cap"
      using ring_slot_inj [of "Suc i" cap 0 head] that assms by auto
    ultimately show ?thesis by simp
  qed
  then have "ring_items cap (Suc head mod cap) n (buf[head mod cap := z]) =
      ring_items cap (Suc head mod cap) n buf"
    by (rule ring_items_cong)
  then show ?thesis by (simp add: ring_items_Cons)
qed

text \<open>Overwriting the oldest entry of a full ring and advancing the head.\<close>

lemma ring_items_overwrite:
  assumes "length buf = cap" and "0 < cap" and "head < cap"
  shows "ring_items cap (Suc head mod cap) cap (buf[head := x]) = tl (ring_items cap head cap buf) @ [x]"
proof -
  obtain n where n: "cap = Suc n" using assms(2) by (cases cap) auto
  have "(Suc head mod cap + n) mod cap = (head + cap) mod cap"
    using n by (simp add: mod_add_left_eq)
  then have slot: "(Suc head mod cap + n) mod cap = head"
    using assms(3) by simp
  have "ring_items cap (Suc head mod cap) (Suc n) (buf[(Suc head mod cap + n) mod cap := x]) =
      ring_items cap (Suc head mod cap) n buf @ [x]"
    using assms n by (intro ring_items_push) auto
  moreover have "ring_items cap (Suc head mod cap) n buf = tl (ring_items cap head (Suc n) buf)"
    by (simp add: ring_items_Cons)
  ultimately show ?thesis
    by (simp add: slot) (simp add: n)
qed

end
