(* ===== verification/Diagnostics.thy ===== *)
theory Diagnostics
  imports Ring_Buffer
begin

text \<open>
  Diagnostic counters (\<^verbatim>\<open>kernel/runtime_stats.c\<close>, \<^verbatim>\<open>kernel/diagnostics_internal.h\<close>) and the trace
  ring (\<^verbatim>\<open>kernel/trace.c\<close>). Counters saturate; the ring keeps the most recent events.
\<close>

section \<open>Saturating counters\<close>

definition rts_diagnostic_counter_increment :: "uint32 \<Rightarrow> uint32" where
  "rts_diagnostic_counter_increment v = (if v = 0xffffffff then 0xffffffff else v + 1)"

definition rts_diagnostic_counter_add :: "uint32 \<Rightarrow> uint32 \<Rightarrow> uint32" where
  "rts_diagnostic_counter_add v increment =
     (if increment > 0xffffffff - v then 0xffffffff else v + increment)"

lemma unat_u32_max: "unat (0xffffffff :: 32 word) = 2 ^ 32 - 1"
  by simp

lemma unat_counter_add:
  "unat (rts_diagnostic_counter_add v i) = min (2 ^ 32 - 1) (unat v + unat i)"
proof -
  have le: "v \<le> 0xffffffff"
    using unat_u32 [of v] by (simp add: word_le_nat_alt)
  have sub: "unat (0xffffffff - v) = 2 ^ 32 - 1 - unat v"
    using le by (simp add: unat_sub)
  show ?thesis
  proof (cases "i > 0xffffffff - v")
    case True
    then have "2 ^ 32 - 1 - unat v < unat i"
      by (simp add: word_less_nat_alt sub)
    with True show ?thesis
      by (simp add: rts_diagnostic_counter_add_def unat_u32_max)
  next
    case False
    then have "unat i \<le> 2 ^ 32 - 1 - unat v"
      by (simp add: word_less_nat_alt sub)
    then have "unat v + unat i < 2 ^ 32"
      using unat_u32 [of v] by linarith
    then show ?thesis
      using False by (simp add: rts_diagnostic_counter_add_def unat_word_ariths)
  qed
qed

lemma counter_increment_add: "rts_diagnostic_counter_increment v = rts_diagnostic_counter_add v 1"
proof (cases "v = 0xffffffff")
  case False
  then have "unat v \<noteq> 2 ^ 32 - 1"
    using unat_u32_max by (metis word_unat_eq_iff)
  then have "unat v < 2 ^ 32 - 1"
    using unat_u32 [of v] by simp
  then have "\<not> 1 > 0xffffffff - v"
    using unat_u32 [of v]
    by (simp add: word_less_nat_alt unat_sub word_le_nat_alt)
  with False show ?thesis
    by (simp add: rts_diagnostic_counter_increment_def rts_diagnostic_counter_add_def)
qed (simp add: rts_diagnostic_counter_increment_def rts_diagnostic_counter_add_def)

lemma unat_counter_increment:
  "unat (rts_diagnostic_counter_increment v) = min (2 ^ 32 - 1) (unat v + 1)"
  by (simp add: counter_increment_add unat_counter_add)

text \<open>The fields of \<^verbatim>\<open>rts_runtime_counters_t\<close>, by name.\<close>

datatype counter_id =
    scheduler_ticks | context_switches | switch_requests | scheduler_starts | task_creations
  | yields | delay_blocks | delay_wakeups | semaphore_blocks | semaphore_acquisitions
  | semaphore_timeouts | mutex_blocks | mutex_handoffs | mutex_timeouts | priority_raises
  | priority_restorations | timer_initializations | timer_starts | timer_stops | timer_restarts
  | timer_expirations | timer_callbacks_executed | timer_stale_callbacks | timer_missed_periods
  | timer_overruns | timer_callback_queue_maximum_depth | timer_callback_queue_overflows
  | tickless_sleep_attempts | tickless_sleep_entries | tickless_sleep_aborts
  | tickless_timer_wakes | tickless_external_wakes | tickless_suppressed_ticks
  | tickless_longest_sleep

type_synonym rts_runtime_counters = "counter_id \<Rightarrow> uint32"

section \<open>Trace ring\<close>

datatype rts_trace_event =
    RTS_TRACE_TASK_CREATED | RTS_TRACE_SCHEDULER_STARTED | RTS_TRACE_TASK_SWITCHED
  | RTS_TRACE_TASK_BLOCKED | RTS_TRACE_TASK_WOKE | RTS_TRACE_YIELD | RTS_TRACE_SEMAPHORE
  | RTS_TRACE_MUTEX | RTS_TRACE_PRIORITY | RTS_TRACE_TICK | RTS_TRACE_FATAL
  | RTS_TRACE_TIMER_INITIALIZED | RTS_TRACE_TIMER_STARTED | RTS_TRACE_TIMER_STOPPED
  | RTS_TRACE_TIMER_RESTARTED | RTS_TRACE_TIMER_EXPIRED | RTS_TRACE_TIMER_CALLBACK_BEGIN
  | RTS_TRACE_TIMER_CALLBACK_END | RTS_TRACE_TIMER_STALE_CALLBACK | RTS_TRACE_TIMER_OVERRUN
  | RTS_TRACE_SLEEP_ENTER | RTS_TRACE_SLEEP_EXIT | RTS_TRACE_SLEEP_ABORT

text \<open>The event of a slot that was never written is 0, which is no event: \<open>None\<close>.\<close>

record rts_trace_entry =
  te_sequence :: uint32
  te_tick :: uint32
  te_argument0 :: uintptr
  te_argument1 :: uintptr
  te_event :: "rts_trace_event option"

record rts_trace =
  trace_buffer :: "rts_trace_entry list"
  trace_head :: nat
  trace_used :: nat
  trace_sequence :: uint32
  trace_overwrites :: uint32

definition rts_trace_emit ::
  "rts_config \<Rightarrow> rts_tick \<Rightarrow> rts_trace_event \<Rightarrow> uintptr \<Rightarrow> uintptr \<Rightarrow> rts_trace \<Rightarrow> rts_trace" where
  "rts_trace_emit cfg current_tick event arg0 arg1 tr =
     (if \<not> RTS_ENABLE_TRACE cfg then tr
      else
        let (index, tr) =
              (if trace_used tr < RTS_TRACE_CAPACITY cfg
               then ((trace_head tr + trace_used tr) mod RTS_TRACE_CAPACITY cfg,
                     tr\<lparr>trace_used := trace_used tr + 1\<rparr>)
               else (trace_head tr,
                     tr\<lparr>trace_head := (trace_head tr + 1) mod RTS_TRACE_CAPACITY cfg,
                        trace_overwrites := rts_diagnostic_counter_increment (trace_overwrites tr)\<rparr>));
            tr = tr\<lparr>trace_sequence := rts_diagnostic_counter_increment (trace_sequence tr)\<rparr>
        in tr\<lparr>trace_buffer := (trace_buffer tr)[index :=
             \<lparr>te_sequence = trace_sequence tr, te_tick = current_tick, te_argument0 = arg0,
              te_argument1 = arg1, te_event = Some event\<rparr>]\<rparr>)"

definition rts_trace_count :: "rts_config \<Rightarrow> rts_trace \<Rightarrow> nat" where
  "rts_trace_count cfg tr = (if RTS_ENABLE_TRACE cfg then trace_used tr else 0)"

definition rts_trace_overwrite_count :: "rts_config \<Rightarrow> rts_trace \<Rightarrow> uint32" where
  "rts_trace_overwrite_count cfg tr = (if RTS_ENABLE_TRACE cfg then trace_overwrites tr else 0)"

text \<open>The output parameter of the read is the result: \<open>None\<close> where the call returns false.\<close>

definition rts_trace_read :: "rts_config \<Rightarrow> nat \<Rightarrow> rts_trace \<Rightarrow> rts_trace_entry option" where
  "rts_trace_read cfg oldest_index tr =
     (if \<not> RTS_ENABLE_TRACE cfg then None
      else if oldest_index \<ge> trace_used tr then None
      else Some (trace_buffer tr ! ((trace_head tr + oldest_index) mod RTS_TRACE_CAPACITY cfg)))"

definition rts_trace_reset_for_test :: "rts_config \<Rightarrow> rts_trace \<Rightarrow> rts_trace" where
  "rts_trace_reset_for_test cfg tr =
     (if RTS_ENABLE_TRACE cfg
      then tr\<lparr>trace_head := 0, trace_used := 0, trace_sequence := 0, trace_overwrites := 0\<rparr>
      else tr)"

definition trace_inv :: "rts_config \<Rightarrow> rts_trace \<Rightarrow> bool" where
  "trace_inv cfg tr \<longleftrightarrow> length (trace_buffer tr) = RTS_TRACE_CAPACITY cfg \<and>
     0 < RTS_TRACE_CAPACITY cfg \<and> trace_head tr < RTS_TRACE_CAPACITY cfg \<and>
     trace_used tr \<le> RTS_TRACE_CAPACITY cfg"

definition trace_list :: "rts_config \<Rightarrow> rts_trace \<Rightarrow> rts_trace_entry list" where
  "trace_list cfg tr = ring_items (RTS_TRACE_CAPACITY cfg) (trace_head tr) (trace_used tr) (trace_buffer tr)"

text \<open>Emitting appends one entry, dropping the oldest when the ring is full.\<close>

lemma trace_emit_refines:
  fixes tick :: rts_tick and ev :: rts_trace_event and a0 a1 :: uintptr
  assumes "trace_inv cfg tr" and "RTS_ENABLE_TRACE cfg"
  defines "tr' \<equiv> rts_trace_emit cfg tick ev a0 a1 tr"
  defines "e \<equiv> \<lparr>te_sequence = rts_diagnostic_counter_increment (trace_sequence tr), te_tick = tick,
      te_argument0 = a0, te_argument1 = a1, te_event = Some ev\<rparr>"
  shows "trace_inv cfg tr'"
    and "trace_list cfg tr' =
      (if trace_used tr < RTS_TRACE_CAPACITY cfg then trace_list cfg tr @ [e]
       else tl (trace_list cfg tr) @ [e])"
proof -
  show "trace_inv cfg tr'"
    using assms(1,2) by (auto simp: tr'_def rts_trace_emit_def trace_inv_def Let_def)
  show "trace_list cfg tr' =
      (if trace_used tr < RTS_TRACE_CAPACITY cfg then trace_list cfg tr @ [e]
       else tl (trace_list cfg tr) @ [e])"
  proof (cases "trace_used tr < RTS_TRACE_CAPACITY cfg")
    case True
    with assms(1,2) show ?thesis
      by (simp add: tr'_def e_def rts_trace_emit_def trace_inv_def trace_list_def Let_def ring_items_push)
  next
    case False
    with assms(1) have "trace_used tr = RTS_TRACE_CAPACITY cfg"
      by (simp add: trace_inv_def)
    with assms(1,2) show ?thesis
      using ring_items_overwrite [of "trace_buffer tr" "RTS_TRACE_CAPACITY cfg" "trace_head tr" e]
      by (simp add: tr'_def e_def rts_trace_emit_def trace_inv_def trace_list_def Let_def)
  qed
qed

lemma trace_read_refines:
  assumes "RTS_ENABLE_TRACE cfg"
  shows "rts_trace_read cfg i tr = (if i < trace_used tr then Some (trace_list cfg tr ! i) else None)"
  using assms by (simp add: rts_trace_read_def trace_list_def nth_ring_items)

end
