(* ===== verification/Callback_Queue.thy ===== *)
theory Callback_Queue
  imports Ring_Buffer
begin

text \<open>
  The bounded FIFO of expired timer callbacks (\<^verbatim>\<open>kernel/timer_callback_queue.c\<close>). A timer pointer
  is its slot index, null is \<open>None\<close>. Under \<open>cq_inv\<close> the queue is the list \<open>cq_list\<close>, and
  the operations are append, head/tail and filter on it; the code's own
  \<open>rts_timer_callback_queue_validate\<close> accepts exactly these queues.
\<close>

section \<open>Data and operations\<close>

record rts_timer_callback_work =
  wk_timer :: "nat option"
  wk_expiration_tick :: rts_tick
  wk_generation :: uint32
  wk_sequence :: uint32

record rts_timer_callback_queue =
  cq_items :: "rts_timer_callback_work list"
  cq_head :: nat
  cq_tail :: nat
  cq_count :: nat
  cq_maximum_depth :: nat

definition zero_work :: rts_timer_callback_work where
  "zero_work = \<lparr>wk_timer = None, wk_expiration_tick = 0, wk_generation = 0, wk_sequence = 0\<rparr>"

definition rts_timer_callback_queue_next :: "rts_config \<Rightarrow> nat \<Rightarrow> nat" where
  "rts_timer_callback_queue_next cfg index =
     (let index = index + 1 in
      if index = RTS_TIMER_CALLBACK_QUEUE_CAPACITY cfg then 0 else index)"

definition rts_timer_callback_queue_initialize ::
  "rts_config \<Rightarrow> rts_timer_callback_queue \<Rightarrow> rts_timer_callback_queue" where
  "rts_timer_callback_queue_initialize cfg q =
     q\<lparr>cq_items := replicate (RTS_TIMER_CALLBACK_QUEUE_CAPACITY cfg) zero_work,
       cq_head := 0, cq_tail := 0, cq_count := 0, cq_maximum_depth := 0\<rparr>"

definition rts_timer_callback_queue_enqueue ::
  "rts_config \<Rightarrow> rts_timer_callback_work option \<Rightarrow> rts_timer_callback_queue \<Rightarrow>
   bool \<times> rts_timer_callback_queue" where
  "rts_timer_callback_queue_enqueue cfg wp q =
     (case wp of
        None \<Rightarrow> (False, q)
      | Some work \<Rightarrow>
          if wk_timer work = None \<or> cq_count q \<ge> RTS_TIMER_CALLBACK_QUEUE_CAPACITY cfg
          then (False, q)
          else
            let q = q\<lparr>cq_items := (cq_items q)[cq_tail q := work]\<rparr>;
                q = q\<lparr>cq_tail := rts_timer_callback_queue_next cfg (cq_tail q)\<rparr>;
                q = q\<lparr>cq_count := cq_count q + 1\<rparr>;
                q = (if cq_count q > cq_maximum_depth q
                     then q\<lparr>cq_maximum_depth := cq_count q\<rparr> else q)
            in (True, q))"

text \<open>The output parameter of the dequeue is the first component: \<open>None\<close> where the call returns false.\<close>

definition rts_timer_callback_queue_dequeue ::
  "rts_config \<Rightarrow> rts_timer_callback_queue \<Rightarrow>
   rts_timer_callback_work option \<times> rts_timer_callback_queue" where
  "rts_timer_callback_queue_dequeue cfg q =
     (if cq_count q = 0 then (None, q)
      else
        let work = cq_items q ! cq_head q;
            q = q\<lparr>cq_items := (cq_items q)[cq_head q := zero_work]\<rparr>;
            q = q\<lparr>cq_head := rts_timer_callback_queue_next cfg (cq_head q)\<rparr>;
            q = q\<lparr>cq_count := cq_count q - 1\<rparr>
        in (Some work, q))"

text \<open>
  The compaction loop: \<open>left\<close> iterations remain; the result is the array, the write index and
  the numbers of kept and removed entries.
\<close>

fun remove_timer_loop ::
  "rts_config \<Rightarrow> nat \<Rightarrow> nat \<Rightarrow> rts_timer_callback_work list \<Rightarrow> nat \<Rightarrow> nat \<Rightarrow> nat \<Rightarrow> nat \<Rightarrow>
   rts_timer_callback_work list \<times> nat \<times> nat \<times> nat" where
  "remove_timer_loop cfg timer 0 items read_index write_index kept removed =
     (items, write_index, kept, removed)"
| "remove_timer_loop cfg timer (Suc left) items read_index write_index kept removed =
     (let work = items ! read_index;
          read_index = rts_timer_callback_queue_next cfg read_index in
      if wk_timer work = Some timer then
        remove_timer_loop cfg timer left items read_index write_index kept (removed + 1)
      else
        remove_timer_loop cfg timer left (items[write_index := work]) read_index
          (rts_timer_callback_queue_next cfg write_index) (kept + 1) removed)"

fun clear_work_loop ::
  "rts_config \<Rightarrow> nat \<Rightarrow> rts_timer_callback_work list \<Rightarrow> nat \<Rightarrow> rts_timer_callback_work list" where
  "clear_work_loop cfg 0 items write_index = items"
| "clear_work_loop cfg (Suc left) items write_index =
     clear_work_loop cfg left (items[write_index := zero_work])
       (rts_timer_callback_queue_next cfg write_index)"

definition rts_timer_callback_queue_remove_timer ::
  "rts_config \<Rightarrow> nat option \<Rightarrow> rts_timer_callback_queue \<Rightarrow> nat \<times> rts_timer_callback_queue" where
  "rts_timer_callback_queue_remove_timer cfg timer q =
     (case timer of
        None \<Rightarrow> (0, q)
      | Some t \<Rightarrow>
          let original_count = cq_count q;
              (items, write_index, kept, removed) =
                remove_timer_loop cfg t original_count (cq_items q) (cq_head q) (cq_head q) 0 0;
              new_tail = write_index;
              items = clear_work_loop cfg (original_count - kept) items write_index
          in (removed, q\<lparr>cq_items := items, cq_count := kept, cq_tail := new_tail\<rparr>))"

fun count_for_loop ::
  "rts_config \<Rightarrow> nat \<Rightarrow> rts_timer_callback_work list \<Rightarrow> nat \<Rightarrow> nat \<Rightarrow> nat \<Rightarrow> nat" where
  "count_for_loop cfg timer items 0 index n = n"
| "count_for_loop cfg timer items (Suc left) index n =
     count_for_loop cfg timer items left (rts_timer_callback_queue_next cfg index)
       (if wk_timer (items ! index) = Some timer then n + 1 else n)"

definition rts_timer_callback_queue_count_for ::
  "rts_config \<Rightarrow> rts_timer_callback_queue \<Rightarrow> nat option \<Rightarrow> nat" where
  "rts_timer_callback_queue_count_for cfg q timer =
     (case timer of
        None \<Rightarrow> 0
      | Some t \<Rightarrow> count_for_loop cfg t (cq_items q) (cq_count q) (cq_head q) 0)"

text \<open>Returns the index after the walk, or \<open>None\<close> where the walk meets a null timer.\<close>

fun cq_validate_loop :: "rts_config \<Rightarrow> rts_timer_callback_work list \<Rightarrow> nat \<Rightarrow> nat \<Rightarrow> nat option" where
  "cq_validate_loop cfg items 0 index = Some index"
| "cq_validate_loop cfg items (Suc left) index =
     (if wk_timer (items ! index) = None then None
      else cq_validate_loop cfg items left (rts_timer_callback_queue_next cfg index))"

definition rts_timer_callback_queue_validate :: "rts_config \<Rightarrow> rts_timer_callback_queue \<Rightarrow> bool" where
  "rts_timer_callback_queue_validate cfg q =
     (if cq_head q \<ge> RTS_TIMER_CALLBACK_QUEUE_CAPACITY cfg \<or>
         cq_tail q \<ge> RTS_TIMER_CALLBACK_QUEUE_CAPACITY cfg \<or>
         cq_count q > RTS_TIMER_CALLBACK_QUEUE_CAPACITY cfg \<or>
         cq_maximum_depth q < cq_count q \<or>
         cq_maximum_depth q > RTS_TIMER_CALLBACK_QUEUE_CAPACITY cfg
      then False
      else cq_validate_loop cfg (cq_items q) (cq_count q) (cq_head q) = Some (cq_tail q))"

section \<open>Abstraction\<close>

definition cq_list :: "rts_config \<Rightarrow> rts_timer_callback_queue \<Rightarrow> rts_timer_callback_work list" where
  "cq_list cfg q = ring_items (RTS_TIMER_CALLBACK_QUEUE_CAPACITY cfg) (cq_head q) (cq_count q) (cq_items q)"

definition cq_inv :: "rts_config \<Rightarrow> rts_timer_callback_queue \<Rightarrow> bool" where
  "cq_inv cfg q \<longleftrightarrow>
     length (cq_items q) = RTS_TIMER_CALLBACK_QUEUE_CAPACITY cfg \<and>
     cq_head q < RTS_TIMER_CALLBACK_QUEUE_CAPACITY cfg \<and>
     cq_tail q = (cq_head q + cq_count q) mod RTS_TIMER_CALLBACK_QUEUE_CAPACITY cfg \<and>
     cq_count q \<le> cq_maximum_depth q \<and>
     cq_maximum_depth q \<le> RTS_TIMER_CALLBACK_QUEUE_CAPACITY cfg \<and>
     (\<forall>w \<in> set (cq_list cfg q). wk_timer w \<noteq> None)"

lemma length_cq_list [simp]: "length (cq_list cfg q) = cq_count q"
  by (simp add: cq_list_def)

lemma next_mod:
  "index < RTS_TIMER_CALLBACK_QUEUE_CAPACITY cfg \<Longrightarrow>
   rts_timer_callback_queue_next cfg index = Suc index mod RTS_TIMER_CALLBACK_QUEUE_CAPACITY cfg"
  by (auto simp: rts_timer_callback_queue_next_def mod_Suc)

lemma next_mod_mod:
  "0 < RTS_TIMER_CALLBACK_QUEUE_CAPACITY cfg \<Longrightarrow>
   rts_timer_callback_queue_next cfg (n mod RTS_TIMER_CALLBACK_QUEUE_CAPACITY cfg) =
   Suc n mod RTS_TIMER_CALLBACK_QUEUE_CAPACITY cfg"
  by (simp add: next_mod mod_Suc_eq)

text \<open>The three walks, in terms of the logical content.\<close>

lemma count_for_loop_items:
  assumes "0 < RTS_TIMER_CALLBACK_QUEUE_CAPACITY cfg"
  shows "count_for_loop cfg t items left (h mod RTS_TIMER_CALLBACK_QUEUE_CAPACITY cfg) n =
    n + length (filter (\<lambda>w. wk_timer w = Some t)
      (ring_items (RTS_TIMER_CALLBACK_QUEUE_CAPACITY cfg) h left items))"
  using assms
proof (induction left arbitrary: h n)
  case (Suc left)
  show ?case
    using Suc.IH [of "Suc h"] Suc.prems
    by (simp add: next_mod_mod ring_items_Cons ring_items_head_mod)
qed simp

lemma cq_validate_loop_items:
  assumes "0 < RTS_TIMER_CALLBACK_QUEUE_CAPACITY cfg"
  shows "cq_validate_loop cfg items left (h mod RTS_TIMER_CALLBACK_QUEUE_CAPACITY cfg) =
    (if \<forall>w \<in> set (ring_items (RTS_TIMER_CALLBACK_QUEUE_CAPACITY cfg) h left items). wk_timer w \<noteq> None
     then Some ((h + left) mod RTS_TIMER_CALLBACK_QUEUE_CAPACITY cfg) else None)"
  using assms
proof (induction left arbitrary: h)
  case (Suc left)
  show ?case
    using Suc.IH [of "Suc h"] Suc.prems
    by (simp add: next_mod_mod ring_items_Cons ring_items_head_mod)
qed simp

text \<open>
  Compaction: with \<open>ys\<close> already written back and \<open>zs\<close> still to be read, the loop leaves
  \<open>ys\<close> followed by the entries of \<open>zs\<close> that belong to other timers.
\<close>

lemma remove_timer_loop_items:
  fixes cfg defines "cap \<equiv> RTS_TIMER_CALLBACK_QUEUE_CAPACITY cfg"
  assumes "length items = cap" and "0 < cap" and "r + length zs \<le> cap" and "w \<le> r"
    and "ring_items cap h w items = ys" and "ring_items cap (h + r) (length zs) items = zs"
    and "remove_timer_loop cfg t (length zs) items ((h + r) mod cap) ((h + w) mod cap) kept removed =
      (items', write', kept', removed')"
  shows "length items' = cap \<and> write' = (h + (w + length (filter (\<lambda>x. wk_timer x \<noteq> Some t) zs))) mod cap \<and>
     kept' = kept + length (filter (\<lambda>x. wk_timer x \<noteq> Some t) zs) \<and>
     removed' = removed + length (filter (\<lambda>x. wk_timer x = Some t) zs) \<and>
     ring_items cap h (w + length (filter (\<lambda>x. wk_timer x \<noteq> Some t) zs)) items' =
       ys @ filter (\<lambda>x. wk_timer x \<noteq> Some t) zs"
  using assms(2-)
proof (induction zs arbitrary: items r w ys kept removed)
  case Nil
  then show ?case by simp
next
  case (Cons z zs)
  have nxt: "rts_timer_callback_queue_next cfg (n mod cap) = Suc n mod cap" for n
    using next_mod_mod [of cfg n] Cons.prems(2) by (simp add: cap_def)
  have z: "items ! ((h + r) mod cap) = z" and zs: "ring_items cap (h + Suc r) (length zs) items = zs"
    using Cons.prems(6) by (simp_all add: ring_items_Cons ring_items_head_mod)
  show ?case
  proof (cases "wk_timer z = Some t")
    case True
    then have "remove_timer_loop cfg t (length zs) items ((h + Suc r) mod cap) ((h + w) mod cap) kept
        (removed + 1) = (items', write', kept', removed')"
      using Cons.prems(7) z by (simp add: nxt Let_def)
    from Cons.IH [OF Cons.prems(1,2) _ _ Cons.prems(5) zs this] True Cons.prems(3,4) show ?thesis
      by simp
  next
    case False
    let ?items = "items[(h + w) mod cap := z]"
    have "remove_timer_loop cfg t (length zs) ?items ((h + Suc r) mod cap) ((h + Suc w) mod cap)
        (kept + 1) removed = (items', write', kept', removed')"
      using Cons.prems(7) z False by (simp add: nxt Let_def)
    moreover have "ring_items cap h (Suc w) ?items = ys @ [z]"
      using ring_items_push [of items cap w h z] Cons.prems by simp
    moreover have "ring_items cap (h + Suc r) (length zs) ?items = zs"
    proof -
      have "ring_items cap (h + Suc r) (length zs) ?items = ring_items cap (h + Suc r) (length zs) items"
      proof (rule ring_items_cong)
        fix i assume "i < length zs"
        then have "(h + (Suc r + i)) mod cap \<noteq> (h + w) mod cap"
          using ring_slot_inj [of "Suc r + i" cap w h] Cons.prems by auto
        then show "?items ! ((h + Suc r + i) mod cap) = items ! ((h + Suc r + i) mod cap)"
          by (simp add: add.assoc)
      qed
      with zs show ?thesis by simp
    qed
    moreover have "length ?items = cap" "Suc r + length zs \<le> cap" "Suc w \<le> Suc r"
      using Cons.prems by simp_all
    ultimately show ?thesis
      using Cons.IH [of ?items "Suc r" "Suc w" "ys @ [z]" "kept + 1" removed] Cons.prems(2) False
      by simp
  qed
qed

lemma clear_work_loop_items:
  fixes cfg defines "cap \<equiv> RTS_TIMER_CALLBACK_QUEUE_CAPACITY cfg"
  assumes "length items = cap" and "0 < cap" and "n \<le> w" and "w + left \<le> cap"
  shows "length (clear_work_loop cfg left items ((h + w) mod cap)) = cap \<and>
     ring_items cap h n (clear_work_loop cfg left items ((h + w) mod cap)) = ring_items cap h n items"
  using assms(2-)
proof (induction left arbitrary: items w)
  case (Suc left)
  have "rts_timer_callback_queue_next cfg ((h + w) mod cap) = (h + Suc w) mod cap"
    using next_mod_mod [of cfg "h + w"] Suc.prems(2) by (simp add: cap_def)
  moreover have "ring_items cap h n (items[(h + w) mod cap := zero_work]) = ring_items cap h n items"
    using Suc.prems by (intro ring_items_outside) auto
  ultimately show ?case
    using Suc.IH [of "items[(h + w) mod cap := zero_work]" "Suc w"] Suc.prems by simp
qed simp

section \<open>Refinement\<close>

lemma cq_initialize_refines:
  assumes "0 < RTS_TIMER_CALLBACK_QUEUE_CAPACITY cfg"
  shows "cq_inv cfg (rts_timer_callback_queue_initialize cfg q)"
    and "cq_list cfg (rts_timer_callback_queue_initialize cfg q) = []"
  using assms by (simp_all add: cq_inv_def cq_list_def rts_timer_callback_queue_initialize_def)

lemma cq_enqueue_refines:
  assumes inv: "cq_inv cfg q" and t: "wk_timer w \<noteq> None"
    and room: "cq_count q < RTS_TIMER_CALLBACK_QUEUE_CAPACITY cfg"
    and "rts_timer_callback_queue_enqueue cfg (Some w) q = (ok, q')"
  shows "ok \<and> cq_inv cfg q' \<and> cq_list cfg q' = cq_list cfg q @ [w]"
proof -
  let ?cap = "RTS_TIMER_CALLBACK_QUEUE_CAPACITY cfg"
  have q': "ok" "cq_items q' = (cq_items q)[cq_tail q := w]" "cq_head q' = cq_head q"
    "cq_tail q' = rts_timer_callback_queue_next cfg (cq_tail q)" "cq_count q' = Suc (cq_count q)"
    "cq_maximum_depth q' = max (cq_maximum_depth q) (Suc (cq_count q))"
    using assms(4) t room by (auto simp: rts_timer_callback_queue_enqueue_def Let_def
        split: if_splits)
  have list: "cq_list cfg q' = cq_list cfg q @ [w]"
    using inv room unfolding cq_list_def q' cq_inv_def by (simp add: ring_items_push)
  have tail: "cq_tail q' = Suc (cq_head q + cq_count q) mod ?cap"
    using inv room unfolding q' cq_inv_def by (simp add: next_mod_mod)
  show ?thesis
    using inv t room list tail by (simp add: cq_inv_def q'(1-3) q'(5,6))
qed

lemma cq_enqueue_full:
  assumes "cq_count q \<ge> RTS_TIMER_CALLBACK_QUEUE_CAPACITY cfg"
  shows "rts_timer_callback_queue_enqueue cfg w q = (False, q)"
  using assms by (simp add: rts_timer_callback_queue_enqueue_def split: option.splits)

lemma cq_dequeue_refines:
  assumes inv: "cq_inv cfg q" and "rts_timer_callback_queue_dequeue cfg q = (r, q')"
  shows "cq_inv cfg q' \<and> r = hd_or (cq_list cfg q) None \<and> cq_list cfg q' = tl (cq_list cfg q)"
proof (cases "cq_count q")
  case 0
  then have "cq_list cfg q = []" by (simp add: cq_list_def)
  with 0 assms show ?thesis by (simp add: rts_timer_callback_queue_dequeue_def)
next
  case (Suc n)
  let ?cap = "RTS_TIMER_CALLBACK_QUEUE_CAPACITY cfg"
  have le: "Suc n \<le> ?cap" and h: "cq_head q < ?cap" and len: "length (cq_items q) = ?cap"
    using inv Suc by (auto simp: cq_inv_def)
  have q': "r = Some (cq_items q ! cq_head q)" "cq_items q' = (cq_items q)[cq_head q := zero_work]"
    "cq_head q' = Suc (cq_head q) mod ?cap" "cq_tail q' = cq_tail q" "cq_count q' = n"
    "cq_maximum_depth q' = cq_maximum_depth q"
    using assms(2) Suc next_mod [OF h] by (auto simp: rts_timer_callback_queue_dequeue_def Let_def)
  have list: "cq_list cfg q' = tl (cq_list cfg q)"
    using ring_items_pop [of "cq_items q" ?cap n "cq_head q" zero_work] len le h
    by (simp add: cq_list_def q' Suc)
  moreover have "r = hd_or (cq_list cfg q) None"
    using h by (simp add: cq_list_def Suc q'(1) ring_items_Cons)
  moreover have "cq_tail q' = (cq_head q' + cq_count q') mod ?cap"
    using inv Suc by (simp add: cq_inv_def q'(3-5) mod_add_left_eq)
  moreover have "\<forall>w \<in> set (cq_list cfg q'). wk_timer w \<noteq> None"
    using inv unfolding list cq_inv_def by (cases "cq_list cfg q") auto
  ultimately show ?thesis
    using inv len h Suc by (auto simp: cq_inv_def q'(2,3,5,6))
qed

lemma cq_remove_timer_refines:
  assumes inv: "cq_inv cfg q" and "rts_timer_callback_queue_remove_timer cfg (Some t) q = (n, q')"
  shows "cq_inv cfg q' \<and> cq_list cfg q' = filter (\<lambda>w. wk_timer w \<noteq> Some t) (cq_list cfg q) \<and>
     n = length (filter (\<lambda>w. wk_timer w = Some t) (cq_list cfg q))"
proof -
  let ?cap = "RTS_TIMER_CALLBACK_QUEUE_CAPACITY cfg" and ?zs = "cq_list cfg q"
  let ?keep = "filter (\<lambda>w. wk_timer w \<noteq> Some t) ?zs"
  have h: "cq_head q < ?cap" and len: "length (cq_items q) = ?cap" and c: "cq_count q \<le> ?cap"
    using inv by (auto simp: cq_inv_def)
  obtain items write' kept removed where loop:
    "remove_timer_loop cfg t (cq_count q) (cq_items q) (cq_head q) (cq_head q) 0 0 =
      (items, write', kept, removed)"
    by (metis prod_cases4)
  have L: "length items = ?cap" "write' = (cq_head q + length ?keep) mod ?cap" "kept = length ?keep"
    "removed = length (filter (\<lambda>w. wk_timer w = Some t) ?zs)"
    "ring_items ?cap (cq_head q) (length ?keep) items = ?keep"
    using remove_timer_loop_items [of "cq_items q" cfg 0 ?zs 0 "cq_head q" "[]" t 0 0 items write' kept removed]
      loop h len c by (auto simp: cq_list_def)
  have keep: "length ?keep \<le> cq_count q"
    by (metis length_cq_list length_filter_le)
  have q': "n = removed" "q' = q\<lparr>cq_items := clear_work_loop cfg (cq_count q - kept) items write',
      cq_count := kept, cq_tail := write'\<rparr>"
    using assms(2) loop by (auto simp: rts_timer_callback_queue_remove_timer_def)
  have C: "length (cq_items q') = ?cap"
    "ring_items ?cap (cq_head q) (length ?keep) (cq_items q') = ?keep"
    using clear_work_loop_items [of items cfg "length ?keep" "length ?keep" "cq_count q - length ?keep"
        "cq_head q"] L keep c h by (auto simp: q')
  moreover have "cq_head q' = cq_head q" "cq_count q' = length ?keep"
    by (simp_all add: q'(2) L(3))
  ultimately have list: "cq_list cfg q' = ?keep"
    unfolding cq_list_def [of cfg q'] by metis
  have "cq_inv cfg q'"
    using inv C(1) list L keep by (auto simp: cq_inv_def q'(2))
  with list L(4) q'(1) show ?thesis by simp
qed

lemma cq_count_for_refines:
  assumes "cq_inv cfg q"
  shows "rts_timer_callback_queue_count_for cfg q (Some t) =
    length (filter (\<lambda>w. wk_timer w = Some t) (cq_list cfg q))"
  using assms count_for_loop_items [of cfg t "cq_items q" "cq_count q" "cq_head q" 0]
  by (simp add: cq_inv_def rts_timer_callback_queue_count_for_def cq_list_def)

lemma cq_validate_iff:
  assumes "length (cq_items q) = RTS_TIMER_CALLBACK_QUEUE_CAPACITY cfg"
  shows "rts_timer_callback_queue_validate cfg q \<longleftrightarrow> cq_inv cfg q"
proof (cases "cq_head q < RTS_TIMER_CALLBACK_QUEUE_CAPACITY cfg")
  case True
  then have "(cq_head q + cq_count q) mod RTS_TIMER_CALLBACK_QUEUE_CAPACITY cfg
      < RTS_TIMER_CALLBACK_QUEUE_CAPACITY cfg"
    by (intro mod_less_divisor) simp
  then show ?thesis
    using True assms cq_validate_loop_items [of cfg "cq_items q" "cq_count q" "cq_head q"]
    by (auto simp: rts_timer_callback_queue_validate_def cq_inv_def cq_list_def not_le [symmetric])
qed (auto simp: rts_timer_callback_queue_validate_def cq_inv_def)

end
