(* ===== verification/Kernel_State.thy ===== *)
theory Kernel_State
  imports Intrusive_List Diagnostics Callback_Queue
begin

text \<open>
  The data of the kernel: TCBs and the task pool (\<^verbatim>\<open>task_internal.h\<close>), the kernel state and its
  switch plan (\<^verbatim>\<open>scheduler_internal.h\<close>), timers (\<^verbatim>\<open>timer_internal.h\<close>), semaphores and mutexes
  (\<^verbatim>\<open>rts_semaphore.h\<close>, \<^verbatim>\<open>rts_mutex.h\<close>), as one record \<open>rts_kernel_state\<close>.

  Pointers are references into typed stores; null is \<open>None\<close>. The three linked structures of
  the kernel are each a \<open>list_mem\<close>:

  \<^item> \<open>lmem\<close>: the intrusive lists. Nodes are the \<open>ready_node\<close> and \<open>delay_node\<close> of a task and the
    \<open>queue_node\<close> of a timer; lists are the ready lists, the EDF list, the delay list and the
    active timer list.
  \<^item> \<open>wmem\<close>: the wait queues. The node of a task is its \<open>wait_node\<close>; lists are the \<open>waiters\<close> of
    semaphores and mutexes (no \<open>object\<close> field).
  \<^item> \<open>omem\<close>: the owned-mutex lists. The node of a mutex is its \<open>owned_previous\<close>, \<open>owned_next\<close> and
    \<open>owner\<close> fields; the list of a task is its \<open>owned_mutex_head\<close>, \<open>_tail\<close> and \<open>_count\<close>.

  Code and data addresses (stacks, entries, arguments) are 32-bit words with 0 for null; a
  field that exists only under a configuration macro is always present and only written when
  the macro is set.
\<close>

section \<open>References\<close>

text \<open>
  A task is a slot of the application pool, the idle task or the timer service task;
  \<open>App i\<close> with \<open>i \<ge> RTS_MAX_TASKS\<close> is a pointer outside the pool.
\<close>

datatype task_ref = App nat | Idle | Service

datatype node_ref = Ready_Node task_ref | Delay_Node task_ref | Timer_Node nat

datatype list_ref = Ready_List nat | Edf_List | Delay_List | Timer_List

datatype obj_ref = Task_Obj task_ref | Timer_Obj nat

datatype sync_ref = Semaphore nat | Mutex nat

datatype wait_ref = Sem_Waiters nat | Mutex_Waiters nat

text \<open>Reading an opaque pointer as a task or timer pointer.\<close>

fun obj_task :: "obj_ref option \<Rightarrow> task_ref option" where
  "obj_task (Some (Task_Obj t)) = Some t"
| "obj_task _ = None"

fun obj_timer :: "obj_ref option \<Rightarrow> nat option" where
  "obj_timer (Some (Timer_Obj t)) = Some t"
| "obj_timer _ = None"

text \<open>\<open>&((rts_semaphore_t *)object)->waiters\<close> and the same for a mutex.\<close>

fun sem_waiters_of :: "sync_ref option \<Rightarrow> wait_ref option" where
  "sem_waiters_of (Some (Semaphore i)) = Some (Sem_Waiters i)"
| "sem_waiters_of _ = None"

fun mutex_waiters_of :: "sync_ref option \<Rightarrow> wait_ref option" where
  "mutex_waiters_of (Some (Mutex i)) = Some (Mutex_Waiters i)"
| "mutex_waiters_of _ = None"

section \<open>Tasks\<close>

datatype rts_task_slot_state = RTS_TASK_SLOT_FREE | RTS_TASK_SLOT_RESERVED | RTS_TASK_SLOT_ALLOCATED

datatype rts_task_state =
  RTS_TASK_STATE_DORMANT | RTS_TASK_STATE_READY | RTS_TASK_STATE_RUNNING | RTS_TASK_STATE_BLOCKED

datatype rts_wait_reason =
  RTS_WAIT_NONE | RTS_WAIT_DELAY | RTS_WAIT_SEMAPHORE | RTS_WAIT_MUTEX | RTS_WAIT_TIMER_SERVICE

datatype rts_wait_result =
    RTS_WAIT_RESULT_NONE | RTS_WAIT_RESULT_ACQUIRED | RTS_WAIT_RESULT_TIMEOUT
  | RTS_WAIT_RESULT_CANCELLED

text \<open>The numeric values of the enumerations, where the code passes them as trace arguments.\<close>

fun wait_reason_code :: "rts_wait_reason \<Rightarrow> uintptr" where
  "wait_reason_code RTS_WAIT_NONE = 0"
| "wait_reason_code RTS_WAIT_DELAY = 1"
| "wait_reason_code RTS_WAIT_SEMAPHORE = 2"
| "wait_reason_code RTS_WAIT_MUTEX = 3"
| "wait_reason_code RTS_WAIT_TIMER_SERVICE = 4"

fun wait_result_code :: "rts_wait_result \<Rightarrow> uintptr" where
  "wait_result_code RTS_WAIT_RESULT_NONE = 0"
| "wait_result_code RTS_WAIT_RESULT_ACQUIRED = 1"
| "wait_result_code RTS_WAIT_RESULT_TIMEOUT = 2"
| "wait_result_code RTS_WAIT_RESULT_CANCELLED = 3"

record rts_tcb =
  saved_stack_pointer :: uintptr
  stack_low :: uintptr
  stack_high :: uintptr
  entry :: uintptr
  argument :: uintptr
  wait_reason :: rts_wait_reason
  wait_result :: rts_wait_result
  wake_tick :: rts_tick
  wait_object :: "sync_ref option"
  timeout_active :: bool
  slice_remaining :: rts_tick
  base_priority :: rts_priority
  priority :: rts_priority
  period :: rts_tick
  relative_deadline :: rts_tick
  absolute_deadline :: rts_tick
  release_tick :: rts_tick
  execution_budget :: rts_tick
  release_sequence :: uint32
  task_state :: rts_task_state
  slot_state :: rts_task_slot_state
  diagnostic_dispatch_count :: uint32
  diagnostic_block_count :: uint32
  diagnostic_wake_count :: uint32
  diagnostic_running_ticks :: uint32
  diagnostic_last_start_tick :: rts_tick
  diagnostic_max_stack_used :: uint32
  validation_magic :: uint32

definition RTS_TASK_VALIDATION_MAGIC :: uint32 where
  "RTS_TASK_VALIDATION_MAGIC = 0x52545354"

text \<open>A zero-initialised TCB.\<close>

definition zero_tcb :: rts_tcb where
  "zero_tcb = \<lparr>saved_stack_pointer = 0, stack_low = 0, stack_high = 0, entry = 0, argument = 0,
     wait_reason = RTS_WAIT_NONE, wait_result = RTS_WAIT_RESULT_NONE, wake_tick = 0,
     wait_object = None, timeout_active = False, slice_remaining = 0, base_priority = 0,
     priority = 0, period = 0, relative_deadline = 0, absolute_deadline = 0, release_tick = 0,
     execution_budget = 0, release_sequence = 0, task_state = RTS_TASK_STATE_DORMANT,
     slot_state = RTS_TASK_SLOT_FREE, diagnostic_dispatch_count = 0, diagnostic_block_count = 0,
     diagnostic_wake_count = 0, diagnostic_running_ticks = 0, diagnostic_last_start_tick = 0,
     diagnostic_max_stack_used = 0, validation_magic = 0\<rparr>"

record rts_task_config =
  tc_entry :: uintptr
  tc_argument :: uintptr
  tc_stack_buffer :: uintptr
  tc_stack_size_bytes :: nat
  tc_priority :: rts_priority
  tc_period :: rts_tick
  tc_relative_deadline :: rts_tick
  tc_execution_budget :: rts_tick

section \<open>Timers and synchronization objects\<close>

datatype rts_timer_slot_state = RTS_TIMER_SLOT_FREE | RTS_TIMER_SLOT_RESERVED | RTS_TIMER_SLOT_ALLOCATED

datatype rts_timer_lifecycle_state = RTS_TIMER_UNINITIALIZED | RTS_TIMER_STOPPED | RTS_TIMER_ACTIVE

datatype rts_timer_callback_state =
  RTS_TIMER_CALLBACK_IDLE | RTS_TIMER_CALLBACK_PENDING | RTS_TIMER_CALLBACK_RUNNING

definition RTS_TIMER_ONE_SHOT :: "8 word" where "RTS_TIMER_ONE_SHOT = 0"

definition RTS_TIMER_PERIODIC :: "8 word" where "RTS_TIMER_PERIODIC = 1"

record rts_timer =
  tm_expiration_tick :: rts_tick
  tm_last_expiration_tick :: rts_tick
  tm_period :: rts_tick
  tm_callback :: uintptr
  tm_argument :: uintptr
  tm_slot_index :: nat
  tm_generation :: uint32
  tm_expiration_sequence :: uint32
  tm_mode :: "8 word"
  tm_state :: rts_timer_lifecycle_state
  tm_callback_state :: rts_timer_callback_state
  tm_slot_state :: rts_timer_slot_state
  tm_diagnostic_start_count :: uint32
  tm_diagnostic_stop_count :: uint32
  tm_diagnostic_restart_count :: uint32
  tm_diagnostic_expiration_count :: uint32
  tm_diagnostic_callback_count :: uint32
  tm_diagnostic_stale_count :: uint32
  tm_diagnostic_missed_period_count :: uint32
  tm_diagnostic_overrun_count :: uint32
  tm_validation_magic :: uint32

definition RTS_TIMER_VALIDATION_MAGIC :: uint32 where
  "RTS_TIMER_VALIDATION_MAGIC = 0x5254544d"

definition zero_timer :: rts_timer where
  "zero_timer = \<lparr>tm_expiration_tick = 0, tm_last_expiration_tick = 0, tm_period = 0, tm_callback = 0,
     tm_argument = 0, tm_slot_index = 0, tm_generation = 0, tm_expiration_sequence = 0, tm_mode = 0,
     tm_state = RTS_TIMER_UNINITIALIZED, tm_callback_state = RTS_TIMER_CALLBACK_IDLE,
     tm_slot_state = RTS_TIMER_SLOT_FREE, tm_diagnostic_start_count = 0,
     tm_diagnostic_stop_count = 0, tm_diagnostic_restart_count = 0,
     tm_diagnostic_expiration_count = 0, tm_diagnostic_callback_count = 0,
     tm_diagnostic_stale_count = 0, tm_diagnostic_missed_period_count = 0,
     tm_diagnostic_overrun_count = 0, tm_validation_magic = 0\<rparr>"

record rts_timer_config =
  tmc_period :: rts_tick
  tmc_callback :: uintptr
  tmc_argument :: uintptr
  tmc_mode :: "8 word"

record rts_semaphore =
  sem_count :: rts_count
  sem_maximum_count :: rts_count
  sem_identity :: "nat option"
  sem_signature :: uint32

definition RTS_SEMAPHORE_SIGNATURE :: uint32 where
  "RTS_SEMAPHORE_SIGNATURE = 0x52545353"

record rts_mutex =
  mx_identity :: "nat option"
  mx_signature :: uint32

definition RTS_MUTEX_SIGNATURE :: uint32 where
  "RTS_MUTEX_SIGNATURE = 0x5254534d"

section \<open>Kernel state\<close>

datatype rts_kernel_lifecycle = RTS_KERNEL_RESET | RTS_KERNEL_INITIALIZED | RTS_KERNEL_RUNNING

record rts_switch_plan =
  sp_from :: "task_ref option"
  sp_to :: "task_ref option"
  sp_pending :: bool
  sp_active :: bool
  sp_reselection_required :: bool
  sp_generation :: uint32

record rts_switch_snapshot =
  ss_from :: "task_ref option"
  ss_to :: "task_ref option"
  ss_generation :: uint32

text \<open>
  \<open>in_isr\<close>, \<open>tick_on\<close>, \<open>reschedule_requests\<close> and \<open>bytes\<close> are the parts of the machine the kernel
  sees through the port: the exception state, whether the tick source has been started, the
  context-switch requests issued so far, and the bytes of the stacks.
\<close>

record rts_kernel_state =
  tcbs :: "task_ref \<Rightarrow> rts_tcb"
  lmem :: "(node_ref, list_ref, obj_ref) list_mem"
  wmem :: "(task_ref, wait_ref, unit) list_mem"
  omem :: "(nat, task_ref, unit) list_mem"
  allocated_count :: nat
  next_free_hint :: nat
  lifecycle :: rts_kernel_lifecycle
  current_task :: "task_ref option"
  idle_task :: "task_ref option"
  switch_plan :: rts_switch_plan
  timer_service_task :: "task_ref option"
  ready_bitmap :: "32 word list"
  policy_release_sequence :: uint32
  current_tick :: rts_tick
  runtime_counters :: rts_runtime_counters
  trace :: rts_trace
  timers :: "nat \<Rightarrow> rts_timer"
  callback_queue :: rts_timer_callback_queue
  tm_allocated_count :: nat
  tm_next_free_hint :: nat
  semaphores :: "nat \<Rightarrow> rts_semaphore"
  mutexes :: "nat \<Rightarrow> rts_mutex"
  in_isr :: bool
  tick_on :: bool
  reschedule_requests :: nat
  bytes :: "uintptr \<Rightarrow> 8 word"

text \<open>Writing through a pointer.\<close>

definition upd_tcb :: "task_ref \<Rightarrow> (rts_tcb \<Rightarrow> rts_tcb) \<Rightarrow> rts_kernel_state \<Rightarrow> rts_kernel_state" where
  "upd_tcb t f s = s\<lparr>tcbs := (tcbs s)(t := f (tcbs s t))\<rparr>"

definition upd_timer :: "nat \<Rightarrow> (rts_timer \<Rightarrow> rts_timer) \<Rightarrow> rts_kernel_state \<Rightarrow> rts_kernel_state" where
  "upd_timer i f s = s\<lparr>timers := (timers s)(i := f (timers s i))\<rparr>"

definition upd_plan :: "(rts_switch_plan \<Rightarrow> rts_switch_plan) \<Rightarrow> rts_kernel_state \<Rightarrow> rts_kernel_state" where
  "upd_plan f s = s\<lparr>switch_plan := f (switch_plan s)\<rparr>"

text \<open>A list operation on the kernel's intrusive lists.\<close>

definition on_lmem :: "((node_ref, list_ref, obj_ref) list_mem \<Rightarrow> rts_fatal + (node_ref, list_ref, obj_ref) list_mem) \<Rightarrow>
    rts_kernel_state \<Rightarrow> rts_fatal + rts_kernel_state" where
  "on_lmem f s = bnd (f (lmem s)) (\<lambda>m. Inr (s\<lparr>lmem := m\<rparr>))"

text \<open>\<open>RTS_DIAG_COUNTER_INC\<close> on a kernel counter, and the addition form used next to it.\<close>

definition diag_inc :: "rts_config \<Rightarrow> counter_id \<Rightarrow> rts_kernel_state \<Rightarrow> rts_kernel_state" where
  "diag_inc cfg c s =
     (if RTS_ENABLE_RUNTIME_STATS cfg
      then s\<lparr>runtime_counters := (runtime_counters s)(c := rts_diagnostic_counter_increment (runtime_counters s c))\<rparr>
      else s)"

definition diag_add :: "rts_config \<Rightarrow> counter_id \<Rightarrow> uint32 \<Rightarrow> rts_kernel_state \<Rightarrow> rts_kernel_state" where
  "diag_add cfg c n s =
     (if RTS_ENABLE_RUNTIME_STATS cfg
      then s\<lparr>runtime_counters := (runtime_counters s)(c := rts_diagnostic_counter_add (runtime_counters s c) n)\<rparr>
      else s)"

text \<open>\<open>RTS_TRACE(event, arg0, arg1)\<close>.\<close>

definition RTS_TRACE ::
  "rts_config \<Rightarrow> rts_trace_event \<Rightarrow> uintptr \<Rightarrow> uintptr \<Rightarrow> rts_kernel_state \<Rightarrow> rts_kernel_state" where
  "RTS_TRACE cfg event arg0 arg1 s =
     s\<lparr>trace := rts_trace_emit cfg (current_tick s) event arg0 arg1 (trace s)\<rparr>"

text \<open>\<open>rts_port_request_reschedule\<close> on the only CPU.\<close>

definition rts_port_request_reschedule :: "rts_kernel_state \<Rightarrow> rts_kernel_state" where
  "rts_port_request_reschedule s = s\<lparr>reschedule_requests := reschedule_requests s + 1\<rparr>"

text \<open>Runtime accounting of a task (\<^verbatim>\<open>runtime_stats.c\<close>).\<close>

definition rts_runtime_task_started ::
  "rts_config \<Rightarrow> task_ref option \<Rightarrow> rts_tick \<Rightarrow> rts_kernel_state \<Rightarrow> rts_kernel_state" where
  "rts_runtime_task_started cfg tp now s =
     (if \<not> RTS_ENABLE_RUNTIME_STATS cfg then s
      else case tp of None \<Rightarrow> s
        | Some t \<Rightarrow> upd_tcb t (\<lambda>x. x\<lparr>diagnostic_last_start_tick := now,
            diagnostic_dispatch_count := rts_diagnostic_counter_increment (diagnostic_dispatch_count x)\<rparr>) s)"

definition rts_runtime_task_stopped ::
  "rts_config \<Rightarrow> task_ref option \<Rightarrow> rts_tick \<Rightarrow> rts_kernel_state \<Rightarrow> rts_kernel_state" where
  "rts_runtime_task_stopped cfg tp now s =
     (if \<not> RTS_ENABLE_RUNTIME_STATS cfg then s
      else case tp of None \<Rightarrow> s
        | Some t \<Rightarrow> upd_tcb t (\<lambda>x. x\<lparr>diagnostic_running_ticks :=
            diagnostic_running_ticks x + (now - diagnostic_last_start_tick x)\<rparr>) s)"

text \<open>\<open>RTS_DIAG_COUNTER_INC\<close> on the block and wake counters of a task.\<close>

definition task_diag_block :: "rts_config \<Rightarrow> task_ref \<Rightarrow> rts_kernel_state \<Rightarrow> rts_kernel_state" where
  "task_diag_block cfg t s =
     (if RTS_ENABLE_RUNTIME_STATS cfg
      then upd_tcb t (\<lambda>x. x\<lparr>diagnostic_block_count := rts_diagnostic_counter_increment (diagnostic_block_count x)\<rparr>) s
      else s)"

definition task_diag_wake :: "rts_config \<Rightarrow> task_ref \<Rightarrow> rts_kernel_state \<Rightarrow> rts_kernel_state" where
  "task_diag_wake cfg t s =
     (if RTS_ENABLE_RUNTIME_STATS cfg
      then upd_tcb t (\<lambda>x. x\<lparr>diagnostic_wake_count := rts_diagnostic_counter_increment (diagnostic_wake_count x)\<rparr>) s
      else s)"

section \<open>CPU-local state\<close>

definition rts_cpu_id_is_valid :: "uint32 \<Rightarrow> bool" where
  "rts_cpu_id_is_valid cpu \<longleftrightarrow> cpu = 0"

definition rts_cpu_current_id :: uint32 where
  "rts_cpu_current_id = 0"

definition rts_scheduler_current_on_cpu ::
  "rts_config \<Rightarrow> uint32 \<Rightarrow> rts_kernel_state \<Rightarrow> rts_fatal + task_ref option" where
  "rts_scheduler_current_on_cpu cfg cpu s =
     rts_assert cfg (rts_cpu_id_is_valid cpu) (
     Inr (if rts_cpu_id_is_valid cpu then current_task s else None))"

definition rts_scheduler_set_current_on_cpu ::
  "rts_config \<Rightarrow> uint32 \<Rightarrow> task_ref option \<Rightarrow> rts_kernel_state \<Rightarrow> rts_fatal + rts_kernel_state" where
  "rts_scheduler_set_current_on_cpu cfg cpu t s =
     rts_assert cfg (rts_cpu_id_is_valid cpu) (
     Inr (if rts_cpu_id_is_valid cpu then s\<lparr>current_task := t\<rparr> else s))"

text \<open>The boot CPU is valid, so the accessors on it are plain field accesses.\<close>

lemma current_on_boot_cpu [simp]:
  "rts_scheduler_current_on_cpu cfg rts_cpu_current_id s = Inr (current_task s)"
  "rts_scheduler_set_current_on_cpu cfg rts_cpu_current_id t s = Inr (s\<lparr>current_task := t\<rparr>)"
  by (simp_all add: rts_scheduler_current_on_cpu_def rts_scheduler_set_current_on_cpu_def
      rts_cpu_current_id_def rts_cpu_id_is_valid_def)

definition rts_scheduler_current_get :: "rts_kernel_state \<Rightarrow> task_ref option" where
  "rts_scheduler_current_get s = current_task s"

section \<open>Shared vocabulary of the queues\<close>

text \<open>The owner field of the three nodes of a task.\<close>

abbreviation ready_owner :: "task_ref \<Rightarrow> rts_kernel_state \<Rightarrow> list_ref option" where
  "ready_owner t s \<equiv> nd_owner (node_at (lmem s) (Ready_Node t))"

abbreviation delay_owner :: "task_ref \<Rightarrow> rts_kernel_state \<Rightarrow> list_ref option" where
  "delay_owner t s \<equiv> nd_owner (node_at (lmem s) (Delay_Node t))"

abbreviation wait_owner :: "task_ref \<Rightarrow> rts_kernel_state \<Rightarrow> wait_ref option" where
  "wait_owner t s \<equiv> nd_owner (node_at (wmem s) t)"

definition upd_lmem :: "((node_ref, list_ref, obj_ref) list_mem \<Rightarrow> (node_ref, list_ref, obj_ref) list_mem) \<Rightarrow>
    rts_kernel_state \<Rightarrow> rts_kernel_state" where
  "upd_lmem f s = s\<lparr>lmem := f (lmem s)\<rparr>"

text \<open>A TCB the kernel owns: a pool slot, the idle task or the timer service task.\<close>

fun valid_task :: "rts_config \<Rightarrow> task_ref \<Rightarrow> bool" where
  "valid_task cfg (App i) \<longleftrightarrow> i < RTS_MAX_TASKS cfg"
| "valid_task cfg Idle \<longleftrightarrow> True"
| "valid_task cfg Service \<longleftrightarrow> True"

lemma valid_tasks_eq: "{t. valid_task cfg t} = insert Idle (insert Service (App ` {..<RTS_MAX_TASKS cfg}))"
  (is "?A = ?B")
proof (rule set_eqI)
  fix t show "t \<in> ?A \<longleftrightarrow> t \<in> ?B" by (cases t) auto
qed

lemma card_valid_tasks: "card {t. valid_task cfg t} = RTS_MAX_TASKS cfg + 2"
proof -
  have "card (App ` {..<RTS_MAX_TASKS cfg}) = RTS_MAX_TASKS cfg"
    by (subst card_image) (auto simp: inj_on_def)
  then show ?thesis
    unfolding valid_tasks_eq by (subst card_insert_disjoint) (auto simp: card_insert_if)
qed

lemma finite_valid_tasks: "finite {t. valid_task cfg t}"
  unfolding valid_tasks_eq by simp

text \<open>No queue of distinct task nodes can be as long as \<open>SIZE_MAX\<close>.\<close>

lemma valid_task_nodes_length:
  assumes "distinct xs" and "set xs \<subseteq> f ` {t. valid_task cfg t}"
  shows "length xs \<le> RTS_MAX_TASKS cfg + 2"
proof -
  have "length xs = card (set xs)" using assms(1) by (simp add: distinct_card)
  also have "\<dots> \<le> card (f ` {t. valid_task cfg t})"
    using assms(2) finite_valid_tasks by (intro card_mono) auto
  also have "\<dots> \<le> card {t. valid_task cfg t}"
    using finite_valid_tasks by (rule card_image_le)
  finally show ?thesis by (simp add: card_valid_tasks)
qed

lemma config_ok_room: "config_ok cfg \<Longrightarrow> n \<le> RTS_MAX_TASKS cfg + 2 \<Longrightarrow> n < SIZE_MAX"
  by (simp add: config_ok_def)

section \<open>Bounded loops\<close>

text \<open>A counted loop whose body may stop fatally.\<close>

fun for_loop :: "('i \<Rightarrow> 's \<Rightarrow> rts_fatal + 's) \<Rightarrow> 'i list \<Rightarrow> 's \<Rightarrow> rts_fatal + 's" where
  "for_loop body [] s = Inr s"
| "for_loop body (i # is) s = bnd (body i s) (for_loop body is)"

text \<open>
  The consistency walks of the validators: follow \<open>nxt\<close> while the node is not null and at most
  \<open>left\<close> steps remain, checking each node against its predecessor; \<open>None\<close> where a check fails,
  otherwise where the walk stopped, the last node seen and the number of nodes.
\<close>

fun check_walk :: "nat \<Rightarrow> ('n option \<Rightarrow> 'n \<Rightarrow> bool) \<Rightarrow> ('n \<Rightarrow> 'n option) \<Rightarrow> 'n option \<Rightarrow> 'n option \<Rightarrow> nat \<Rightarrow>
    ('n option \<times> 'n option \<times> nat) option" where
  "check_walk left chk nxt None previous n = Some (None, previous, n)"
| "check_walk 0 chk nxt (Some node) previous n = Some (Some node, previous, n)"
| "check_walk (Suc left) chk nxt (Some node) previous n =
     (if chk previous node then check_walk left chk nxt (nxt node) (Some node) (n + 1) else None)"

fun chain_checks :: "('n option \<Rightarrow> 'n \<Rightarrow> bool) \<Rightarrow> 'n option \<Rightarrow> 'n list \<Rightarrow> bool" where
  "chain_checks chk p [] = True"
| "chain_checks chk p (x # xs) = (chk p x \<and> chain_checks chk (Some x) xs)"

lemma check_walk_lseg:
  assumes "lseg P nxt p xs None" and "length xs \<le> left"
  shows "check_walk left chk nxt (hd_or xs None) previous n =
    (if chain_checks chk previous xs then Some (None, last_or previous xs, n + length xs) else None)"
  using assms
proof (induction xs arbitrary: p left previous n)
  case (Cons x xs)
  then obtain k where "left = Suc k" by (cases left) auto
  with Cons.prems Cons.IH [of "Some x" k "Some x" "Suc n"] show ?case by simp
qed simp

lemma chain_checks_mono:
  "chain_checks chk p xs \<Longrightarrow> (\<And>q x. x \<in> set xs \<Longrightarrow> chk q x \<Longrightarrow> chk' q x) \<Longrightarrow> chain_checks chk' p xs"
  by (induction xs arbitrary: p) auto

text \<open>A chain of pairwise checks along an ordered list.\<close>

lemma chain_checks_ordered:
  assumes "ordered_by lt xs" and "\<And>x. x \<in> set xs \<Longrightarrow> local x"
    and "lseg P nxt p xs q" and "p \<noteq> None \<longrightarrow> (\<forall>x \<in> set xs. \<not> lt x (the p))"
    and "\<And>p x. \<lbrakk>x \<in> set xs; local x; P x = p; p \<noteq> None \<longrightarrow> \<not> lt x (the p)\<rbrakk> \<Longrightarrow> chk p x"
  shows "chain_checks chk p xs"
  using assms
proof (induction xs arbitrary: p)
  case (Cons x xs)
  have "chk p x" using Cons.prems by simp
  moreover have "chain_checks chk (Some x) xs"
    using Cons.prems by (intro Cons.IH) auto
  ultimately show ?case by simp
qed simp

end
