(* ===== verification/Ready_Queue.thy ===== *)
theory Ready_Queue
  imports Kernel_State
begin

text \<open>
  The priority ready set (\<^verbatim>\<open>kernel/ready_queue.c\<close>): one FIFO list per priority and a bitmap of the
  nonempty ones, scanned from the top by \<open>rts_ready_peek_highest\<close>. \<open>ready_inv\<close> ties lists,
  bitmap and task priorities together; under it no guard of the module fails, every operation
  is a list operation on \<open>ready_tasks\<close>, and the scan finds the head of the highest nonempty
  queue. The ready set is at a static address, so the null test on \<open>ready_set\<close> has no
  counterpart.
\<close>

section \<open>Operations\<close>

definition RTS_READY_BITMAP_WORDS :: "rts_config \<Rightarrow> nat" where
  "RTS_READY_BITMAP_WORDS cfg = (RTS_PRIORITY_COUNT cfg + 32 - 1) div 32"

definition rts_ready_word_index :: "rts_priority \<Rightarrow> nat" where
  "rts_ready_word_index p = unat p div 32"

definition rts_ready_bit_mask :: "rts_priority \<Rightarrow> uint32" where
  "rts_ready_bit_mask p = (let b = unat p mod 32 in push_bit b 1)"

definition rts_ready_priority_is_valid :: "rts_config \<Rightarrow> rts_priority \<Rightarrow> bool" where
  "rts_ready_priority_is_valid cfg p \<longleftrightarrow> unat p < RTS_PRIORITY_COUNT cfg"

definition rts_ready_initialize :: "rts_config \<Rightarrow> rts_kernel_state \<Rightarrow> rts_fatal + rts_kernel_state" where
  "rts_ready_initialize cfg s =
     bnd (for_loop (\<lambda>index. on_lmem (rts_list_initialize cfg (Some (Ready_List index))))
            [0..<RTS_PRIORITY_COUNT cfg] s) (\<lambda>s.
     Inr (s\<lparr>ready_bitmap := replicate (RTS_READY_BITMAP_WORDS cfg) 0\<rparr>))"

definition rts_ready_insert ::
  "rts_config \<Rightarrow> task_ref option \<Rightarrow> rts_kernel_state \<Rightarrow> rts_fatal + rts_kernel_state" where
  "rts_ready_insert cfg tp s =
     require cfg (tp \<noteq> None) s (
     let t = the tp; node = node_at (lmem s) (Ready_Node t); p = priority (tcbs s t);
         word = rts_ready_word_index p in
     require cfg (rts_ready_priority_is_valid cfg p) s (
     require cfg (nd_owner node = None) s (
     require cfg (nd_previous node = None) s (
     require cfg (nd_next node = None) s (
     require cfg (nd_object node = None) s (
     let queue = Ready_List (unat p);
         s = upd_lmem (set_object (Ready_Node t) (Some (Task_Obj t))) s in
     bnd (on_lmem (rts_list_push_back cfg (Some queue) (Some (Ready_Node t))) s) (\<lambda>s.
     if ready_owner t s \<noteq> Some queue then
       let s = upd_lmem (set_object (Ready_Node t) None) s in
       rts_assert cfg (ready_owner t s = Some queue) (Inr s)
     else Inr (s\<lparr>ready_bitmap := (ready_bitmap s)[word := (ready_bitmap s ! word) OR rts_ready_bit_mask p]\<rparr>))))))))"

definition rts_ready_remove ::
  "rts_config \<Rightarrow> task_ref option \<Rightarrow> rts_kernel_state \<Rightarrow> rts_fatal + rts_kernel_state" where
  "rts_ready_remove cfg tp s =
     require cfg (tp \<noteq> None) s (
     let t = the tp; p = priority (tcbs s t) in
     require cfg (rts_ready_priority_is_valid cfg p) s (
     let queue = Ready_List (unat p) in
     require cfg (ready_owner t s = Some queue) s (
     let word = rts_ready_word_index p in
     bnd (on_lmem (rts_list_remove cfg (Some queue) (Some (Ready_Node t))) s) (\<lambda>s.
     require cfg (ready_owner t s = None) s (
     let s = upd_lmem (set_object (Ready_Node t) None) s in
     if ls_count (list_at (lmem s) queue) = 0
     then Inr (s\<lparr>ready_bitmap := (ready_bitmap s)[word := (ready_bitmap s ! word) AND NOT (rts_ready_bit_mask p)]\<rparr>)
     else Inr s)))))"

text \<open>
  The two loops of the scan. The inner one counts \<open>bit_index\<close> down; \<open>Some r\<close> is a return of
  \<open>r\<close> from the function, \<open>None\<close> the end of the loop.
\<close>

fun ready_peek_bits ::
  "rts_config \<Rightarrow> rts_kernel_state \<Rightarrow> nat \<Rightarrow> uint32 \<Rightarrow> nat \<Rightarrow> rts_fatal + task_ref option option" where
  "ready_peek_bits cfg s word_index word 0 = Inr None"
| "ready_peek_bits cfg s word_index word (Suc bit_index) =
     (if (word AND push_bit bit_index 1) = 0 then ready_peek_bits cfg s word_index word bit_index
      else
        let prio = word_index * 32 + bit_index; queue = Ready_List prio;
            head = ls_head (list_at (lmem s) queue) in
        require cfg (prio < RTS_PRIORITY_COUNT cfg) (Some None) (
        require cfg (ls_count (list_at (lmem s) queue) > 0) (Some None) (
        require cfg (head \<noteq> None) (Some None) (
        require cfg (nd_owner (node_at (lmem s) (the head)) = Some queue) (Some None) (
        require cfg (nd_object (node_at (lmem s) (the head)) \<noteq> None) (Some None) (
        let task = obj_task (nd_object (node_at (lmem s) (the head))) in
        require cfg (map_option Ready_Node task = head) (Some None) (
        require cfg (unat (priority (tcbs s (the task))) = prio) (Some None) (
        Inr (Some task)))))))))"

fun ready_peek_words ::
  "rts_config \<Rightarrow> rts_kernel_state \<Rightarrow> nat \<Rightarrow> rts_fatal + task_ref option" where
  "ready_peek_words cfg s 0 = Inr None"
| "ready_peek_words cfg s (Suc word_index) =
     (let word = ready_bitmap s ! word_index in
      if word = 0 then ready_peek_words cfg s word_index
      else bnd (ready_peek_bits cfg s word_index word 32) (\<lambda>r.
        case r of Some t \<Rightarrow> Inr t | None \<Rightarrow> ready_peek_words cfg s word_index))"

definition rts_ready_peek_highest ::
  "rts_config \<Rightarrow> rts_kernel_state \<Rightarrow> rts_fatal + task_ref option" where
  "rts_ready_peek_highest cfg s = ready_peek_words cfg s (RTS_READY_BITMAP_WORDS cfg)"

definition rts_ready_has_peer ::
  "rts_config \<Rightarrow> task_ref option \<Rightarrow> rts_kernel_state \<Rightarrow> rts_fatal + bool" where
  "rts_ready_has_peer cfg tp s =
     require cfg (tp \<noteq> None) False (
     let t = the tp; p = priority (tcbs s t) in
     require cfg (rts_ready_priority_is_valid cfg p) False (
     let queue = Ready_List (unat p) in
     require cfg (ready_owner t s = Some queue) False (
     Inr (ls_count (list_at (lmem s) queue) > 1))))"

definition rts_ready_contains ::
  "rts_config \<Rightarrow> task_ref option \<Rightarrow> rts_kernel_state \<Rightarrow> rts_fatal + bool" where
  "rts_ready_contains cfg tp s =
     require cfg (tp \<noteq> None) False (
     let t = the tp; p = priority (tcbs s t) in
     require cfg (rts_ready_priority_is_valid cfg p) False (
     Inr (ready_owner t s = Some (Ready_List (unat p)))))"

definition rts_ready_is_front ::
  "rts_config \<Rightarrow> task_ref option \<Rightarrow> rts_kernel_state \<Rightarrow> rts_fatal + bool" where
  "rts_ready_is_front cfg tp s =
     require cfg (tp \<noteq> None) False (
     let t = the tp; p = priority (tcbs s t) in
     require cfg (rts_ready_priority_is_valid cfg p) False (
     let queue = Ready_List (unat p) in
     require cfg (ready_owner t s = Some queue) False (
     require cfg (ls_count (list_at (lmem s) queue) > 0) False (
     require cfg (ls_head (list_at (lmem s) queue) \<noteq> None) False (
     Inr (ls_head (list_at (lmem s) queue) = Some (Ready_Node t)))))))"

definition rts_ready_only_contains ::
  "rts_config \<Rightarrow> task_ref option \<Rightarrow> rts_kernel_state \<Rightarrow> rts_fatal + bool" where
  "rts_ready_only_contains cfg tp s =
     (if tp = None then Inr False
      else bnd (rts_ready_contains cfg tp s) (\<lambda>c.
        if \<not> c then Inr False
        else if list_all (\<lambda>p. ls_count (list_at (lmem s) (Ready_List p)) =
                  (if p = unat (priority (tcbs s (the tp))) then 1 else 0)) [0..<RTS_PRIORITY_COUNT cfg]
        then bnd (rts_ready_peek_highest cfg s) (\<lambda>r. Inr (r = tp))
        else Inr False))"

definition rts_ready_rotate ::
  "rts_config \<Rightarrow> rts_priority \<Rightarrow> rts_kernel_state \<Rightarrow> rts_fatal + rts_kernel_state" where
  "rts_ready_rotate cfg p s =
     require cfg (rts_ready_priority_is_valid cfg p) s (
     let queue = Ready_List (unat p) in
     require cfg (ls_count (list_at (lmem s) queue) > 1) s (
     require cfg (ls_head (list_at (lmem s) queue) \<noteq> None) s (
     let front = ls_head (list_at (lmem s) queue) in
     bnd (on_lmem (rts_list_remove cfg (Some queue) front) s) (\<lambda>s.
     require cfg (nd_owner (node_at (lmem s) (the front)) = None) s (
     bnd (on_lmem (rts_list_push_back cfg (Some queue) front) s) (\<lambda>s.
     require cfg (nd_owner (node_at (lmem s) (the front)) = Some queue) s (Inr s)))))))"

text \<open>The check of one node of \<open>priority_queue[p]\<close> in the validator.\<close>

definition ready_node_check :: "rts_kernel_state \<Rightarrow> nat \<Rightarrow> node_ref option \<Rightarrow> node_ref \<Rightarrow> bool" where
  "ready_node_check s p previous node =
     (let nd = node_at (lmem s) node; task = obj_task (nd_object nd) in
      \<not> (nd_owner nd \<noteq> Some (Ready_List p) \<or> nd_previous nd \<noteq> previous \<or> nd_object nd = None \<or>
         map_option Ready_Node task \<noteq> Some node \<or> unat (priority (tcbs s (the task))) \<noteq> p))"

definition ready_validate_queue :: "rts_config \<Rightarrow> rts_kernel_state \<Rightarrow> nat \<Rightarrow> bool" where
  "ready_validate_queue cfg s p =
     (let queue = list_at (lmem s) (Ready_List p);
          bit = (ready_bitmap s ! (p div 32)) AND push_bit (p mod 32) 1 \<noteq> 0 in
      case check_walk (RTS_SCHEDULABLE_TASK_CAPACITY cfg + 1) (ready_node_check s p)
             (\<lambda>n. nd_next (node_at (lmem s) n)) (ls_head queue) None 0 of
        None \<Rightarrow> False
      | Some (node, previous, n) \<Rightarrow>
          \<not> (node \<noteq> None \<or> n \<noteq> ls_count queue \<or> previous \<noteq> ls_tail queue \<or> bit \<noteq> (n \<noteq> 0)))"

definition rts_ready_validate :: "rts_config \<Rightarrow> rts_kernel_state \<Rightarrow> bool" where
  "rts_ready_validate cfg s = list_all (ready_validate_queue cfg s) [0..<RTS_PRIORITY_COUNT cfg]"

section \<open>Invariant\<close>

text \<open>The logical content of one ready queue.\<close>

fun node_task :: "node_ref \<Rightarrow> task_ref" where
  "node_task (Ready_Node t) = t"
| "node_task (Delay_Node t) = t"
| "node_task (Timer_Node i) = App i"

definition ready_tasks :: "rts_kernel_state \<Rightarrow> nat \<Rightarrow> task_ref list" where
  "ready_tasks s p = map node_task (nodes_of (lmem s) (Ready_List p))"

text \<open>Bit \<open>p\<close> of the bitmap.\<close>

definition ready_bit :: "uint32 list \<Rightarrow> nat \<Rightarrow> bool" where
  "ready_bit bm p \<longleftrightarrow> bit (bm ! (p div 32)) (p mod 32)"

definition ready_inv :: "rts_config \<Rightarrow> rts_kernel_state \<Rightarrow> bool" where
  "ready_inv cfg s \<longleftrightarrow>
     mem_ok (lmem s) \<and>
     (\<forall>p. \<forall>n \<in> set (nodes_of (lmem s) (Ready_List p)).
        \<exists>t. n = Ready_Node t \<and> valid_task cfg t \<and> unat (priority (tcbs s t)) = p \<and>
          p < RTS_PRIORITY_COUNT cfg) \<and>
     (\<forall>t. nd_object (node_at (lmem s) (Ready_Node t)) =
        (if ready_owner t s = None then None else Some (Task_Obj t))) \<and>
     length (ready_bitmap s) = RTS_READY_BITMAP_WORDS cfg \<and>
     (\<forall>p < 32 * RTS_READY_BITMAP_WORDS cfg.
        ready_bit (ready_bitmap s) p \<longleftrightarrow> nodes_of (lmem s) (Ready_List p) \<noteq> [])"

lemma ready_invD:
  assumes "ready_inv cfg s"
  shows "mem_ok (lmem s)"
    and "n \<in> set (nodes_of (lmem s) (Ready_List p)) \<Longrightarrow> \<exists>t. n = Ready_Node t \<and> valid_task cfg t \<and>
      unat (priority (tcbs s t)) = p \<and> p < RTS_PRIORITY_COUNT cfg"
    and "nd_object (node_at (lmem s) (Ready_Node t)) = (if ready_owner t s = None then None else Some (Task_Obj t))"
    and "length (ready_bitmap s) = RTS_READY_BITMAP_WORDS cfg"
    and "p < 32 * RTS_READY_BITMAP_WORDS cfg \<Longrightarrow>
      ready_bit (ready_bitmap s) p \<longleftrightarrow> nodes_of (lmem s) (Ready_List p) \<noteq> []"
  using assms unfolding ready_inv_def by blast+

lemma ready_nodes_of:
  assumes "ready_inv cfg s"
  shows "nodes_of (lmem s) (Ready_List p) = map Ready_Node (ready_tasks s p)"
proof -
  have "map (Ready_Node \<circ> node_task) (nodes_of (lmem s) (Ready_List p)) =
      map (\<lambda>n. n) (nodes_of (lmem s) (Ready_List p))"
    by (rule map_cong) (auto dest: ready_invD(2) [OF assms])
  then show ?thesis by (simp add: ready_tasks_def)
qed

lemma ready_tasks_iff:
  assumes "ready_inv cfg s"
  shows "t \<in> set (ready_tasks s p) \<longleftrightarrow> ready_owner t s = Some (Ready_List p)"
  using mem_okD(3) [OF ready_invD(1) [OF assms], of "Ready_Node t" "Ready_List p"]
  by (auto simp: ready_nodes_of [OF assms])

lemma ready_tasks_priority:
  assumes "ready_inv cfg s" and "t \<in> set (ready_tasks s p)"
  shows "unat (priority (tcbs s t)) = p" and "valid_task cfg t" and "p < RTS_PRIORITY_COUNT cfg"
  using ready_invD(2) [OF assms(1), of "Ready_Node t" p] assms(2)
  by (auto simp: ready_nodes_of [OF assms(1)])

lemma distinct_ready_tasks: "ready_inv cfg s \<Longrightarrow> distinct (ready_tasks s p)"
  using mem_okD(1) [OF ready_invD(1), of cfg s "Ready_List p"]
  by (simp add: ready_nodes_of distinct_map)

lemma ready_tasks_length:
  assumes "ready_inv cfg s"
  shows "length (nodes_of (lmem s) (Ready_List p)) \<le> RTS_MAX_TASKS cfg + 2"
  using mem_okD(1) [OF ready_invD(1) [OF assms]] ready_invD(2) [OF assms]
  by (intro valid_task_nodes_length [where f = Ready_Node]) blast+

lemma ready_tasks_room:
  "ready_inv cfg s \<Longrightarrow> config_ok cfg \<Longrightarrow> length (nodes_of (lmem s) (Ready_List p)) < SIZE_MAX"
  by (rule config_ok_room [OF _ ready_tasks_length])

text \<open>Bits of the bitmap under the two updates of the code.\<close>

lemma word_index_less:
  "p < RTS_PRIORITY_COUNT cfg \<Longrightarrow> p div 32 < RTS_READY_BITMAP_WORDS cfg"
  by (simp add: RTS_READY_BITMAP_WORDS_def)

lemma priority_bit_less:
  "p < RTS_PRIORITY_COUNT cfg \<Longrightarrow> p < 32 * RTS_READY_BITMAP_WORDS cfg"
  by (simp add: RTS_READY_BITMAP_WORDS_def)

lemma bit_ready_bit_mask: "bit (rts_ready_bit_mask p) b \<longleftrightarrow> b = unat p mod 32"
proof -
  have "unat p mod 32 < 32" by simp
  then show ?thesis
    by (auto simp: rts_ready_bit_mask_def Let_def push_bit_of_1 bit_exp_iff)
qed

lemma ready_bit_set:
  assumes "unat p div 32 < length bm" and "q < 32 * length bm"
  shows "ready_bit (bm[rts_ready_word_index p := (bm ! rts_ready_word_index p) OR rts_ready_bit_mask p]) q \<longleftrightarrow>
    q = unat p \<or> ready_bit bm q"
proof (cases "q div 32 = unat p div 32")
  case True
  then have "q mod 32 = unat p mod 32 \<longleftrightarrow> q = unat p"
    by (metis mult_div_mod_eq)
  with True assms show ?thesis
    by (auto simp: ready_bit_def rts_ready_word_index_def bit_or_iff bit_ready_bit_mask)
qed (auto simp: ready_bit_def rts_ready_word_index_def)

lemma ready_bit_clear:
  assumes "unat p div 32 < length bm" and "q < 32 * length bm"
  shows "ready_bit (bm[rts_ready_word_index p := (bm ! rts_ready_word_index p) AND NOT (rts_ready_bit_mask p)]) q \<longleftrightarrow>
    q \<noteq> unat p \<and> ready_bit bm q"
proof (cases "q div 32 = unat p div 32")
  case True
  then have "q mod 32 = unat p mod 32 \<longleftrightarrow> q = unat p"
    by (metis mult_div_mod_eq)
  moreover have "q mod 32 < 32" by simp
  ultimately show ?thesis
    using True assms
    by (auto simp: ready_bit_def rts_ready_word_index_def bit_and_iff bit_not_iff bit_ready_bit_mask)
qed (auto simp: ready_bit_def rts_ready_word_index_def)

section \<open>Refinement\<close>

text \<open>
  Objects other than that of one node are untouched, and the owner of a node is read off the
  lists: the frame every queue operation leaves.
\<close>

definition objects_but :: "'n \<Rightarrow> ('n, 'l, 'o) list_mem \<Rightarrow> ('n, 'l, 'o) list_mem \<Rightarrow> bool" where
  "objects_but n m m' \<longleftrightarrow> (\<forall>k. k \<noteq> n \<longrightarrow> nd_object (node_at m' k) = nd_object (node_at m k))"

lemma ready_inv_update:
  assumes inv: "ready_inv cfg s" and m: "mem_ok m" and obj: "objects_but (Ready_Node t) (lmem s) m"
    and nodes: "nodes_of m = (nodes_of (lmem s))(Ready_List p := xs)"
    and xs: "set xs - {Ready_Node t} \<subseteq> set (nodes_of (lmem s) (Ready_List p))"
      "set (nodes_of (lmem s) (Ready_List p)) - {Ready_Node t} \<subseteq> set xs"
    and t: "valid_task cfg t" "unat (priority (tcbs s t)) = p" "p < RTS_PRIORITY_COUNT cfg"
    and ob: "nd_object (node_at m (Ready_Node t)) =
      (if nd_owner (node_at m (Ready_Node t)) = None then None else Some (Task_Obj t))"
    and bm: "length b = RTS_READY_BITMAP_WORDS cfg"
      "\<And>q. q < 32 * RTS_READY_BITMAP_WORDS cfg \<Longrightarrow>
        ready_bit b q \<longleftrightarrow> (if q = p then xs \<noteq> [] else ready_bit (ready_bitmap s) q)"
  shows "ready_inv cfg (s\<lparr>lmem := m, ready_bitmap := b\<rparr>)"
proof -
  have owner: "nd_owner (node_at m n) = None \<longleftrightarrow> nd_owner (node_at (lmem s) n) = None"
    if "n \<noteq> Ready_Node t" for n
  proof -
    have "(\<forall>l. n \<notin> set (nodes_of m l)) \<longleftrightarrow> (\<forall>l. n \<notin> set (nodes_of (lmem s) l))"
      using xs that unfolding nodes by (auto split: if_splits)
    then show ?thesis
      using mem_okD(4) [OF m, of n] mem_okD(4) [OF ready_invD(1) [OF inv], of n] by simp
  qed
  have "\<exists>t'. n = Ready_Node t' \<and> valid_task cfg t' \<and> unat (priority (tcbs s t')) = q \<and>
      q < RTS_PRIORITY_COUNT cfg" if "n \<in> set (nodes_of m (Ready_List q))" for n q
  proof (cases "n = Ready_Node t \<and> q = p")
    case False
    then have "n \<in> set (nodes_of (lmem s) (Ready_List q))"
      using that xs(1) by (auto simp: nodes split: if_splits)
    from ready_invD(2) [OF inv this] show ?thesis .
  qed (use t in simp)
  moreover have "nd_object (node_at m (Ready_Node t')) =
      (if nd_owner (node_at m (Ready_Node t')) = None then None else Some (Task_Obj t'))" for t'
  proof (cases "t' = t")
    case False
    with obj owner [of "Ready_Node t'"] ready_invD(3) [OF inv, of t'] show ?thesis
      by (simp add: objects_but_def)
  qed (use ob in simp)
  ultimately show ?thesis
    using m bm ready_invD(5) [OF inv] by (auto simp: ready_inv_def nodes)
qed

lemma ready_insert_ok:
  assumes inv: "ready_inv cfg s" and cfg: "config_ok cfg" and free: "ready_owner t s = None"
    and t: "valid_task cfg t" "unat (priority (tcbs s t)) < RTS_PRIORITY_COUNT cfg"
  defines "q \<equiv> Ready_List (unat (priority (tcbs s t)))"
  obtains m b where "rts_ready_insert cfg (Some t) s = Inr (s\<lparr>lmem := m, ready_bitmap := b\<rparr>)"
    and "ready_inv cfg (s\<lparr>lmem := m, ready_bitmap := b\<rparr>)"
    and "nodes_of m = (nodes_of (lmem s))(q := nodes_of (lmem s) q @ [Ready_Node t])"
    and "objects_but (Ready_Node t) (lmem s) m"
proof -
  let ?p = "priority (tcbs s t)"
  let ?m0 = "set_object (Ready_Node t) (Some (Task_Obj t)) (lmem s)"
  let ?w = "rts_ready_word_index ?p"
  let ?b = "(ready_bitmap s)[?w := (ready_bitmap s ! ?w) OR rts_ready_bit_mask ?p]"
  note D = ready_invD [OF inv]
  have m0: "mem_ok ?m0" "nodes_of ?m0 = nodes_of (lmem s)" using D(1) by simp_all
  obtain m where push: "rts_list_push_back cfg (Some q) (Some (Ready_Node t)) ?m0 = Inr m"
    and m: "mem_ok m" "nodes_of m = (nodes_of (lmem s))(q := nodes_of (lmem s) q @ [Ready_Node t])"
      "same_objects ?m0 m"
    using push_back_ok [OF m0(1), of "Ready_Node t" q cfg] free ready_tasks_room [OF inv cfg]
    unfolding m0(2) q_def by auto
  have owner: "nd_owner (node_at m (Ready_Node t)) = Some q"
    using mem_okD(3) [OF m(1), of "Ready_Node t" q] by (simp add: m(2))
  have obj: "objects_but (Ready_Node t) (lmem s) m"
    and ob: "nd_object (node_at m (Ready_Node t)) = Some (Task_Obj t)"
    using m(3) by (simp_all add: objects_but_def same_objects_def)
  have "rts_ready_insert cfg (Some t) s = Inr (s\<lparr>lmem := m, ready_bitmap := ?b\<rparr>)"
    using free D(3) [of t] mem_okD(5,6) [OF D(1), of "Ready_Node t"] t(2) push owner
    by (simp add: rts_ready_insert_def Let_def rts_ready_priority_is_valid_def upd_lmem_def
        on_lmem_def q_def)
  moreover have "ready_inv cfg (s\<lparr>lmem := m, ready_bitmap := ?b\<rparr>)"
    using t D(4) owner ob m(2) word_index_less [OF t(2)] unfolding q_def
    by (intro ready_inv_update [OF inv m(1) obj, where p = "unat ?p"]) (auto simp: ready_bit_set)
  ultimately show ?thesis using that m(2) obj by blast
qed

lemma ready_remove_ok:
  assumes inv: "ready_inv cfg s" and t: "t \<in> set (ready_tasks s p)"
  obtains m b where "rts_ready_remove cfg (Some t) s = Inr (s\<lparr>lmem := m, ready_bitmap := b\<rparr>)"
    and "ready_inv cfg (s\<lparr>lmem := m, ready_bitmap := b\<rparr>)"
    and "nodes_of m = (nodes_of (lmem s))(Ready_List p := remove1 (Ready_Node t) (nodes_of (lmem s) (Ready_List p)))"
    and "objects_but (Ready_Node t) (lmem s) m" and "nd_owner (node_at m (Ready_Node t)) = None"
proof -
  note D = ready_invD [OF inv] and T = ready_tasks_priority [OF inv t]
  let ?p = "priority (tcbs s t)" and ?q = "Ready_List p"
  let ?w = "rts_ready_word_index ?p"
  have own: "ready_owner t s = Some ?q" using ready_tasks_iff [OF inv, of t p] t by simp
  have mem: "Ready_Node t \<in> set (nodes_of (lmem s) ?q)"
    using mem_okD(3) [OF D(1), of "Ready_Node t" ?q] own by simp
  obtain m1 where rem: "rts_list_remove cfg (Some ?q) (Some (Ready_Node t)) (lmem s) = Inr m1"
    and m1: "mem_ok m1" "nodes_of m1 = (nodes_of (lmem s))(?q := remove1 (Ready_Node t) (nodes_of (lmem s) ?q))"
      "same_objects (lmem s) m1" "nd_owner (node_at m1 (Ready_Node t)) = None"
    using remove_ok [OF D(1) mem, of cfg] by metis
  let ?m = "set_object (Ready_Node t) None m1"
  let ?b = "if remove1 (Ready_Node t) (nodes_of (lmem s) ?q) = []
    then (ready_bitmap s)[?w := (ready_bitmap s ! ?w) AND NOT (rts_ready_bit_mask ?p)] else ready_bitmap s"
  have m: "mem_ok ?m" "nodes_of ?m = nodes_of m1" using m1(1) by simp_all
  have count: "ls_count (list_at ?m ?q) = length (remove1 (Ready_Node t) (nodes_of (lmem s) ?q))"
    using mem_okD(2) [OF m(1), of ?q] by (simp add: m(2) m1(2))
  have obj: "objects_but (Ready_Node t) (lmem s) ?m"
    using m1(3) by (simp add: objects_but_def same_objects_def)
  have "rts_ready_remove cfg (Some t) s = Inr (s\<lparr>lmem := ?m, ready_bitmap := ?b\<rparr>)"
    using own rem m1(4) T count
    by (simp add: rts_ready_remove_def Let_def rts_ready_priority_is_valid_def upd_lmem_def on_lmem_def)
  moreover have "ready_inv cfg (s\<lparr>lmem := ?m, ready_bitmap := ?b\<rparr>)"
  proof (rule ready_inv_update [OF inv m(1) obj, where p = p])
    show "nodes_of ?m = (nodes_of (lmem s))(Ready_List p := remove1 (Ready_Node t) (nodes_of (lmem s) ?q))"
      by (simp add: m(2) m1(2))
    show "set (remove1 (Ready_Node t) (nodes_of (lmem s) ?q)) - {Ready_Node t} \<subseteq> set (nodes_of (lmem s) ?q)"
      using set_remove1_subset [of "Ready_Node t" "nodes_of (lmem s) ?q"] by blast
    show "set (nodes_of (lmem s) ?q) - {Ready_Node t} \<subseteq> set (remove1 (Ready_Node t) (nodes_of (lmem s) ?q))"
      by (simp add: set_remove1_eq [OF mem_okD(1) [OF D(1)]])
    show "ready_bit ?b q \<longleftrightarrow> (if q = p then remove1 (Ready_Node t) (nodes_of (lmem s) ?q) \<noteq> []
        else ready_bit (ready_bitmap s) q)" if "q < 32 * RTS_READY_BITMAP_WORDS cfg" for q
      using that T D(4) D(5) [OF that] word_index_less [OF T(3)] mem
      by (auto simp: ready_bit_clear)
  qed (use T m1(4) D(4) in simp_all)
  ultimately show ?thesis using that m(2) m1(2,4) obj by simp
qed

lemma ready_rotate_ok:
  assumes inv: "ready_inv cfg s" and cfg: "config_ok cfg" and p: "unat p < RTS_PRIORITY_COUNT cfg"
    and peer: "1 < length (ready_tasks s (unat p))"
  defines "q \<equiv> Ready_List (unat p)"
  obtains m where "rts_ready_rotate cfg p s = Inr (s\<lparr>lmem := m\<rparr>)" and "ready_inv cfg (s\<lparr>lmem := m\<rparr>)"
    and "nodes_of m = (nodes_of (lmem s))(q := tl (nodes_of (lmem s) q) @ [hd (nodes_of (lmem s) q)])"
    and "same_objects (lmem s) m"
proof -
  note D = ready_invD [OF inv]
  obtain x xs where xs: "nodes_of (lmem s) q = x # xs" "xs \<noteq> []"
    using peer unfolding ready_tasks_def q_def [symmetric]
    by (cases "nodes_of (lmem s) q") auto
  obtain t where t: "x = Ready_Node t" "valid_task cfg t" "unat (priority (tcbs s t)) = unat p"
    using D(2) [of x "unat p"] xs(1) q_def by auto
  obtain m1 where rem: "rts_list_remove cfg (Some q) (Some x) (lmem s) = Inr m1"
    and m1: "mem_ok m1" "nodes_of m1 = (nodes_of (lmem s))(q := xs)" "same_objects (lmem s) m1"
      "nd_owner (node_at m1 x) = None"
    using remove_ok [OF D(1), of x q cfg] xs(1) by auto
  have room: "length (nodes_of m1 q) < SIZE_MAX"
    using ready_tasks_room [OF inv cfg, of "unat p"] xs(1) by (simp add: m1(2) q_def)
  obtain m where push: "rts_list_push_back cfg (Some q) (Some x) m1 = Inr m"
    and m: "mem_ok m" "nodes_of m = (nodes_of (lmem s))(q := xs @ [x])" "same_objects m1 m"
    using push_back_ok [OF m1(1,4) room, of cfg] by (auto simp: m1(2))
  have ls: "list_at (lmem s) q = list_of_nodes (x # xs)"
    using mem_okD(2) [OF D(1), of q] xs(1) by simp
  have own: "nd_owner (node_at m x) = Some q"
    using mem_okD(3) [OF m(1), of x q] by (simp add: m(2))
  have obj: "same_objects (lmem s) m" using m1(3) m(3) by (simp add: same_objects_def)
  have "rts_ready_rotate cfg p s = Inr (s\<lparr>lmem := m\<rparr>)"
    using p xs(2) ls rem push m1(4) own
    by (simp add: rts_ready_rotate_def Let_def rts_ready_priority_is_valid_def on_lmem_def
        q_def [symmetric])
  moreover have "ready_inv cfg (s\<lparr>lmem := m, ready_bitmap := ready_bitmap s\<rparr>)"
  proof (rule ready_inv_update [OF inv m(1), where p = "unat p" and t = t])
    show "objects_but (Ready_Node t) (lmem s) m"
      using obj by (simp add: objects_but_def same_objects_def)
    show "nd_object (node_at m (Ready_Node t)) =
        (if nd_owner (node_at m (Ready_Node t)) = None then None else Some (Task_Obj t))"
      using own D(3) [of t] obj mem_okD(3) [OF D(1), of x q] xs(1)
      by (simp add: t(1) same_objects_def)
    show "ready_bit (ready_bitmap s) r \<longleftrightarrow> (if r = unat p then xs @ [x] \<noteq> []
        else ready_bit (ready_bitmap s) r)" if "r < 32 * RTS_READY_BITMAP_WORDS cfg" for r
      using D(5) [OF that] xs(1) by (auto simp: q_def)
  qed (use t p m(2) xs(1) D(4) in \<open>auto simp: q_def\<close>)
  ultimately show ?thesis using that m(2) obj xs(1) by simp
qed

section \<open>The scan\<close>

text \<open>
  The order in which the fixed-priority policies serve the ready tasks: by priority from the
  highest down, first-in first-out within one priority.
\<close>

definition fp_order :: "rts_config \<Rightarrow> rts_kernel_state \<Rightarrow> task_ref list" where
  "fp_order cfg s = concat (map (ready_tasks s) (rev [0..<RTS_PRIORITY_COUNT cfg]))"

text \<open>Reading the head of one nonempty queue passes all seven guards.\<close>

lemma ready_peek_bits_order:
  assumes inv: "ready_inv cfg s" and w: "w < RTS_READY_BITMAP_WORDS cfg" and "b \<le> 32"
  shows "ready_peek_bits cfg s w (ready_bitmap s ! w) b =
    Inr (map_option Some (hd_or (concat (map (ready_tasks s) (rev [w * 32..<w * 32 + b]))) None))"
  using \<open>b \<le> 32\<close>
proof (induction b)
  case (Suc b)
  let ?p = "w * 32 + b"
  note D = ready_invD [OF inv]
  have p: "?p < 32 * RTS_READY_BITMAP_WORDS cfg" "?p div 32 = w" "?p mod 32 = b"
    using w Suc.prems by auto
  have bit: "bit (ready_bitmap s ! w) b \<longleftrightarrow> ready_tasks s ?p \<noteq> []"
    using D(5) [OF p(1)] p(2,3) by (simp add: ready_bit_def ready_nodes_of [OF inv])
  show ?case
  proof (cases "ready_tasks s ?p")
    case Nil
    then show ?thesis using Suc bit by (simp add: and_exp_eq_0_iff_not_bit)
  next
    case (Cons t ts)
    have T: "unat (priority (tcbs s t)) = ?p" "?p < RTS_PRIORITY_COUNT cfg"
      using ready_tasks_priority [OF inv, of t ?p] Cons by simp_all
    have own: "ready_owner t s = Some (Ready_List ?p)"
      using ready_tasks_iff [OF inv, of t ?p] Cons by simp
    have "nodes_of (lmem s) (Ready_List ?p) = Ready_Node t # map Ready_Node ts"
      by (simp add: ready_nodes_of [OF inv] Cons)
    then have "list_at (lmem s) (Ready_List ?p) = list_of_nodes (Ready_Node t # map Ready_Node ts)"
      using mem_okD(2) [OF D(1), of "Ready_List ?p"] by simp
    with own D(3) [of t] T bit Cons show ?thesis
      by (simp add: and_exp_eq_0_iff_not_bit Let_def)
  qed
qed simp

lemma ready_peek_words_order:
  assumes inv: "ready_inv cfg s" and "w \<le> RTS_READY_BITMAP_WORDS cfg"
  shows "ready_peek_words cfg s w = Inr (hd_or (concat (map (ready_tasks s) (rev [0..<w * 32]))) None)"
  using \<open>w \<le> RTS_READY_BITMAP_WORDS cfg\<close>
proof (induction w)
  case (Suc w)
  have split: "rev [0..<Suc w * 32] = rev [w * 32..<w * 32 + 32] @ rev [0..<w * 32]"
    by (metis (no_types) add.commute le_add1 le_add2 mult_Suc rev_append upt_add_eq_append zero_le)
  define xs where "xs = concat (map (ready_tasks s) (rev [w * 32..<w * 32 + 32]))"
  have bits: "ready_peek_bits cfg s w (ready_bitmap s ! w) 32 = Inr (map_option Some (hd_or xs None))"
    using ready_peek_bits_order [OF inv, of w 32] Suc.prems unfolding xs_def by simp
  have zero: "xs = []" if "ready_bitmap s ! w = 0"
  proof -
    have "ready_tasks s p = []" if "w * 32 \<le> p" "p < w * 32 + 32" for p
    proof -
      have "p div 32 = w" "p < 32 * RTS_READY_BITMAP_WORDS cfg" using that Suc.prems by auto
      with ready_invD(5) [OF inv, of p] \<open>ready_bitmap s ! w = 0\<close> show ?thesis
        by (simp add: ready_bit_def ready_nodes_of [OF inv])
    qed
    then show ?thesis by (simp add: xs_def)
  qed
  have "concat (map (ready_tasks s) (rev [0..<Suc w * 32])) =
      xs @ concat (map (ready_tasks s) (rev [0..<w * 32]))"
    unfolding split xs_def by simp
  with Suc bits zero show ?case
    by (cases xs) (auto simp: Let_def)
qed simp

theorem ready_peek_highest_ok:
  assumes inv: "ready_inv cfg s"
  shows "rts_ready_peek_highest cfg s = Inr (hd_or (fp_order cfg s) None)"
proof -
  let ?n = "RTS_READY_BITMAP_WORDS cfg * 32"
  have le: "RTS_PRIORITY_COUNT cfg \<le> ?n"
    by (simp add: RTS_READY_BITMAP_WORDS_def)
  have "ready_tasks s p = []" if "RTS_PRIORITY_COUNT cfg \<le> p" for p
    using ready_tasks_priority(3) [OF inv, of "hd (ready_tasks s p)" p] that
    by (cases "ready_tasks s p") simp_all
  then have "concat (map (ready_tasks s) (rev [RTS_PRIORITY_COUNT cfg..<?n])) = []"
    by simp
  moreover have "rev [0..<?n] = rev [RTS_PRIORITY_COUNT cfg..<?n] @ rev [0..<RTS_PRIORITY_COUNT cfg]"
    using le by (metis le_add_diff_inverse rev_append upt_add_eq_append zero_le)
  ultimately have "concat (map (ready_tasks s) (rev [0..<?n])) = fp_order cfg s"
    by (simp add: fp_order_def)
  then show ?thesis
    using ready_peek_words_order [OF inv order.refl] by (simp add: rts_ready_peek_highest_def)
qed

section \<open>The service order\<close>

lemma fp_order_iff:
  assumes "ready_inv cfg s"
  shows "t \<in> set (fp_order cfg s) \<longleftrightarrow> ready_owner t s = Some (Ready_List (unat (priority (tcbs s t))))"
proof -
  have "t \<in> set (fp_order cfg s) \<longleftrightarrow> (\<exists>p < RTS_PRIORITY_COUNT cfg. t \<in> set (ready_tasks s p))"
    by (auto simp: fp_order_def)
  also have "\<dots> \<longleftrightarrow> t \<in> set (ready_tasks s (unat (priority (tcbs s t))))"
    using ready_tasks_priority(1,3) [OF assms, of t] by blast
  finally show ?thesis by (simp add: ready_tasks_iff [OF assms])
qed

lemma distinct_concat_keyed:
  assumes "distinct ps" and "\<And>p. distinct (f p)" and "\<And>p x. x \<in> set (f p) \<Longrightarrow> key x = p"
  shows "distinct (concat (map f ps))"
  using assms
proof (induction ps)
  case (Cons p ps)
  have "x \<notin> set (concat (map f ps))" if "x \<in> set (f p)" for x
  proof
    assume "x \<in> set (concat (map f ps))"
    then obtain p' where "p' \<in> set ps" "x \<in> set (f p')" by auto
    with Cons.prems(3) [of x p] Cons.prems(3) [of x p'] that Cons.prems(1) show False by simp
  qed
  then have "set (f p) \<inter> set (concat (map f ps)) = {}" by blast
  with Cons show ?case by (simp del: set_concat)
qed simp

lemma distinct_fp_order:
  assumes "ready_inv cfg s"
  shows "distinct (fp_order cfg s)"
  unfolding fp_order_def using distinct_ready_tasks [OF assms] ready_tasks_priority(1) [OF assms]
  by (intro distinct_concat_keyed [where key = "\<lambda>t. unat (priority (tcbs s t))"]) auto

lemma stable_insert_skip:
  "(\<And>y. y \<in> set xs \<Longrightarrow> \<not> lt x y) \<Longrightarrow> stable_insert lt x (xs @ ys) = xs @ stable_insert lt x ys"
  by (induction xs) auto

lemma stable_insert_front: "(\<And>y. y \<in> set ys \<Longrightarrow> lt x y) \<Longrightarrow> stable_insert lt x ys = x # ys"
  by (cases ys) auto

text \<open>
  Appending to the queue of one priority is a stable insertion into the whole order, and
  removing from it a removal from the whole order.
\<close>

lemma concat_queues_insert:
  fixes key :: "'a \<Rightarrow> nat"
  assumes "\<And>p x. x \<in> set (f p) \<Longrightarrow> key x = p" and "key t < n"
    and "g (key t) = f (key t) @ [t]" and "\<And>p. p \<noteq> key t \<Longrightarrow> g p = f p"
  shows "concat (map g (rev [0..<n])) =
    stable_insert (\<lambda>x y. key y < key x) t (concat (map f (rev [0..<n])))"
  using assms(2)
proof (induction n)
  case (Suc n)
  show ?case
  proof (cases "key t = n")
    case True
    have "key y < n" if "y \<in> set (concat (map f (rev [0..<n])))" for y
      using that assms(1) by auto
    then have "stable_insert (\<lambda>x y. key y < key x) t (concat (map f (rev [0..<n]))) =
        t # concat (map f (rev [0..<n]))"
      using True by (intro stable_insert_front) auto
    moreover have "concat (map g (rev [0..<n])) = concat (map f (rev [0..<n]))"
      using assms(4) True by (intro arg_cong [where f = concat] map_cong) auto
    ultimately show ?thesis
      using assms(1) [of _ n] assms(3) True by (simp add: stable_insert_skip)
  next
    case False
    then have "key t < n" using Suc.prems by simp
    then have "stable_insert (\<lambda>x y. key y < key x) t (f n @ concat (map f (rev [0..<n]))) =
        f n @ stable_insert (\<lambda>x y. key y < key x) t (concat (map f (rev [0..<n])))"
      using assms(1) [of _ n] by (intro stable_insert_skip) auto
    with Suc.IH [OF \<open>key t < n\<close>] assms(4) [of n] False show ?thesis by simp
  qed
qed simp

lemma concat_queues_remove:
  assumes "\<And>p x. x \<in> set (f p) \<Longrightarrow> key x = p" and "distinct ps"
    and "g (key t) = remove1 t (f (key t))" and "\<And>p. p \<noteq> key t \<Longrightarrow> g p = f p"
  shows "concat (map g ps) = remove1 t (concat (map f ps))"
  using assms(2)
proof (induction ps)
  case (Cons p ps)
  show ?case
  proof (cases "p = key t")
    case True
    have "t \<notin> set (concat (map f ps))"
      using Cons.prems True assms(1) by auto
    moreover have "concat (map g ps) = concat (map f ps)"
      using Cons.prems True by (intro arg_cong [where f = concat] map_cong assms(4)) auto
    ultimately show ?thesis
      using True assms(3) by (simp add: remove1_append remove1_idem)
  next
    case False
    then have "t \<notin> set (f p)" using assms(1) [of t p] by auto
    with False Cons assms(4) [of p] show ?thesis by (simp add: remove1_append)
  qed
qed simp

text \<open>Higher priority first: the order relation of the fixed-priority policies.\<close>

definition fp_before :: "rts_kernel_state \<Rightarrow> task_ref \<Rightarrow> task_ref \<Rightarrow> bool" where
  "fp_before s x y \<longleftrightarrow> unat (priority (tcbs s y)) < unat (priority (tcbs s x))"

lemma fp_order_insert:
  assumes "ready_inv cfg s" and "p < RTS_PRIORITY_COUNT cfg" and "p = unat (priority (tcbs s t))"
    and "nodes_of m = (nodes_of (lmem s))(Ready_List p := nodes_of (lmem s) (Ready_List p) @ [Ready_Node t])"
  shows "fp_order cfg (s\<lparr>lmem := m, ready_bitmap := b\<rparr>) = stable_insert (fp_before s) t (fp_order cfg s)"
proof -
  have "ready_tasks (s\<lparr>lmem := m, ready_bitmap := b\<rparr>) = (ready_tasks s)(p := ready_tasks s p @ [t])"
    using assms(4) by (auto simp: ready_tasks_def fun_eq_iff)
  then show ?thesis
    unfolding fp_order_def fp_before_def [abs_def]
    using assms(2,3) ready_tasks_priority(1) [OF assms(1)]
    by (intro concat_queues_insert) auto
qed

lemma fp_order_remove:
  assumes inv: "ready_inv cfg s" and "p = unat (priority (tcbs s t))"
    and nodes: "nodes_of m = (nodes_of (lmem s))(Ready_List p := remove1 (Ready_Node t) (nodes_of (lmem s) (Ready_List p)))"
  shows "fp_order cfg (s\<lparr>lmem := m, ready_bitmap := b\<rparr>) = remove1 t (fp_order cfg s)"
proof -
  have "map node_task (remove1 (Ready_Node t) (map Ready_Node ts)) = remove1 t ts" for ts
    by (induction ts) (auto simp: comp_def)
  then have "map node_task (nodes_of m (Ready_List p)) = remove1 t (ready_tasks s p)"
    by (simp add: nodes ready_nodes_of [OF inv, of p])
  then have "ready_tasks (s\<lparr>lmem := m, ready_bitmap := b\<rparr>) = (ready_tasks s)(p := remove1 t (ready_tasks s p))"
    using nodes by (auto simp: ready_tasks_def fun_eq_iff)
  then show ?thesis
    unfolding fp_order_def using assms(2) ready_tasks_priority(1) [OF inv]
    by (intro concat_queues_remove [where key = "\<lambda>t. unat (priority (tcbs s t))"]) auto
qed

lemma ready_contains_ok:
  assumes "ready_inv cfg s" and "unat (priority (tcbs s t)) < RTS_PRIORITY_COUNT cfg"
  shows "rts_ready_contains cfg (Some t) s = Inr (t \<in> set (fp_order cfg s))"
  using assms by (simp add: rts_ready_contains_def rts_ready_priority_is_valid_def fp_order_iff)

lemma ready_has_peer_ok:
  assumes inv: "ready_inv cfg s" and "t \<in> set (fp_order cfg s)"
  shows "rts_ready_has_peer cfg (Some t) s = Inr (1 < length (ready_tasks s (unat (priority (tcbs s t)))))"
proof -
  let ?p = "unat (priority (tcbs s t))"
  have own: "ready_owner t s = Some (Ready_List ?p)" using assms fp_order_iff [OF inv] by simp
  then have "?p < RTS_PRIORITY_COUNT cfg"
    using ready_tasks_iff [OF inv] ready_tasks_priority(3) [OF inv] by metis
  moreover have "ls_count (list_at (lmem s) (Ready_List ?p)) = length (ready_tasks s ?p)"
    using mem_okD(2) [OF ready_invD(1) [OF inv], of "Ready_List ?p"] by (simp add: ready_tasks_def)
  ultimately show ?thesis
    using own by (simp add: rts_ready_has_peer_def rts_ready_priority_is_valid_def)
qed

text \<open>The code's own validator accepts every state of the invariant.\<close>

lemma ready_validate_ok:
  assumes inv: "ready_inv cfg s"
  shows "rts_ready_validate cfg s"
proof -
  have "ready_validate_queue cfg s p" if p: "p < RTS_PRIORITY_COUNT cfg" for p
  proof -
    note D = ready_invD [OF inv]
    let ?xs = "nodes_of (lmem s) (Ready_List p)"
    have seg: "lseg (\<lambda>n. nd_previous (node_at (lmem s) n)) (\<lambda>n. nd_next (node_at (lmem s) n)) None ?xs None"
      using mem_absD(3) [of "lmem s" "nodes_of (lmem s)"] D(1) unfolding mem_ok_def .
    have len: "length ?xs \<le> RTS_SCHEDULABLE_TASK_CAPACITY cfg + 1"
      using ready_tasks_length [OF inv, of p] by (simp add: RTS_SCHEDULABLE_TASK_CAPACITY_def)
    have "chain_checks (ready_node_check s p) None ?xs"
    proof (rule chain_checks_ordered [where lt = "\<lambda>_ _. False" and local = "\<lambda>_. True", OF _ _ seg])
      fix q n assume n: "n \<in> set ?xs" "nd_previous (node_at (lmem s) n) = q"
      then obtain t where "n = Ready_Node t" "unat (priority (tcbs s t)) = p" using D(2) [OF n(1)] by blast
      moreover have "nd_owner (node_at (lmem s) n) = Some (Ready_List p)"
        using mem_okD(3) [OF D(1), of n "Ready_List p"] n by simp
      ultimately show "ready_node_check s p q n"
        using n D(3) [of t] by (simp add: ready_node_check_def Let_def)
    qed (simp_all add: ordered_by_def sorted_wrt_iff_nth_less)
    then have "check_walk (RTS_SCHEDULABLE_TASK_CAPACITY cfg + 1) (ready_node_check s p)
        (\<lambda>n. nd_next (node_at (lmem s) n)) (ls_head (list_at (lmem s) (Ready_List p))) None 0 =
        Some (None, last_or None ?xs, length ?xs)"
      using check_walk_lseg [OF seg len, of "ready_node_check s p" None 0]
      by (simp only: mem_okD(2) [OF D(1), of "Ready_List p"] list_of_nodes_simps if_True add_0)
    moreover have "ready_bit (ready_bitmap s) p \<longleftrightarrow> ?xs \<noteq> []"
      by (rule D(5) [OF priority_bit_less [OF p]])
    ultimately show ?thesis
      by (simp add: ready_validate_queue_def mem_okD(2) [OF D(1), of "Ready_List p"] ready_bit_def
          and_exp_eq_0_iff_not_bit)
  qed
  then show ?thesis by (simp add: rts_ready_validate_def list_all_iff)
qed

section \<open>The service order is a priority order\<close>

lemma ordered_concat_keys:
  fixes key :: "'a \<Rightarrow> nat"
  assumes "\<And>p x. x \<in> set (f p) \<Longrightarrow> key x = p" and "sorted_wrt (>) ps"
  shows "ordered_by (\<lambda>x y. key y < key x) (concat (map f ps))"
  using assms(2)
proof (induction ps)
  case (Cons p ps)
  have "ordered_by (\<lambda>x y. key y < key x) (f p)"
    using assms(1) unfolding ordered_by_def by (intro sorted_wrt_mono_rel [OF _ sorted_wrt_true]) auto
  with Cons assms(1) show ?case by (auto simp: ordered_by_append)
qed simp

lemma fp_order_ordered:
  assumes "ready_inv cfg s"
  shows "ordered_by (fp_before s) (fp_order cfg s)"
proof -
  have "sorted_wrt (>) (rev [0..<RTS_PRIORITY_COUNT cfg])" by (simp add: sorted_wrt_rev)
  then show ?thesis
    using ordered_concat_keys [of "ready_tasks s" "\<lambda>t. unat (priority (tcbs s t))"]
      ready_tasks_priority(1) [OF assms]
    by (simp add: fp_order_def fp_before_def [abs_def])
qed

lemma ready_tasks_filter:
  assumes r: "ready_inv cfg s" and p: "p < RTS_PRIORITY_COUNT cfg"
  shows "ready_tasks s p = filter (\<lambda>x. unat (priority (tcbs s x)) = p) (fp_order cfg s)"
proof -
  have filt: "filter (\<lambda>x. unat (priority (tcbs s x)) = p) (ready_tasks s q) = (if q = p then ready_tasks s p else [])" for q
    using ready_tasks_priority(1) [OF r, of _ q] by (auto intro: filter_True simp: filter_empty_conv)
  have "filter (\<lambda>x. unat (priority (tcbs s x)) = p) (concat (map (ready_tasks s) ps)) =
      (if p \<in> set ps then ready_tasks s p else [])" if "distinct ps" for ps
    using that by (induction ps) (auto simp: filt)
  then show ?thesis using p by (simp add: fp_order_def)
qed

end
