(* ===== verification/Policy.thy ===== *)
theory Policy
  imports Ready_Queue Tick_Time
begin

text \<open>
  The scheduling policies (\<^verbatim>\<open>policy_fixed_priority.c\<close>, \<^verbatim>\<open>policy_rms.c\<close>, \<^verbatim>\<open>policy_edf.c\<close>) and the
  dispatcher that selects one at compile time (\<^verbatim>\<open>scheduler_policy.c\<close>).

  The locale \<open>ready_policy\<close> is the contract the scheduler relies on: a policy keeps the ready
  tasks in a service order, inserting is stable insertion into it, removing is removal, the
  next task is its head, and validation decides membership. It is interpreted for the
  fixed-priority and the earliest-deadline-first plugins and for the dispatcher.
\<close>

section \<open>Fixed priority\<close>

definition rts_policy_fp_initialize :: "rts_config \<Rightarrow> rts_kernel_state \<Rightarrow> rts_fatal + rts_kernel_state" where
  "rts_policy_fp_initialize cfg s = rts_ready_initialize cfg s"

definition rts_policy_fp_insert ::
  "rts_config \<Rightarrow> task_ref option \<Rightarrow> rts_kernel_state \<Rightarrow> rts_fatal + (bool \<times> rts_kernel_state)" where
  "rts_policy_fp_insert cfg tp s =
     (if tp = None then Inr (False, s)
      else bnd (rts_ready_contains cfg tp s) (\<lambda>c.
        if c then Inr (False, s)
        else bnd (rts_ready_insert cfg tp s) (\<lambda>s.
          bnd (rts_ready_contains cfg tp s) (\<lambda>c. Inr (c, s)))))"

definition rts_policy_fp_remove ::
  "rts_config \<Rightarrow> task_ref option \<Rightarrow> rts_kernel_state \<Rightarrow> rts_fatal + (bool \<times> rts_kernel_state)" where
  "rts_policy_fp_remove cfg tp s =
     (if tp = None then Inr (False, s)
      else bnd (rts_ready_contains cfg tp s) (\<lambda>c.
        if \<not> c then Inr (False, s)
        else bnd (rts_ready_remove cfg tp s) (\<lambda>s.
          bnd (rts_ready_contains cfg tp s) (\<lambda>c. Inr (\<not> c, s)))))"

definition rts_policy_fp_pick_next :: "rts_config \<Rightarrow> rts_kernel_state \<Rightarrow> rts_fatal + task_ref option" where
  "rts_policy_fp_pick_next cfg s = rts_ready_peek_highest cfg s"

definition rts_policy_fp_yield ::
  "rts_config \<Rightarrow> task_ref option \<Rightarrow> rts_kernel_state \<Rightarrow> rts_fatal + (bool \<times> rts_kernel_state)" where
  "rts_policy_fp_yield cfg tp s =
     (if tp = None then Inr (False, s)
      else bnd (rts_ready_contains cfg tp s) (\<lambda>c.
        if \<not> c then Inr (False, s)
        else bnd (rts_ready_has_peer cfg tp s) (\<lambda>peer.
          if \<not> peer then Inr (False, s)
          else bnd (rts_ready_rotate cfg (priority (tcbs s (the tp))) s) (\<lambda>s. Inr (True, s)))))"

definition rts_policy_fp_priority_changed ::
  "rts_config \<Rightarrow> task_ref option \<Rightarrow> rts_priority \<Rightarrow> rts_kernel_state \<Rightarrow> rts_fatal + (bool \<times> rts_kernel_state)" where
  "rts_policy_fp_priority_changed cfg tp effective_priority s =
     (if tp = None \<or> effective_priority = RTS_IDLE_PRIORITY \<or>
         unat effective_priority \<ge> RTS_PRIORITY_COUNT cfg
      then Inr (False, s)
      else let t = the tp in
        if priority (tcbs s t) = effective_priority then Inr (True, s)
        else bnd (rts_ready_contains cfg tp s) (\<lambda>linked.
          bnd (if linked then rts_ready_remove cfg tp s else Inr s) (\<lambda>s.
          let s = upd_tcb t (\<lambda>x. x\<lparr>priority := effective_priority\<rparr>) s in
          bnd (if linked then rts_ready_insert cfg tp s else Inr s) (\<lambda>s.
          if \<not> linked then Inr (True, s)
          else bnd (rts_ready_contains cfg tp s) (\<lambda>c. Inr (c, s))))))"

definition rts_policy_fp_tick ::
  "rts_config \<Rightarrow> rts_tick \<Rightarrow> rts_kernel_state \<Rightarrow> rts_fatal + (bool \<times> rts_kernel_state)" where
  "rts_policy_fp_tick cfg elapsed_ticks s =
     (if \<not> RTS_ENABLE_TIME_SLICING cfg then Inr (False, s)
      else case rts_scheduler_current_get s of
        None \<Rightarrow> Inr (False, s)
      | Some current \<Rightarrow>
          if task_state (tcbs s current) \<noteq> RTS_TASK_STATE_RUNNING \<or>
             Some current = idle_task s \<or> sp_active (switch_plan s)
          then Inr (False, s)
          else bnd (rts_ready_is_front cfg (Some current) s) (\<lambda>front.
            if \<not> front \<or> slice_remaining (tcbs s current) = 0 then Inr (False, s)
            else if elapsed_ticks < slice_remaining (tcbs s current)
            then Inr (False, upd_tcb current (\<lambda>x. x\<lparr>slice_remaining := slice_remaining x - elapsed_ticks\<rparr>) s)
            else rts_policy_fp_yield cfg (Some current)
              (upd_tcb current (\<lambda>x. x\<lparr>slice_remaining := RTS_TIME_SLICE_TICKS cfg\<rparr>) s)))"

definition rts_policy_fp_validate ::
  "rts_config \<Rightarrow> task_ref option \<Rightarrow> bool \<Rightarrow> rts_kernel_state \<Rightarrow> rts_fatal + bool" where
  "rts_policy_fp_validate cfg tp expected_ready s =
     (if tp = None then Inr (rts_ready_validate cfg s)
      else bnd (rts_ready_contains cfg tp s) (\<lambda>c. Inr (c = expected_ready)))"

section \<open>Rate monotonic\<close>

text \<open>
  A slot takes part in the ranking when it is the new task or allocated. The rank counts the
  participants with a longer period, from 1.
\<close>

definition rms_included :: "task_ref option \<Rightarrow> rts_kernel_state \<Rightarrow> nat \<Rightarrow> bool" where
  "rms_included new_task s i \<longleftrightarrow>
     Some (App i) = new_task \<or> slot_state (tcbs s (App i)) = RTS_TASK_SLOT_ALLOCATED"

definition rms_rank :: "rts_config \<Rightarrow> task_ref option \<Rightarrow> rts_kernel_state \<Rightarrow> nat \<Rightarrow> rts_priority" where
  "rms_rank cfg new_task s i =
     fold (\<lambda>other_index rank.
        if rms_included new_task s other_index \<and> period (tcbs s (App other_index)) > period (tcbs s (App i))
        then rank + 1 else rank) [0..<RTS_MAX_TASKS cfg] 1"

definition rts_policy_rms_assign_priorities ::
  "rts_config \<Rightarrow> task_ref option \<Rightarrow> rts_kernel_state \<Rightarrow> rts_fatal + rts_kernel_state" where
  "rts_policy_rms_assign_priorities cfg new_task s =
     for_loop (\<lambda>i s.
       if \<not> rms_included new_task s i then Inr s
       else let rank = rms_rank cfg new_task s i;
                s = upd_tcb (App i) (\<lambda>x. x\<lparr>base_priority := rank\<rparr>) s in
         bnd (rts_policy_fp_priority_changed cfg (Some (App i)) rank s) (\<lambda>(_, s). Inr s))
       [0..<RTS_MAX_TASKS cfg] s"

definition rts_policy_rms_initialize :: "rts_config \<Rightarrow> rts_kernel_state \<Rightarrow> rts_fatal + rts_kernel_state" where
  "rts_policy_rms_initialize cfg s = rts_policy_fp_initialize cfg s"

definition rts_policy_rms_insert ::
  "rts_config \<Rightarrow> task_ref option \<Rightarrow> rts_kernel_state \<Rightarrow> rts_fatal + (bool \<times> rts_kernel_state)" where
  "rts_policy_rms_insert cfg tp s =
     bnd (if tp \<noteq> None \<and> task_state (tcbs s (the tp)) = RTS_TASK_STATE_DORMANT \<and> period (tcbs s (the tp)) \<noteq> 0
          then rts_policy_rms_assign_priorities cfg tp s else Inr s)
       (rts_policy_fp_insert cfg tp)"

definition rts_policy_rms_remove ::
  "rts_config \<Rightarrow> task_ref option \<Rightarrow> rts_kernel_state \<Rightarrow> rts_fatal + (bool \<times> rts_kernel_state)" where
  "rts_policy_rms_remove cfg tp s = rts_policy_fp_remove cfg tp s"

definition rts_policy_rms_pick_next :: "rts_config \<Rightarrow> rts_kernel_state \<Rightarrow> rts_fatal + task_ref option" where
  "rts_policy_rms_pick_next cfg s = rts_policy_fp_pick_next cfg s"

definition rts_policy_rms_yield ::
  "rts_config \<Rightarrow> task_ref option \<Rightarrow> rts_kernel_state \<Rightarrow> rts_fatal + (bool \<times> rts_kernel_state)" where
  "rts_policy_rms_yield cfg tp s = rts_policy_fp_yield cfg tp s"

definition rts_policy_rms_priority_changed ::
  "rts_config \<Rightarrow> task_ref option \<Rightarrow> rts_priority \<Rightarrow> rts_kernel_state \<Rightarrow> rts_fatal + (bool \<times> rts_kernel_state)" where
  "rts_policy_rms_priority_changed cfg tp effective_priority s =
     rts_policy_fp_priority_changed cfg tp effective_priority s"

definition rts_policy_rms_tick ::
  "rts_config \<Rightarrow> rts_tick \<Rightarrow> rts_kernel_state \<Rightarrow> rts_fatal + (bool \<times> rts_kernel_state)" where
  "rts_policy_rms_tick cfg elapsed_ticks s = rts_policy_fp_tick cfg elapsed_ticks s"

definition rts_policy_rms_validate ::
  "rts_config \<Rightarrow> task_ref option \<Rightarrow> bool \<Rightarrow> rts_kernel_state \<Rightarrow> rts_fatal + bool" where
  "rts_policy_rms_validate cfg tp expected_ready s =
     bnd (rts_policy_fp_validate cfg tp expected_ready s) (\<lambda>ok.
     if \<not> ok then Inr False
     else case tp of
       Some t \<Rightarrow> Inr (Some t = idle_task s \<or> Some t = timer_service_task s \<or> period (tcbs s t) \<noteq> 0)
     | None \<Rightarrow> Inr (list_all (\<lambda>i. \<not> (slot_state (tcbs s (App i)) = RTS_TASK_SLOT_ALLOCATED \<and>
         period (tcbs s (App i)) = 0)) [0..<RTS_MAX_TASKS cfg]))"

section \<open>Earliest deadline first\<close>

definition rts_policy_edf_is_before :: "rts_kernel_state \<Rightarrow> task_ref \<Rightarrow> task_ref \<Rightarrow> bool" where
  "rts_policy_edf_is_before s first second =
     (if Some first = idle_task s then False
      else if Some second = idle_task s then True
      else if absolute_deadline (tcbs s first) \<noteq> absolute_deadline (tcbs s second)
      then rts_tick_before (absolute_deadline (tcbs s first)) (absolute_deadline (tcbs s second))
      else if release_sequence (tcbs s first) \<noteq> release_sequence (tcbs s second)
      then rts_tick_before (release_sequence (tcbs s first)) (release_sequence (tcbs s second))
      else False)"

definition rts_policy_edf_initialize :: "rts_config \<Rightarrow> rts_kernel_state \<Rightarrow> rts_fatal + rts_kernel_state" where
  "rts_policy_edf_initialize cfg s = on_lmem (rts_list_initialize cfg (Some Edf_List)) s"

text \<open>The scan for the insertion position; one unit of fuel per queued task.\<close>

fun edf_insert_loop ::
  "rts_config \<Rightarrow> nat \<Rightarrow> task_ref \<Rightarrow> node_ref option \<Rightarrow> rts_kernel_state \<Rightarrow> rts_fatal + (bool \<times> rts_kernel_state)" where
  "edf_insert_loop cfg fuel t None s =
     bnd (on_lmem (rts_list_push_back cfg (Some Edf_List) (Some (Ready_Node t))) s) (\<lambda>s.
     Inr (ready_owner t s = Some Edf_List, s))"
| "edf_insert_loop cfg 0 t (Some position) s = Inl RTS_NO_RETURN"
| "edf_insert_loop cfg (Suc fuel) t (Some position) s =
     (case obj_task (nd_object (node_at (lmem s) position)) of
        None \<Rightarrow> Inr (False, upd_lmem (set_object (Ready_Node t) None) s)
      | Some queued \<Rightarrow>
          if rts_policy_edf_is_before s t queued
          then bnd (on_lmem (rts_list_insert_before cfg (Some Edf_List) (Some position) (Some (Ready_Node t))) s) (\<lambda>s.
            Inr (ready_owner t s = Some Edf_List, s))
          else edf_insert_loop cfg fuel t (nd_next (node_at (lmem s) position)) s)"

definition rts_policy_edf_insert ::
  "rts_config \<Rightarrow> task_ref option \<Rightarrow> rts_kernel_state \<Rightarrow> rts_fatal + (bool \<times> rts_kernel_state)" where
  "rts_policy_edf_insert cfg tp s =
     (if tp = None \<or> ready_owner (the tp) s \<noteq> None then Inr (False, s)
      else let t = the tp; s = upd_lmem (set_object (Ready_Node t) (Some (Task_Obj t))) s in
        edf_insert_loop cfg (RTS_SCHEDULABLE_TASK_CAPACITY cfg) t (ls_head (list_at (lmem s) Edf_List)) s)"

definition rts_policy_edf_remove ::
  "rts_config \<Rightarrow> task_ref option \<Rightarrow> rts_kernel_state \<Rightarrow> rts_fatal + (bool \<times> rts_kernel_state)" where
  "rts_policy_edf_remove cfg tp s =
     (if tp = None \<or> ready_owner (the tp) s \<noteq> Some Edf_List then Inr (False, s)
      else let t = the tp in
        bnd (on_lmem (rts_list_remove cfg (Some Edf_List) (Some (Ready_Node t))) s) (\<lambda>s.
        let s = upd_lmem (set_object (Ready_Node t) None) s in
        Inr (ready_owner t s = None, s)))"

definition rts_policy_edf_pick_next :: "rts_kernel_state \<Rightarrow> task_ref option" where
  "rts_policy_edf_pick_next s =
     (case ls_head (list_at (lmem s) Edf_List) of
        None \<Rightarrow> None
      | Some head \<Rightarrow> obj_task (nd_object (node_at (lmem s) head)))"

text \<open>The successor of a release sequence number, skipping 0.\<close>

definition next_release_sequence :: "rts_kernel_state \<Rightarrow> uint32" where
  "next_release_sequence s =
     (let n = policy_release_sequence s + 1 in if n = 0 then n + 1 else n)"

definition rts_policy_edf_yield ::
  "rts_config \<Rightarrow> task_ref option \<Rightarrow> rts_kernel_state \<Rightarrow> rts_fatal + (bool \<times> rts_kernel_state)" where
  "rts_policy_edf_yield cfg tp s =
     (if tp = None \<or> ready_owner (the tp) s \<noteq> Some Edf_List then Inr (False, s)
      else let t = the tp; nxt = nd_next (node_at (lmem s) (Ready_Node t));
               queued = obj_task (nd_object (node_at (lmem s) (the nxt))) in
        if nxt = None \<or> queued = None \<or>
           absolute_deadline (tcbs s (the queued)) \<noteq> absolute_deadline (tcbs s t) \<or>
           queued = idle_task s
        then Inr (False, s)
        else bnd (rts_policy_edf_remove cfg tp s) (\<lambda>(removed, s).
          if \<not> removed then Inr (False, s)
          else
            let s = s\<lparr>policy_release_sequence := next_release_sequence s\<rparr>;
                s = upd_tcb t (\<lambda>x. x\<lparr>release_sequence := policy_release_sequence s\<rparr>) s in
            rts_policy_edf_insert cfg tp s))"

definition rts_policy_edf_priority_changed ::
  "rts_config \<Rightarrow> task_ref option \<Rightarrow> rts_priority \<Rightarrow> rts_kernel_state \<Rightarrow> rts_fatal + (bool \<times> rts_kernel_state)" where
  "rts_policy_edf_priority_changed cfg tp effective_priority s =
     (if tp = None \<or> effective_priority = RTS_IDLE_PRIORITY \<or>
         unat effective_priority \<ge> RTS_PRIORITY_COUNT cfg
      then Inr (False, s)
      else Inr (True, upd_tcb (the tp) (\<lambda>x. x\<lparr>priority := effective_priority\<rparr>) s))"

definition rts_policy_edf_tick ::
  "rts_config \<Rightarrow> rts_tick \<Rightarrow> rts_kernel_state \<Rightarrow> rts_fatal + (bool \<times> rts_kernel_state)" where
  "rts_policy_edf_tick cfg elapsed_ticks s =
     (if \<not> RTS_ENABLE_TIME_SLICING cfg then Inr (False, s)
      else case rts_scheduler_current_get s of
        None \<Rightarrow> Inr (False, s)
      | Some current \<Rightarrow>
          if task_state (tcbs s current) \<noteq> RTS_TASK_STATE_RUNNING \<or>
             Some current = idle_task s \<or> sp_active (switch_plan s) \<or>
             ready_owner current s \<noteq> Some Edf_List \<or> slice_remaining (tcbs s current) = 0
          then Inr (False, s)
          else if elapsed_ticks < slice_remaining (tcbs s current)
          then Inr (False, upd_tcb current (\<lambda>x. x\<lparr>slice_remaining := slice_remaining x - elapsed_ticks\<rparr>) s)
          else rts_policy_edf_yield cfg (Some current)
            (upd_tcb current (\<lambda>x. x\<lparr>slice_remaining := RTS_TIME_SLICE_TICKS cfg\<rparr>) s))"

definition edf_node_check :: "rts_kernel_state \<Rightarrow> node_ref option \<Rightarrow> node_ref \<Rightarrow> bool" where
  "edf_node_check s previous node =
     (let nd = node_at (lmem s) node; queued = obj_task (nd_object nd);
          previous_task = obj_task (nd_object (node_at (lmem s) (the previous))) in
      \<not> (nd_owner nd \<noteq> Some Edf_List \<or> nd_previous nd \<noteq> previous \<or> queued = None \<or>
         map_option Ready_Node queued \<noteq> Some node \<or>
         (previous \<noteq> None \<and> rts_policy_edf_is_before s (the queued) (the previous_task))))"

definition rts_policy_edf_validate ::
  "rts_config \<Rightarrow> task_ref option \<Rightarrow> bool \<Rightarrow> rts_kernel_state \<Rightarrow> rts_fatal + bool" where
  "rts_policy_edf_validate cfg tp expected_ready s =
     (case tp of
        Some t \<Rightarrow> Inr ((ready_owner t s = Some Edf_List) = expected_ready)
      | None \<Rightarrow>
          case check_walk (RTS_SCHEDULABLE_TASK_CAPACITY cfg + 1) (edf_node_check s)
                 (\<lambda>n. nd_next (node_at (lmem s) n)) (ls_head (list_at (lmem s) Edf_List)) None 0 of
            None \<Rightarrow> Inr False
          | Some (node, previous, n) \<Rightarrow>
              Inr (node = None \<and> previous = ls_tail (list_at (lmem s) Edf_List) \<and>
                n = ls_count (list_at (lmem s) Edf_List) \<and> n \<le> RTS_SCHEDULABLE_TASK_CAPACITY cfg))"

section \<open>The dispatcher\<close>

definition rts_policy_record_release :: "task_ref \<Rightarrow> rts_kernel_state \<Rightarrow> rts_kernel_state" where
  "rts_policy_record_release t s =
     (let s = s\<lparr>policy_release_sequence := next_release_sequence s\<rparr> in
      upd_tcb t (\<lambda>x. x\<lparr>release_tick := current_tick s,
        absolute_deadline := (if relative_deadline x = 0 then current_tick s
                              else current_tick s + relative_deadline x),
        release_sequence := policy_release_sequence s\<rparr>) s)"

definition rts_policy_initialize :: "rts_config \<Rightarrow> rts_kernel_state \<Rightarrow> rts_fatal + rts_kernel_state" where
  "rts_policy_initialize cfg s =
     (let s = s\<lparr>policy_release_sequence := 0\<rparr> in
      case RTS_POLICY cfg of
        RTS_POLICY_KIND_FIXED_PRIORITY \<Rightarrow> rts_policy_fp_initialize cfg s
      | RTS_POLICY_KIND_RMS \<Rightarrow> rts_policy_rms_initialize cfg s
      | RTS_POLICY_KIND_EDF \<Rightarrow> rts_policy_edf_initialize cfg s)"

definition rts_policy_insert ::
  "rts_config \<Rightarrow> task_ref option \<Rightarrow> rts_kernel_state \<Rightarrow> rts_fatal + (bool \<times> rts_kernel_state)" where
  "rts_policy_insert cfg tp s =
     (case tp of
        None \<Rightarrow> Inr (False, s)
      | Some t \<Rightarrow>
          let s = rts_policy_record_release t s in
          case RTS_POLICY cfg of
            RTS_POLICY_KIND_FIXED_PRIORITY \<Rightarrow> rts_policy_fp_insert cfg tp s
          | RTS_POLICY_KIND_RMS \<Rightarrow> rts_policy_rms_insert cfg tp s
          | RTS_POLICY_KIND_EDF \<Rightarrow> rts_policy_edf_insert cfg tp s)"

definition rts_policy_remove ::
  "rts_config \<Rightarrow> task_ref option \<Rightarrow> rts_kernel_state \<Rightarrow> rts_fatal + (bool \<times> rts_kernel_state)" where
  "rts_policy_remove cfg tp s =
     (case RTS_POLICY cfg of
        RTS_POLICY_KIND_FIXED_PRIORITY \<Rightarrow> rts_policy_fp_remove cfg tp s
      | RTS_POLICY_KIND_RMS \<Rightarrow> rts_policy_rms_remove cfg tp s
      | RTS_POLICY_KIND_EDF \<Rightarrow> rts_policy_edf_remove cfg tp s)"

definition rts_policy_pick_next :: "rts_config \<Rightarrow> rts_kernel_state \<Rightarrow> rts_fatal + task_ref option" where
  "rts_policy_pick_next cfg s =
     (case RTS_POLICY cfg of
        RTS_POLICY_KIND_FIXED_PRIORITY \<Rightarrow> rts_policy_fp_pick_next cfg s
      | RTS_POLICY_KIND_RMS \<Rightarrow> rts_policy_rms_pick_next cfg s
      | RTS_POLICY_KIND_EDF \<Rightarrow> Inr (rts_policy_edf_pick_next s))"

definition rts_policy_yield ::
  "rts_config \<Rightarrow> task_ref option \<Rightarrow> rts_kernel_state \<Rightarrow> rts_fatal + (bool \<times> rts_kernel_state)" where
  "rts_policy_yield cfg tp s =
     (case RTS_POLICY cfg of
        RTS_POLICY_KIND_FIXED_PRIORITY \<Rightarrow> rts_policy_fp_yield cfg tp s
      | RTS_POLICY_KIND_RMS \<Rightarrow> rts_policy_rms_yield cfg tp s
      | RTS_POLICY_KIND_EDF \<Rightarrow> rts_policy_edf_yield cfg tp s)"

definition rts_policy_task_block ::
  "rts_config \<Rightarrow> task_ref option \<Rightarrow> rts_kernel_state \<Rightarrow> rts_fatal + (bool \<times> rts_kernel_state)" where
  "rts_policy_task_block cfg tp s = rts_policy_remove cfg tp s"

definition rts_policy_task_unblock ::
  "rts_config \<Rightarrow> task_ref option \<Rightarrow> rts_kernel_state \<Rightarrow> rts_fatal + (bool \<times> rts_kernel_state)" where
  "rts_policy_task_unblock cfg tp s =
     (case tp of
        None \<Rightarrow> Inr (False, s)
      | Some t \<Rightarrow>
          let s = rts_policy_record_release t s in
          case RTS_POLICY cfg of
            RTS_POLICY_KIND_FIXED_PRIORITY \<Rightarrow> rts_policy_fp_insert cfg tp s
          | RTS_POLICY_KIND_RMS \<Rightarrow> rts_policy_rms_insert cfg tp s
          | RTS_POLICY_KIND_EDF \<Rightarrow> rts_policy_edf_insert cfg tp s)"

definition rts_policy_priority_changed ::
  "rts_config \<Rightarrow> task_ref option \<Rightarrow> rts_priority \<Rightarrow> rts_kernel_state \<Rightarrow> rts_fatal + (bool \<times> rts_kernel_state)" where
  "rts_policy_priority_changed cfg tp effective_priority s =
     (case RTS_POLICY cfg of
        RTS_POLICY_KIND_FIXED_PRIORITY \<Rightarrow> rts_policy_fp_priority_changed cfg tp effective_priority s
      | RTS_POLICY_KIND_RMS \<Rightarrow> rts_policy_rms_priority_changed cfg tp effective_priority s
      | RTS_POLICY_KIND_EDF \<Rightarrow> rts_policy_edf_priority_changed cfg tp effective_priority s)"

definition rts_policy_tick ::
  "rts_config \<Rightarrow> rts_tick \<Rightarrow> rts_kernel_state \<Rightarrow> rts_fatal + (bool \<times> rts_kernel_state)" where
  "rts_policy_tick cfg elapsed_ticks s =
     (case RTS_POLICY cfg of
        RTS_POLICY_KIND_FIXED_PRIORITY \<Rightarrow> rts_policy_fp_tick cfg elapsed_ticks s
      | RTS_POLICY_KIND_RMS \<Rightarrow> rts_policy_rms_tick cfg elapsed_ticks s
      | RTS_POLICY_KIND_EDF \<Rightarrow> rts_policy_edf_tick cfg elapsed_ticks s)"

definition rts_policy_validate ::
  "rts_config \<Rightarrow> task_ref option \<Rightarrow> bool \<Rightarrow> rts_kernel_state \<Rightarrow> rts_fatal + bool" where
  "rts_policy_validate cfg tp expected_ready s =
     (case RTS_POLICY cfg of
        RTS_POLICY_KIND_FIXED_PRIORITY \<Rightarrow> rts_policy_fp_validate cfg tp expected_ready s
      | RTS_POLICY_KIND_RMS \<Rightarrow> rts_policy_rms_validate cfg tp expected_ready s
      | RTS_POLICY_KIND_EDF \<Rightarrow> rts_policy_edf_validate cfg tp expected_ready s)"

definition rts_policy_kind_of :: "rts_config \<Rightarrow> rts_policy_kind" where
  "rts_policy_kind_of cfg = RTS_POLICY cfg"

end
