(* ===== verification/Ready_Policy.thy ===== *)
theory Ready_Policy
  imports Policy
begin

text \<open>
  The contract between the scheduler and its policies, and the proof that the fixed-priority
  and earliest-deadline-first plugins and the compile-time dispatcher meet it.
\<close>

section \<open>The contract\<close>

text \<open>A change of the ready structure touches one ready node and no other queue.\<close>

definition ready_frame :: "task_ref \<Rightarrow> (node_ref, list_ref, obj_ref) list_mem \<Rightarrow>
    (node_ref, list_ref, obj_ref) list_mem \<Rightarrow> bool" where
  "ready_frame t m m' \<longleftrightarrow>
     nodes_of m' Delay_List = nodes_of m Delay_List \<and> nodes_of m' Timer_List = nodes_of m Timer_List \<and>
     (\<forall>k. k \<noteq> Ready_Node t \<longrightarrow> nd_owner (node_at m' k) = nd_owner (node_at m k) \<and>
        nd_object (node_at m' k) = nd_object (node_at m k))"

lemma owners_but:
  assumes m: "mem_ok m" and m': "mem_ok m'" and nodes: "nodes_of m' = (nodes_of m)(q := xs)"
    and xs: "set xs - {n} = set (nodes_of m q) - {n}" and "k \<noteq> n"
  shows "nd_owner (node_at m' k) = nd_owner (node_at m k)"
proof -
  have "k \<in> set (nodes_of m' l) \<longleftrightarrow> k \<in> set (nodes_of m l)" for l
    using xs \<open>k \<noteq> n\<close> by (auto simp: nodes)
  then have "nd_owner (node_at m' k) = Some l \<longleftrightarrow> nd_owner (node_at m k) = Some l" for l
    using mem_okD(3) [OF m, of k l] mem_okD(3) [OF m', of k l] by simp
  then show ?thesis by (metis option.exhaust)
qed

lemma ready_frameI:
  assumes "mem_ok m" and "mem_ok m'" and "nodes_of m' = (nodes_of m)(q := xs)"
    and "set xs - {Ready_Node t} = set (nodes_of m q) - {Ready_Node t}"
    and "objects_but (Ready_Node t) m m'" and "q \<noteq> Delay_List" and "q \<noteq> Timer_List"
  shows "ready_frame t m m'"
  using owners_but [OF assms(1-4)] assms(3,5-7) by (auto simp: ready_frame_def objects_but_def)

lemma ready_frame_refl [simp]: "ready_frame t m m"
  by (simp add: ready_frame_def)

lemma ready_frame_trans: "ready_frame t m1 m2 \<Longrightarrow> ready_frame t m2 m3 \<Longrightarrow> ready_frame t m1 m3"
  by (simp add: ready_frame_def)

text \<open>
  \<open>prep\<close> is what inserting writes into the TCB before it touches the queue (the release record
  of the dispatcher, nothing in the plugins).
\<close>

locale ready_policy =
  fixes inv :: "rts_kernel_state \<Rightarrow> bool"
    and order :: "rts_kernel_state \<Rightarrow> task_ref list"
    and before :: "rts_kernel_state \<Rightarrow> task_ref \<Rightarrow> task_ref \<Rightarrow> bool"
    and adm :: "task_ref \<Rightarrow> rts_kernel_state \<Rightarrow> bool"
    and prep :: "task_ref \<Rightarrow> rts_kernel_state \<Rightarrow> rts_kernel_state"
    and p_insert :: "task_ref option \<Rightarrow> rts_kernel_state \<Rightarrow> rts_fatal + (bool \<times> rts_kernel_state)"
    and p_remove :: "task_ref option \<Rightarrow> rts_kernel_state \<Rightarrow> rts_fatal + (bool \<times> rts_kernel_state)"
    and p_pick :: "rts_kernel_state \<Rightarrow> rts_fatal + task_ref option"
    and p_validate :: "task_ref option \<Rightarrow> bool \<Rightarrow> rts_kernel_state \<Rightarrow> rts_fatal + bool"
  assumes order_distinct: "inv s \<Longrightarrow> distinct (order s)"
    and order_owner: "inv s \<Longrightarrow> t \<in> set (order s) \<longleftrightarrow> ready_owner t s \<noteq> None"
    and prep_law: "lmem (prep t s) = lmem s" "adm t s \<Longrightarrow> adm t (prep t s)"
    and insert_law: "\<lbrakk>inv s; adm t s; t \<notin> set (order s)\<rbrakk> \<Longrightarrow>
      \<exists>m b. p_insert (Some t) s = Inr (True, (prep t s)\<lparr>lmem := m, ready_bitmap := b\<rparr>) \<and>
        inv ((prep t s)\<lparr>lmem := m, ready_bitmap := b\<rparr>) \<and> ready_frame t (lmem s) m \<and>
        order ((prep t s)\<lparr>lmem := m, ready_bitmap := b\<rparr>) = stable_insert (before (prep t s)) t (order s)"
    and remove_law: "\<lbrakk>inv s; t \<in> set (order s)\<rbrakk> \<Longrightarrow>
      \<exists>m b. p_remove (Some t) s = Inr (True, s\<lparr>lmem := m, ready_bitmap := b\<rparr>) \<and>
        inv (s\<lparr>lmem := m, ready_bitmap := b\<rparr>) \<and> ready_frame t (lmem s) m \<and>
        order (s\<lparr>lmem := m, ready_bitmap := b\<rparr>) = remove1 t (order s)"
    and pick_law: "inv s \<Longrightarrow> p_pick s = Inr (hd_or (order s) None)"
    and validate_law: "\<lbrakk>inv s; adm t s\<rbrakk> \<Longrightarrow> p_validate (Some t) b s = Inr ((t \<in> set (order s)) = b)"
    and adm_cong: "\<lbrakk>adm t s; tcbs s' = tcbs s; idle_task s' = idle_task s;
      timer_service_task s' = timer_service_task s\<rbrakk> \<Longrightarrow> adm t s'"
begin

lemma pick_none_iff: "inv s \<Longrightarrow> p_pick s = Inr None \<longleftrightarrow> (\<forall>t. ready_owner t s = None)"
  using order_owner [of s "hd (order s)"] order_owner [of s]
  by (cases "order s") (auto simp: pick_law)

lemma pick_ready: "inv s \<Longrightarrow> p_pick s = Inr (Some t) \<Longrightarrow> ready_owner t s \<noteq> None"
  using order_owner [of s t] by (cases "order s") (auto simp: pick_law)

text \<open>After an insertion the new task is next exactly if it goes before the old head.\<close>

lemma pick_after_insert:
  assumes "inv s" and "adm t s" and "t \<notin> set (order s)"
  obtains s' where "p_insert (Some t) s = Inr (True, s')" and "inv s'"
    and "p_pick s' = Inr (Some (case order s of [] \<Rightarrow> t
      | u # _ \<Rightarrow> if before (prep t s) t u then t else u))"
proof -
  obtain m b where "p_insert (Some t) s = Inr (True, (prep t s)\<lparr>lmem := m, ready_bitmap := b\<rparr>)"
    and s': "inv ((prep t s)\<lparr>lmem := m, ready_bitmap := b\<rparr>)"
      "order ((prep t s)\<lparr>lmem := m, ready_bitmap := b\<rparr>) = stable_insert (before (prep t s)) t (order s)"
    using insert_law [OF assms] by blast
  moreover have "p_pick ((prep t s)\<lparr>lmem := m, ready_bitmap := b\<rparr>) = Inr (Some (case order s of [] \<Rightarrow> t
      | u # _ \<Rightarrow> if before (prep t s) t u then t else u))"
    using s' by (auto simp: pick_law split: list.splits)
  ultimately show ?thesis using that by blast
qed

text \<open>Inserting a task and removing it again restores the service order.\<close>

lemma remove_after_insert:
  assumes "inv s" and "adm t s" and "t \<notin> set (order s)"
  obtains s1 s2 where "p_insert (Some t) s = Inr (True, s1)" and "p_remove (Some t) s1 = Inr (True, s2)"
    and "inv s2" and "order s2 = order s"
proof -
  obtain m b s1 where s1: "s1 = (prep t s)\<lparr>lmem := m, ready_bitmap := b\<rparr>" and i: "p_insert (Some t) s = Inr (True, s1)"
    and s': "inv s1" "order s1 = stable_insert (before (prep t s)) t (order s)"
    using insert_law [OF assms] by blast
  have rem: "t \<notin> set xs \<Longrightarrow> remove1 t (stable_insert lt t xs) = xs" for xs lt
    by (induction xs) auto
  obtain m' b' where "p_remove (Some t) s1 = Inr (True, s1\<lparr>lmem := m', ready_bitmap := b'\<rparr>)"
    "inv (s1\<lparr>lmem := m', ready_bitmap := b'\<rparr>)"
    "order (s1\<lparr>lmem := m', ready_bitmap := b'\<rparr>) = remove1 t (order s1)"
    using remove_law [OF s'(1), of t] s'(2) by auto
  with i s'(2) rem [OF assms(3)] that show ?thesis by auto
qed

text \<open>Validation sees exactly the changes: ready after an insertion, not ready after a removal.\<close>

lemma validate_after_insert:
  assumes "inv s" and "adm t s" and "t \<notin> set (order s)"
  obtains s' where "p_insert (Some t) s = Inr (True, s')" and "p_validate (Some t) True s' = Inr True"
proof -
  obtain m b s1 where s1: "s1 = (prep t s)\<lparr>lmem := m, ready_bitmap := b\<rparr>" and i: "p_insert (Some t) s = Inr (True, s1)"
    and s': "inv s1" "order s1 = stable_insert (before (prep t s)) t (order s)"
    using insert_law [OF assms] by blast
  have "adm t s1" using adm_cong [OF prep_law(2) [OF assms(2)], of s1] by (simp add: s1)
  with validate_law [OF s'(1), of t True] i s'(2) that show ?thesis by simp
qed

lemma validate_after_remove:
  assumes "inv s" and "adm t s" and "t \<in> set (order s)"
  obtains s' where "p_remove (Some t) s = Inr (True, s')" and "p_validate (Some t) False s' = Inr True"
proof -
  obtain m b s1 where s1: "s1 = s\<lparr>lmem := m, ready_bitmap := b\<rparr>" and i: "p_remove (Some t) s = Inr (True, s1)"
    and s': "inv s1" "order s1 = remove1 t (order s)"
    using remove_law [OF assms(1,3)] by blast
  have "adm t s1" using adm_cong [OF assms(2), of s1] by (simp add: s1)
  with validate_law [OF s'(1), of t False] i s'(2) order_distinct [OF assms(1)] that show ?thesis by simp
qed

end

section \<open>Fixed priority\<close>

definition fp_inv :: "rts_config \<Rightarrow> rts_kernel_state \<Rightarrow> bool" where
  "fp_inv cfg s \<longleftrightarrow> config_ok cfg \<and> ready_inv cfg s \<and>
     (\<forall>t l. ready_owner t s = Some l \<longrightarrow> (\<exists>p. l = Ready_List p))"

definition fp_adm :: "rts_config \<Rightarrow> task_ref \<Rightarrow> rts_kernel_state \<Rightarrow> bool" where
  "fp_adm cfg t s \<longleftrightarrow> valid_task cfg t \<and> unat (priority (tcbs s t)) < RTS_PRIORITY_COUNT cfg"

lemma fp_order_owner:
  assumes "fp_inv cfg s"
  shows "t \<in> set (fp_order cfg s) \<longleftrightarrow> ready_owner t s \<noteq> None"
proof
  assume "ready_owner t s \<noteq> None"
  then obtain p where p: "ready_owner t s = Some (Ready_List p)" using assms by (auto simp: fp_inv_def)
  have inv: "ready_inv cfg s" using assms by (simp add: fp_inv_def)
  have "unat (priority (tcbs s t)) = p"
    using ready_tasks_priority(1) [OF inv, of t p] ready_tasks_iff [OF inv, of t p] p by simp
  then show "t \<in> set (fp_order cfg s)" using fp_order_iff [OF inv] p by simp
qed (use assms in \<open>simp add: fp_order_iff fp_inv_def\<close>)

lemma fp_order_adm: "fp_inv cfg s \<Longrightarrow> t \<in> set (fp_order cfg s) \<Longrightarrow> fp_adm cfg t s"
  using ready_tasks_priority(2,3) [of cfg s t "unat (priority (tcbs s t))"]
    ready_tasks_iff [of cfg s t "unat (priority (tcbs s t))"]
  by (simp add: fp_inv_def fp_adm_def fp_order_iff)

lemma fp_inv_update:
  assumes "fp_inv cfg s" and "ready_inv cfg (s\<lparr>lmem := m, ready_bitmap := b\<rparr>)" and "ready_frame t (lmem s) m"
    and "nd_owner (node_at m (Ready_Node t)) = None \<or> nd_owner (node_at m (Ready_Node t)) = Some (Ready_List p)"
  shows "fp_inv cfg (s\<lparr>lmem := m, ready_bitmap := b\<rparr>)"
  unfolding fp_inv_def
proof (intro conjI allI impI)
  fix u l assume u: "ready_owner u (s\<lparr>lmem := m, ready_bitmap := b\<rparr>) = Some l"
  show "\<exists>p. l = Ready_List p"
  proof (cases "u = t")
    case False
    then have "ready_owner u s = Some l" using u assms(3) by (simp add: ready_frame_def)
    then show ?thesis using assms(1) by (simp add: fp_inv_def)
  qed (use u assms(4) in auto)
qed (use assms(1,2) in \<open>simp_all add: fp_inv_def\<close>)

lemma fp_insert_law:
  assumes inv: "fp_inv cfg s" and adm: "fp_adm cfg t s" and t: "t \<notin> set (fp_order cfg s)"
  shows "\<exists>m b. rts_policy_fp_insert cfg (Some t) s = Inr (True, s\<lparr>lmem := m, ready_bitmap := b\<rparr>) \<and>
    fp_inv cfg (s\<lparr>lmem := m, ready_bitmap := b\<rparr>) \<and> ready_frame t (lmem s) m \<and>
    fp_order cfg (s\<lparr>lmem := m, ready_bitmap := b\<rparr>) = stable_insert (fp_before s) t (fp_order cfg s)"
proof -
  let ?p = "unat (priority (tcbs s t))" and ?q = "Ready_List (unat (priority (tcbs s t)))"
  have r: "ready_inv cfg s" and cfg: "config_ok cfg" using inv by (simp_all add: fp_inv_def)
  have free: "ready_owner t s = None" using t fp_order_owner [OF inv] by simp
  have v: "valid_task cfg t" and p: "?p < RTS_PRIORITY_COUNT cfg" using adm by (simp_all add: fp_adm_def)
  obtain m b where ins: "rts_ready_insert cfg (Some t) s = Inr (s\<lparr>lmem := m, ready_bitmap := b\<rparr>)"
    and r': "ready_inv cfg (s\<lparr>lmem := m, ready_bitmap := b\<rparr>)"
    and nodes: "nodes_of m = (nodes_of (lmem s))(?q := nodes_of (lmem s) ?q @ [Ready_Node t])"
    and obj: "objects_but (Ready_Node t) (lmem s) m"
    using ready_insert_ok [OF r cfg free v p] by metis
  let ?s = "s\<lparr>lmem := m, ready_bitmap := b\<rparr>"
  have order: "fp_order cfg ?s = stable_insert (fp_before s) t (fp_order cfg s)"
    by (rule fp_order_insert [OF r p refl nodes])
  have frame: "ready_frame t (lmem s) m"
    by (rule ready_frameI [OF ready_invD(1) [OF r] _ nodes _ obj]) (use ready_invD(1) [OF r'] in auto)
  have own: "nd_owner (node_at m (Ready_Node t)) = Some ?q"
    using fp_order_iff [OF r', of t] order by simp
  have "fp_inv cfg ?s" by (rule fp_inv_update [OF inv r' frame]) (use own in simp)
  moreover have "rts_policy_fp_insert cfg (Some t) s = Inr (True, ?s)"
    using ins ready_contains_ok [OF r p] ready_contains_ok [OF r', of t] t p order
    by (simp add: rts_policy_fp_insert_def)
  ultimately show ?thesis using frame order by blast
qed

lemma fp_remove_law:
  assumes inv: "fp_inv cfg s" and t: "t \<in> set (fp_order cfg s)"
  shows "\<exists>m b. rts_policy_fp_remove cfg (Some t) s = Inr (True, s\<lparr>lmem := m, ready_bitmap := b\<rparr>) \<and>
    fp_inv cfg (s\<lparr>lmem := m, ready_bitmap := b\<rparr>) \<and> ready_frame t (lmem s) m \<and>
    fp_order cfg (s\<lparr>lmem := m, ready_bitmap := b\<rparr>) = remove1 t (fp_order cfg s)"
proof -
  let ?p = "unat (priority (tcbs s t))"
  have r: "ready_inv cfg s" using inv by (simp add: fp_inv_def)
  have p: "?p < RTS_PRIORITY_COUNT cfg" using fp_order_adm [OF inv t] by (simp add: fp_adm_def)
  have rt: "t \<in> set (ready_tasks s ?p)" using t by (simp add: fp_order_iff [OF r] ready_tasks_iff [OF r])
  obtain m b where rem: "rts_ready_remove cfg (Some t) s = Inr (s\<lparr>lmem := m, ready_bitmap := b\<rparr>)"
    and r': "ready_inv cfg (s\<lparr>lmem := m, ready_bitmap := b\<rparr>)"
    and nodes: "nodes_of m = (nodes_of (lmem s))(Ready_List ?p := remove1 (Ready_Node t) (nodes_of (lmem s) (Ready_List ?p)))"
    and obj: "objects_but (Ready_Node t) (lmem s) m" and own: "nd_owner (node_at m (Ready_Node t)) = None"
    using ready_remove_ok [OF r rt] by metis
  let ?s = "s\<lparr>lmem := m, ready_bitmap := b\<rparr>"
  have order: "fp_order cfg ?s = remove1 t (fp_order cfg s)"
    by (rule fp_order_remove [OF r refl nodes])
  have frame: "ready_frame t (lmem s) m"
    by (rule ready_frameI [OF ready_invD(1) [OF r] _ nodes _ obj])
      (use ready_invD(1) [OF r'] mem_okD(1) [OF ready_invD(1) [OF r]] in \<open>auto simp: set_remove1_eq\<close>)
  have "fp_inv cfg ?s" by (rule fp_inv_update [OF inv r' frame]) (use own in simp)
  moreover have "rts_policy_fp_remove cfg (Some t) s = Inr (True, ?s)"
    using rem ready_contains_ok [OF r p] ready_contains_ok [OF r', of t] t p order distinct_fp_order [OF r]
    by (simp add: rts_policy_fp_remove_def)
  ultimately show ?thesis using frame order by blast
qed

interpretation fp: ready_policy "fp_inv cfg" "fp_order cfg" fp_before "fp_adm cfg" "\<lambda>_ s. s"
  "rts_policy_fp_insert cfg" "rts_policy_fp_remove cfg" "rts_policy_fp_pick_next cfg"
  "rts_policy_fp_validate cfg" for cfg
proof unfold_locales
  fix s t b assume inv: "fp_inv cfg s"
  then have r: "ready_inv cfg s" by (simp add: fp_inv_def)
  show "distinct (fp_order cfg s)" using r by (rule distinct_fp_order)
  show "t \<in> set (fp_order cfg s) \<longleftrightarrow> ready_owner t s \<noteq> None" using inv by (rule fp_order_owner)
  show "rts_policy_fp_pick_next cfg s = Inr (hd_or (fp_order cfg s) None)"
    using r by (simp add: rts_policy_fp_pick_next_def ready_peek_highest_ok)
  show "rts_policy_fp_validate cfg (Some t) b s = Inr ((t \<in> set (fp_order cfg s)) = b)" if "fp_adm cfg t s"
    using that r by (simp add: rts_policy_fp_validate_def ready_contains_ok fp_adm_def)
qed (use fp_insert_law fp_remove_law in \<open>simp_all add: fp_adm_def\<close>)

section \<open>Earliest deadline first\<close>

definition edf_order :: "rts_kernel_state \<Rightarrow> task_ref list" where
  "edf_order s = map node_task (nodes_of (lmem s) Edf_List)"

definition edf_inv :: "rts_config \<Rightarrow> rts_kernel_state \<Rightarrow> bool" where
  "edf_inv cfg s \<longleftrightarrow> config_ok cfg \<and> mem_ok (lmem s) \<and>
     (\<forall>n \<in> set (nodes_of (lmem s) Edf_List). \<exists>t. n = Ready_Node t \<and> valid_task cfg t) \<and>
     (\<forall>t. nd_object (node_at (lmem s) (Ready_Node t)) =
        (if ready_owner t s = None then None else Some (Task_Obj t))) \<and>
     (\<forall>t l. ready_owner t s = Some l \<longrightarrow> l = Edf_List)"

lemma edf_invD:
  assumes "edf_inv cfg s"
  shows "config_ok cfg" and "mem_ok (lmem s)"
    and "n \<in> set (nodes_of (lmem s) Edf_List) \<Longrightarrow> \<exists>t. n = Ready_Node t \<and> valid_task cfg t"
    and "nd_object (node_at (lmem s) (Ready_Node t)) = (if ready_owner t s = None then None else Some (Task_Obj t))"
    and "ready_owner t s = Some l \<Longrightarrow> l = Edf_List"
  using assms unfolding edf_inv_def by blast+

lemma edf_nodes_of: "edf_inv cfg s \<Longrightarrow> nodes_of (lmem s) Edf_List = map Ready_Node (edf_order s)"
proof -
  assume "edf_inv cfg s"
  then have "map (Ready_Node \<circ> node_task) (nodes_of (lmem s) Edf_List) = map (\<lambda>n. n) (nodes_of (lmem s) Edf_List)"
    by (intro map_cong) (auto dest: edf_invD(3))
  then show ?thesis by (simp add: edf_order_def)
qed

lemma edf_order_owner: "edf_inv cfg s \<Longrightarrow> t \<in> set (edf_order s) \<longleftrightarrow> ready_owner t s \<noteq> None"
  using mem_okD(3) [OF edf_invD(2), of cfg s "Ready_Node t" Edf_List] edf_invD(5) [of cfg s t]
  by (auto simp: edf_nodes_of)

lemma distinct_edf_order: "edf_inv cfg s \<Longrightarrow> distinct (edf_order s)"
  using mem_okD(1) [OF edf_invD(2), of cfg s Edf_List] by (simp add: edf_nodes_of distinct_map)

lemma edf_order_length:
  assumes "edf_inv cfg s"
  shows "length (nodes_of (lmem s) Edf_List) \<le> RTS_MAX_TASKS cfg + 2"
  using mem_okD(1) [OF edf_invD(2) [OF assms]] edf_invD(3) [OF assms]
  by (intro valid_task_nodes_length [where f = Ready_Node]) blast+

lemma edf_inv_update:
  assumes inv: "edf_inv cfg s" and m: "mem_ok m" and frame: "ready_frame t (lmem s) m"
    and nodes: "nodes_of m = (nodes_of (lmem s))(Edf_List := xs)"
    and xs: "set xs \<subseteq> insert (Ready_Node t) (set (nodes_of (lmem s) Edf_List))" and t: "valid_task cfg t"
    and ob: "nd_object (node_at m (Ready_Node t)) =
      (if nd_owner (node_at m (Ready_Node t)) = None then None else Some (Task_Obj t))"
    and own: "nd_owner (node_at m (Ready_Node t)) \<in> {None, Some Edf_List}"
  shows "edf_inv cfg (s\<lparr>lmem := m, ready_bitmap := b\<rparr>)"
  unfolding edf_inv_def
proof (intro conjI allI impI ballI)
  fix n assume "n \<in> set (nodes_of (lmem (s\<lparr>lmem := m, ready_bitmap := b\<rparr>)) Edf_List)"
  then have "n = Ready_Node t \<or> n \<in> set (nodes_of (lmem s) Edf_List)" using xs by (auto simp: nodes)
  then show "\<exists>t. n = Ready_Node t \<and> valid_task cfg t" using t edf_invD(3) [OF inv] by blast
next
  fix u
  show "nd_object (node_at (lmem (s\<lparr>lmem := m, ready_bitmap := b\<rparr>)) (Ready_Node u)) =
      (if ready_owner u (s\<lparr>lmem := m, ready_bitmap := b\<rparr>) = None then None else Some (Task_Obj u))"
    using ob edf_invD(4) [OF inv, of u] frame by (cases "u = t") (simp_all add: ready_frame_def)
next
  fix u l assume "ready_owner u (s\<lparr>lmem := m, ready_bitmap := b\<rparr>) = Some l"
  then show "l = Edf_List"
    using own edf_invD(5) [OF inv, of u l] frame by (cases "u = t") (auto simp: ready_frame_def)
qed (use m edf_invD(1) [OF inv] in simp_all)

lemma edf_insert_loop_ok:
  assumes ok: "mem_ok (lmem s)" and "nodes_of (lmem s) Edf_List = xs @ ys" and "length ys \<le> fuel"
    and "\<And>n. n \<in> set ys \<Longrightarrow> nd_object (node_at (lmem s) n) = Some (Task_Obj (node_task n))"
  shows "edf_insert_loop cfg fuel t (hd_or ys None) s =
    bnd (on_lmem (link_at cfg Edf_List (Ready_Node t)
      (hd_or (dropWhile (\<lambda>n. \<not> rts_policy_edf_is_before s t (node_task n)) ys) None)) s)
      (\<lambda>s. Inr (ready_owner t s = Some Edf_List, s))"
  using assms(2-4)
proof (induction ys arbitrary: xs fuel)
  case Nil
  then show ?case by (simp add: link_at_def [abs_def])
next
  case (Cons y ys)
  obtain k where fuel: "fuel = Suc k" "length ys \<le> k" using Cons.prems(2) by (cases fuel) auto
  have "nd_next (node_at (lmem s) y) = hd_or ys None"
    using mem_ok_split(2) [OF ok, of Edf_List xs y ys] Cons.prems(1) by simp
  with Cons.IH [of "xs @ [y]" k] Cons.prems(1,3) fuel show ?case
    by (simp add: link_at_def [abs_def])
qed

lemma edf_insert_law:
  assumes inv: "edf_inv cfg s" and v: "valid_task cfg t" and t: "t \<notin> set (edf_order s)"
  shows "\<exists>m b. rts_policy_edf_insert cfg (Some t) s = Inr (True, s\<lparr>lmem := m, ready_bitmap := b\<rparr>) \<and>
    edf_inv cfg (s\<lparr>lmem := m, ready_bitmap := b\<rparr>) \<and> ready_frame t (lmem s) m \<and>
    edf_order (s\<lparr>lmem := m, ready_bitmap := b\<rparr>) = stable_insert (rts_policy_edf_is_before s) t (edf_order s)"
proof -
  note D = edf_invD [OF inv]
  let ?m0 = "set_object (Ready_Node t) (Some (Task_Obj t)) (lmem s)"
  let ?lt = "\<lambda>n. \<not> rts_policy_edf_is_before s t (node_task n)" and ?ns = "nodes_of (lmem s) Edf_List"
  have free: "ready_owner t s = None" using t edf_order_owner [OF inv] by simp
  have m0: "mem_ok ?m0" "nodes_of ?m0 = nodes_of (lmem s)" using D(2) by simp_all
  have len: "length ?ns \<le> RTS_SCHEDULABLE_TASK_CAPACITY cfg" "length ?ns < SIZE_MAX"
    using edf_order_length [OF inv] config_ok_room [OF D(1) edf_order_length [OF inv]]
    by (simp_all add: RTS_SCHEDULABLE_TASK_CAPACITY_def)
  have bef: "rts_policy_edf_is_before (s\<lparr>lmem := ?m0\<rparr>) = rts_policy_edf_is_before s"
    by (simp add: rts_policy_edf_is_before_def fun_eq_iff)
  have split: "nodes_of ?m0 Edf_List = takeWhile ?lt ?ns @ dropWhile ?lt ?ns" by (simp add: m0(2))
  have len': "length (nodes_of ?m0 Edf_List) < SIZE_MAX" using len by (simp add: m0(2))
  obtain m where link: "link_at cfg Edf_List (Ready_Node t) (hd_or (dropWhile ?lt ?ns) None) ?m0 = Inr m"
    and m: "mem_ok m" "nodes_of m = (nodes_of (lmem s))(Edf_List := takeWhile ?lt ?ns @ Ready_Node t # dropWhile ?lt ?ns)"
      "same_objects ?m0 m"
    using link_at_ok [OF m0(1) _ split len', of "Ready_Node t" cfg] free by (auto simp: m0(2))
  have own: "nd_owner (node_at m (Ready_Node t)) = Some Edf_List"
    using mem_okD(3) [OF m(1), of "Ready_Node t" Edf_List] by (simp add: m(2))
  have obs: "nd_object (node_at ?m0 n) = Some (Task_Obj (node_task n))" if n: "n \<in> set ?ns" for n
  proof -
    obtain u where u: "n = Ready_Node u" using D(3) [OF n] by blast
    moreover have "ready_owner u s = Some Edf_List" using mem_okD(3) [OF D(2), of n Edf_List] n u by simp
    ultimately show ?thesis using D(4) [of u] by simp
  qed
  have head: "ls_head (list_at ?m0 Edf_List) = hd_or ?ns None"
    using mem_okD(2) [OF m0(1), of Edf_List] by (simp add: m0(2))
  have loop: "edf_insert_loop cfg (RTS_SCHEDULABLE_TASK_CAPACITY cfg) t (hd_or ?ns None) (s\<lparr>lmem := ?m0\<rparr>) =
      Inr (True, s\<lparr>lmem := m\<rparr>)"
    using edf_insert_loop_ok [of "s\<lparr>lmem := ?m0\<rparr>" "[]" ?ns "RTS_SCHEDULABLE_TASK_CAPACITY cfg" cfg t]
      m0 len obs link own by (simp add: on_lmem_def bef)
  have run: "rts_policy_edf_insert cfg (Some t) s = Inr (True, s\<lparr>lmem := m, ready_bitmap := ready_bitmap s\<rparr>)"
    using free loop head by (simp add: rts_policy_edf_insert_def Let_def upd_lmem_def)
  have frame: "ready_frame t (lmem s) m"
  proof (rule ready_frameI [OF D(2) m(1,2)])
    have "set ?ns = set (takeWhile ?lt ?ns) \<union> set (dropWhile ?lt ?ns)"
      by (metis set_append takeWhile_dropWhile_id)
    then show "set (takeWhile ?lt ?ns @ Ready_Node t # dropWhile ?lt ?ns) - {Ready_Node t} = set ?ns - {Ready_Node t}"
      by auto
    show "objects_but (Ready_Node t) (lmem s) m" using m(3) by (simp add: objects_but_def same_objects_def)
  qed simp_all
  have inv': "edf_inv cfg (s\<lparr>lmem := m, ready_bitmap := ready_bitmap s\<rparr>)"
    by (rule edf_inv_update [OF inv m(1) frame m(2) _ v])
      (use own m(3) in \<open>auto simp: same_objects_def dest: set_takeWhileD set_dropWhileD\<close>)
  have "map node_task (takeWhile ?lt ?ns @ Ready_Node t # dropWhile ?lt ?ns) =
      stable_insert (rts_policy_edf_is_before s) t (edf_order s)"
    by (simp add: stable_insert_split edf_order_def takeWhile_map dropWhile_map comp_def)
  then have order: "edf_order (s\<lparr>lmem := m, ready_bitmap := ready_bitmap s\<rparr>) =
      stable_insert (rts_policy_edf_is_before s) t (edf_order s)"
    by (simp add: edf_order_def m(2))
  from run inv' frame order show ?thesis by blast
qed

lemma edf_remove_law:
  assumes inv: "edf_inv cfg s" and t: "t \<in> set (edf_order s)"
  shows "\<exists>m b. rts_policy_edf_remove cfg (Some t) s = Inr (True, s\<lparr>lmem := m, ready_bitmap := b\<rparr>) \<and>
    edf_inv cfg (s\<lparr>lmem := m, ready_bitmap := b\<rparr>) \<and> ready_frame t (lmem s) m \<and>
    edf_order (s\<lparr>lmem := m, ready_bitmap := b\<rparr>) = remove1 t (edf_order s)"
proof -
  note D = edf_invD [OF inv]
  let ?ns = "nodes_of (lmem s) Edf_List"
  have mem: "Ready_Node t \<in> set ?ns" using t by (auto simp: edf_nodes_of [OF inv])
  have own: "ready_owner t s = Some Edf_List" using mem_okD(3) [OF D(2), of "Ready_Node t" Edf_List] mem by simp
  obtain m1 where rem: "rts_list_remove cfg (Some Edf_List) (Some (Ready_Node t)) (lmem s) = Inr m1"
    and m1: "mem_ok m1" "nodes_of m1 = (nodes_of (lmem s))(Edf_List := remove1 (Ready_Node t) ?ns)"
      "same_objects (lmem s) m1" "nd_owner (node_at m1 (Ready_Node t)) = None"
    using remove_ok [OF D(2) mem, of cfg] by metis
  let ?m = "set_object (Ready_Node t) None m1"
  have m: "mem_ok ?m" "nodes_of ?m = (nodes_of (lmem s))(Edf_List := remove1 (Ready_Node t) ?ns)"
    using m1 by simp_all
  have frame: "ready_frame t (lmem s) ?m"
    by (rule ready_frameI [OF D(2) m]) (use mem_okD(1) [OF D(2)] m1(3) in
      \<open>auto simp: set_remove1_eq objects_but_def same_objects_def\<close>)
  have inv': "edf_inv cfg (s\<lparr>lmem := ?m, ready_bitmap := ready_bitmap s\<rparr>)"
  proof (rule edf_inv_update [OF inv m(1) frame m(2)])
    show "valid_task cfg t" using D(3) [OF mem] by auto
    show "set (remove1 (Ready_Node t) ?ns) \<subseteq> insert (Ready_Node t) (set ?ns)"
      using set_remove1_subset [of "Ready_Node t" ?ns] by blast
  qed (use m1(4) in simp_all)
  have "map node_task (remove1 (Ready_Node t) (map Ready_Node ts)) = remove1 t ts" for ts
    by (induction ts) (auto simp: comp_def)
  then have "map node_task (nodes_of ?m Edf_List) = remove1 t (edf_order s)"
    by (simp add: m(2) edf_nodes_of [OF inv])
  then have order: "edf_order (s\<lparr>lmem := ?m, ready_bitmap := ready_bitmap s\<rparr>) = remove1 t (edf_order s)"
    by (simp add: edf_order_def)
  have run: "rts_policy_edf_remove cfg (Some t) s = Inr (True, s\<lparr>lmem := ?m, ready_bitmap := ready_bitmap s\<rparr>)"
    using own rem m1(4) by (simp add: rts_policy_edf_remove_def Let_def on_lmem_def upd_lmem_def)
  from run inv' frame order show ?thesis by blast
qed

lemma edf_pick_law: "edf_inv cfg s \<Longrightarrow> rts_policy_edf_pick_next s = hd_or (edf_order s) None"
proof -
  assume inv: "edf_inv cfg s"
  note D = edf_invD [OF inv]
  have ls: "list_at (lmem s) Edf_List = list_of_nodes (map Ready_Node (edf_order s))"
    using mem_okD(2) [OF D(2), of Edf_List] edf_nodes_of [OF inv] by simp
  show ?thesis
  proof (cases "edf_order s")
    case (Cons t ts)
    then have "ready_owner t s \<noteq> None" using edf_order_owner [OF inv, of t] by simp
    with Cons ls D(4) [of t] show ?thesis by (simp add: rts_policy_edf_pick_next_def)
  qed (use ls in \<open>simp add: rts_policy_edf_pick_next_def\<close>)
qed

interpretation edf: ready_policy "edf_inv cfg" edf_order rts_policy_edf_is_before "\<lambda>t _. valid_task cfg t"
  "\<lambda>_ s. s" "rts_policy_edf_insert cfg" "rts_policy_edf_remove cfg" "\<lambda>s. Inr (rts_policy_edf_pick_next s)"
  "rts_policy_edf_validate cfg" for cfg
proof unfold_locales
  fix s t b assume inv: "edf_inv cfg s"
  show "distinct (edf_order s)" using inv by (rule distinct_edf_order)
  show "t \<in> set (edf_order s) \<longleftrightarrow> ready_owner t s \<noteq> None" using inv by (rule edf_order_owner)
  show "(Inr (rts_policy_edf_pick_next s) :: rts_fatal + task_ref option) = Inr (hd_or (edf_order s) None)"
    using inv by (simp add: edf_pick_law)
  show "rts_policy_edf_validate cfg (Some t) b s = Inr ((t \<in> set (edf_order s)) = b)"
    using edf_order_owner [OF inv, of t] edf_invD(5) [OF inv, of t]
    by (auto simp: rts_policy_edf_validate_def)
qed (use edf_insert_law edf_remove_law in simp_all)

section \<open>The dispatcher\<close>

definition policy_inv :: "rts_config \<Rightarrow> rts_kernel_state \<Rightarrow> bool" where
  "policy_inv cfg s = (if RTS_POLICY cfg = RTS_POLICY_KIND_EDF then edf_inv cfg s else fp_inv cfg s)"

definition policy_order :: "rts_config \<Rightarrow> rts_kernel_state \<Rightarrow> task_ref list" where
  "policy_order cfg s = (if RTS_POLICY cfg = RTS_POLICY_KIND_EDF then edf_order s else fp_order cfg s)"

definition policy_before :: "rts_config \<Rightarrow> rts_kernel_state \<Rightarrow> task_ref \<Rightarrow> task_ref \<Rightarrow> bool" where
  "policy_before cfg s = (if RTS_POLICY cfg = RTS_POLICY_KIND_EDF then rts_policy_edf_is_before s else fp_before s)"

text \<open>
  A task the policy can queue. Under the rate-monotonic policy a task without a period must be
  the idle or the service task, and a dormant periodic task is still to be ranked.
\<close>

definition policy_adm :: "rts_config \<Rightarrow> task_ref \<Rightarrow> rts_kernel_state \<Rightarrow> bool" where
  "policy_adm cfg t s \<longleftrightarrow> valid_task cfg t \<and> unat (priority (tcbs s t)) < RTS_PRIORITY_COUNT cfg \<and>
     (RTS_POLICY cfg = RTS_POLICY_KIND_RMS \<longrightarrow>
        (Some t = idle_task s \<or> Some t = timer_service_task s \<or> period (tcbs s t) \<noteq> 0) \<and>
        (task_state (tcbs s t) \<noteq> RTS_TASK_STATE_DORMANT \<or> period (tcbs s t) = 0))"

text \<open>The invariant and the order read the queues, and the priorities of the queued tasks only.\<close>

lemma ready_inv_cong:
  assumes "ready_inv cfg s" and "lmem s' = lmem s" and "ready_bitmap s' = ready_bitmap s"
    and "\<And>t. ready_owner t s \<noteq> None \<Longrightarrow> priority (tcbs s' t) = priority (tcbs s t)"
  shows "ready_inv cfg s'"
proof -
  note D = ready_invD [OF assms(1)]
  have "\<exists>t. n = Ready_Node t \<and> valid_task cfg t \<and> unat (priority (tcbs s' t)) = p \<and> p < RTS_PRIORITY_COUNT cfg"
    if n: "n \<in> set (nodes_of (lmem s) (Ready_List p))" for n p
  proof -
    obtain t where t: "n = Ready_Node t" "valid_task cfg t" "unat (priority (tcbs s t)) = p" "p < RTS_PRIORITY_COUNT cfg"
      using D(2) [OF n] by blast
    moreover have "ready_owner t s \<noteq> None" using mem_okD(3) [OF D(1), of n "Ready_List p"] n t(1) by simp
    ultimately show ?thesis using assms(4) [of t] by simp
  qed
  then show ?thesis using D unfolding ready_inv_def assms(2,3) by blast
qed

lemma policy_inv_cong:
  assumes "policy_inv cfg s" and "lmem s' = lmem s" and "ready_bitmap s' = ready_bitmap s"
    and "\<And>t. ready_owner t s \<noteq> None \<Longrightarrow> priority (tcbs s' t) = priority (tcbs s t)"
  shows "policy_inv cfg s'"
  using assms ready_inv_cong [of cfg s s'] by (auto simp: policy_inv_def edf_inv_def fp_inv_def)

lemma policy_order_cong: "lmem s' = lmem s \<Longrightarrow> policy_order cfg s' = policy_order cfg s"
  by (simp add: policy_order_def edf_order_def fp_order_def ready_tasks_def [abs_def])

lemma record_release_simps [simp]:
  "lmem (rts_policy_record_release t s) = lmem s"
  "ready_bitmap (rts_policy_record_release t s) = ready_bitmap s"
  "idle_task (rts_policy_record_release t s) = idle_task s"
  "timer_service_task (rts_policy_record_release t s) = timer_service_task s"
  "priority (tcbs (rts_policy_record_release t s) u) = priority (tcbs s u)"
  "period (tcbs (rts_policy_record_release t s) u) = period (tcbs s u)"
  "task_state (tcbs (rts_policy_record_release t s) u) = task_state (tcbs s u)"
  by (simp_all add: rts_policy_record_release_def Let_def upd_tcb_def)

lemma policy_mem_ok: "policy_inv cfg s \<Longrightarrow> mem_ok (lmem s)"
  by (auto simp: policy_inv_def edf_inv_def fp_inv_def ready_inv_def split: if_splits)

text \<open>What insertion itself asks for; at boot the idle task is inserted before it is registered as such.\<close>

definition insert_adm :: "rts_config \<Rightarrow> task_ref \<Rightarrow> rts_kernel_state \<Rightarrow> bool" where
  "insert_adm cfg t s \<longleftrightarrow> valid_task cfg t \<and> unat (priority (tcbs s t)) < RTS_PRIORITY_COUNT cfg \<and>
     (RTS_POLICY cfg = RTS_POLICY_KIND_RMS \<longrightarrow> task_state (tcbs s t) \<noteq> RTS_TASK_STATE_DORMANT \<or> period (tcbs s t) = 0)"

lemma policy_insert_adm_law:
  assumes inv: "policy_inv cfg s" and adm: "insert_adm cfg t s" and t: "t \<notin> set (policy_order cfg s)"
  defines "s1 \<equiv> rts_policy_record_release t s"
  shows "\<exists>m b. rts_policy_insert cfg (Some t) s = Inr (True, s1\<lparr>lmem := m, ready_bitmap := b\<rparr>) \<and>
    policy_inv cfg (s1\<lparr>lmem := m, ready_bitmap := b\<rparr>) \<and> ready_frame t (lmem s) m \<and>
    policy_order cfg (s1\<lparr>lmem := m, ready_bitmap := b\<rparr>) = stable_insert (policy_before cfg s1) t (policy_order cfg s)"
proof -
  have inv1: "policy_inv cfg s1" by (rule policy_inv_cong [OF inv]) (simp_all add: s1_def)
  have t1: "t \<notin> set (policy_order cfg s1)" using t policy_order_cong [of s1 s cfg] by (simp add: s1_def)
  have o1: "policy_order cfg s1 = policy_order cfg s" by (rule policy_order_cong) (simp add: s1_def)
  have adm1: "insert_adm cfg t s1" using adm by (simp add: insert_adm_def s1_def)
  show ?thesis
  proof (cases "RTS_POLICY cfg = RTS_POLICY_KIND_EDF")
    case True
    then have "rts_policy_insert cfg (Some t) s = rts_policy_edf_insert cfg (Some t) s1"
      by (simp add: rts_policy_insert_def s1_def)
    with True edf_insert_law [of cfg s1 t] inv1 adm1 t1 o1 show ?thesis
      by (simp add: policy_inv_def policy_order_def policy_before_def insert_adm_def s1_def)
  next
    case False
    then have "rts_policy_insert cfg (Some t) s = rts_policy_fp_insert cfg (Some t) s1"
      using adm1 by (cases "RTS_POLICY cfg") (auto simp: rts_policy_insert_def s1_def rts_policy_rms_insert_def
          insert_adm_def Let_def)
    with False fp_insert_law [of cfg s1 t] inv1 adm1 t1 o1 show ?thesis
      by (simp add: policy_inv_def policy_order_def policy_before_def insert_adm_def fp_adm_def s1_def)
  qed
qed

lemma policy_insert_law:
  assumes inv: "policy_inv cfg s" and adm: "policy_adm cfg t s" and t: "t \<notin> set (policy_order cfg s)"
  defines "s1 \<equiv> rts_policy_record_release t s"
  shows "\<exists>m b. rts_policy_insert cfg (Some t) s = Inr (True, s1\<lparr>lmem := m, ready_bitmap := b\<rparr>) \<and>
    policy_inv cfg (s1\<lparr>lmem := m, ready_bitmap := b\<rparr>) \<and> ready_frame t (lmem s) m \<and>
    policy_order cfg (s1\<lparr>lmem := m, ready_bitmap := b\<rparr>) = stable_insert (policy_before cfg s1) t (policy_order cfg s)"
  using policy_insert_adm_law [OF inv _ t] adm unfolding s1_def by (simp add: policy_adm_def insert_adm_def)

lemma policy_remove_law:
  assumes "policy_inv cfg s" and "t \<in> set (policy_order cfg s)"
  shows "\<exists>m b. rts_policy_remove cfg (Some t) s = Inr (True, s\<lparr>lmem := m, ready_bitmap := b\<rparr>) \<and>
    policy_inv cfg (s\<lparr>lmem := m, ready_bitmap := b\<rparr>) \<and> ready_frame t (lmem s) m \<and>
    policy_order cfg (s\<lparr>lmem := m, ready_bitmap := b\<rparr>) = remove1 t (policy_order cfg s)"
  using fp_remove_law [of cfg s t] edf_remove_law [of cfg s t] assms
  by (cases "RTS_POLICY cfg") (simp_all add: policy_inv_def policy_order_def rts_policy_remove_def
      rts_policy_rms_remove_def)

interpretation policy: ready_policy "policy_inv cfg" "policy_order cfg" "policy_before cfg" "policy_adm cfg"
  rts_policy_record_release "rts_policy_insert cfg" "rts_policy_remove cfg" "rts_policy_pick_next cfg"
  "rts_policy_validate cfg" for cfg
proof unfold_locales
  fix s t b assume inv: "policy_inv cfg s"
  show "distinct (policy_order cfg s)"
    using inv edf.order_distinct fp.order_distinct by (simp add: policy_inv_def policy_order_def split: if_splits)
  show "t \<in> set (policy_order cfg s) \<longleftrightarrow> ready_owner t s \<noteq> None"
    using inv edf.order_owner fp.order_owner by (simp add: policy_inv_def policy_order_def split: if_splits)
  show "rts_policy_pick_next cfg s = Inr (hd_or (policy_order cfg s) None)"
    using inv edf.pick_law fp.pick_law
    by (cases "RTS_POLICY cfg") (simp_all add: policy_inv_def policy_order_def rts_policy_pick_next_def
        rts_policy_rms_pick_next_def)
  show "rts_policy_validate cfg (Some t) b s = Inr ((t \<in> set (policy_order cfg s)) = b)" if "policy_adm cfg t s"
    using inv that edf.validate_law [of cfg s t b] fp.validate_law [of cfg s t b]
    by (cases "RTS_POLICY cfg") (simp_all add: policy_inv_def policy_order_def rts_policy_validate_def
        rts_policy_rms_validate_def policy_adm_def fp_adm_def)
qed (use policy_insert_law policy_remove_law in \<open>simp_all add: policy_adm_def\<close>)

text \<open>Waking a task is an insertion, blocking it a removal.\<close>

lemma policy_task_unblock_eq: "rts_policy_task_unblock cfg tp s = rts_policy_insert cfg tp s"
  by (simp add: rts_policy_task_unblock_def rts_policy_insert_def)

lemma policy_task_block_eq: "rts_policy_task_block cfg tp s = rts_policy_remove cfg tp s"
  by (simp add: rts_policy_task_block_def)

section \<open>Changing a priority\<close>

text \<open>
  The fixed-priority plugins move a queued task to the end of its new priority; the
  deadline order does not depend on priorities.
\<close>

definition reprioritized :: "rts_config \<Rightarrow> task_ref \<Rightarrow> rts_kernel_state \<Rightarrow> rts_kernel_state \<Rightarrow> task_ref list" where
  "reprioritized cfg t s s' =
     (if RTS_POLICY cfg = RTS_POLICY_KIND_EDF \<or> t \<notin> set (policy_order cfg s) \<or>
         priority (tcbs s' t) = priority (tcbs s t)
      then policy_order cfg s else stable_insert (fp_before s') t (remove1 t (policy_order cfg s)))"

lemma set_reprioritized: "distinct (policy_order cfg s) \<Longrightarrow> set (reprioritized cfg t s s') = set (policy_order cfg s)"
  by (auto simp: reprioritized_def)

lemma fp_priority_changed_law:
  assumes inv: "fp_inv cfg s" and adm: "fp_adm cfg t s"
    and p: "p \<noteq> RTS_IDLE_PRIORITY" "unat p < RTS_PRIORITY_COUNT cfg"
  defines "s1 \<equiv> upd_tcb t (\<lambda>x. x\<lparr>priority := p\<rparr>) s"
  shows "\<exists>m b. rts_policy_fp_priority_changed cfg (Some t) p s = Inr (True, s1\<lparr>lmem := m, ready_bitmap := b\<rparr>) \<and>
    fp_inv cfg (s1\<lparr>lmem := m, ready_bitmap := b\<rparr>) \<and> ready_frame t (lmem s) m \<and>
    fp_order cfg (s1\<lparr>lmem := m, ready_bitmap := b\<rparr>) =
      (if t \<notin> set (fp_order cfg s) \<or> p = priority (tcbs s t) then fp_order cfg s
       else stable_insert (fp_before s1) t (remove1 t (fp_order cfg s)))"
proof -
  have r: "ready_inv cfg s" using inv by (simp add: fp_inv_def)
  have pt: "unat (priority (tcbs s t)) < RTS_PRIORITY_COUNT cfg" and v: "valid_task cfg t"
    using adm by (simp_all add: fp_adm_def)
  have con: "rts_ready_contains cfg (Some t) s = Inr (t \<in> set (fp_order cfg s))"
    by (rule ready_contains_ok [OF r pt])
  consider "p = priority (tcbs s t)" | "p \<noteq> priority (tcbs s t)" "t \<notin> set (fp_order cfg s)"
    | "p \<noteq> priority (tcbs s t)" "t \<in> set (fp_order cfg s)" by blast
  then show ?thesis
  proof cases
    case 1
    then have "s1\<lparr>lmem := lmem s, ready_bitmap := ready_bitmap s\<rparr> = s" by (simp add: s1_def upd_tcb_def)
    with 1 p inv show ?thesis
      by (intro exI [of _ "lmem s"] exI [of _ "ready_bitmap s"])
        (simp add: rts_policy_fp_priority_changed_def)
  next
    case 2
    have s1: "s1\<lparr>lmem := lmem s, ready_bitmap := ready_bitmap s\<rparr> = s1" by (simp add: s1_def upd_tcb_def)
    have free: "ready_owner t s = None" using 2 fp_order_owner [OF inv] by simp
    have "ready_inv cfg s1"
      by (rule ready_inv_cong [OF r]) (use free in \<open>auto simp: s1_def upd_tcb_def\<close>)
    then have "fp_inv cfg s1" using inv by (simp add: fp_inv_def s1_def upd_tcb_def)
    moreover have "fp_order cfg s1 = fp_order cfg s"
      by (simp add: fp_order_def ready_tasks_def [abs_def] s1_def upd_tcb_def)
    moreover have "rts_policy_fp_priority_changed cfg (Some t) p s = Inr (True, s1)"
      using 2 p con by (simp add: rts_policy_fp_priority_changed_def s1_def)
    ultimately show ?thesis using 2 s1
      by (intro exI [of _ "lmem s"] exI [of _ "ready_bitmap s"]) simp
  next
    case 3
    have rt: "t \<in> set (ready_tasks s (unat (priority (tcbs s t))))"
      using 3(2) by (simp add: fp_order_iff [OF r] ready_tasks_iff [OF r])
    obtain m b where rem: "rts_policy_fp_remove cfg (Some t) s = Inr (True, s\<lparr>lmem := m, ready_bitmap := b\<rparr>)"
      and s2: "fp_inv cfg (s\<lparr>lmem := m, ready_bitmap := b\<rparr>)" "ready_frame t (lmem s) m"
        "fp_order cfg (s\<lparr>lmem := m, ready_bitmap := b\<rparr>) = remove1 t (fp_order cfg s)"
      using fp_remove_law [OF inv 3(2)] by blast
    let ?s3 = "s1\<lparr>lmem := m, ready_bitmap := b\<rparr>"
    have rem': "rts_ready_remove cfg (Some t) s = Inr (s\<lparr>lmem := m, ready_bitmap := b\<rparr>)"
      using rem con 3(2) by (auto simp: rts_policy_fp_remove_def bnd_Inr_iff)
    have out: "t \<notin> set (remove1 t (fp_order cfg s))" using distinct_fp_order [OF r] by simp
    have free: "nd_owner (node_at m (Ready_Node t)) = None" using fp_order_owner [OF s2(1), of t] s2(3) out by simp
    have "ready_inv cfg ?s3"
      by (rule ready_inv_cong [of cfg "s\<lparr>lmem := m, ready_bitmap := b\<rparr>"])
        (use s2(1) free in \<open>auto simp: fp_inv_def s1_def upd_tcb_def\<close>)
    then have inv3: "fp_inv cfg ?s3" using s2(1) by (simp add: fp_inv_def)
    have o3: "fp_order cfg ?s3 = remove1 t (fp_order cfg s)"
      using s2(3) by (simp add: fp_order_def ready_tasks_def [abs_def])
    have adm3: "fp_adm cfg t ?s3" using v p by (simp add: fp_adm_def s1_def upd_tcb_def)
    have bef: "fp_before ?s3 = fp_before s1" by (simp add: fp_before_def fun_eq_iff)
    obtain m' b' where ins: "rts_policy_fp_insert cfg (Some t) ?s3 = Inr (True, ?s3\<lparr>lmem := m', ready_bitmap := b'\<rparr>)"
      and s4: "fp_inv cfg (?s3\<lparr>lmem := m', ready_bitmap := b'\<rparr>)" "ready_frame t m m'"
        "fp_order cfg (?s3\<lparr>lmem := m', ready_bitmap := b'\<rparr>) = stable_insert (fp_before s1) t (remove1 t (fp_order cfg s))"
      using fp_insert_law [OF inv3 adm3] out by (auto simp: o3 bef)
    have con3: "rts_ready_contains cfg (Some t) ?s3 = Inr False"
      using ready_contains_ok [of cfg ?s3 t] inv3 adm3 out o3 by (simp add: fp_inv_def fp_adm_def)
    then have ins': "rts_ready_insert cfg (Some t) ?s3 = Inr (s1\<lparr>lmem := m', ready_bitmap := b'\<rparr>)"
      "rts_ready_contains cfg (Some t) (s1\<lparr>lmem := m', ready_bitmap := b'\<rparr>) = Inr True"
      using ins by (auto simp: rts_policy_fp_insert_def bnd_Inr_iff)
    have upd: "upd_tcb t (\<lambda>x. x\<lparr>priority := p\<rparr>) (s\<lparr>lmem := m, ready_bitmap := b\<rparr>) = ?s3"
      by (simp add: s1_def upd_tcb_def)
    have "rts_policy_fp_priority_changed cfg (Some t) p s = Inr (True, s1\<lparr>lmem := m', ready_bitmap := b'\<rparr>)"
      using 3 p con rem' ins' by (simp add: rts_policy_fp_priority_changed_def upd)
    moreover have "ready_frame t (lmem s) m'" using ready_frame_trans [OF s2(2) s4(2)] .
    ultimately show ?thesis using 3 s4(1,3) by auto
  qed
qed

lemma policy_priority_changed_law:
  assumes inv: "policy_inv cfg s" and adm: "policy_adm cfg t s"
    and p: "p \<noteq> RTS_IDLE_PRIORITY" "unat p < RTS_PRIORITY_COUNT cfg"
  defines "s1 \<equiv> upd_tcb t (\<lambda>x. x\<lparr>priority := p\<rparr>) s"
  shows "\<exists>m b. rts_policy_priority_changed cfg (Some t) p s = Inr (True, s1\<lparr>lmem := m, ready_bitmap := b\<rparr>) \<and>
    policy_inv cfg (s1\<lparr>lmem := m, ready_bitmap := b\<rparr>) \<and> ready_frame t (lmem s) m \<and>
    policy_order cfg (s1\<lparr>lmem := m, ready_bitmap := b\<rparr>) = reprioritized cfg t s s1"
proof (cases "RTS_POLICY cfg = RTS_POLICY_KIND_EDF")
  case True
  have s1: "s1\<lparr>lmem := lmem s, ready_bitmap := ready_bitmap s\<rparr> = s1" by (simp add: s1_def upd_tcb_def)
  have "policy_inv cfg s1" using True inv by (simp add: policy_inv_def edf_inv_def s1_def upd_tcb_def)
  moreover have "policy_order cfg s1 = policy_order cfg s"
    by (rule policy_order_cong) (simp add: s1_def upd_tcb_def)
  moreover have "rts_policy_priority_changed cfg (Some t) p s = Inr (True, s1)"
    using True p by (simp add: rts_policy_priority_changed_def rts_policy_edf_priority_changed_def s1_def)
  ultimately show ?thesis using True s1
    by (intro exI [of _ "lmem s"] exI [of _ "ready_bitmap s"]) (simp add: reprioritized_def)
next
  case False
  then have "rts_policy_priority_changed cfg (Some t) p s = rts_policy_fp_priority_changed cfg (Some t) p s"
    by (cases "RTS_POLICY cfg") (simp_all add: rts_policy_priority_changed_def rts_policy_rms_priority_changed_def)
  moreover have "fp_inv cfg s" "fp_adm cfg t s"
    using False inv adm by (simp_all add: policy_inv_def policy_adm_def fp_adm_def)
  note fp_priority_changed_law [OF this p, folded s1_def]
  moreover have "priority (tcbs s1 t) = p" by (simp add: s1_def upd_tcb_def)
  ultimately show ?thesis
    using False by (simp add: policy_inv_def policy_order_def reprioritized_def disj_commute cong: if_cong)
qed

section \<open>Yielding and time slices\<close>

text \<open>
  A task at the front of its group: the head of its priority queue, or any queued task under
  the deadline policy.
\<close>

definition policy_front :: "rts_config \<Rightarrow> task_ref \<Rightarrow> rts_kernel_state \<Rightarrow> bool" where
  "policy_front cfg t s =
     (if RTS_POLICY cfg = RTS_POLICY_KIND_EDF then t \<in> set (edf_order s)
      else hd_or (ready_tasks s (unat (priority (tcbs s t)))) None = Some t)"

text \<open>What yielding writes besides the queue: a fresh release sequence under the deadline policy.\<close>

definition yield_prep :: "rts_config \<Rightarrow> task_ref \<Rightarrow> rts_kernel_state \<Rightarrow> rts_kernel_state" where
  "yield_prep cfg t s =
     (if RTS_POLICY cfg = RTS_POLICY_KIND_EDF
      then upd_tcb t (\<lambda>x. x\<lparr>release_sequence := next_release_sequence s\<rparr>)
        (s\<lparr>policy_release_sequence := next_release_sequence s\<rparr>)
      else s)"

text \<open>Whether there is a task to yield to.\<close>

definition policy_peer :: "rts_config \<Rightarrow> task_ref \<Rightarrow> rts_kernel_state \<Rightarrow> bool" where
  "policy_peer cfg t s =
     (if RTS_POLICY cfg = RTS_POLICY_KIND_EDF
      then (case dropWhile (\<lambda>u. u \<noteq> t) (edf_order s) of
              _ # u # _ \<Rightarrow> absolute_deadline (tcbs s u) = absolute_deadline (tcbs s t) \<and> Some u \<noteq> idle_task s
            | _ \<Rightarrow> False)
      else 1 < length (ready_tasks s (unat (priority (tcbs s t)))))"

lemma fp_order_rotate:
  assumes inv: "ready_inv cfg s" and p: "ready_tasks s p = t # ts" and nodes: "nodes_of m =
    (nodes_of (lmem s))(Ready_List p := tl (nodes_of (lmem s) (Ready_List p)) @ [hd (nodes_of (lmem s) (Ready_List p))])"
  shows "fp_order cfg (s\<lparr>lmem := m\<rparr>) = stable_insert (fp_before s) t (remove1 t (fp_order cfg s))"
proof -
  let ?key = "\<lambda>t. unat (priority (tcbs s t))" and ?f = "(ready_tasks s)(p := ts)"
  have t: "?key t = p" "p < RTS_PRIORITY_COUNT cfg" using ready_tasks_priority [OF inv, of t p] p by simp_all
  have key: "x \<in> set (ready_tasks s q) \<Longrightarrow> ?key x = q" for x q using ready_tasks_priority(1) [OF inv] .
  have "nodes_of (lmem s) (Ready_List p) = map Ready_Node (t # ts)" by (simp add: ready_nodes_of [OF inv] p)
  then have g: "ready_tasks (s\<lparr>lmem := m\<rparr>) = (ready_tasks s)(p := ts @ [t])"
    using nodes by (auto simp: ready_tasks_def fun_eq_iff comp_def)
  have rem: "concat (map ?f (rev [0..<RTS_PRIORITY_COUNT cfg])) = remove1 t (fp_order cfg s)"
    unfolding fp_order_def
  proof (rule concat_queues_remove [where key = ?key, OF key])
    show "?f (?key t) = remove1 t (ready_tasks s (?key t))" unfolding t(1) by (simp add: p)
    show "?f q = ready_tasks s q" if "q \<noteq> ?key t" for q using that unfolding t(1) by simp
  qed simp_all
  have fkey: "x \<in> set (?f q) \<Longrightarrow> ?key x = q" for x q using key [of x q] p by (auto split: if_splits)
  have "concat (map (ready_tasks (s\<lparr>lmem := m\<rparr>)) (rev [0..<RTS_PRIORITY_COUNT cfg])) =
      stable_insert (\<lambda>x y. ?key y < ?key x) t (concat (map ?f (rev [0..<RTS_PRIORITY_COUNT cfg])))"
  proof (rule concat_queues_insert [where key = ?key, OF fkey])
    show "?key t < RTS_PRIORITY_COUNT cfg" unfolding t(1) by (rule t(2))
    show "ready_tasks (s\<lparr>lmem := m\<rparr>) (?key t) = ?f (?key t) @ [t]" unfolding t(1) g by simp
    show "ready_tasks (s\<lparr>lmem := m\<rparr>) q = ?f q" if "q \<noteq> ?key t" for q using that unfolding t(1) g by simp
  qed simp_all
  then show ?thesis unfolding rem by (simp add: fp_order_def fp_before_def [abs_def])
qed

lemma fp_yield_law:
  assumes inv: "fp_inv cfg s" and front: "hd_or (ready_tasks s (unat (priority (tcbs s t)))) None = Some t"
  defines "peer \<equiv> 1 < length (ready_tasks s (unat (priority (tcbs s t))))"
  shows "\<exists>m. rts_policy_fp_yield cfg (Some t) s = Inr (peer, s\<lparr>lmem := m\<rparr>) \<and>
    fp_inv cfg (s\<lparr>lmem := m\<rparr>) \<and> ready_frame t (lmem s) m \<and>
    (if peer then fp_order cfg (s\<lparr>lmem := m\<rparr>) = stable_insert (fp_before s) t (remove1 t (fp_order cfg s))
     else m = lmem s)"
proof -
  let ?p = "unat (priority (tcbs s t))"
  have r: "ready_inv cfg s" and cfg: "config_ok cfg" using inv by (simp_all add: fp_inv_def)
  obtain ts where ts: "ready_tasks s ?p = t # ts" using front by (cases "ready_tasks s ?p") auto
  have own: "ready_owner t s = Some (Ready_List ?p)" using ready_tasks_iff [OF r, of t ?p] ts by simp
  have t: "t \<in> set (fp_order cfg s)" using own by (simp add: fp_order_iff [OF r])
  have p: "?p < RTS_PRIORITY_COUNT cfg" using ready_tasks_priority(3) [OF r, of t ?p] ts by simp
  have con: "rts_ready_contains cfg (Some t) s = Inr True" using ready_contains_ok [OF r p] t by simp
  have has: "rts_ready_has_peer cfg (Some t) s = Inr peer" using ready_has_peer_ok [OF r t] by (simp add: peer_def)
  show ?thesis
  proof (cases peer)
    case False
    with con has inv show ?thesis by (intro exI [of _ "lmem s"]) (simp add: rts_policy_fp_yield_def)
  next
    case True
    obtain m where rot: "rts_ready_rotate cfg (priority (tcbs s t)) s = Inr (s\<lparr>lmem := m\<rparr>)"
      and r': "ready_inv cfg (s\<lparr>lmem := m\<rparr>)"
      and nodes: "nodes_of m = (nodes_of (lmem s))(Ready_List ?p :=
        tl (nodes_of (lmem s) (Ready_List ?p)) @ [hd (nodes_of (lmem s) (Ready_List ?p))])"
      and obj: "same_objects (lmem s) m"
      using ready_rotate_ok [OF r cfg p] True unfolding peer_def by metis
    have hd: "nodes_of (lmem s) (Ready_List ?p) = Ready_Node t # map Ready_Node ts"
      by (simp add: ready_nodes_of [OF r] ts)
    have frame: "ready_frame t (lmem s) m"
      by (rule ready_frameI [OF ready_invD(1) [OF r] _ nodes])
        (use ready_invD(1) [OF r'] obj in \<open>auto simp: hd objects_but_def same_objects_def\<close>)
    have own': "nd_owner (node_at m (Ready_Node t)) = Some (Ready_List ?p)"
      using mem_okD(3) [OF ready_invD(1) [OF r'], of "Ready_Node t" "Ready_List ?p"] by (simp add: nodes hd)
    have "fp_inv cfg (s\<lparr>lmem := m\<rparr>)"
      using fp_inv_update [OF inv, of "ready_bitmap s" m t] r' frame own' by simp
    with True con has rot frame fp_order_rotate [OF r ts nodes] show ?thesis
      by (intro exI [of _ m]) (simp add: rts_policy_fp_yield_def)
  qed
qed

lemma edf_peer_iff:
  assumes inv: "edf_inv cfg s" and s: "edf_order s = us @ t # vs"
  shows "nd_next (node_at (lmem s) (Ready_Node t)) = map_option Ready_Node (hd_or vs None)"
    and "vs = u # ws \<Longrightarrow> obj_task (nd_object (node_at (lmem s) (Ready_Node u))) = Some u"
    and "dropWhile (\<lambda>u. u \<noteq> t) (edf_order s) = t # vs"
proof -
  note D = edf_invD [OF inv]
  have nodes: "nodes_of (lmem s) Edf_List = map Ready_Node us @ Ready_Node t # map Ready_Node vs"
    by (simp add: edf_nodes_of [OF inv] s)
  show "nd_next (node_at (lmem s) (Ready_Node t)) = map_option Ready_Node (hd_or vs None)"
    using mem_ok_split(2) [OF D(2) nodes] by (cases vs) simp_all
  show "obj_task (nd_object (node_at (lmem s) (Ready_Node u))) = Some u" if "vs = u # ws"
    using edf_order_owner [OF inv, of u] D(4) [of u] that by (simp add: s)
  have "t \<notin> set us" using distinct_edf_order [OF inv] by (simp add: s)
  then show "dropWhile (\<lambda>u. u \<noteq> t) (edf_order s) = t # vs"
    unfolding s by (subst dropWhile_append2) auto
qed

lemma edf_yield_law:
  assumes inv: "edf_inv cfg s" and t: "t \<in> set (edf_order s)" and edf: "RTS_POLICY cfg = RTS_POLICY_KIND_EDF"
  defines "s1 \<equiv> yield_prep cfg t s"
  shows "if policy_peer cfg t s
    then \<exists>m b. rts_policy_edf_yield cfg (Some t) s = Inr (True, s1\<lparr>lmem := m, ready_bitmap := b\<rparr>) \<and>
      edf_inv cfg (s1\<lparr>lmem := m, ready_bitmap := b\<rparr>) \<and> ready_frame t (lmem s) m \<and>
      edf_order (s1\<lparr>lmem := m, ready_bitmap := b\<rparr>) =
        stable_insert (rts_policy_edf_is_before s1) t (remove1 t (edf_order s))
    else rts_policy_edf_yield cfg (Some t) s = Inr (False, s)"
proof -
  obtain us vs where s: "edf_order s = us @ t # vs" using t by (meson split_list)
  note E = edf_peer_iff [OF inv s]
  have own: "ready_owner t s = Some Edf_List"
    using edf_order_owner [OF inv, of t] t edf_invD(5) [OF inv, of t] by auto
  show ?thesis
  proof (cases "policy_peer cfg t s")
    case False
    then show ?thesis
      using own E edf by (cases vs) (auto simp: policy_peer_def rts_policy_edf_yield_def Let_def)
  next
    case True
    then obtain u ws where u: "vs = u # ws" "absolute_deadline (tcbs s u) = absolute_deadline (tcbs s t)"
      "Some u \<noteq> idle_task s"
      using edf E(3) by (cases vs) (auto simp: policy_peer_def)
    obtain m b where rem: "rts_policy_edf_remove cfg (Some t) s = Inr (True, s\<lparr>lmem := m, ready_bitmap := b\<rparr>)"
      and s2: "edf_inv cfg (s\<lparr>lmem := m, ready_bitmap := b\<rparr>)" "ready_frame t (lmem s) m"
        "edf_order (s\<lparr>lmem := m, ready_bitmap := b\<rparr>) = remove1 t (edf_order s)"
      using edf_remove_law [OF inv t] by blast
    let ?s3 = "s1\<lparr>lmem := m, ready_bitmap := b\<rparr>"
    have upd: "upd_tcb t (\<lambda>x. x\<lparr>release_sequence := next_release_sequence (s\<lparr>lmem := m, ready_bitmap := b\<rparr>)\<rparr>)
        (s\<lparr>lmem := m, ready_bitmap := b, policy_release_sequence := next_release_sequence (s\<lparr>lmem := m, ready_bitmap := b\<rparr>)\<rparr>) = ?s3"
      using edf by (simp add: s1_def yield_prep_def upd_tcb_def next_release_sequence_def Let_def)
    have inv3: "edf_inv cfg ?s3" using s2(1) by (simp add: edf_inv_def)
    have o3: "edf_order ?s3 = remove1 t (edf_order s)" using s2(3) by (simp add: edf_order_def)
    have bef: "rts_policy_edf_is_before ?s3 = rts_policy_edf_is_before s1"
      by (simp add: rts_policy_edf_is_before_def fun_eq_iff)
    have v: "valid_task cfg t" using edf_invD(3) [OF inv, of "Ready_Node t"] t by (auto simp: edf_nodes_of [OF inv])
    have out: "t \<notin> set (edf_order ?s3)" using distinct_edf_order [OF inv] by (simp add: o3)
    obtain m' b' where "rts_policy_edf_insert cfg (Some t) ?s3 = Inr (True, ?s3\<lparr>lmem := m', ready_bitmap := b'\<rparr>)"
      and s4: "edf_inv cfg (?s3\<lparr>lmem := m', ready_bitmap := b'\<rparr>)" "ready_frame t m m'"
        "edf_order (?s3\<lparr>lmem := m', ready_bitmap := b'\<rparr>) = stable_insert (rts_policy_edf_is_before s1) t (remove1 t (edf_order s))"
      using edf_insert_law [OF inv3 v out] by (auto simp: o3 bef)
    then have "rts_policy_edf_yield cfg (Some t) s = Inr (True, s1\<lparr>lmem := m', ready_bitmap := b'\<rparr>)"
      using own E(1) E(2) [of u ws] u rem upd by (simp add: rts_policy_edf_yield_def Let_def)
    with True s4 ready_frame_trans [OF s2(2) s4(2)] show ?thesis by auto
  qed
qed

text \<open>
  Yielding from the front of a group: nothing without a peer, otherwise the task is stably
  re-inserted into the order.
\<close>

lemma policy_yield_law:
  assumes inv: "policy_inv cfg s" and front: "policy_front cfg t s"
  shows "if policy_peer cfg t s
    then \<exists>m b. rts_policy_yield cfg (Some t) s = Inr (True, (yield_prep cfg t s)\<lparr>lmem := m, ready_bitmap := b\<rparr>) \<and>
      policy_inv cfg ((yield_prep cfg t s)\<lparr>lmem := m, ready_bitmap := b\<rparr>) \<and> ready_frame t (lmem s) m \<and>
      policy_order cfg ((yield_prep cfg t s)\<lparr>lmem := m, ready_bitmap := b\<rparr>) =
        stable_insert (policy_before cfg (yield_prep cfg t s)) t (remove1 t (policy_order cfg s))
    else rts_policy_yield cfg (Some t) s = Inr (False, s)"
proof (cases "RTS_POLICY cfg = RTS_POLICY_KIND_EDF")
  case True
  with edf_yield_law [of cfg s t] inv front show ?thesis
    by (simp add: policy_inv_def policy_front_def policy_order_def policy_before_def rts_policy_yield_def)
next
  case False
  then have y: "rts_policy_yield cfg (Some t) s = rts_policy_fp_yield cfg (Some t) s"
    by (cases "RTS_POLICY cfg") (simp_all add: rts_policy_yield_def rts_policy_rms_yield_def)
  obtain m where m: "rts_policy_fp_yield cfg (Some t) s = Inr (policy_peer cfg t s, s\<lparr>lmem := m\<rparr>)"
    "fp_inv cfg (s\<lparr>lmem := m\<rparr>)" "ready_frame t (lmem s) m"
    "if policy_peer cfg t s then fp_order cfg (s\<lparr>lmem := m\<rparr>) = stable_insert (fp_before s) t (remove1 t (fp_order cfg s))
     else m = lmem s"
    using fp_yield_law [of cfg s t] False inv front
    by (auto simp: policy_inv_def policy_front_def policy_peer_def)
  show ?thesis
  proof (cases "policy_peer cfg t s")
    case True
    have "s\<lparr>lmem := m, ready_bitmap := ready_bitmap s\<rparr> = s\<lparr>lmem := m\<rparr>" by simp
    with m True False y show ?thesis
      by (auto intro!: exI [of _ m] exI [of _ "ready_bitmap s"]
          simp: policy_inv_def policy_order_def policy_before_def yield_prep_def)
  qed (use m y in simp)
qed

end
