(* ===== verification/Delay_Queue.thy ===== *)
theory Delay_Queue
  imports Ready_Queue
begin

text \<open>
  The delay queue (\<^verbatim>\<open>kernel/delay_queue.c\<close>): blocked tasks ordered by wake tick. \<open>delay_inv\<close>
  says that the queue is well formed, holds tasks whose wake ticks lie within half the tick
  range after the current tick, and is ordered. Under it \<open>rts_delay_insert\<close> is the stable
  insertion of \<open>Tick_Time\<close>, the exact half-range difference the code asserts against cannot
  occur, and the head is the earliest deadline.
\<close>

section \<open>Operations\<close>

text \<open>The output parameter is the result; \<open>None\<close> where the call returns false.\<close>

definition rts_tick_is_before :: "rts_config \<Rightarrow> rts_tick \<Rightarrow> rts_tick \<Rightarrow> rts_fatal + bool option" where
  "rts_tick_is_before cfg first second =
     (let difference = first - second in
      if difference = RTS_TICK_HALF_RANGE
      then rts_assert cfg (difference \<noteq> RTS_TICK_HALF_RANGE) (Inr None)
      else Inr (Some (rts_tick_before first second)))"

definition rts_delay_initialize :: "rts_config \<Rightarrow> rts_kernel_state \<Rightarrow> rts_fatal + rts_kernel_state" where
  "rts_delay_initialize cfg s = on_lmem (rts_list_initialize cfg (Some Delay_List)) s"

text \<open>Link the task's delay node, in front of \<open>position\<close> or at the end, and check the result.\<close>

definition delay_link ::
  "rts_config \<Rightarrow> task_ref \<Rightarrow> node_ref option \<Rightarrow> rts_kernel_state \<Rightarrow> rts_fatal + rts_kernel_state" where
  "delay_link cfg t position s =
     (let s = upd_lmem (set_object (Delay_Node t) (Some (Task_Obj t))) s in
      bnd (on_lmem (case position of
                      Some p \<Rightarrow> rts_list_insert_before cfg (Some Delay_List) (Some p) (Some (Delay_Node t))
                    | None \<Rightarrow> rts_list_push_back cfg (Some Delay_List) (Some (Delay_Node t))) s) (\<lambda>s.
      if delay_owner t s \<noteq> Some Delay_List then
        let s = upd_lmem (set_object (Delay_Node t) None) s in
        rts_assert cfg (delay_owner t s = Some Delay_List) (Inr s)
      else Inr s))"

text \<open>The walk of the insertion; one unit of fuel per queued node.\<close>

fun delay_insert_loop ::
  "rts_config \<Rightarrow> nat \<Rightarrow> task_ref \<Rightarrow> node_ref option \<Rightarrow> rts_kernel_state \<Rightarrow> rts_fatal + rts_kernel_state" where
  "delay_insert_loop cfg fuel t None s = delay_link cfg t None s"
| "delay_insert_loop cfg 0 t (Some position) s = Inl RTS_NO_RETURN"
| "delay_insert_loop cfg (Suc fuel) t (Some position) s =
     (let node = node_at (lmem s) position; queued = obj_task (nd_object node) in
      require cfg (nd_owner node = Some Delay_List) s (
      require cfg (nd_object node \<noteq> None) s (
      require cfg (map_option Delay_Node queued = Some position) s (
      bnd (rts_tick_is_before cfg (wake_tick (tcbs s t)) (wake_tick (tcbs s (the queued)))) (\<lambda>r.
      case r of
        None \<Rightarrow> Inr s
      | Some task_is_before \<Rightarrow>
          if task_is_before then delay_link cfg t (Some position) s
          else delay_insert_loop cfg fuel t (nd_next node) s)))))"

definition rts_delay_insert ::
  "rts_config \<Rightarrow> task_ref option \<Rightarrow> rts_kernel_state \<Rightarrow> rts_fatal + rts_kernel_state" where
  "rts_delay_insert cfg tp s =
     require cfg (tp \<noteq> None) s (
     let t = the tp; node = node_at (lmem s) (Delay_Node t) in
     require cfg (nd_owner node = None) s (
     require cfg (nd_previous node = None) s (
     require cfg (nd_next node = None) s (
     require cfg (nd_object node = None) s (
     delay_insert_loop cfg (RTS_SCHEDULABLE_TASK_CAPACITY cfg) t
       (ls_head (list_at (lmem s) Delay_List)) s)))))"

definition rts_delay_remove ::
  "rts_config \<Rightarrow> task_ref option \<Rightarrow> rts_kernel_state \<Rightarrow> rts_fatal + rts_kernel_state" where
  "rts_delay_remove cfg tp s =
     require cfg (tp \<noteq> None) s (
     let t = the tp in
     require cfg (delay_owner t s = Some Delay_List) s (
     bnd (on_lmem (rts_list_remove cfg (Some Delay_List) (Some (Delay_Node t))) s) (\<lambda>s.
     require cfg (delay_owner t s = None) s (
     Inr (upd_lmem (set_object (Delay_Node t) None) s)))))"

definition rts_tick_deadline_reached :: "rts_tick \<Rightarrow> rts_tick \<Rightarrow> bool" where
  "rts_tick_deadline_reached now deadline = rts_tick_reached now deadline"

definition rts_delay_peek_expired ::
  "rts_config \<Rightarrow> rts_tick \<Rightarrow> rts_kernel_state \<Rightarrow> rts_fatal + task_ref option" where
  "rts_delay_peek_expired cfg now s =
     (let ls = list_at (lmem s) Delay_List in
      if ls_count ls = 0 then
        require cfg (ls_head ls = None) None (
        require cfg (ls_tail ls = None) None (
        Inr None))
      else
        require cfg (ls_head ls \<noteq> None) None (
        let head = the (ls_head ls); node = node_at (lmem s) head; task = obj_task (nd_object node) in
        require cfg (nd_owner node = Some Delay_List) None (
        require cfg (nd_object node \<noteq> None) None (
        require cfg (map_option Delay_Node task = Some head) None (
        if \<not> rts_tick_deadline_reached now (wake_tick (tcbs s (the task))) then Inr None
        else Inr task)))))"

text \<open>The output parameter is the result; \<open>None\<close> where the call returns false.\<close>

definition rts_delay_next_deadline :: "rts_config \<Rightarrow> rts_kernel_state \<Rightarrow> rts_fatal + rts_tick option" where
  "rts_delay_next_deadline cfg s =
     (case ls_head (list_at (lmem s) Delay_List) of
        None \<Rightarrow> require cfg (ls_count (list_at (lmem s) Delay_List) = 0) None (Inr None)
      | Some head \<Rightarrow>
          let node = node_at (lmem s) head; task = obj_task (nd_object node) in
          require cfg (nd_owner node = Some Delay_List) None (
          require cfg (nd_object node \<noteq> None) None (
          require cfg (map_option Delay_Node task = Some head) None (
          Inr (Some (wake_tick (tcbs s (the task))))))))"

definition rts_delay_contains ::
  "rts_config \<Rightarrow> task_ref option \<Rightarrow> rts_kernel_state \<Rightarrow> rts_fatal + bool" where
  "rts_delay_contains cfg tp s =
     require cfg (tp \<noteq> None) False (Inr (delay_owner (the tp) s = Some Delay_List))"

section \<open>Invariant\<close>

definition delayed :: "rts_kernel_state \<Rightarrow> task_ref list" where
  "delayed s = map node_task (nodes_of (lmem s) Delay_List)"

definition wake_before :: "rts_kernel_state \<Rightarrow> task_ref \<Rightarrow> task_ref \<Rightarrow> bool" where
  "wake_before s x y = rts_tick_before (wake_tick (tcbs s x)) (wake_tick (tcbs s y))"

text \<open>Structure alone, independent of the wake ticks.\<close>

definition delay_wf :: "rts_config \<Rightarrow> rts_kernel_state \<Rightarrow> bool" where
  "delay_wf cfg s \<longleftrightarrow>
     mem_ok (lmem s) \<and>
     (\<forall>n \<in> set (nodes_of (lmem s) Delay_List). \<exists>t. n = Delay_Node t \<and> valid_task cfg t) \<and>
     (\<forall>t. nd_object (node_at (lmem s) (Delay_Node t)) =
        (if delay_owner t s = None then None else Some (Task_Obj t))) \<and>
     (\<forall>t l. delay_owner t s = Some l \<longrightarrow> l = Delay_List)"

definition delay_inv :: "rts_config \<Rightarrow> rts_kernel_state \<Rightarrow> bool" where
  "delay_inv cfg s \<longleftrightarrow> delay_wf cfg s \<and> ordered_by (wake_before s) (delayed s) \<and>
     (\<forall>t \<in> set (delayed s). wake_tick (tcbs s t) \<in> tick_window (current_tick s))"

lemma delay_wfD:
  assumes "delay_wf cfg s"
  shows "mem_ok (lmem s)"
    and "n \<in> set (nodes_of (lmem s) Delay_List) \<Longrightarrow> \<exists>t. n = Delay_Node t \<and> valid_task cfg t"
    and "nd_object (node_at (lmem s) (Delay_Node t)) = (if delay_owner t s = None then None else Some (Task_Obj t))"
    and "delay_owner t s = Some l \<Longrightarrow> l = Delay_List"
  using assms unfolding delay_wf_def by blast+

lemma delay_nodes_of:
  assumes "delay_wf cfg s"
  shows "nodes_of (lmem s) Delay_List = map Delay_Node (delayed s)"
proof -
  have "map (Delay_Node \<circ> node_task) (nodes_of (lmem s) Delay_List) = map (\<lambda>n. n) (nodes_of (lmem s) Delay_List)"
    by (rule map_cong) (auto dest: delay_wfD(2) [OF assms])
  then show ?thesis by (simp add: delayed_def)
qed

lemma delayed_iff:
  assumes "delay_wf cfg s"
  shows "t \<in> set (delayed s) \<longleftrightarrow> delay_owner t s = Some Delay_List"
  using mem_okD(3) [OF delay_wfD(1) [OF assms], of "Delay_Node t" Delay_List]
  by (auto simp: delay_nodes_of [OF assms])

lemma not_delayed_iff:
  assumes "delay_wf cfg s"
  shows "delay_owner t s = None \<longleftrightarrow> t \<notin> set (delayed s)"
  using delayed_iff [OF assms, of t] delay_wfD(4) [OF assms, of t] by (cases "delay_owner t s") auto

lemma delayed_valid: "delay_wf cfg s \<Longrightarrow> t \<in> set (delayed s) \<Longrightarrow> valid_task cfg t"
  using delay_wfD(2) [of cfg s "Delay_Node t"] by (auto simp: delay_nodes_of)

lemma distinct_delayed: "delay_wf cfg s \<Longrightarrow> distinct (delayed s)"
  using mem_okD(1) [OF delay_wfD(1), of cfg s Delay_List] by (simp add: delay_nodes_of distinct_map)

lemma delayed_length:
  assumes "delay_wf cfg s"
  shows "length (delayed s) \<le> RTS_MAX_TASKS cfg + 2"
  using valid_task_nodes_length [of "delayed s" "\<lambda>t. t" cfg] distinct_delayed [OF assms]
    delayed_valid [OF assms] by auto

lemma delay_wf_update:
  assumes wf: "delay_wf cfg s" and m: "mem_ok m" and obj: "objects_but (Delay_Node t) (lmem s) m"
    and nodes: "nodes_of m = (nodes_of (lmem s))(Delay_List := map Delay_Node ts)"
    and ts: "insert t (set ts) = insert t (set (delayed s))" and t: "valid_task cfg t"
    and ob: "nd_object (node_at m (Delay_Node t)) = (if t \<in> set ts then Some (Task_Obj t) else None)"
  shows "delay_wf cfg (s\<lparr>lmem := m\<rparr>)" and "delayed (s\<lparr>lmem := m\<rparr>) = ts"
proof -
  show del: "delayed (s\<lparr>lmem := m\<rparr>) = ts"
    by (simp add: delayed_def nodes comp_def)
  have only: "Delay_Node t' \<notin> set (nodes_of (lmem s) l)" if "l \<noteq> Delay_List" for t' l
    using delay_wfD(4) [OF wf, of t' l] mem_okD(3) [OF delay_wfD(1) [OF wf], of "Delay_Node t'" l] that
    by blast
  have owner: "nd_owner (node_at m (Delay_Node t')) = Some l \<longleftrightarrow> l = Delay_List \<and> t' \<in> set ts" for t' l
    using mem_okD(3) [OF m, of "Delay_Node t'" l] only [of l t'] by (auto simp: nodes)
  have none: "nd_owner (node_at m (Delay_Node t')) = None \<longleftrightarrow> t' \<notin> set ts" for t'
    using owner [of t' Delay_List] owner [of t'] by (cases "nd_owner (node_at m (Delay_Node t'))") auto
  have "nd_object (node_at m (Delay_Node t')) = (if t' \<notin> set ts then None else Some (Task_Obj t'))" for t'
  proof (cases "t' = t")
    case False
    then have "t' \<in> set ts \<longleftrightarrow> t' \<in> set (delayed s)" using ts by blast
    with False obj delay_wfD(3) [OF wf, of t'] not_delayed_iff [OF wf, of t'] show ?thesis
      by (auto simp: objects_but_def)
  qed (use ob in simp)
  moreover have "valid_task cfg t'" if "t' \<in> set ts" for t'
    using that ts t delayed_valid [OF wf, of t'] by (metis insertCI insertE)
  ultimately show "delay_wf cfg (s\<lparr>lmem := m\<rparr>)"
    using m owner none by (auto simp: delay_wf_def nodes)
qed

section \<open>Refinement\<close>

text \<open>Inside the window two wake ticks never differ by exactly half the range.\<close>

lemma tick_is_before_window:
  assumes "a \<in> tick_window base" and "b \<in> tick_window base"
  shows "rts_tick_is_before cfg a b = Inr (Some (rts_tick_before a b))"
proof -
  have w: "unat (a - base) < 2 ^ 31" "unat (b - base) < 2 ^ 31"
    using assms by (simp_all add: tick_window_def)
  have "unat (a - b) = (if unat (b - base) \<le> unat (a - base) then unat (a - base) - unat (b - base)
      else unat (a - base) + 2 ^ 32 - unat (b - base))"
    using unat_sub_if_size [of "a - base" "b - base"] by (simp add: word_size)
  with w have "unat (a - b) \<noteq> 2 ^ 31" by (auto split: if_splits)
  then have "a - b \<noteq> RTS_TICK_HALF_RANGE"
    by (auto simp: RTS_TICK_HALF_RANGE_def)
  then show ?thesis by (simp add: rts_tick_is_before_def)
qed

lemma delay_link_ok:
  assumes wf: "delay_wf cfg s" and cfg: "config_ok cfg" and t: "valid_task cfg t" "t \<notin> set (delayed s)"
    and split: "delayed s = xs @ ys"
  obtains m where "delay_link cfg t (hd_or (map Delay_Node ys) None) s = Inr (s\<lparr>lmem := m\<rparr>)"
    and "delay_wf cfg (s\<lparr>lmem := m\<rparr>)" and "delayed (s\<lparr>lmem := m\<rparr>) = xs @ t # ys"
    and "nodes_of m = (nodes_of (lmem s))(Delay_List := map Delay_Node (xs @ t # ys))"
    and "objects_but (Delay_Node t) (lmem s) m"
proof -
  note D = delay_wfD [OF wf]
  let ?m0 = "set_object (Delay_Node t) (Some (Task_Obj t)) (lmem s)"
  have m0: "mem_ok ?m0" "nodes_of ?m0 Delay_List = map Delay_Node xs @ map Delay_Node ys"
    using D(1) by (simp_all add: delay_nodes_of [OF wf] split)
  have free: "delay_owner t s = None" using t(2) not_delayed_iff [OF wf] by simp
  have room: "length (nodes_of ?m0 Delay_List) < SIZE_MAX"
    using delayed_length [OF wf] config_ok_room [OF cfg] unfolding m0(2) by (simp add: split)
  have free0: "nd_owner (node_at ?m0 (Delay_Node t)) = None" using free by simp
  obtain m where link: "link_at cfg Delay_List (Delay_Node t) (hd_or (map Delay_Node ys) None) ?m0 = Inr m"
    and m: "mem_ok m" "nodes_of m = (nodes_of ?m0)(Delay_List := map Delay_Node xs @ Delay_Node t # map Delay_Node ys)"
      "same_objects ?m0 m"
    using link_at_ok [OF m0(1) free0 m0(2) room, of cfg] by blast
  have nodes: "nodes_of m = (nodes_of (lmem s))(Delay_List := map Delay_Node (xs @ t # ys))"
    using m(2) D(1) by simp
  have own: "nd_owner (node_at m (Delay_Node t)) = Some Delay_List"
    using mem_okD(3) [OF m(1), of "Delay_Node t" Delay_List] by (simp add: m(2))
  have obj: "objects_but (Delay_Node t) (lmem s) m"
    using m(3) by (simp add: objects_but_def same_objects_def)
  have "nd_object (node_at m (Delay_Node t)) = Some (Task_Obj t)"
    using m(3) by (simp add: same_objects_def)
  then have wf': "delay_wf cfg (s\<lparr>lmem := m\<rparr>)" "delayed (s\<lparr>lmem := m\<rparr>) = xs @ t # ys"
    using split t(1) by (auto intro!: delay_wf_update [OF wf m(1) obj nodes])
  have "delay_link cfg t (hd_or (map Delay_Node ys) None) s = Inr (s\<lparr>lmem := m\<rparr>)"
    using link own
    by (cases "hd_or (map Delay_Node ys) None")
      (simp_all add: delay_link_def link_at_def on_lmem_def upd_lmem_def del: hd_or_None)
  with wf' nodes obj that show ?thesis by blast
qed

lemma delay_insert_loop_ok:
  assumes wf: "delay_wf cfg s" and cfg: "config_ok cfg" and t: "valid_task cfg t" "t \<notin> set (delayed s)"
    and w: "\<And>y. y \<in> insert t (set (delayed s)) \<Longrightarrow> wake_tick (tcbs s y) \<in> tick_window base"
    and "delayed s = xs @ ys" and "length ys \<le> fuel"
  shows "delay_insert_loop cfg fuel t (hd_or (map Delay_Node ys) None) s =
    delay_link cfg t (hd_or (map Delay_Node (dropWhile (\<lambda>y. \<not> wake_before s t y) ys)) None) s"
  using assms(6,7)
proof (induction ys arbitrary: xs fuel)
  case (Cons y ys)
  note D = delay_wfD [OF wf]
  obtain k where fuel: "fuel = Suc k" "length ys \<le> k" using Cons.prems(2) by (cases fuel) auto
  have y: "y \<in> set (delayed s)" using Cons.prems(1) by simp
  then have own: "delay_owner y s = Some Delay_List" using delayed_iff [OF wf] by simp
  have nxt: "nd_next (node_at (lmem s) (Delay_Node y)) = hd_or (map Delay_Node ys) None"
    using mem_ok_split(2) [OF D(1), of Delay_List "map Delay_Node xs" "Delay_Node y" "map Delay_Node ys"]
      Cons.prems(1) by (simp add: delay_nodes_of [OF wf])
  have "rts_tick_is_before cfg (wake_tick (tcbs s t)) (wake_tick (tcbs s y)) = Inr (Some (wake_before s t y))"
    using w [of t] w [of y] y by (simp add: wake_before_def tick_is_before_window [of _ base])
  then show ?case
    using Cons.IH [of "xs @ [y]" k] Cons.prems(1) own D(3) [of y] nxt fuel
    by (simp add: Let_def)
qed simp

theorem delay_insert_ok:
  assumes inv: "delay_inv cfg s" and cfg: "config_ok cfg"
    and t: "valid_task cfg t" "t \<notin> set (delayed s)"
    and w: "wake_tick (tcbs s t) \<in> tick_window (current_tick s)"
  obtains m where "rts_delay_insert cfg (Some t) s = Inr (s\<lparr>lmem := m\<rparr>)"
    and "delay_inv cfg (s\<lparr>lmem := m\<rparr>)"
    and "delayed (s\<lparr>lmem := m\<rparr>) = stable_insert (wake_before s) t (delayed s)"
    and "\<And>l. l \<noteq> Delay_List \<Longrightarrow> nodes_of m l = nodes_of (lmem s) l"
    and "objects_but (Delay_Node t) (lmem s) m"
proof -
  have wf: "delay_wf cfg s" and ord: "ordered_by (wake_before s) (delayed s)"
    and win: "\<And>y. y \<in> insert t (set (delayed s)) \<Longrightarrow> wake_tick (tcbs s y) \<in> tick_window (current_tick s)"
    using inv w by (auto simp: delay_inv_def)
  note D = delay_wfD [OF wf]
  let ?xs = "takeWhile (\<lambda>y. \<not> wake_before s t y) (delayed s)"
  let ?ys = "dropWhile (\<lambda>y. \<not> wake_before s t y) (delayed s)"
  have split: "delayed s = ?xs @ ?ys" by simp
  obtain m where m: "delay_link cfg t (hd_or (map Delay_Node ?ys) None) s = Inr (s\<lparr>lmem := m\<rparr>)"
    "delay_wf cfg (s\<lparr>lmem := m\<rparr>)" "delayed (s\<lparr>lmem := m\<rparr>) = ?xs @ t # ?ys"
    "nodes_of m = (nodes_of (lmem s))(Delay_List := map Delay_Node (?xs @ t # ?ys))"
    "objects_but (Delay_Node t) (lmem s) m"
    using delay_link_ok [OF wf cfg t split] by blast
  have free: "delay_owner t s = None" using t(2) not_delayed_iff [OF wf] by simp
  have ins: "stable_insert (wake_before s) t (delayed s) = ?xs @ t # ?ys"
    by (rule stable_insert_split)
  have "rts_delay_insert cfg (Some t) s = Inr (s\<lparr>lmem := m\<rparr>)"
    using free D(3) [of t] mem_okD(5,6) [OF D(1), of "Delay_Node t"] m(1) delayed_length [OF wf]
      delay_insert_loop_ok [OF wf cfg t win, of "[]" "delayed s" "RTS_SCHEDULABLE_TASK_CAPACITY cfg"]
      mem_okD(2) [OF D(1), of Delay_List]
    by (simp add: rts_delay_insert_def Let_def RTS_SCHEDULABLE_TASK_CAPACITY_def delay_nodes_of [OF wf])
  moreover have "ordered_by (wake_before s) (stable_insert (wake_before s) t (delayed s))"
    unfolding wake_before_def [abs_def]
    using ord [unfolded wake_before_def [abs_def]] win
    by (intro tick.stable_insert_ordered [where base = "current_tick s"]) auto
  then have "delay_inv cfg (s\<lparr>lmem := m\<rparr>)"
    using m(2,3) win ins by (auto simp: delay_inv_def wake_before_def [abs_def]
        dest!: set_takeWhileD set_dropWhileD)
  ultimately show ?thesis
    using that m(3,4,5) ins by simp
qed

lemma delay_remove_ok:
  assumes wf: "delay_wf cfg s" and t: "t \<in> set (delayed s)"
  obtains m where "rts_delay_remove cfg (Some t) s = Inr (s\<lparr>lmem := m\<rparr>)"
    and "delay_wf cfg (s\<lparr>lmem := m\<rparr>)" and "delayed (s\<lparr>lmem := m\<rparr>) = remove1 t (delayed s)"
    and "\<And>l. l \<noteq> Delay_List \<Longrightarrow> nodes_of m l = nodes_of (lmem s) l"
    and "objects_but (Delay_Node t) (lmem s) m" and "nd_owner (node_at m (Delay_Node t)) = None"
proof -
  note D = delay_wfD [OF wf]
  have own: "delay_owner t s = Some Delay_List" using delayed_iff [OF wf] t by simp
  have rem: "remove1 (Delay_Node t) (map Delay_Node ts) = map Delay_Node (remove1 t ts)" for ts
    by (induction ts) auto
  obtain m1 where m1: "rts_list_remove cfg (Some Delay_List) (Some (Delay_Node t)) (lmem s) = Inr m1"
    "mem_ok m1" "nodes_of m1 = (nodes_of (lmem s))(Delay_List := map Delay_Node (remove1 t (delayed s)))"
    "same_objects (lmem s) m1" "nd_owner (node_at m1 (Delay_Node t)) = None"
    using remove_ok [OF D(1), of "Delay_Node t" Delay_List cfg] t
    by (auto simp: delay_nodes_of [OF wf] rem)
  let ?m = "set_object (Delay_Node t) None m1"
  have obj: "objects_but (Delay_Node t) (lmem s) ?m"
    using m1(4) by (simp add: objects_but_def same_objects_def)
  have nodes: "nodes_of ?m = (nodes_of (lmem s))(Delay_List := map Delay_Node (remove1 t (delayed s)))"
    using m1(2,3) by simp
  have "insert t (set (remove1 t (delayed s))) = insert t (set (delayed s))"
    using set_remove1_eq [OF distinct_delayed [OF wf]] by auto
  moreover have "t \<notin> set (remove1 t (delayed s))"
    using set_remove1_eq [OF distinct_delayed [OF wf]] by simp
  ultimately have "delay_wf cfg (s\<lparr>lmem := ?m\<rparr>)" "delayed (s\<lparr>lmem := ?m\<rparr>) = remove1 t (delayed s)"
    using m1(2) delayed_valid [OF wf t] by (auto intro!: delay_wf_update [OF wf _ obj nodes])
  moreover have "rts_delay_remove cfg (Some t) s = Inr (s\<lparr>lmem := ?m\<rparr>)"
    using own m1(1,5) by (simp add: rts_delay_remove_def on_lmem_def upd_lmem_def)
  ultimately show ?thesis using that nodes obj m1(5) by simp
qed

lemma delay_contains_ok:
  "delay_wf cfg s \<Longrightarrow> rts_delay_contains cfg (Some t) s = Inr (t \<in> set (delayed s))"
  by (simp add: rts_delay_contains_def delayed_iff)

lemma delay_peek_expired_ok:
  assumes wf: "delay_wf cfg s"
  shows "rts_delay_peek_expired cfg now s =
    Inr (case delayed s of [] \<Rightarrow> None
         | t # _ \<Rightarrow> if rts_tick_reached now (wake_tick (tcbs s t)) then Some t else None)"
proof (cases "delayed s")
  case Nil
  then show ?thesis
    using mem_okD(2) [OF delay_wfD(1) [OF wf], of Delay_List]
    by (simp add: rts_delay_peek_expired_def Let_def delay_nodes_of [OF wf])
next
  case (Cons t ts)
  then have "delay_owner t s = Some Delay_List" using delayed_iff [OF wf, of t] by simp
  then show ?thesis
    using mem_okD(2) [OF delay_wfD(1) [OF wf], of Delay_List] Cons delay_wfD(3) [OF wf, of t]
    by (simp add: rts_delay_peek_expired_def Let_def delay_nodes_of [OF wf] rts_tick_deadline_reached_def)
qed

lemma delay_next_deadline_ok:
  assumes wf: "delay_wf cfg s"
  shows "rts_delay_next_deadline cfg s = Inr (map_option (\<lambda>t. wake_tick (tcbs s t)) (hd_or (delayed s) None))"
proof (cases "delayed s")
  case Nil
  then show ?thesis
    using mem_okD(2) [OF delay_wfD(1) [OF wf], of Delay_List]
    by (simp add: rts_delay_next_deadline_def delay_nodes_of [OF wf])
next
  case (Cons t ts)
  then have "delay_owner t s = Some Delay_List" using delayed_iff [OF wf, of t] by simp
  then show ?thesis
    using mem_okD(2) [OF delay_wfD(1) [OF wf], of Delay_List] Cons delay_wfD(3) [OF wf, of t]
    by (simp add: rts_delay_next_deadline_def Let_def delay_nodes_of [OF wf])
qed

end
