(* ===== verification/Wait_Object.thy ===== *)
theory Wait_Object
  imports Ready_Queue
begin

text \<open>
  Wait queues of semaphores and mutexes (\<^verbatim>\<open>kernel/wait_object.c\<close>): tasks in order of decreasing
  priority, first-in first-out within one priority. A wait object is a \<open>wait_ref\<close>; the links
  live in \<open>wmem\<close>. The code re-validates the whole queue after every change and stops fatally if
  the check fails; the lemmas show that it never does, because insertion is stable insertion
  by priority and removal keeps the order.
\<close>

section \<open>Operations\<close>

definition rts_wait_node_is_unlinked :: "task_ref \<Rightarrow> rts_kernel_state \<Rightarrow> bool" where
  "rts_wait_node_is_unlinked t s \<longleftrightarrow>
     nd_previous (node_at (wmem s) t) = None \<and> nd_next (node_at (wmem s) t) = None \<and>
     nd_owner (node_at (wmem s) t) = None"

definition rts_wait_object_initialize ::
  "rts_config \<Rightarrow> wait_ref option \<Rightarrow> rts_kernel_state \<Rightarrow> rts_fatal + rts_kernel_state" where
  "rts_wait_object_initialize cfg op s =
     rts_assert cfg (op \<noteq> None) (
     case op of None \<Rightarrow> Inr s
     | Some w \<Rightarrow> Inr (s\<lparr>wmem := write_list w (\<lambda>_. \<lparr>ls_head = None, ls_tail = None, ls_count = 0\<rparr>) (wmem s)\<rparr>))"

definition wait_node_check :: "rts_kernel_state \<Rightarrow> wait_ref \<Rightarrow> task_ref option \<Rightarrow> task_ref \<Rightarrow> bool" where
  "wait_node_check s w previous task \<longleftrightarrow>
     \<not> (nd_owner (node_at (wmem s) task) \<noteq> Some w \<or>
        nd_previous (node_at (wmem s) task) \<noteq> previous \<or>
        (previous \<noteq> None \<and> priority (tcbs s (the previous)) < priority (tcbs s task)))"

definition rts_wait_object_validate :: "rts_config \<Rightarrow> wait_ref option \<Rightarrow> rts_kernel_state \<Rightarrow> bool" where
  "rts_wait_object_validate cfg op s =
     (case op of
        None \<Rightarrow> False
      | Some w \<Rightarrow>
          let object = list_at (wmem s) w in
          if (ls_head object = None) \<noteq> (ls_tail object = None) then False
          else case check_walk (RTS_MAX_TASKS cfg + 1) (wait_node_check s w)
                 (\<lambda>t. nd_next (node_at (wmem s) t)) (ls_head object) None 0 of
                 None \<Rightarrow> False
               | Some (task, previous, n) \<Rightarrow>
                   task = None \<and> previous = ls_tail object \<and> n = ls_count object \<and> n \<le> RTS_MAX_TASKS cfg)"

definition rts_wait_object_is_empty ::
  "rts_config \<Rightarrow> wait_ref option \<Rightarrow> rts_kernel_state \<Rightarrow> rts_fatal + bool" where
  "rts_wait_object_is_empty cfg op s =
     (let valid = rts_wait_object_validate cfg op s in
      rts_assert cfg valid (Inr (valid \<and> ls_count (list_at (wmem s) (the op)) = 0)))"

definition rts_wait_object_contains :: "wait_ref option \<Rightarrow> task_ref option \<Rightarrow> rts_kernel_state \<Rightarrow> bool" where
  "rts_wait_object_contains op tp s \<longleftrightarrow> op \<noteq> None \<and> tp \<noteq> None \<and> wait_owner (the tp) s = op"

text \<open>The walk to the insertion position; one unit of fuel per waiting task.\<close>

fun wait_position_loop ::
  "nat \<Rightarrow> task_ref \<Rightarrow> task_ref option \<Rightarrow> rts_kernel_state \<Rightarrow> rts_fatal + task_ref option" where
  "wait_position_loop fuel t None s = Inr None"
| "wait_position_loop 0 t (Some position) s =
     (if priority (tcbs s position) \<ge> priority (tcbs s t) then Inl RTS_NO_RETURN else Inr (Some position))"
| "wait_position_loop (Suc fuel) t (Some position) s =
     (if priority (tcbs s position) \<ge> priority (tcbs s t)
      then wait_position_loop fuel t (nd_next (node_at (wmem s) position)) s
      else Inr (Some position))"

definition rts_wait_object_insert ::
  "rts_config \<Rightarrow> wait_ref option \<Rightarrow> task_ref option \<Rightarrow> rts_kernel_state \<Rightarrow> rts_fatal + rts_kernel_state" where
  "rts_wait_object_insert cfg op tp s =
     rts_assert cfg (op \<noteq> None) (
     rts_assert cfg (tp \<noteq> None) (
     rts_assert cfg (op \<noteq> None \<and> rts_wait_object_validate cfg op s) (
     rts_assert cfg (tp \<noteq> None \<and> rts_wait_node_is_unlinked (the tp) s) (
     rts_assert cfg (op = None \<or> ls_count (list_at (wmem s) (the op)) < RTS_MAX_TASKS cfg) (
     if op = None \<or> tp = None \<or> \<not> rts_wait_object_validate cfg op s \<or>
        \<not> rts_wait_node_is_unlinked (the tp) s \<or>
        ls_count (list_at (wmem s) (the op)) \<ge> RTS_MAX_TASKS cfg
     then Inr s
     else
       let w = the op; t = the tp in
       bnd (wait_position_loop (RTS_MAX_TASKS cfg) t (ls_head (list_at (wmem s) w)) s) (\<lambda>position.
       let previous = (case position of None \<Rightarrow> ls_tail (list_at (wmem s) w)
                       | Some p \<Rightarrow> nd_previous (node_at (wmem s) p));
           m = write_node t (\<lambda>x. x\<lparr>nd_previous := previous, nd_next := position, nd_owner := Some w\<rparr>) (wmem s);
           m = (case previous of
                  None \<Rightarrow> write_list w (\<lambda>x. x\<lparr>ls_head := Some t\<rparr>) m
                | Some p \<Rightarrow> write_node p (\<lambda>x. x\<lparr>nd_next := Some t\<rparr>) m);
           m = (case position of
                  None \<Rightarrow> write_list w (\<lambda>x. x\<lparr>ls_tail := Some t\<rparr>) m
                | Some p \<Rightarrow> write_node p (\<lambda>x. x\<lparr>nd_previous := Some t\<rparr>) m);
           m = write_list w (\<lambda>x. x\<lparr>ls_count := ls_count x + 1\<rparr>) m;
           s = s\<lparr>wmem := m\<rparr> in
       fatal_unless (rts_wait_object_validate cfg op s) (Inr s)))))))"

definition rts_wait_object_remove ::
  "rts_config \<Rightarrow> wait_ref option \<Rightarrow> task_ref option \<Rightarrow> rts_kernel_state \<Rightarrow> rts_fatal + rts_kernel_state" where
  "rts_wait_object_remove cfg op tp s =
     rts_assert cfg (op \<noteq> None) (
     rts_assert cfg (tp \<noteq> None) (
     rts_assert cfg (op \<noteq> None \<and> tp \<noteq> None \<and> rts_wait_object_contains op tp s) (
     if op = None \<or> tp = None \<or> \<not> rts_wait_object_contains op tp s then Inr s
     else
       let w = the op; t = the tp;
           previous = nd_previous (node_at (wmem s) t); nxt = nd_next (node_at (wmem s) t);
           m = wmem s;
           m = (case previous of
                  None \<Rightarrow> write_list w (\<lambda>x. x\<lparr>ls_head := nxt\<rparr>) m
                | Some p \<Rightarrow> write_node p (\<lambda>x. x\<lparr>nd_next := nxt\<rparr>) m);
           m = (case nxt of
                  None \<Rightarrow> write_list w (\<lambda>x. x\<lparr>ls_tail := previous\<rparr>) m
                | Some q \<Rightarrow> write_node q (\<lambda>x. x\<lparr>nd_previous := previous\<rparr>) m);
           m = write_node t (\<lambda>x. x\<lparr>nd_previous := None, nd_next := None, nd_owner := None\<rparr>) m in
       fatal_unless (ls_count (list_at m w) > 0) (
       let s = s\<lparr>wmem := write_list w (\<lambda>x. x\<lparr>ls_count := ls_count x - 1\<rparr>) m\<rparr> in
       fatal_unless (rts_wait_object_validate cfg op s) (Inr s)))))"

definition rts_wait_object_pop_highest ::
  "rts_config \<Rightarrow> wait_ref option \<Rightarrow> rts_kernel_state \<Rightarrow> rts_fatal + (task_ref option \<times> rts_kernel_state)" where
  "rts_wait_object_pop_highest cfg op s =
     rts_assert cfg (op \<noteq> None) (
     rts_assert cfg (op \<noteq> None \<and> rts_wait_object_validate cfg op s) (
     if op = None \<or> \<not> rts_wait_object_validate cfg op s then Inr (None, s)
     else
       let task = ls_head (list_at (wmem s) (the op)) in
       if task \<noteq> None
       then bnd (rts_wait_object_remove cfg op task s) (\<lambda>s. Inr (task, s))
       else Inr (task, s)))"

definition rts_wait_object_reprioritize ::
  "rts_config \<Rightarrow> wait_ref option \<Rightarrow> task_ref option \<Rightarrow> rts_kernel_state \<Rightarrow> rts_fatal + rts_kernel_state" where
  "rts_wait_object_reprioritize cfg op tp s =
     rts_assert cfg (rts_wait_object_contains op tp s) (
     if \<not> rts_wait_object_contains op tp s then Inr s
     else bnd (rts_wait_object_remove cfg op tp s) (rts_wait_object_insert cfg op tp))"

section \<open>Invariant\<close>

abbreviation waiting :: "rts_kernel_state \<Rightarrow> wait_ref \<Rightarrow> task_ref list" where
  "waiting s w \<equiv> nodes_of (wmem s) w"

text \<open>The waiters of every object are application tasks, in priority order.\<close>

definition waiters_ok :: "rts_config \<Rightarrow> rts_kernel_state \<Rightarrow> wait_ref \<Rightarrow> bool" where
  "waiters_ok cfg s w \<longleftrightarrow> ordered_by (fp_before s) (waiting s w) \<and>
     (\<forall>t \<in> set (waiting s w). \<exists>i < RTS_MAX_TASKS cfg. t = App i)"

definition wait_inv :: "rts_config \<Rightarrow> rts_kernel_state \<Rightarrow> bool" where
  "wait_inv cfg s \<longleftrightarrow> mem_ok (wmem s) \<and> (\<forall>w. waiters_ok cfg s w)"

lemma app_tasks_length:
  assumes "distinct xs" and "\<And>t. t \<in> set xs \<Longrightarrow> \<exists>i < RTS_MAX_TASKS cfg. t = App i"
  shows "length xs \<le> RTS_MAX_TASKS cfg"
proof -
  have "length xs = card (set xs)" using assms(1) by (simp add: distinct_card)
  also have "\<dots> \<le> card (App ` {..<RTS_MAX_TASKS cfg})"
    using assms(2) by (intro card_mono) auto
  also have "\<dots> \<le> RTS_MAX_TASKS cfg"
    using card_image_le [of "{..<RTS_MAX_TASKS cfg}" App] by simp
  finally show ?thesis .
qed

lemma fp_before_iff: "fp_before s x y \<longleftrightarrow> priority (tcbs s y) < priority (tcbs s x)"
  by (simp add: fp_before_def word_less_nat_alt)

interpretation prio_order: stable_order "fp_before s" UNIV for s
  by unfold_locales (auto simp: fp_before_def)

text \<open>The validator accepts exactly the ordered queues.\<close>

lemma chain_checks_wait:
  assumes "\<And>t. t \<in> set xs \<Longrightarrow> nd_owner (node_at (wmem s) t) = Some w"
    and "lseg (\<lambda>t. nd_previous (node_at (wmem s) t)) N p xs q"
  shows "chain_checks (wait_node_check s w) p xs \<longleftrightarrow>
    ordered_by (fp_before s) (case p of None \<Rightarrow> xs | Some t \<Rightarrow> t # xs)"
  using assms
proof (induction xs arbitrary: p)
  case (Cons x xs)
  have chk: "wait_node_check s w p x \<longleftrightarrow> (case p of None \<Rightarrow> True | Some t \<Rightarrow> \<not> fp_before s x t)"
    using Cons.prems by (auto simp: wait_node_check_def fp_before_iff split: option.splits)
  have IH: "chain_checks (wait_node_check s w) (Some x) xs \<longleftrightarrow> ordered_by (fp_before s) (x # xs)"
    using Cons.IH [of "Some x"] Cons.prems by simp
  have trans: "\<not> fp_before s y t" if "\<not> fp_before s x t" "\<not> fp_before s y x" for t y
    using that by (auto simp: fp_before_def)
  show ?case
  proof (cases p)
    case (Some t)
    with chk IH trans show ?thesis by auto
  qed (use chk IH in auto)
qed (auto split: option.splits)

lemma wait_validate_iff:
  assumes ok: "mem_ok (wmem s)" and len: "length (waiting s w) \<le> RTS_MAX_TASKS cfg"
  shows "rts_wait_object_validate cfg (Some w) s \<longleftrightarrow> ordered_by (fp_before s) (waiting s w)"
proof -
  let ?xs = "waiting s w"
  have seg: "lseg (\<lambda>t. nd_previous (node_at (wmem s) t)) (\<lambda>t. nd_next (node_at (wmem s) t)) None ?xs None"
    using mem_absD(3) [of "wmem s" "nodes_of (wmem s)"] ok unfolding mem_ok_def .
  have "chain_checks (wait_node_check s w) None ?xs \<longleftrightarrow> ordered_by (fp_before s) ?xs"
    using chain_checks_wait [OF _ seg, of w] mem_okD(3) [OF ok, of _ w] by simp
  moreover have "check_walk (RTS_MAX_TASKS cfg + 1) (wait_node_check s w)
      (\<lambda>t. nd_next (node_at (wmem s) t)) (hd_or ?xs None) None 0 =
      (if chain_checks (wait_node_check s w) None ?xs then Some (None, last_or None ?xs, length ?xs) else None)"
    using check_walk_lseg [OF seg, of "RTS_MAX_TASKS cfg + 1" "wait_node_check s w" None 0] len
    by (simp only: add_0)
  ultimately show ?thesis
    using len by (simp add: rts_wait_object_validate_def mem_okD(2) [OF ok, of w])
qed

lemma waiters_ok_length:
  "mem_ok (wmem s) \<Longrightarrow> waiters_ok cfg s w \<Longrightarrow> length (waiting s w) \<le> RTS_MAX_TASKS cfg"
  using app_tasks_length [of "waiting s w" cfg] mem_okD(1) [of "wmem s" w] by (simp add: waiters_ok_def)

lemma waiters_ok_validate:
  "mem_ok (wmem s) \<Longrightarrow> waiters_ok cfg s w \<Longrightarrow> rts_wait_object_validate cfg (Some w) s"
  using wait_validate_iff [of s w cfg] waiters_ok_length [of s cfg w] by (simp add: waiters_ok_def)

section \<open>Refinement\<close>

lemma wait_position_loop_ok:
  assumes ok: "mem_ok (wmem s)" and "waiting s w = xs @ ys" and "length ys \<le> fuel"
  shows "wait_position_loop fuel t (hd_or ys None) s = Inr (hd_or (dropWhile (\<lambda>y. \<not> fp_before s t y) ys) None)"
  using assms(2,3)
proof (induction ys arbitrary: xs fuel)
  case (Cons y ys)
  obtain k where fuel: "fuel = Suc k" "length ys \<le> k" using Cons.prems(2) by (cases fuel) auto
  have "nd_next (node_at (wmem s) y) = hd_or ys None"
    using mem_ok_split(2) [OF ok, of w xs y ys] Cons.prems(1) by simp
  with Cons.IH [of "xs @ [y]" k] Cons.prems(1) fuel show ?case
    by (simp add: fp_before_iff not_less)
qed simp

theorem wait_object_insert_ok:
  assumes ok: "mem_ok (wmem s)" and w: "waiters_ok cfg s w"
    and t: "i < RTS_MAX_TASKS cfg" "wait_owner (App i) s = None"
  obtains m where "rts_wait_object_insert cfg (Some w) (Some (App i)) s = Inr (s\<lparr>wmem := m\<rparr>)"
    and "mem_ok m" and "waiters_ok cfg (s\<lparr>wmem := m\<rparr>) w"
    and "nodes_of m = (nodes_of (wmem s))(w := stable_insert (fp_before s) (App i) (waiting s w))"
proof -
  let ?t = "App i" and ?l = "waiting s w"
  obtain xs ys where xs: "xs = takeWhile (\<lambda>y. \<not> fp_before s ?t y) ?l"
    and ys: "ys = dropWhile (\<lambda>y. \<not> fp_before s ?t y) ?l" by blast
  have split: "?l = xs @ ys" by (simp add: xs ys)
  have ins: "stable_insert (fp_before s) ?t ?l = xs @ ?t # ys" unfolding xs ys by (rule stable_insert_split)
  let ?p = "last_or None xs" and ?q = "hd_or ys None"
  have abs: "mem_abs (wmem s) (nodes_of (wmem s))" using ok by (simp add: mem_ok_def)
  have notin: "?t \<notin> set ?l" using mem_okD(4) [OF ok, of ?t] t(2) by blast
  have room: "length ?l < RTS_MAX_TASKS cfg"
  proof -
    have "length (?t # ?l) \<le> RTS_MAX_TASKS cfg"
      using mem_okD(1) [OF ok] w notin t(1) by (intro app_tasks_length) (auto simp: waiters_ok_def)
    then show ?thesis by simp
  qed
  have ls: "list_at (wmem s) w = list_of_nodes (xs @ ys)" using mem_okD(2) [OF ok, of w] unfolding split .
  have pos: "wait_position_loop (RTS_MAX_TASKS cfg) ?t (ls_head (list_at (wmem s) w)) s = Inr ?q"
    using wait_position_loop_ok [OF ok, of w "[]" ?l "RTS_MAX_TASKS cfg" ?t] room mem_okD(2) [OF ok, of w]
    by (simp add: ys)
  have prev: "(case ?q of None \<Rightarrow> ls_tail (list_at (wmem s) w) | Some p \<Rightarrow> nd_previous (node_at (wmem s) p)) = ?p"
  proof (cases ys)
    case Nil
    then show ?thesis using ls by simp
  next
    case (Cons y zs)
    then have "waiting s w = xs @ y # zs" using split by simp
    from mem_ok_split(1) [OF ok this] Cons show ?thesis by simp
  qed
  let ?m1 = "write_node ?t (\<lambda>x. x\<lparr>nd_previous := ?p, nd_next := ?q, nd_owner := Some w\<rparr>) (wmem s)"
  let ?m2 = "case ?p of None \<Rightarrow> write_list w (\<lambda>x. x\<lparr>ls_head := Some ?t\<rparr>) ?m1
      | Some p \<Rightarrow> write_node p (\<lambda>x. x\<lparr>nd_next := Some ?t\<rparr>) ?m1"
  let ?m3 = "case ?q of None \<Rightarrow> write_list w (\<lambda>x. x\<lparr>ls_tail := Some ?t\<rparr>) ?m2
      | Some p \<Rightarrow> write_node p (\<lambda>x. x\<lparr>nd_previous := Some ?t\<rparr>) ?m2"
  let ?m = "write_list w (\<lambda>x. x\<lparr>ls_count := ls_count x + 1\<rparr>) ?m3"
  have p: "?p = Some k \<Longrightarrow> k \<noteq> ?t" and q: "?q = Some k \<Longrightarrow> k \<noteq> ?t" for k
    using notin unfolding split by (auto dest!: last_or_SomeD hd_or_SomeD)
  have pq: "?p = Some j \<Longrightarrow> ?q = Some k \<Longrightarrow> j \<noteq> k" for j k
    using mem_okD(1) [OF ok, of w] last_or_SomeD [of xs j] hd_or_SomeD [of ys k]
    unfolding split by auto
  have "mem_abs ?m ((nodes_of (wmem s))(w := xs @ ?t # ys))"
    using p q pq ls t(2)
    by (intro mem_abs_link [OF abs split]) (auto simp: write_simps upd_opt_def list_of_nodes_def
        hd_or_append last_or_append hd_or_last last_or_hd split: option.splits)
  then have m: "mem_ok ?m" "nodes_of ?m = (nodes_of (wmem s))(w := xs @ ?t # ys)"
    unfolding mem_abs_iff by simp_all
  have fb: "fp_before (s\<lparr>wmem := ?m\<rparr>) = fp_before s" by (simp add: fp_before_def fun_eq_iff)
  have ok': "waiters_ok cfg (s\<lparr>wmem := ?m\<rparr>) w"
    using w t(1) prio_order.stable_insert_ordered [of s ?l ?t, unfolded ins] m(2) unfolding waiters_ok_def fb
    by (auto simp: split)
  have "rts_wait_object_validate cfg (Some w) (s\<lparr>wmem := ?m\<rparr>)"
    using waiters_ok_validate [of "s\<lparr>wmem := ?m\<rparr>" cfg w] ok' m(1) by simp
  moreover have "rts_wait_node_is_unlinked ?t s"
    using t(2) mem_okD(5,6) [OF ok, of ?t] by (simp add: rts_wait_node_is_unlinked_def)
  ultimately have "rts_wait_object_insert cfg (Some w) (Some ?t) s = Inr (s\<lparr>wmem := ?m\<rparr>)"
    using room waiters_ok_validate [OF ok w] mem_okD(2) [OF ok, of w]
    unfolding rts_wait_object_insert_def Let_def option.sel pos bnd_simps prev by simp
  with m ok' ins that show ?thesis by simp
qed

lemma wait_object_remove_ok:
  assumes ok: "mem_ok (wmem s)" and t: "t \<in> set (waiting s w)"
    and ord: "ordered_by (fp_before s) (remove1 t (waiting s w))"
    and app: "\<forall>t \<in> set (waiting s w). \<exists>i < RTS_MAX_TASKS cfg. t = App i"
  obtains m where "rts_wait_object_remove cfg (Some w) (Some t) s = Inr (s\<lparr>wmem := m\<rparr>)"
    and "mem_ok m" and "waiters_ok cfg (s\<lparr>wmem := m\<rparr>) w"
    and "nodes_of m = (nodes_of (wmem s))(w := remove1 t (waiting s w))"
    and "nd_owner (node_at m t) = None"
proof -
  obtain xs ys where s: "waiting s w = xs @ t # ys" using t by (meson split_list)
  let ?p = "last_or None xs" and ?q = "hd_or ys None"
  have abs: "mem_abs (wmem s) (nodes_of (wmem s))" using ok by (simp add: mem_ok_def)
  have d: "distinct (xs @ t # ys)" using mem_okD(1) [OF ok, of w] s by simp
  have rem: "remove1 t (waiting s w) = xs @ ys" using d by (simp add: s remove1_append)
  have ls: "list_at (wmem s) w = list_of_nodes (xs @ t # ys)" using mem_okD(2) [OF ok, of w] s by simp
  note nb = mem_ok_split [OF ok s]
  let ?m1 = "case ?p of None \<Rightarrow> write_list w (\<lambda>x. x\<lparr>ls_head := ?q\<rparr>) (wmem s)
      | Some p \<Rightarrow> write_node p (\<lambda>x. x\<lparr>nd_next := ?q\<rparr>) (wmem s)"
  let ?m2 = "case ?q of None \<Rightarrow> write_list w (\<lambda>x. x\<lparr>ls_tail := ?p\<rparr>) ?m1
      | Some q \<Rightarrow> write_node q (\<lambda>x. x\<lparr>nd_previous := ?p\<rparr>) ?m1"
  let ?m3 = "write_node t (\<lambda>x. x\<lparr>nd_previous := None, nd_next := None, nd_owner := None\<rparr>) ?m2"
  let ?m = "write_list w (\<lambda>x. x\<lparr>ls_count := ls_count x - 1\<rparr>) ?m3"
  have p: "?p = Some k \<Longrightarrow> k \<noteq> t" and q: "?q = Some k \<Longrightarrow> k \<noteq> t" for k
    using d by (auto dest!: last_or_SomeD hd_or_SomeD)
  have pq: "?p = Some j \<Longrightarrow> ?q = Some k \<Longrightarrow> j \<noteq> k" for j k
    using d by (auto dest!: last_or_SomeD hd_or_SomeD)
  have "mem_abs ?m ((nodes_of (wmem s))(w := xs @ ys))"
    using p q pq ls
    by (intro mem_abs_unlink [OF abs s]) (auto simp: write_simps upd_opt_def list_of_nodes_def
        hd_or_append last_or_append hd_or_last last_or_hd split: option.splits)
  then have m: "mem_ok ?m" "nodes_of ?m = (nodes_of (wmem s))(w := xs @ ys)"
    unfolding mem_abs_iff by simp_all
  have fb: "fp_before (s\<lparr>wmem := ?m\<rparr>) = fp_before s" by (simp add: fp_before_def fun_eq_iff)
  have ok': "waiters_ok cfg (s\<lparr>wmem := ?m\<rparr>) w"
    using ord app m(2) unfolding waiters_ok_def fb by (simp add: rem) (simp add: s)
  have "rts_wait_object_validate cfg (Some w) (s\<lparr>wmem := ?m\<rparr>)"
    using waiters_ok_validate [of "s\<lparr>wmem := ?m\<rparr>" cfg w] ok' m(1) by simp
  moreover have "0 < ls_count (list_at ?m3 w)"
    using ls by (simp add: write_simps split: option.splits)
  moreover have "wait_owner t s = Some w" using mem_okD(3) [OF ok, of t w] t by simp
  ultimately have "rts_wait_object_remove cfg (Some w) (Some t) s = Inr (s\<lparr>wmem := ?m\<rparr>)"
    unfolding rts_wait_object_remove_def rts_wait_object_contains_def Let_def option.sel nb by simp
  moreover have "nd_owner (node_at ?m t) = None" by (simp add: write_simps)
  ultimately show ?thesis using m ok' rem that by simp
qed

lemma wait_pop_highest_empty:
  assumes "mem_ok (wmem s)" and "waiting s w = []"
  shows "rts_wait_object_pop_highest cfg (Some w) s = Inr (None, s)"
  using assms wait_validate_iff [of s w cfg] mem_okD(2) [of "wmem s" w]
  by (simp add: rts_wait_object_pop_highest_def)

lemma wait_pop_highest_ok:
  assumes ok: "mem_ok (wmem s)" and w: "waiters_ok cfg s w" and t: "waiting s w = t # ts"
  obtains m where "rts_wait_object_pop_highest cfg (Some w) s = Inr (Some t, s\<lparr>wmem := m\<rparr>)"
    and "mem_ok m" and "waiters_ok cfg (s\<lparr>wmem := m\<rparr>) w"
    and "nodes_of m = (nodes_of (wmem s))(w := ts)" and "nd_owner (node_at m t) = None"
proof -
  have "ordered_by (fp_before s) (remove1 t (waiting s w))" "\<forall>t \<in> set (waiting s w). \<exists>i < RTS_MAX_TASKS cfg. t = App i"
    using w t by (simp_all add: waiters_ok_def)
  from wait_object_remove_ok [OF ok _ this] t obtain m
    where "rts_wait_object_remove cfg (Some w) (Some t) s = Inr (s\<lparr>wmem := m\<rparr>)"
      and m: "mem_ok m" "waiters_ok cfg (s\<lparr>wmem := m\<rparr>) w" "nodes_of m = (nodes_of (wmem s))(w := ts)"
        "nd_owner (node_at m t) = None"
    by (metis list.set_intros(1) remove1.simps(2))
  then have "rts_wait_object_pop_highest cfg (Some w) s = Inr (Some t, s\<lparr>wmem := m\<rparr>)"
    using waiters_ok_validate [OF ok w] mem_okD(2) [OF ok, of w] t
    by (simp add: rts_wait_object_pop_highest_def)
  with m that show ?thesis by blast
qed

text \<open>Re-queueing a waiter whose priority has just changed: the queue is ordered but for that task.\<close>

lemma wait_reprioritize_ok:
  assumes ok: "mem_ok (wmem s)" and t: "App i \<in> set (waiting s w)"
    and ord: "ordered_by (fp_before s) (remove1 (App i) (waiting s w))"
    and app: "\<forall>t \<in> set (waiting s w). \<exists>i < RTS_MAX_TASKS cfg. t = App i"
  obtains m where "rts_wait_object_reprioritize cfg (Some w) (Some (App i)) s = Inr (s\<lparr>wmem := m\<rparr>)"
    and "mem_ok m" and "waiters_ok cfg (s\<lparr>wmem := m\<rparr>) w"
    and "nodes_of m = (nodes_of (wmem s))(w := stable_insert (fp_before s) (App i) (remove1 (App i) (waiting s w)))"
proof -
  obtain m1 where r: "rts_wait_object_remove cfg (Some w) (Some (App i)) s = Inr (s\<lparr>wmem := m1\<rparr>)"
    and m1: "mem_ok m1" "waiters_ok cfg (s\<lparr>wmem := m1\<rparr>) w"
      "nodes_of m1 = (nodes_of (wmem s))(w := remove1 (App i) (waiting s w))" "nd_owner (node_at m1 (App i)) = None"
    using wait_object_remove_ok [OF ok t ord app] by blast
  let ?s = "s\<lparr>wmem := m1\<rparr>"
  have fb: "fp_before ?s = fp_before s" by (simp add: fp_before_def fun_eq_iff)
  have i: "i < RTS_MAX_TASKS cfg" using app t by auto
  obtain m where ins: "rts_wait_object_insert cfg (Some w) (Some (App i)) ?s = Inr (?s\<lparr>wmem := m\<rparr>)"
    and m: "mem_ok m" "waiters_ok cfg (?s\<lparr>wmem := m\<rparr>) w"
      "nodes_of m = (nodes_of m1)(w := stable_insert (fp_before s) (App i) (nodes_of m1 w))"
    using wait_object_insert_ok [of ?s cfg w i] m1 i by (auto simp: fb)
  have "rts_wait_object_reprioritize cfg (Some w) (Some (App i)) s = Inr (s\<lparr>wmem := m\<rparr>)"
    using r ins mem_okD(3) [OF ok, of "App i" w] t
    by (simp add: rts_wait_object_reprioritize_def rts_wait_object_contains_def)
  with m m1(3) that show ?thesis by simp
qed

end
