(* ===== verification/Slot_Pool.thy ===== *)
theory Slot_Pool
  imports Kernel_State
begin

text \<open>
  Slot allocation with a rotating hint, shared by the task pool (\<^verbatim>\<open>task_pool.c\<close>) and the timer
  manager (\<^verbatim>\<open>timer.c\<close>): examine every slot once, cyclically from the hint, and take the first
  free one. The locale \<open>slot_pool\<close> is the contract of the two reservation functions; it gives
  that a pool hands out each slot once and is exhausted exactly when every slot is taken.
\<close>

fun cyclic_scan :: "nat \<Rightarrow> (nat \<Rightarrow> bool) \<Rightarrow> nat \<Rightarrow> nat \<Rightarrow> nat \<Rightarrow> nat option" where
  "cyclic_scan cap free hint 0 examined = None"
| "cyclic_scan cap free hint (Suc n) examined =
     (let index = hint + examined; index = (if index \<ge> cap then index - cap else index) in
      if free index then Some index else cyclic_scan cap free hint n (examined + 1))"

text \<open>\<open>index + 1\<close>, wrapped to 0 at the capacity.\<close>

definition next_slot :: "nat \<Rightarrow> nat \<Rightarrow> nat" where
  "next_slot cap i = (let n = i + 1 in if n = cap then 0 else n)"

lemma next_slot_less: "i < cap \<Longrightarrow> next_slot cap i < cap"
  by (auto simp: next_slot_def Let_def)

lemma cyclic_index:
  "hint < cap \<Longrightarrow> e < cap \<Longrightarrow> (if hint + e \<ge> cap then hint + e - cap else hint + e) = (hint + e) mod (cap :: nat)"
  by (auto simp: not_le mod_if)

lemma cyclic_scan_eq:
  assumes "hint < cap" and "e + n \<le> cap"
  shows "cyclic_scan cap free hint n e =
    map_option (\<lambda>k. (hint + k) mod cap) (find (\<lambda>k. free ((hint + k) mod cap)) [e..<e + n])"
  using assms(2)
proof (induction n arbitrary: e)
  case (Suc n)
  have upt: "[e..<e + Suc n] = e # [Suc e..<Suc e + n]" by (simp add: upt_conv_Cons)
  show ?case
    using Suc cyclic_index [OF assms(1), of e] unfolding upt by (auto simp: Let_def)
qed simp

text \<open>The scan finds the free slot that comes first from the hint, and one if there is one.\<close>

lemma cyclic_scan_Some:
  assumes "hint < cap" and "cyclic_scan cap free hint cap 0 = Some i"
  obtains k where "k < cap" and "i = (hint + k) mod cap" and "free i"
    and "\<And>j. j < k \<Longrightarrow> \<not> free ((hint + j) mod cap)"
  using assms cyclic_scan_eq [of hint cap 0 cap free] that
  by (auto simp: find_Some_iff)

lemma mod_surj:
  assumes "hint < cap" and "i < cap"
  obtains k where "k < cap" and "i = (hint + k) mod (cap :: nat)"
proof (cases "hint \<le> i")
  case True
  with assms that [of "i - hint"] show ?thesis by simp
next
  case False
  with assms that [of "i + cap - hint"] show ?thesis by simp
qed

lemma cyclic_scan_None:
  assumes "hint < cap" and "cyclic_scan cap free hint cap 0 = None" and "i < cap"
  shows "\<not> free i"
proof -
  obtain k where "k < cap" "i = (hint + k) mod cap" using mod_surj [OF assms(1,3)] .
  with assms cyclic_scan_eq [of hint cap 0 cap free] show ?thesis by (auto simp: find_None_iff)
qed

section \<open>The contract\<close>

text \<open>A number of reservations in a row, stopping at the first that fails.\<close>

fun reserve_many :: "('s \<Rightarrow> rts_fatal + (nat option \<times> 's)) \<Rightarrow> nat \<Rightarrow> 's \<Rightarrow> rts_fatal + (nat list \<times> 's)" where
  "reserve_many reserve 0 s = Inr ([], s)"
| "reserve_many reserve (Suc n) s =
     bnd (reserve s) (\<lambda>(r, s). case r of None \<Rightarrow> Inr ([], s)
       | Some i \<Rightarrow> bnd (reserve_many reserve n s) (\<lambda>(is, s). Inr (i # is, s)))"

locale slot_pool =
  fixes capacity :: nat
    and inv :: "'s \<Rightarrow> bool"
    and free :: "'s \<Rightarrow> nat \<Rightarrow> bool"
    and reserve :: "'s \<Rightarrow> rts_fatal + (nat option \<times> 's)"
  assumes reserve_some: "\<lbrakk>inv s; i < capacity; free s i\<rbrakk> \<Longrightarrow>
      \<exists>j s'. reserve s = Inr (Some j, s') \<and> inv s' \<and> j < capacity \<and> free s j \<and>
        (\<forall>k. free s' k \<longleftrightarrow> k \<noteq> j \<and> free s k)"
    and reserve_none: "\<lbrakk>inv s; \<And>i. i < capacity \<Longrightarrow> \<not> free s i\<rbrakk> \<Longrightarrow> reserve s = Inr (None, s)"
begin

definition free_slots :: "'s \<Rightarrow> nat set" where
  "free_slots s = {i. i < capacity \<and> free s i}"

lemma finite_free_slots [simp]: "finite (free_slots s)"
  by (simp add: free_slots_def)

text \<open>\<open>n\<close> reservations yield distinct free slots, as many as there are.\<close>

lemma reserve_many_ok:
  assumes "inv s"
  shows "\<exists>is s'. reserve_many reserve n s = Inr (is, s') \<and> inv s' \<and> distinct is \<and>
    set is \<subseteq> free_slots s \<and> length is = min n (card (free_slots s)) \<and> free_slots s' = free_slots s - set is"
  using assms
proof (induction n arbitrary: s)
  case (Suc n)
  show ?case
  proof (cases "free_slots s = {}")
    case True
    then have "reserve s = Inr (None, s)" using Suc.prems by (intro reserve_none) (auto simp: free_slots_def)
    with True Suc.prems show ?thesis by auto
  next
    case False
    then obtain i where "i < capacity" "free s i" by (auto simp: free_slots_def)
    then obtain j s1 where j: "reserve s = Inr (Some j, s1)" "inv s1" "j < capacity" "free s j"
        "\<forall>k. free s1 k \<longleftrightarrow> k \<noteq> j \<and> free s k"
      using reserve_some [OF Suc.prems] by blast
    have fs: "free_slots s1 = free_slots s - {j}" "j \<in> free_slots s" using j(3-5) by (auto simp: free_slots_def)
    obtain js s' where js: "reserve_many reserve n s1 = Inr (js, s')" "inv s'" "distinct js"
        "set js \<subseteq> free_slots s1" "length js = min n (card (free_slots s1))" "free_slots s' = free_slots s1 - set js"
      using Suc.IH [OF j(2)] by blast
    have "Suc (card (free_slots s1)) = card (free_slots s)"
      unfolding fs(1) using fs(2) by (intro card_Suc_Diff1) simp_all
    with j(1) js fs show ?thesis
      by (intro exI [of _ "j # js"] exI [of _ s']) auto
  qed
qed auto

end

end
