(* ===== verification/Port_Interface.thy ===== *)
theory Port_Interface
  imports Kernel_State
begin

text \<open>
  The port as the kernel sees it (\<^verbatim>\<open>kernel/port.h\<close>). The calls whose result the kernel uses are
  the fields of a record the translated functions take as an argument; the Cortex-M4F and the
  host port are instances. The exception state, the tick source, the reschedule requests and the
  stack bytes are part of the kernel state; the kernel lock has no effect on it. The two tick calls are
  functions of whether the tick source is on, and give whether it is on afterwards, since starting
  it may depend on its having been stopped.
\<close>

type_synonym byte_mem = "uintptr \<Rightarrow> 8 word"

record rts_port_stack_result =
  psr_status :: rts_status
  psr_saved_stack_pointer :: uintptr

text \<open>Wake sources of \<^verbatim>\<open>rts_power.h\<close>, by number.\<close>

definition RTS_PORT_WAKE_TIMER :: "8 word" where "RTS_PORT_WAKE_TIMER = 0"
definition RTS_PORT_WAKE_OTHER :: "8 word" where "RTS_PORT_WAKE_OTHER = 3"

record rts_port_sleep_result =
  slr_status :: rts_status
  slr_elapsed_ticks :: rts_tick
  slr_wake_source :: "8 word"

record rts_port =
  pt_initialize :: rts_status
  pt_stack_minimum :: nat
  pt_stack_granularity :: nat
  pt_stack_initialize :: "uintptr \<Rightarrow> nat \<Rightarrow> uintptr \<Rightarrow> uintptr \<Rightarrow> byte_mem \<Rightarrow> rts_port_stack_result \<times> byte_mem"
  pt_tick_start :: "bool \<Rightarrow> rts_status \<times> bool"
  pt_tick_stop :: "bool \<Rightarrow> bool"
  pt_start_first_task :: "rts_kernel_state \<Rightarrow> rts_status"
  pt_power_sleep :: "rts_tick \<Rightarrow> rts_port_sleep_result"

text \<open>Addresses the linker chooses: the two kernel stacks and the entries of the two kernel tasks.\<close>

record rts_image =
  im_idle_stack :: uintptr
  im_idle_entry :: uintptr
  im_service_stack :: uintptr
  im_service_entry :: uintptr

text \<open>The numeric value of a status, where the code passes it as a trace argument.\<close>

fun status_code :: "rts_status \<Rightarrow> uintptr" where
  "status_code RTS_STATUS_OK = 0"
| "status_code RTS_STATUS_INVALID_ARGUMENT = 1"
| "status_code RTS_STATUS_INVALID_CONTEXT = 2"
| "status_code RTS_STATUS_INVALID_STATE = 3"
| "status_code RTS_STATUS_INVALID_TASK_CONFIG = 4"
| "status_code RTS_STATUS_INVALID_PRIORITY = 5"
| "status_code RTS_STATUS_INVALID_STACK = 6"
| "status_code RTS_STATUS_CAPACITY_EXHAUSTED = 7"
| "status_code RTS_STATUS_ALREADY_INITIALIZED = 8"
| "status_code RTS_STATUS_ALREADY_STARTED = 9"
| "status_code RTS_STATUS_TIMEOUT = 10"
| "status_code RTS_STATUS_FULL = 11"
| "status_code RTS_STATUS_PORT_ERROR = 12"

end
