(* ===== verification/Task_Pool.thy ===== *)
theory Task_Pool
  imports Slot_Pool Stack_Check
begin

text \<open>
  The application task pool and its objects: slot allocation (\<^verbatim>\<open>task_pool.c\<close>), resetting and
  initialising a TCB (\<^verbatim>\<open>task_object.c\<close>) and checking a task description (\<^verbatim>\<open>task_validation.c\<close>).
\<close>

section \<open>Slots\<close>

definition rts_task_pool_index_is_valid :: "rts_config \<Rightarrow> nat \<Rightarrow> bool" where
  "rts_task_pool_index_is_valid cfg i \<longleftrightarrow> i < RTS_MAX_TASKS cfg"

definition set_slot_state :: "nat \<Rightarrow> rts_task_slot_state \<Rightarrow> rts_kernel_state \<Rightarrow> rts_kernel_state" where
  "set_slot_state i v s = upd_tcb (App i) (\<lambda>x. x\<lparr>slot_state := v\<rparr>) s"

definition rts_task_pool_initialize :: "rts_config \<Rightarrow> rts_kernel_state \<Rightarrow> rts_kernel_state" where
  "rts_task_pool_initialize cfg s =
     (fold (\<lambda>i. set_slot_state i RTS_TASK_SLOT_FREE) [0..<RTS_MAX_TASKS cfg] s)
       \<lparr>allocated_count := 0, next_free_hint := 0\<rparr>"

definition slot_is_free :: "rts_kernel_state \<Rightarrow> nat \<Rightarrow> bool" where
  "slot_is_free s i \<longleftrightarrow> slot_state (tcbs s (App i)) = RTS_TASK_SLOT_FREE"

definition rts_task_pool_reserve ::
  "rts_config \<Rightarrow> rts_kernel_state \<Rightarrow> rts_fatal + (nat option \<times> rts_kernel_state)" where
  "rts_task_pool_reserve cfg s =
     rts_assert cfg (next_free_hint s < RTS_MAX_TASKS cfg) (
     if next_free_hint s \<ge> RTS_MAX_TASKS cfg then Inr (None, s)
     else case cyclic_scan (RTS_MAX_TASKS cfg) (slot_is_free s) (next_free_hint s) (RTS_MAX_TASKS cfg) 0 of
            None \<Rightarrow> Inr (None, s)
          | Some i \<Rightarrow> Inr (Some i, (set_slot_state i RTS_TASK_SLOT_RESERVED s)
              \<lparr>next_free_hint := next_slot (RTS_MAX_TASKS cfg) i\<rparr>))"

definition rts_task_pool_commit :: "rts_config \<Rightarrow> nat \<Rightarrow> rts_kernel_state \<Rightarrow> rts_fatal + rts_kernel_state" where
  "rts_task_pool_commit cfg i s =
     rts_assert cfg (rts_task_pool_index_is_valid cfg i) (
     if \<not> rts_task_pool_index_is_valid cfg i then Inr s
     else
       rts_assert cfg (slot_state (tcbs s (App i)) = RTS_TASK_SLOT_RESERVED) (
       rts_assert cfg (allocated_count s < RTS_MAX_TASKS cfg) (
       if slot_state (tcbs s (App i)) \<noteq> RTS_TASK_SLOT_RESERVED \<or> allocated_count s \<ge> RTS_MAX_TASKS cfg
       then Inr s
       else Inr ((set_slot_state i RTS_TASK_SLOT_ALLOCATED s)\<lparr>allocated_count := allocated_count s + 1\<rparr>))))"

definition rts_task_pool_rollback :: "rts_config \<Rightarrow> nat \<Rightarrow> rts_kernel_state \<Rightarrow> rts_fatal + rts_kernel_state" where
  "rts_task_pool_rollback cfg i s =
     rts_assert cfg (rts_task_pool_index_is_valid cfg i) (
     if \<not> rts_task_pool_index_is_valid cfg i then Inr s
     else
       rts_assert cfg (slot_state (tcbs s (App i)) = RTS_TASK_SLOT_RESERVED) (
       if slot_state (tcbs s (App i)) \<noteq> RTS_TASK_SLOT_RESERVED then Inr s
       else Inr ((set_slot_state i RTS_TASK_SLOT_FREE s)\<lparr>next_free_hint := i\<rparr>)))"

definition rts_task_pool_get :: "rts_config \<Rightarrow> nat \<Rightarrow> rts_fatal + task_ref option" where
  "rts_task_pool_get cfg i =
     rts_assert cfg (rts_task_pool_index_is_valid cfg i) (
     Inr (if \<not> rts_task_pool_index_is_valid cfg i then None else Some (App i)))"

definition rts_task_pool_allocated_count :: "rts_config \<Rightarrow> rts_kernel_state \<Rightarrow> rts_fatal + nat" where
  "rts_task_pool_allocated_count cfg s =
     rts_assert cfg (allocated_count s \<le> RTS_MAX_TASKS cfg) (
     Inr (if allocated_count s > RTS_MAX_TASKS cfg then 0 else allocated_count s))"

definition rts_task_pool_next_free_hint :: "rts_config \<Rightarrow> rts_kernel_state \<Rightarrow> rts_fatal + nat" where
  "rts_task_pool_next_free_hint cfg s =
     rts_assert cfg (next_free_hint s < RTS_MAX_TASKS cfg) (
     Inr (if next_free_hint s \<ge> RTS_MAX_TASKS cfg then SIZE_MAX else next_free_hint s))"

section \<open>Objects\<close>

definition rts_task_pool_contains :: "rts_config \<Rightarrow> task_ref option \<Rightarrow> bool" where
  "rts_task_pool_contains cfg tp \<longleftrightarrow> list_ex (\<lambda>i. tp = Some (App i)) [0..<RTS_MAX_TASKS cfg]"

definition rts_task_node_is_canonical_unlinked :: "node_ref \<Rightarrow> rts_kernel_state \<Rightarrow> bool" where
  "rts_task_node_is_canonical_unlinked n s \<longleftrightarrow>
     nd_previous (node_at (lmem s) n) = None \<and> nd_next (node_at (lmem s) n) = None \<and>
     nd_owner (node_at (lmem s) n) = None \<and> nd_object (node_at (lmem s) n) = None"

definition wait_node_is_clear :: "task_ref \<Rightarrow> rts_kernel_state \<Rightarrow> bool" where
  "wait_node_is_clear t s \<longleftrightarrow> wait_owner t s = None \<and>
     nd_previous (node_at (wmem s) t) = None \<and> nd_next (node_at (wmem s) t) = None"

definition UINTPTR_MAX :: uintptr where "UINTPTR_MAX = 0xffffffff"

definition rts_task_descriptor_preconditions_hold :: "rts_config \<Rightarrow> rts_task_config \<Rightarrow> bool" where
  "rts_task_descriptor_preconditions_hold cfg c \<longleftrightarrow>
     tc_entry c \<noteq> 0 \<and> tc_stack_buffer c \<noteq> 0 \<and> tc_stack_size_bytes c \<noteq> 0 \<and>
     tc_stack_buffer c mod RTS_TASK_STACK_ALIGNMENT = 0 \<and>
     tc_stack_size_bytes c \<le> unat UINTPTR_MAX \<and>
     tc_stack_buffer c \<le> UINTPTR_MAX - of_nat (tc_stack_size_bytes c) \<and>
     tc_priority c > RTS_IDLE_PRIORITY \<and> unat (tc_priority c) < RTS_PRIORITY_COUNT cfg"

text \<open>\<open>rts_list_node_initialize\<close> on both list nodes, and clearing the wait node and owned-mutex list.\<close>

definition clear_task_nodes :: "rts_config \<Rightarrow> task_ref \<Rightarrow> rts_kernel_state \<Rightarrow> rts_fatal + rts_kernel_state" where
  "clear_task_nodes cfg t s =
     bnd (on_lmem (rts_list_node_initialize cfg (Some (Ready_Node t))) s) (\<lambda>s.
     bnd (on_lmem (rts_list_node_initialize cfg (Some (Delay_Node t))) s) (\<lambda>s.
     Inr (s\<lparr>wmem := write_node t (\<lambda>x. x\<lparr>nd_previous := None, nd_next := None, nd_owner := None\<rparr>) (wmem s),
       omem := write_list t (\<lambda>_. \<lparr>ls_head = None, ls_tail = None, ls_count = 0\<rparr>) (omem s)\<rparr>)))"

text \<open>The diagnostic fields of a TCB are cleared where their feature is compiled in.\<close>

definition clear_task_diagnostics :: "rts_config \<Rightarrow> rts_tcb \<Rightarrow> rts_tcb" where
  "clear_task_diagnostics cfg x =
     (let x = (if RTS_ENABLE_RUNTIME_STATS cfg
               then x\<lparr>diagnostic_dispatch_count := 0, diagnostic_block_count := 0, diagnostic_wake_count := 0,
                 diagnostic_running_ticks := 0, diagnostic_last_start_tick := 0\<rparr> else x);
          x = (if RTS_ENABLE_STACK_WATERMARK cfg then x\<lparr>diagnostic_max_stack_used := 0\<rparr> else x) in
      if RTS_ENABLE_ASSERTIONS cfg then x\<lparr>validation_magic := 0\<rparr> else x)"

definition rts_task_object_reset ::
  "rts_config \<Rightarrow> task_ref option \<Rightarrow> rts_kernel_state \<Rightarrow> rts_fatal + rts_kernel_state" where
  "rts_task_object_reset cfg tp s =
     rts_assert cfg (tp \<noteq> None) (
     case tp of None \<Rightarrow> Inr s
     | Some t \<Rightarrow>
         rts_assert cfg (slot_state (tcbs s t) = RTS_TASK_SLOT_RESERVED) (
         rts_assert cfg (ready_owner t s = None) (
         rts_assert cfg (delay_owner t s = None) (
         rts_assert cfg (wait_node_is_clear t s) (
         if slot_state (tcbs s t) \<noteq> RTS_TASK_SLOT_RESERVED \<or> ready_owner t s \<noteq> None \<or>
            delay_owner t s \<noteq> None \<or> \<not> wait_node_is_clear t s
         then Inr s
         else bnd (clear_task_nodes cfg t s) (\<lambda>s.
           Inr (upd_tcb t (\<lambda>x. clear_task_diagnostics cfg (x\<lparr>
             saved_stack_pointer := 0, stack_low := 0, stack_high := 0, entry := 0, argument := 0,
             wait_reason := RTS_WAIT_NONE, wait_result := RTS_WAIT_RESULT_NONE, wake_tick := 0,
             wait_object := None, timeout_active := False, slice_remaining := 0,
             base_priority := RTS_IDLE_PRIORITY, priority := RTS_IDLE_PRIORITY, period := 0,
             relative_deadline := 0, absolute_deadline := 0, release_tick := 0, execution_budget := 0,
             release_sequence := 0, task_state := RTS_TASK_STATE_DORMANT\<rparr>)) s)))))))"

definition rts_task_object_initialize ::
  "rts_config \<Rightarrow> task_ref option \<Rightarrow> rts_task_config option \<Rightarrow> rts_kernel_lifecycle \<Rightarrow> rts_kernel_state \<Rightarrow>
   rts_fatal + (rts_status \<times> rts_kernel_state)" where
  "rts_task_object_initialize cfg tp cp lc s =
     rts_assert cfg (tp \<noteq> None) (
     rts_assert cfg (cp \<noteq> None) (
     if tp = None \<or> cp = None then Inr (RTS_STATUS_INVALID_ARGUMENT, s)
     else let t = the tp; c = the cp in
       rts_assert cfg (rts_task_pool_contains cfg tp) (
       if \<not> rts_task_pool_contains cfg tp then Inr (RTS_STATUS_INVALID_TASK_CONFIG, s)
       else
         rts_assert cfg (lc = RTS_KERNEL_INITIALIZED) (
         rts_assert cfg (slot_state (tcbs s t) = RTS_TASK_SLOT_RESERVED) (
         rts_assert cfg (rts_task_node_is_canonical_unlinked (Ready_Node t) s) (
         rts_assert cfg (rts_task_node_is_canonical_unlinked (Delay_Node t) s) (
         rts_assert cfg (wait_node_is_clear t s) (
         if \<not> (lc = RTS_KERNEL_INITIALIZED \<and> slot_state (tcbs s t) = RTS_TASK_SLOT_RESERVED \<and>
               rts_task_node_is_canonical_unlinked (Ready_Node t) s \<and>
               rts_task_node_is_canonical_unlinked (Delay_Node t) s \<and> wait_node_is_clear t s)
         then Inr (RTS_STATUS_INVALID_STATE, s)
         else
           rts_assert cfg (rts_task_descriptor_preconditions_hold cfg c) (
           if \<not> rts_task_descriptor_preconditions_hold cfg c then Inr (RTS_STATUS_INVALID_TASK_CONFIG, s)
           else bnd (clear_task_nodes cfg t s) (\<lambda>s.
             Inr (RTS_STATUS_OK, upd_tcb t (\<lambda>x. clear_task_diagnostics cfg (x\<lparr>
               saved_stack_pointer := 0, stack_low := tc_stack_buffer c,
               stack_high := tc_stack_buffer c + of_nat (tc_stack_size_bytes c),
               entry := tc_entry c, argument := tc_argument c,
               wait_reason := RTS_WAIT_NONE, wait_result := RTS_WAIT_RESULT_NONE, wake_tick := 0,
               wait_object := None, timeout_active := False, slice_remaining := RTS_TIME_SLICE_TICKS cfg,
               base_priority := tc_priority c, priority := tc_priority c, period := tc_period c,
               relative_deadline := tc_relative_deadline c, absolute_deadline := 0, release_tick := 0,
               execution_budget := tc_execution_budget c, release_sequence := 0,
               task_state := RTS_TASK_STATE_DORMANT\<rparr>)) s)))))))))))"

section \<open>Descriptions\<close>

definition rts_task_stack_is_valid ::
  "rts_config \<Rightarrow> rts_port \<Rightarrow> rts_task_config \<Rightarrow> rts_fatal + bool" where
  "rts_task_stack_is_valid cfg pt c =
     rts_assert cfg (pt_stack_minimum pt > 0) (
     rts_assert cfg (pt_stack_granularity pt > 0) (
     if pt_stack_minimum pt = 0 \<or> pt_stack_granularity pt = 0 then Inr False
     else if RTS_ENABLE_STACK_GUARDS cfg \<and> pt_stack_minimum pt > SIZE_MAX - RTS_STACK_GUARD_SIZE_BYTES cfg
     then Inr False
     else let minimum_size = (if RTS_ENABLE_STACK_GUARDS cfg
                              then pt_stack_minimum pt + RTS_STACK_GUARD_SIZE_BYTES cfg else pt_stack_minimum pt) in
       if tc_stack_buffer c = 0 \<or> tc_stack_size_bytes c = 0 \<or>
          tc_stack_buffer c mod RTS_TASK_STACK_ALIGNMENT \<noteq> 0 \<or>
          tc_stack_size_bytes c < minimum_size \<or>
          tc_stack_size_bytes c mod pt_stack_granularity pt \<noteq> 0 \<or>
          tc_stack_size_bytes c > unat UINTPTR_MAX
       then Inr False
       else if tc_stack_buffer c > UINTPTR_MAX - of_nat (tc_stack_size_bytes c) then Inr False
       else Inr ((tc_stack_buffer c + of_nat (tc_stack_size_bytes c)) mod RTS_TASK_STACK_ALIGNMENT = 0)))"

definition rts_task_config_validate ::
  "rts_config \<Rightarrow> rts_port \<Rightarrow> rts_task_config option \<Rightarrow> rts_kernel_lifecycle \<Rightarrow> rts_fatal + rts_status" where
  "rts_task_config_validate cfg pt cp lc =
     (case cp of
        None \<Rightarrow> Inr RTS_STATUS_INVALID_ARGUMENT
      | Some c \<Rightarrow>
          if lc \<noteq> RTS_KERNEL_INITIALIZED then Inr RTS_STATUS_INVALID_STATE
          else if tc_entry c = 0 then Inr RTS_STATUS_INVALID_TASK_CONFIG
          else if tc_priority c < 1 \<or> unat (tc_priority c) \<ge> RTS_PRIORITY_COUNT cfg
          then Inr RTS_STATUS_INVALID_PRIORITY
          else if (case RTS_POLICY cfg of
                     RTS_POLICY_KIND_RMS \<Rightarrow>
                       tc_period c = 0 \<or> tc_period c > RTS_DELAY_MAX \<or> tc_relative_deadline c = 0 \<or>
                       tc_relative_deadline c > tc_period c \<or> tc_execution_budget c > tc_relative_deadline c
                   | RTS_POLICY_KIND_EDF \<Rightarrow>
                       tc_relative_deadline c = 0 \<or> tc_relative_deadline c > RTS_DELAY_MAX \<or>
                       tc_period c > RTS_DELAY_MAX \<or> tc_execution_budget c > tc_relative_deadline c
                   | RTS_POLICY_KIND_FIXED_PRIORITY \<Rightarrow>
                       tc_period c > RTS_DELAY_MAX \<or> tc_relative_deadline c > RTS_DELAY_MAX)
          then Inr RTS_STATUS_INVALID_TASK_CONFIG
          else bnd (rts_task_stack_is_valid cfg pt c) (\<lambda>ok.
            Inr (if \<not> ok then RTS_STATUS_INVALID_STACK else RTS_STATUS_OK)))"

section \<open>The pool as a slot pool\<close>

definition pool_inv :: "rts_config \<Rightarrow> rts_kernel_state \<Rightarrow> bool" where
  "pool_inv cfg s \<longleftrightarrow> next_free_hint s < RTS_MAX_TASKS cfg \<and>
     allocated_count s = card {i. i < RTS_MAX_TASKS cfg \<and> slot_state (tcbs s (App i)) = RTS_TASK_SLOT_ALLOCATED}"

lemma pool_reserve_ok:
  assumes inv: "pool_inv cfg s" and i: "i < RTS_MAX_TASKS cfg" "slot_is_free s i"
  shows "\<exists>j s'. rts_task_pool_reserve cfg s = Inr (Some j, s') \<and> pool_inv cfg s' \<and>
    j < RTS_MAX_TASKS cfg \<and> slot_is_free s j \<and> (\<forall>k. slot_is_free s' k \<longleftrightarrow> k \<noteq> j \<and> slot_is_free s k)"
proof -
  let ?max = "RTS_MAX_TASKS cfg"
  have h: "next_free_hint s < ?max" using inv by (simp add: pool_inv_def)
  obtain j where j: "cyclic_scan ?max (slot_is_free s) (next_free_hint s) ?max 0 = Some j"
    using cyclic_scan_None [OF h, of "slot_is_free s" i] i by fastforce
  have fj: "slot_is_free s j" "j < ?max"
    using cyclic_scan_Some [OF h j] h by (metis, metis mod_less_divisor less_nat_zero_code not_gr_zero)
  let ?s = "(set_slot_state j RTS_TASK_SLOT_RESERVED s)\<lparr>next_free_hint := next_slot ?max j\<rparr>"
  have "{i. i < ?max \<and> slot_state (tcbs ?s (App i)) = RTS_TASK_SLOT_ALLOCATED} =
      {i. i < ?max \<and> slot_state (tcbs s (App i)) = RTS_TASK_SLOT_ALLOCATED}"
    using fj(1) by (auto simp: set_slot_state_def upd_tcb_def slot_is_free_def)
  then have "pool_inv cfg ?s"
    using inv next_slot_less [OF fj(2)] by (simp add: pool_inv_def set_slot_state_def upd_tcb_def)
  moreover have "rts_task_pool_reserve cfg s = Inr (Some j, ?s)"
    using h j by (simp add: rts_task_pool_reserve_def)
  moreover have "slot_is_free ?s k \<longleftrightarrow> k \<noteq> j \<and> slot_is_free s k" for k
    by (simp add: slot_is_free_def set_slot_state_def upd_tcb_def)
  ultimately show ?thesis using fj by blast
qed

lemma pool_reserve_full:
  assumes "pool_inv cfg s" and "\<And>i. i < RTS_MAX_TASKS cfg \<Longrightarrow> \<not> slot_is_free s i"
  shows "rts_task_pool_reserve cfg s = Inr (None, s)"
proof -
  have h: "next_free_hint s < RTS_MAX_TASKS cfg" using assms(1) by (simp add: pool_inv_def)
  have "cyclic_scan (RTS_MAX_TASKS cfg) (slot_is_free s) (next_free_hint s) (RTS_MAX_TASKS cfg) 0 = None"
  proof (rule ccontr)
    assume "\<not> ?thesis"
    then obtain j where j: "cyclic_scan (RTS_MAX_TASKS cfg) (slot_is_free s) (next_free_hint s) (RTS_MAX_TASKS cfg) 0 = Some j"
      by blast
    show False
      using cyclic_scan_Some [OF h j] assms(2) [of j] h
      by (metis mod_less_divisor less_nat_zero_code not_gr_zero)
  qed
  with h show ?thesis by (simp add: rts_task_pool_reserve_def)
qed

interpretation task_pool: slot_pool "RTS_MAX_TASKS cfg" "pool_inv cfg" slot_is_free "rts_task_pool_reserve cfg" for cfg
  using pool_reserve_ok pool_reserve_full by unfold_locales auto

lemma pool_initialize_ok:
  assumes "1 \<le> RTS_MAX_TASKS cfg"
  shows "pool_inv cfg (rts_task_pool_initialize cfg s)"
    and "i < RTS_MAX_TASKS cfg \<Longrightarrow> slot_is_free (rts_task_pool_initialize cfg s) i"
proof -
  have free: "slot_state (tcbs (fold (\<lambda>i. set_slot_state i RTS_TASK_SLOT_FREE) is s) (App i)) =
      (if i \<in> set is then RTS_TASK_SLOT_FREE else slot_state (tcbs s (App i)))" for "is" i
    by (induction "is" arbitrary: s) (auto simp: set_slot_state_def upd_tcb_def)
  then have "{i. i < RTS_MAX_TASKS cfg \<and> slot_state (tcbs (rts_task_pool_initialize cfg s) (App i)) = RTS_TASK_SLOT_ALLOCATED} = {}"
    by (auto simp: rts_task_pool_initialize_def)
  then show "pool_inv cfg (rts_task_pool_initialize cfg s)"
    using assms by (simp add: pool_inv_def rts_task_pool_initialize_def)
  show "slot_is_free (rts_task_pool_initialize cfg s) i" if "i < RTS_MAX_TASKS cfg"
    using free [of "[0..<RTS_MAX_TASKS cfg]" i] that by (simp add: slot_is_free_def rts_task_pool_initialize_def)
qed

text \<open>Committing and rolling back a reservation.\<close>

lemma pool_commit_ok:
  assumes inv: "pool_inv cfg s" and i: "i < RTS_MAX_TASKS cfg" "slot_state (tcbs s (App i)) = RTS_TASK_SLOT_RESERVED"
  shows "rts_task_pool_commit cfg i s =
      Inr ((set_slot_state i RTS_TASK_SLOT_ALLOCATED s)\<lparr>allocated_count := allocated_count s + 1\<rparr>)"
    and "pool_inv cfg ((set_slot_state i RTS_TASK_SLOT_ALLOCATED s)\<lparr>allocated_count := allocated_count s + 1\<rparr>)"
proof -
  let ?A = "{i. i < RTS_MAX_TASKS cfg \<and> slot_state (tcbs s (App i)) = RTS_TASK_SLOT_ALLOCATED}"
  let ?s = "(set_slot_state i RTS_TASK_SLOT_ALLOCATED s)\<lparr>allocated_count := allocated_count s + 1\<rparr>"
  have sub: "insert i ?A \<subseteq> {..<RTS_MAX_TASKS cfg}" using i(1) by auto
  have new: "i \<notin> ?A" using i(2) by simp
  have c: "Suc (card ?A) \<le> RTS_MAX_TASKS cfg"
    using card_mono [OF _ sub] new by simp
  then show "rts_task_pool_commit cfg i s = Inr ?s"
    using inv i by (simp add: rts_task_pool_commit_def rts_task_pool_index_is_valid_def pool_inv_def)
  have "{j. j < RTS_MAX_TASKS cfg \<and> slot_state (tcbs ?s (App j)) = RTS_TASK_SLOT_ALLOCATED} = insert i ?A"
    using i by (auto simp: set_slot_state_def upd_tcb_def)
  then show "pool_inv cfg ?s" using inv new by (simp add: pool_inv_def set_slot_state_def upd_tcb_def)
qed

lemma pool_rollback_ok:
  assumes inv: "pool_inv cfg s" and i: "i < RTS_MAX_TASKS cfg" "slot_state (tcbs s (App i)) = RTS_TASK_SLOT_RESERVED"
  shows "rts_task_pool_rollback cfg i s = Inr ((set_slot_state i RTS_TASK_SLOT_FREE s)\<lparr>next_free_hint := i\<rparr>)"
    and "pool_inv cfg ((set_slot_state i RTS_TASK_SLOT_FREE s)\<lparr>next_free_hint := i\<rparr>)"
proof -
  let ?s = "(set_slot_state i RTS_TASK_SLOT_FREE s)\<lparr>next_free_hint := i\<rparr>"
  show "rts_task_pool_rollback cfg i s = Inr ?s"
    using i by (simp add: rts_task_pool_rollback_def rts_task_pool_index_is_valid_def)
  have "{j. j < RTS_MAX_TASKS cfg \<and> slot_state (tcbs ?s (App j)) = RTS_TASK_SLOT_ALLOCATED} =
      {j. j < RTS_MAX_TASKS cfg \<and> slot_state (tcbs s (App j)) = RTS_TASK_SLOT_ALLOCATED}"
    using i(2) by (auto simp: set_slot_state_def upd_tcb_def)
  then show "pool_inv cfg ?s" using inv i(1) by (simp add: pool_inv_def set_slot_state_def upd_tcb_def)
qed

lemma pool_contains_iff: "rts_task_pool_contains cfg (Some t) \<longleftrightarrow> (\<exists>i < RTS_MAX_TASKS cfg. t = App i)"
  by (auto simp: rts_task_pool_contains_def list_ex_iff)

text \<open>A description that passes the public check meets the preconditions of initialisation.\<close>

lemma config_validate_preconditions:
  assumes "rts_task_config_validate cfg pt (Some c) lc = Inr RTS_STATUS_OK"
  shows "lc = RTS_KERNEL_INITIALIZED" and "rts_task_descriptor_preconditions_hold cfg c"
    and "unat (tc_stack_buffer c) + tc_stack_size_bytes c < 2 ^ 32"
    and "pt_stack_minimum pt \<le> tc_stack_size_bytes c"
    and "RTS_ENABLE_STACK_GUARDS cfg \<Longrightarrow> pt_stack_minimum pt + RTS_STACK_GUARD_SIZE_BYTES cfg \<le> tc_stack_size_bytes c"
    and "RTS_POLICY cfg = RTS_POLICY_KIND_RMS \<Longrightarrow> tc_period c \<noteq> 0"
proof -
  have stack: "rts_task_stack_is_valid cfg pt c = Inr True" and lc: "lc = RTS_KERNEL_INITIALIZED"
    and e: "tc_entry c \<noteq> 0" and p: "\<not> (tc_priority c < 1 \<or> unat (tc_priority c) \<ge> RTS_PRIORITY_COUNT cfg)"
    and rms: "RTS_POLICY cfg = RTS_POLICY_KIND_RMS \<Longrightarrow> tc_period c \<noteq> 0"
    using assms by (auto simp: rts_task_config_validate_def bnd_Inr_iff split: if_splits)
  have b: "tc_stack_buffer c \<noteq> 0" "tc_stack_size_bytes c \<noteq> 0" "tc_stack_buffer c mod RTS_TASK_STACK_ALIGNMENT = 0"
      "tc_stack_size_bytes c \<le> unat UINTPTR_MAX" "tc_stack_buffer c \<le> UINTPTR_MAX - of_nat (tc_stack_size_bytes c)"
    and m: "pt_stack_minimum pt \<le> tc_stack_size_bytes c"
      "RTS_ENABLE_STACK_GUARDS cfg \<Longrightarrow> pt_stack_minimum pt + RTS_STACK_GUARD_SIZE_BYTES cfg \<le> tc_stack_size_bytes c"
    using stack by (auto simp: rts_task_stack_is_valid_def rts_assert_def Let_def not_less split: if_splits)
  show "lc = RTS_KERNEL_INITIALIZED" "RTS_POLICY cfg = RTS_POLICY_KIND_RMS \<Longrightarrow> tc_period c \<noteq> 0"
    "pt_stack_minimum pt \<le> tc_stack_size_bytes c"
    "RTS_ENABLE_STACK_GUARDS cfg \<Longrightarrow> pt_stack_minimum pt + RTS_STACK_GUARD_SIZE_BYTES cfg \<le> tc_stack_size_bytes c"
    using lc rms m by simp_all
  have "0 < tc_priority c" using p by (metis linorder_not_le word_le_0_iff word_less_1)
  then show "rts_task_descriptor_preconditions_hold cfg c"
    using b e p by (simp add: rts_task_descriptor_preconditions_hold_def RTS_IDLE_PRIORITY_def)
  have size: "unat (of_nat (tc_stack_size_bytes c) :: uintptr) = tc_stack_size_bytes c"
    using b(4) by (simp add: UINTPTR_MAX_def unsigned_of_nat take_bit_nat_eq_self)
  have "unat (tc_stack_buffer c) \<le> unat (UINTPTR_MAX - of_nat (tc_stack_size_bytes c))"
    using b(5) by (simp add: word_le_nat_alt)
  also have "\<dots> = 2 ^ 32 - 1 - tc_stack_size_bytes c"
    using b(4) size by (simp add: unat_sub word_le_nat_alt UINTPTR_MAX_def)
  finally show "unat (tc_stack_buffer c) + tc_stack_size_bytes c < 2 ^ 32"
    using b(4) by (simp add: UINTPTR_MAX_def)
qed

end
