(* ===== verification/Scheduler.thy ===== *)
theory Scheduler
  imports Ready_Policy Delay_Queue Wait_Object Task_Pool
begin

text \<open>
  Task classification and selection (\<^verbatim>\<open>task_handle.c\<close>, \<^verbatim>\<open>scheduler_select.c\<close>), the wake-up and
  blocking of the timer service task, and the switch plan (\<^verbatim>\<open>switch_plan.c\<close>): the hand-over
  record between the kernel, which proposes a switch, and the port, which carries it out.

  A predicate that calls the policy may stop fatally, so it returns \<open>rts_fatal + bool\<close>.
\<close>

section \<open>Task classification\<close>

definition rts_task_handle_is_application_task :: "rts_config \<Rightarrow> task_ref option \<Rightarrow> bool" where
  "rts_task_handle_is_application_task cfg handle \<longleftrightarrow>
     handle \<noteq> None \<and> list_ex (\<lambda>i. handle = Some (App i)) [0..<RTS_MAX_TASKS cfg]"

definition magic_is_valid :: "rts_config \<Rightarrow> task_ref \<Rightarrow> rts_kernel_state \<Rightarrow> bool" where
  "magic_is_valid cfg t s \<longleftrightarrow>
     (RTS_ENABLE_ASSERTIONS cfg \<longrightarrow> validation_magic (tcbs s t) = RTS_TASK_VALIDATION_MAGIC)"

definition rts_task_object_is_valid ::
  "rts_config \<Rightarrow> task_ref option \<Rightarrow> rts_kernel_state \<Rightarrow> rts_fatal + bool" where
  "rts_task_object_is_valid cfg tp s =
     (if \<not> rts_task_handle_is_application_task cfg tp then Inr False
      else let t = the tp; x = tcbs s t in
        and_then (slot_state x = RTS_TASK_SLOT_ALLOCATED \<and> task_state x = RTS_TASK_STATE_READY \<and>
          saved_stack_pointer x \<noteq> 0 \<and> stack_low x \<noteq> 0 \<and> stack_high x \<noteq> 0 \<and> stack_low x < stack_high x \<and>
          entry x \<noteq> 0 \<and> priority x > RTS_IDLE_PRIORITY \<and> base_priority x > RTS_IDLE_PRIORITY \<and>
          priority x \<ge> base_priority x \<and> unat (priority x) < RTS_PRIORITY_COUNT cfg \<and>
          wait_reason x = RTS_WAIT_NONE \<and> wait_object x = None \<and> \<not> timeout_active x \<and>
          wait_owner t s = None \<and> delay_owner t s = None \<and> magic_is_valid cfg t s)
          (rts_policy_validate cfg tp True s))"

definition rts_scheduler_task_is_idle :: "task_ref option \<Rightarrow> rts_kernel_state \<Rightarrow> bool" where
  "rts_scheduler_task_is_idle tp s \<longleftrightarrow> tp \<noteq> None \<and> tp = idle_task s \<and> tp = Some Idle"

definition rts_scheduler_task_is_timer_service :: "task_ref option \<Rightarrow> rts_kernel_state \<Rightarrow> bool" where
  "rts_scheduler_task_is_timer_service tp s \<longleftrightarrow>
     tp \<noteq> None \<and> tp = timer_service_task s \<and> tp = Some Service"

definition rts_scheduler_task_is_runnable ::
  "rts_config \<Rightarrow> task_ref option \<Rightarrow> rts_kernel_state \<Rightarrow> rts_fatal + bool" where
  "rts_scheduler_task_is_runnable cfg tp s =
     (case tp of
        None \<Rightarrow> Inr False
      | Some t \<Rightarrow>
          let x = tcbs s t in
          if saved_stack_pointer x = 0 \<or> stack_low x = 0 \<or> stack_high x = 0 \<or>
             stack_low x \<ge> stack_high x \<or> entry x = 0 \<or> wait_reason x \<noteq> RTS_WAIT_NONE \<or>
             wait_object x \<noteq> None \<or> timeout_active x \<or> wait_owner t s \<noteq> None \<or> delay_owner t s \<noteq> None
          then Inr False
          else bnd (rts_policy_validate cfg tp True s) (\<lambda>ready.
            if \<not> ready then Inr False
            else if priority x < base_priority x \<or> unat (base_priority x) \<ge> RTS_PRIORITY_COUNT cfg
            then Inr False
            else
              let identity_is_valid =
                    (if priority x = RTS_IDLE_PRIORITY then rts_scheduler_task_is_idle tp s
                     else unat (priority x) < RTS_PRIORITY_COUNT cfg \<and>
                       (rts_task_handle_is_application_task cfg tp \<or> rts_scheduler_task_is_timer_service tp s));
                  state_is_valid = (task_state x = RTS_TASK_STATE_READY \<or>
                    (tp = rts_scheduler_current_get s \<and> task_state x = RTS_TASK_STATE_RUNNING)) in
              if \<not> identity_is_valid \<or> \<not> state_is_valid \<or> slot_state x \<noteq> RTS_TASK_SLOT_ALLOCATED
              then Inr False
              else Inr (magic_is_valid cfg t s)))"

definition rts_scheduler_task_is_blocked_delay ::
  "rts_config \<Rightarrow> task_ref option \<Rightarrow> rts_kernel_state \<Rightarrow> rts_fatal + bool" where
  "rts_scheduler_task_is_blocked_delay cfg tp s =
     (if tp = None \<or> tp = idle_task s \<or> \<not> rts_task_handle_is_application_task cfg tp then Inr False
      else let t = the tp; x = tcbs s t; node = node_at (lmem s) (Ready_Node t) in
        and_then (slot_state x = RTS_TASK_SLOT_ALLOCATED \<and> task_state x = RTS_TASK_STATE_BLOCKED \<and>
          wait_reason x = RTS_WAIT_DELAY \<and> wait_object x = None \<and> \<not> timeout_active x \<and>
          wait_owner t s = None \<and> saved_stack_pointer x \<noteq> 0 \<and> stack_low x \<noteq> 0 \<and> stack_high x \<noteq> 0 \<and>
          stack_low x < stack_high x \<and> entry x \<noteq> 0 \<and> priority x > RTS_IDLE_PRIORITY \<and>
          unat (priority x) < RTS_PRIORITY_COUNT cfg)
        (bnd (rts_policy_validate cfg tp False s) (\<lambda>unready.
         and_then (unready \<and> nd_previous node = None \<and> nd_next node = None \<and> nd_object node = None)
        (bnd (rts_delay_contains cfg tp s) (\<lambda>delayed.
         Inr (delayed \<and> magic_is_valid cfg t s))))))"

definition rts_scheduler_task_is_blocked_wait ::
  "rts_config \<Rightarrow> task_ref option \<Rightarrow> rts_kernel_state \<Rightarrow> rts_fatal + bool" where
  "rts_scheduler_task_is_blocked_wait cfg tp s =
     (if tp = None \<or> tp = idle_task s \<or>
         (\<not> rts_task_handle_is_application_task cfg tp \<and> \<not> rts_scheduler_task_is_timer_service tp s)
      then Inr False
      else let t = the tp; x = tcbs s t in
        if rts_scheduler_task_is_timer_service tp s
        then and_then (slot_state x = RTS_TASK_SLOT_ALLOCATED \<and> task_state x = RTS_TASK_STATE_BLOCKED \<and>
            wait_reason x = RTS_WAIT_TIMER_SERVICE \<and> wait_result x = RTS_WAIT_RESULT_NONE \<and>
            wait_object x = None \<and> \<not> timeout_active x \<and> wait_owner t s = None \<and> delay_owner t s = None)
          (bnd (rts_policy_validate cfg tp False s) (\<lambda>unready. Inr (unready \<and> magic_is_valid cfg t s)))
        else and_then (slot_state x = RTS_TASK_SLOT_ALLOCATED \<and> task_state x = RTS_TASK_STATE_BLOCKED \<and>
            (wait_reason x = RTS_WAIT_SEMAPHORE \<or> wait_reason x = RTS_WAIT_MUTEX) \<and>
            wait_result x = RTS_WAIT_RESULT_NONE \<and> wait_object x \<noteq> None \<and> wait_owner t s \<noteq> None \<and>
            saved_stack_pointer x \<noteq> 0 \<and> stack_low x \<noteq> 0 \<and> stack_high x \<noteq> 0 \<and>
            stack_low x < stack_high x \<and> entry x \<noteq> 0 \<and> priority x > RTS_IDLE_PRIORITY \<and>
            unat (priority x) < RTS_PRIORITY_COUNT cfg)
          (bnd (rts_policy_validate cfg tp False s) (\<lambda>unready.
           and_then unready
          (bnd (rts_delay_contains cfg tp s) (\<lambda>delayed.
           Inr (timeout_active x = delayed \<and>
             (if wait_reason x = RTS_WAIT_SEMAPHORE then wait_owner t s = sem_waiters_of (wait_object x)
              else wait_owner t s = mutex_waiters_of (wait_object x)) \<and>
             magic_is_valid cfg t s))))))"

section \<open>Selection and the current task\<close>

definition rts_scheduler_select_highest_ready ::
  "rts_config \<Rightarrow> rts_kernel_state \<Rightarrow> rts_fatal + task_ref option" where
  "rts_scheduler_select_highest_ready cfg s =
     rts_assert cfg (lifecycle s = RTS_KERNEL_INITIALIZED \<or> lifecycle s = RTS_KERNEL_RUNNING) (
     if lifecycle s \<noteq> RTS_KERNEL_INITIALIZED \<and> lifecycle s \<noteq> RTS_KERNEL_RUNNING then Inr None
     else bnd (rts_policy_pick_next cfg s) (\<lambda>selected.
       fatal_unless (selected \<noteq> None) (
       bnd (rts_scheduler_task_is_runnable cfg selected s) (\<lambda>runnable.
       fatal_unless runnable (Inr selected)))))"

definition rts_scheduler_current_is_valid :: "rts_config \<Rightarrow> rts_kernel_state \<Rightarrow> rts_fatal + bool" where
  "rts_scheduler_current_is_valid cfg s =
     (case rts_scheduler_current_get s of
        None \<Rightarrow> Inr (lifecycle s = RTS_KERNEL_RESET \<or> lifecycle s = RTS_KERNEL_INITIALIZED)
      | Some t \<Rightarrow>
          and_then ((lifecycle s = RTS_KERNEL_INITIALIZED \<or> lifecycle s = RTS_KERNEL_RUNNING) \<and>
            task_state (tcbs s t) = RTS_TASK_STATE_RUNNING)
            (rts_scheduler_task_is_runnable cfg (Some t) s))"

definition rts_scheduler_current_establish ::
  "rts_config \<Rightarrow> task_ref option \<Rightarrow> rts_kernel_state \<Rightarrow> rts_fatal + (bool \<times> rts_kernel_state)" where
  "rts_scheduler_current_establish cfg tp s =
     rts_assert cfg (lifecycle s = RTS_KERNEL_INITIALIZED) (
     rts_assert cfg (rts_scheduler_current_get s = None) (
     rts_assert cfg (tp \<noteq> None) (
     if lifecycle s \<noteq> RTS_KERNEL_INITIALIZED \<or> rts_scheduler_current_get s \<noteq> None \<or> tp = None
     then Inr (False, s)
     else let t = the tp in
       bnd (rts_scheduler_select_highest_ready cfg s) (\<lambda>selected.
       rts_assert cfg (selected = tp) (
       rts_assert cfg (task_state (tcbs s t) = RTS_TASK_STATE_READY) (
       if selected \<noteq> tp \<or> task_state (tcbs s t) \<noteq> RTS_TASK_STATE_READY then Inr (False, s)
       else
         let s = upd_tcb t (\<lambda>x. x\<lparr>task_state := RTS_TASK_STATE_RUNNING,
               slice_remaining := RTS_TIME_SLICE_TICKS cfg\<rparr>) s in
         bnd (rts_scheduler_set_current_on_cpu cfg rts_cpu_current_id tp s) (\<lambda>s.
         bnd (rts_scheduler_current_is_valid cfg s) (\<lambda>v.
         fatal_unless v (
         bnd (rts_scheduler_current_is_valid cfg s) (\<lambda>v. Inr (v, s)))))))))))"

definition rts_scheduler_current_release_initial ::
  "rts_config \<Rightarrow> rts_kernel_state \<Rightarrow> rts_fatal + (bool \<times> rts_kernel_state)" where
  "rts_scheduler_current_release_initial cfg s =
     (let current = rts_scheduler_current_get s in
      rts_assert cfg (lifecycle s = RTS_KERNEL_INITIALIZED) (
      rts_assert cfg (current \<noteq> None) (
      rts_assert cfg (current = None \<or> task_state (tcbs s (the current)) = RTS_TASK_STATE_RUNNING) (
      if lifecycle s \<noteq> RTS_KERNEL_INITIALIZED \<or> current = None \<or>
         task_state (tcbs s (the current)) \<noteq> RTS_TASK_STATE_RUNNING
      then Inr (False, s)
      else
        let s = upd_tcb (the current) (\<lambda>x. x\<lparr>task_state := RTS_TASK_STATE_READY\<rparr>) s in
        bnd (rts_scheduler_set_current_on_cpu cfg rts_cpu_current_id None s) (\<lambda>s.
        bnd (rts_policy_validate cfg current True s) (\<lambda>v.
        fatal_unless v (
        bnd (rts_policy_validate cfg current True s) (\<lambda>v.
        bnd (and_then v (rts_scheduler_current_is_valid cfg s)) (\<lambda>v. Inr (v, s))))))))))"

section \<open>The switch plan\<close>

definition rts_switch_next_generation :: "uint32 \<Rightarrow> uint32" where
  "rts_switch_next_generation generation = generation + 1"

definition rts_switch_plan_clear :: "rts_switch_plan \<Rightarrow> rts_switch_plan" where
  "rts_switch_plan_clear plan = plan\<lparr>sp_from := None, sp_to := None, sp_pending := False, sp_active := False\<rparr>"

definition rts_switch_outgoing_is_valid ::
  "rts_config \<Rightarrow> task_ref option \<Rightarrow> rts_kernel_state \<Rightarrow> rts_fatal + bool" where
  "rts_switch_outgoing_is_valid cfg tp s =
     (if tp = None \<or> tp \<noteq> rts_scheduler_current_get s then Inr False
      else let st = task_state (tcbs s (the tp)) in
        bnd (and_then (st = RTS_TASK_STATE_RUNNING) (rts_scheduler_task_is_runnable cfg tp s)) (\<lambda>running.
        if running then Inr True
        else and_then (st = RTS_TASK_STATE_BLOCKED)
          (bnd (rts_scheduler_task_is_blocked_delay cfg tp s) (\<lambda>d.
           if d then Inr True else rts_scheduler_task_is_blocked_wait cfg tp s))))"

definition rts_scheduler_prepare_switch ::
  "rts_config \<Rightarrow> task_ref option \<Rightarrow> rts_kernel_state \<Rightarrow> rts_fatal + (bool \<times> rts_kernel_state)" where
  "rts_scheduler_prepare_switch cfg nextp s =
     (let current = rts_scheduler_current_get s in
      rts_assert cfg (lifecycle s = RTS_KERNEL_RUNNING) (
      rts_assert cfg (current \<noteq> None) (
      bnd (rts_switch_outgoing_is_valid cfg current s) (\<lambda>outgoing.
      rts_assert cfg outgoing (
      rts_assert cfg (nextp \<noteq> None) (
      bnd (rts_scheduler_task_is_runnable cfg nextp s) (\<lambda>runnable.
      rts_assert cfg (nextp = None \<or> runnable) (
      if lifecycle s \<noteq> RTS_KERNEL_RUNNING \<or> current = None \<or> \<not> outgoing \<or> nextp = None \<or> \<not> runnable
      then Inr (False, s)
      else if sp_active (switch_plan s)
      then Inr (False, upd_plan (\<lambda>p. p\<lparr>sp_reselection_required := True\<rparr>) s)
      else
        let s = upd_plan (\<lambda>p. p\<lparr>sp_reselection_required := False\<rparr>) s in
        if nextp = current then
          if sp_pending (switch_plan s)
          then rts_assert cfg (sp_from (switch_plan s) = current) (
            Inr (False, upd_plan (\<lambda>p. rts_switch_plan_clear
              (p\<lparr>sp_generation := rts_switch_next_generation (sp_generation p)\<rparr>)) s))
          else Inr (False, s)
        else
          rts_assert cfg (task_state (tcbs s (the nextp)) = RTS_TASK_STATE_READY) (
          if task_state (tcbs s (the nextp)) \<noteq> RTS_TASK_STATE_READY then Inr (False, s)
          else if \<not> sp_pending (switch_plan s)
          then Inr (True, diag_inc cfg switch_requests (upd_plan (\<lambda>p. p\<lparr>sp_from := current, sp_to := nextp,
            sp_pending := True, sp_generation := rts_switch_next_generation (sp_generation p)\<rparr>) s))
          else
            rts_assert cfg (sp_from (switch_plan s) = current) (
            rts_assert cfg (sp_to (switch_plan s) \<noteq> None) (
            if sp_from (switch_plan s) \<noteq> current \<or> sp_to (switch_plan s) = None then Inr (False, s)
            else if sp_to (switch_plan s) \<noteq> nextp
            then Inr (False, upd_plan (\<lambda>p. p\<lparr>sp_to := nextp,
              sp_generation := rts_switch_next_generation (sp_generation p)\<rparr>) s)
            else Inr (False, s))))))))))))"

definition rts_scheduler_request_switch_if_needed ::
  "rts_config \<Rightarrow> task_ref option \<Rightarrow> rts_kernel_state \<Rightarrow> rts_fatal + rts_kernel_state" where
  "rts_scheduler_request_switch_if_needed cfg nextp s =
     bnd (rts_scheduler_prepare_switch cfg nextp s) (\<lambda>(notify, s).
     Inr (if notify then rts_port_request_reschedule s else s))"

text \<open>The snapshot is the result; \<open>None\<close> where the call returns false.\<close>

definition rts_scheduler_switch_acquire ::
  "rts_config \<Rightarrow> rts_kernel_state \<Rightarrow> rts_fatal + (rts_switch_snapshot option \<times> rts_kernel_state)" where
  "rts_scheduler_switch_acquire cfg s =
     (let plan = switch_plan s; current = rts_scheduler_current_get s in
      rts_assert cfg (lifecycle s = RTS_KERNEL_RUNNING) (
      rts_assert cfg (\<not> sp_active plan) (
      if lifecycle s \<noteq> RTS_KERNEL_RUNNING \<or> sp_active plan then Inr (None, s)
      else if \<not> sp_pending plan then Inr (None, s)
      else
        rts_assert cfg (sp_from plan = current) (
        rts_assert cfg (sp_from plan \<noteq> None \<and> sp_to plan \<noteq> None) (
        rts_assert cfg (sp_from plan \<noteq> sp_to plan) (
        bnd (rts_switch_outgoing_is_valid cfg (sp_from plan) s) (\<lambda>outgoing.
        rts_assert cfg (sp_from plan = None \<or> outgoing) (
        rts_assert cfg (sp_to plan = None \<or> task_state (tcbs s (the (sp_to plan))) = RTS_TASK_STATE_READY) (
        bnd (rts_scheduler_task_is_runnable cfg (sp_to plan) s) (\<lambda>runnable.
        rts_assert cfg (sp_to plan = None \<or> runnable) (
        if sp_from plan \<noteq> current \<or> sp_from plan = None \<or> sp_to plan = None \<or> sp_from plan = sp_to plan \<or>
           \<not> outgoing \<or> task_state (tcbs s (the (sp_to plan))) \<noteq> RTS_TASK_STATE_READY \<or> \<not> runnable
        then Inr (None, s)
        else Inr (Some \<lparr>ss_from = sp_from plan, ss_to = sp_to plan, ss_generation = sp_generation plan\<rparr>,
          upd_plan (\<lambda>p. p\<lparr>sp_pending := False, sp_active := True\<rparr>) s))))))))))))"

definition rts_scheduler_switch_complete ::
  "rts_config \<Rightarrow> rts_switch_snapshot option \<Rightarrow> rts_kernel_state \<Rightarrow> rts_fatal + rts_kernel_state" where
  "rts_scheduler_switch_complete cfg snap s =
     rts_assert cfg (snap \<noteq> None) (
     case snap of
       None \<Rightarrow> rts_assert cfg False (Inr s)
     | Some sn \<Rightarrow>
         if \<not> rts_stack_guard_is_valid cfg (ss_from sn) s \<or> \<not> rts_stack_guard_is_valid cfg (ss_to sn) s \<or>
            \<not> rts_stack_saved_sp_is_valid cfg (ss_from sn) s \<or> \<not> rts_stack_saved_sp_is_valid cfg (ss_to sn) s
         then Inl RTS_FATAL_STACK_CORRUPTION
         else
           let plan = switch_plan s in
           bnd (and_then (lifecycle s = RTS_KERNEL_RUNNING \<and> sp_active plan \<and> \<not> sp_pending plan \<and>
                 ss_generation sn = sp_generation plan \<and> ss_from sn = sp_from plan \<and> ss_to sn = sp_to plan \<and>
                 ss_from sn \<noteq> ss_to sn \<and> rts_scheduler_current_get s = ss_from sn)
             (bnd (rts_switch_outgoing_is_valid cfg (ss_from sn) s) (\<lambda>outgoing.
              and_then (outgoing \<and> task_state (tcbs s (the (ss_to sn))) = RTS_TASK_STATE_READY)
                (rts_scheduler_task_is_runnable cfg (ss_to sn) s)))) (\<lambda>valid.
           rts_assert cfg valid (
           if \<not> valid then Inr s
           else
             let from = the (ss_from sn); to = the (ss_to sn);
                 s = rts_runtime_task_stopped cfg (ss_from sn) (current_tick s) s in
             bnd (if task_state (tcbs s from) = RTS_TASK_STATE_RUNNING
                  then Inr (upd_tcb from (\<lambda>x. x\<lparr>task_state := RTS_TASK_STATE_READY\<rparr>) s)
                  else fatal_unless (task_state (tcbs s from) = RTS_TASK_STATE_BLOCKED) (Inr s)) (\<lambda>s.
             let s = upd_tcb to (\<lambda>x. x\<lparr>slice_remaining := RTS_TIME_SLICE_TICKS cfg,
                   task_state := RTS_TASK_STATE_RUNNING\<rparr>) s in
             bnd (rts_scheduler_set_current_on_cpu cfg rts_cpu_current_id (ss_to sn) s) (\<lambda>s.
             let s = rts_runtime_task_started cfg (ss_to sn) (current_tick s) s;
                 s = diag_inc cfg context_switches s;
                 s = RTS_TRACE cfg RTS_TRACE_TASK_SWITCHED (ucast (priority (tcbs s from)))
                       (ucast (priority (tcbs s to))) s;
                 s = upd_plan rts_switch_plan_clear s in
             bnd (rts_scheduler_current_is_valid cfg s) (\<lambda>v. fatal_unless v (Inr s)))))))"

definition rts_scheduler_switch_reselection_required :: "rts_kernel_state \<Rightarrow> bool" where
  "rts_scheduler_switch_reselection_required s = sp_reselection_required (switch_plan s)"

definition rts_scheduler_reselect_after_switch ::
  "rts_config \<Rightarrow> rts_kernel_state \<Rightarrow> rts_fatal + (bool \<times> rts_kernel_state)" where
  "rts_scheduler_reselect_after_switch cfg s =
     (if \<not> sp_reselection_required (switch_plan s) then Inr (False, s)
      else let current = rts_scheduler_current_get s in
        fatal_unless (current \<noteq> None) (
        fatal_unless (current = None \<or> task_state (tcbs s (the current)) = RTS_TASK_STATE_RUNNING) (
        bnd (rts_scheduler_select_highest_ready cfg s) (\<lambda>selected.
        fatal_unless (selected \<noteq> None) (
        if selected \<noteq> current then rts_scheduler_prepare_switch cfg selected s
        else bnd (rts_scheduler_prepare_switch cfg current s) (\<lambda>(_, s). Inr (False, s)))))))"

section \<open>The timer service task\<close>

definition rts_scheduler_timer_service_wake ::
  "rts_config \<Rightarrow> rts_kernel_state \<Rightarrow> rts_fatal + (bool \<times> rts_kernel_state)" where
  "rts_scheduler_timer_service_wake cfg s =
     (case timer_service_task s of
        None \<Rightarrow> Inr (False, s)
      | Some service \<Rightarrow>
          let x = tcbs s service in
          if task_state x \<noteq> RTS_TASK_STATE_BLOCKED \<or> wait_reason x \<noteq> RTS_WAIT_TIMER_SERVICE \<or>
             wait_object x \<noteq> None \<or> timeout_active x
          then Inr (False, s)
          else bnd (rts_policy_validate cfg (Some service) True s) (\<lambda>ready.
            if ready then Inr (False, s)
            else
              let s = upd_tcb service (\<lambda>x. x\<lparr>wait_reason := RTS_WAIT_NONE, wait_result := RTS_WAIT_RESULT_NONE,
                    task_state := RTS_TASK_STATE_READY, slice_remaining := RTS_TIME_SLICE_TICKS cfg\<rparr>) s in
              bnd (rts_policy_task_unblock cfg (Some service) s) (\<lambda>(ok, s).
              fatal_unless ok (
              let s = task_diag_wake cfg service s in
              bnd (rts_scheduler_task_is_runnable cfg (Some service) s) (\<lambda>r.
              fatal_unless r (Inr (True, s)))))))"

text \<open>The writes that put the service task to sleep.\<close>

definition service_sleep :: "task_ref \<Rightarrow> rts_kernel_state \<Rightarrow> rts_kernel_state" where
  "service_sleep service s = upd_tcb service (\<lambda>x. x\<lparr>wait_reason := RTS_WAIT_TIMER_SERVICE,
     wait_result := RTS_WAIT_RESULT_NONE, wake_tick := 0, wait_object := None, timeout_active := False,
     task_state := RTS_TASK_STATE_BLOCKED\<rparr>) s"

definition rts_scheduler_timer_service_block ::
  "rts_config \<Rightarrow> rts_kernel_state \<Rightarrow> rts_fatal + (bool \<times> rts_kernel_state)" where
  "rts_scheduler_timer_service_block cfg s =
     (let service = timer_service_task s in
      if service = None \<or> rts_scheduler_current_get s \<noteq> service \<or>
         task_state (tcbs s (the service)) \<noteq> RTS_TASK_STATE_RUNNING
      then Inr (False, s)
      else bnd (rts_policy_validate cfg service True s) (\<lambda>ready.
        if \<not> ready \<or> wait_reason (tcbs s (the service)) \<noteq> RTS_WAIT_NONE then Inr (False, s)
        else bnd (rts_policy_task_block cfg service s) (\<lambda>(ok, s).
          fatal_unless ok (
          let s = task_diag_block cfg (the service) (service_sleep (the service) s) in
          bnd (rts_scheduler_select_highest_ready cfg s) (\<lambda>selected.
          fatal_unless (selected \<noteq> None \<and> selected \<noteq> service) (
          rts_scheduler_prepare_switch cfg selected s))))))"

definition rts_scheduler_timer_service_cancel_wake ::
  "rts_config \<Rightarrow> rts_kernel_state \<Rightarrow> rts_fatal + rts_kernel_state" where
  "rts_scheduler_timer_service_cancel_wake cfg s =
     (let service = timer_service_task s in
      if service = None \<or> task_state (tcbs s (the service)) \<noteq> RTS_TASK_STATE_READY then Inr s
      else bnd (if sp_pending (switch_plan s) \<and> sp_to (switch_plan s) = service
                then bnd (rts_scheduler_prepare_switch cfg (rts_scheduler_current_get s) s) (\<lambda>(_, s). Inr s)
                else Inr s) (\<lambda>s.
        bnd (rts_policy_task_block cfg service s) (\<lambda>(ok, s).
        fatal_unless ok (Inr (service_sleep (the service) s)))))"

end
