(* ===== verification/Timer_Queue.thy ===== *)
theory Timer_Queue
  imports Delay_Queue
begin

text \<open>
  The queue of active timers (\<^verbatim>\<open>kernel/timer_queue.c\<close>), ordered by expiration tick. \<open>timer_wf\<close> is
  its structural invariant; under it insertion is the stable insertion, for any expiration
  ticks, and the head is what \<open>rts_timer_queue_peek_expired\<close> examines.
\<close>

section \<open>Operations\<close>

definition rts_timer_queue_initialize :: "rts_config \<Rightarrow> rts_kernel_state \<Rightarrow> rts_fatal + rts_kernel_state" where
  "rts_timer_queue_initialize cfg s = on_lmem (rts_list_initialize cfg (Some Timer_List)) s"

text \<open>The walk to the insertion position; one unit of fuel per queued node.\<close>

fun timer_position_loop ::
  "rts_config \<Rightarrow> nat \<Rightarrow> nat \<Rightarrow> node_ref option \<Rightarrow> rts_kernel_state \<Rightarrow> rts_fatal + node_ref option" where
  "timer_position_loop cfg fuel t None s = Inr None"
| "timer_position_loop cfg 0 t (Some position) s = Inl RTS_NO_RETURN"
| "timer_position_loop cfg (Suc fuel) t (Some position) s =
     (let node = node_at (lmem s) position; queued = obj_timer (nd_object node) in
      if nd_object node = None then Inl RTS_FATAL_TIMER_CORRUPTION
      else if rts_tick_before (tm_expiration_tick (timers s t)) (tm_expiration_tick (timers s (the queued)))
      then Inr (Some position)
      else timer_position_loop cfg fuel t (nd_next node) s)"

definition rts_timer_queue_insert ::
  "rts_config \<Rightarrow> nat option \<Rightarrow> rts_kernel_state \<Rightarrow> rts_fatal + rts_kernel_state" where
  "rts_timer_queue_insert cfg tp s =
     rts_assert cfg (tp \<noteq> None) (
     rts_assert cfg (tp \<noteq> None \<and> nd_owner (node_at (lmem s) (Timer_Node (the tp))) = None) (
     if tp = None \<or> nd_owner (node_at (lmem s) (Timer_Node (the tp))) \<noteq> None then Inr s
     else
       let t = the tp in
       bnd (timer_position_loop cfg (RTS_MAX_TIMERS cfg) t (ls_head (list_at (lmem s) Timer_List)) s)
         (\<lambda>position.
       let s = upd_lmem (set_object (Timer_Node t) (Some (Timer_Obj t))) s in
       case position of
         None \<Rightarrow> on_lmem (rts_list_push_back cfg (Some Timer_List) (Some (Timer_Node t))) s
       | Some p \<Rightarrow> on_lmem (rts_list_insert_before cfg (Some Timer_List) (Some p) (Some (Timer_Node t))) s)))"

definition rts_timer_queue_remove ::
  "rts_config \<Rightarrow> nat option \<Rightarrow> rts_kernel_state \<Rightarrow> rts_fatal + rts_kernel_state" where
  "rts_timer_queue_remove cfg tp s =
     rts_assert cfg (tp \<noteq> None) (
     rts_assert cfg (tp \<noteq> None \<and> nd_owner (node_at (lmem s) (Timer_Node (the tp))) = Some Timer_List) (
     if tp = None \<or> nd_owner (node_at (lmem s) (Timer_Node (the tp))) \<noteq> Some Timer_List then Inr s
     else on_lmem (rts_list_remove cfg (Some Timer_List) (Some (Timer_Node (the tp)))) s))"

definition rts_timer_queue_peek_expired ::
  "rts_config \<Rightarrow> rts_tick \<Rightarrow> rts_kernel_state \<Rightarrow> rts_fatal + nat option" where
  "rts_timer_queue_peek_expired cfg now s =
     (case ls_head (list_at (lmem s) Timer_List) of
        None \<Rightarrow> Inr None
      | Some head \<Rightarrow>
          let ob = nd_object (node_at (lmem s) head); timer = obj_timer ob in
          if ob = None then Inl RTS_FATAL_TIMER_CORRUPTION
          else Inr (if rts_tick_reached now (tm_expiration_tick (timers s (the timer))) then timer else None))"

text \<open>The output parameter is the result; \<open>None\<close> where the call returns false.\<close>

definition rts_timer_queue_next_deadline :: "rts_config \<Rightarrow> rts_kernel_state \<Rightarrow> rts_fatal + rts_tick option" where
  "rts_timer_queue_next_deadline cfg s =
     (case ls_head (list_at (lmem s) Timer_List) of
        None \<Rightarrow> rts_assert cfg (ls_count (list_at (lmem s) Timer_List) = 0) (Inr None)
      | Some head \<Rightarrow>
          let node = node_at (lmem s) head; timer = obj_timer (nd_object node) in
          if nd_owner node \<noteq> Some Timer_List \<or> nd_object node = None \<or> map_option Timer_Node timer \<noteq> Some head
          then Inl RTS_FATAL_TIMER_CORRUPTION
          else Inr (Some (tm_expiration_tick (timers s (the timer)))))"

definition rts_timer_queue_contains :: "nat option \<Rightarrow> rts_kernel_state \<Rightarrow> bool" where
  "rts_timer_queue_contains tp s \<longleftrightarrow>
     tp \<noteq> None \<and> nd_owner (node_at (lmem s) (Timer_Node (the tp))) = Some Timer_List"

text \<open>
  The check of one node; \<open>previous_timer\<close> is the timer of the previous node, whose object the
  previous step checked.
\<close>

definition timer_node_check :: "rts_kernel_state \<Rightarrow> node_ref option \<Rightarrow> node_ref \<Rightarrow> bool" where
  "timer_node_check s previous node =
     (let nd = node_at (lmem s) node; timer = obj_timer (nd_object nd);
          previous_timer = (case previous of None \<Rightarrow> None | Some p \<Rightarrow> obj_timer (nd_object (node_at (lmem s) p))) in
      \<not> (nd_owner nd \<noteq> Some Timer_List \<or> nd_previous nd \<noteq> previous \<or> nd_object nd = None \<or>
         map_option Timer_Node timer \<noteq> Some node \<or> tm_state (timers s (the timer)) \<noteq> RTS_TIMER_ACTIVE \<or>
         (previous_timer \<noteq> None \<and>
          rts_tick_before (tm_expiration_tick (timers s (the timer)))
            (tm_expiration_tick (timers s (the previous_timer))))))"

definition rts_timer_queue_validate :: "rts_config \<Rightarrow> rts_kernel_state \<Rightarrow> bool" where
  "rts_timer_queue_validate cfg s =
     (let queue = list_at (lmem s) Timer_List in
      case check_walk (RTS_MAX_TIMERS cfg + 1) (timer_node_check s)
             (\<lambda>n. nd_next (node_at (lmem s) n)) (ls_head queue) None 0 of
        None \<Rightarrow> False
      | Some (node, previous, n) \<Rightarrow>
          node = None \<and> previous = ls_tail queue \<and> n = ls_count queue \<and> n \<le> RTS_MAX_TIMERS cfg)"

section \<open>Invariant\<close>

fun node_timer :: "node_ref \<Rightarrow> nat" where
  "node_timer (Timer_Node i) = i"
| "node_timer _ = 0"

definition active_timers :: "rts_kernel_state \<Rightarrow> nat list" where
  "active_timers s = map node_timer (nodes_of (lmem s) Timer_List)"

definition expires_before :: "rts_kernel_state \<Rightarrow> nat \<Rightarrow> nat \<Rightarrow> bool" where
  "expires_before s x y = rts_tick_before (tm_expiration_tick (timers s x)) (tm_expiration_tick (timers s y))"

definition timer_wf :: "rts_config \<Rightarrow> rts_kernel_state \<Rightarrow> bool" where
  "timer_wf cfg s \<longleftrightarrow>
     mem_ok (lmem s) \<and>
     (\<forall>n \<in> set (nodes_of (lmem s) Timer_List). \<exists>i < RTS_MAX_TIMERS cfg. n = Timer_Node i \<and>
        nd_object (node_at (lmem s) n) = Some (Timer_Obj i)) \<and>
     (\<forall>i l. nd_owner (node_at (lmem s) (Timer_Node i)) = Some l \<longrightarrow> l = Timer_List)"

lemma timer_wfD:
  assumes "timer_wf cfg s"
  shows "mem_ok (lmem s)"
    and "n \<in> set (nodes_of (lmem s) Timer_List) \<Longrightarrow> \<exists>i < RTS_MAX_TIMERS cfg. n = Timer_Node i \<and>
      nd_object (node_at (lmem s) n) = Some (Timer_Obj i)"
    and "nd_owner (node_at (lmem s) (Timer_Node i)) = Some l \<Longrightarrow> l = Timer_List"
  using assms unfolding timer_wf_def by blast+

lemma timer_nodes_of:
  assumes "timer_wf cfg s"
  shows "nodes_of (lmem s) Timer_List = map Timer_Node (active_timers s)"
proof -
  have "map (Timer_Node \<circ> node_timer) (nodes_of (lmem s) Timer_List) = map (\<lambda>n. n) (nodes_of (lmem s) Timer_List)"
    by (rule map_cong) (auto dest: timer_wfD(2) [OF assms])
  then show ?thesis by (simp add: active_timers_def)
qed

lemma active_timers_iff:
  assumes "timer_wf cfg s"
  shows "i \<in> set (active_timers s) \<longleftrightarrow> nd_owner (node_at (lmem s) (Timer_Node i)) = Some Timer_List"
  using mem_okD(3) [OF timer_wfD(1) [OF assms], of "Timer_Node i" Timer_List]
  by (auto simp: timer_nodes_of [OF assms])

lemma not_active_iff:
  assumes "timer_wf cfg s"
  shows "nd_owner (node_at (lmem s) (Timer_Node i)) = None \<longleftrightarrow> i \<notin> set (active_timers s)"
  using active_timers_iff [OF assms, of i] timer_wfD(3) [OF assms, of i]
  by (cases "nd_owner (node_at (lmem s) (Timer_Node i))") auto

lemma active_timers_object:
  assumes "timer_wf cfg s" and "i \<in> set (active_timers s)"
  shows "i < RTS_MAX_TIMERS cfg" and "nd_object (node_at (lmem s) (Timer_Node i)) = Some (Timer_Obj i)"
  using timer_wfD(2) [OF assms(1), of "Timer_Node i"] assms(2) by (auto simp: timer_nodes_of [OF assms(1)])

lemma distinct_active_timers: "timer_wf cfg s \<Longrightarrow> distinct (active_timers s)"
  using mem_okD(1) [OF timer_wfD(1), of cfg s Timer_List] by (simp add: timer_nodes_of distinct_map)

lemma active_timers_length:
  assumes "timer_wf cfg s"
  shows "length (active_timers s) \<le> RTS_MAX_TIMERS cfg"
proof -
  have "length (active_timers s) = card (set (active_timers s))"
    using distinct_active_timers [OF assms] by (simp add: distinct_card)
  also have "\<dots> \<le> card {..<RTS_MAX_TIMERS cfg}"
    using active_timers_object(1) [OF assms] by (intro card_mono) auto
  finally show ?thesis by simp
qed

lemma timers_room: "config_ok cfg \<Longrightarrow> n \<le> RTS_MAX_TIMERS cfg \<Longrightarrow> n < SIZE_MAX"
  by (auto simp: config_ok_def rts_types_checks_def)

lemma timer_wf_update:
  assumes wf: "timer_wf cfg s" and m: "mem_ok m" and obj: "objects_but (Timer_Node t) (lmem s) m"
    and nodes: "nodes_of m = (nodes_of (lmem s))(Timer_List := map Timer_Node ts)"
    and ts: "set ts \<subseteq> insert t (set (active_timers s))" and t: "t < RTS_MAX_TIMERS cfg"
    and ob: "t \<in> set ts \<Longrightarrow> nd_object (node_at m (Timer_Node t)) = Some (Timer_Obj t)"
  shows "timer_wf cfg (s\<lparr>lmem := m\<rparr>)" and "active_timers (s\<lparr>lmem := m\<rparr>) = ts"
proof -
  show "active_timers (s\<lparr>lmem := m\<rparr>) = ts"
    by (simp add: active_timers_def nodes comp_def)
  have only: "Timer_Node i \<notin> set (nodes_of (lmem s) l)" if "l \<noteq> Timer_List" for i l
    using timer_wfD(3) [OF wf, of i l] mem_okD(3) [OF timer_wfD(1) [OF wf], of "Timer_Node i" l] that
    by blast
  have "l = Timer_List" if "nd_owner (node_at m (Timer_Node i)) = Some l" for i l
    using that mem_okD(3) [OF m, of "Timer_Node i" l] only [of l i] by (auto simp: nodes split: if_splits)
  moreover have "i < RTS_MAX_TIMERS cfg \<and> nd_object (node_at m (Timer_Node i)) = Some (Timer_Obj i)"
    if "i \<in> set ts" for i
  proof (cases "i = t")
    case False
    with that ts have "i \<in> set (active_timers s)" by blast
    with False obj active_timers_object [OF wf] show ?thesis by (simp add: objects_but_def)
  qed (use that ob t in simp)
  ultimately show "timer_wf cfg (s\<lparr>lmem := m\<rparr>)"
    using m by (auto simp: timer_wf_def nodes)
qed

section \<open>Refinement\<close>

lemma timer_position_loop_ok:
  assumes wf: "timer_wf cfg s" and "active_timers s = xs @ ys" and "length ys \<le> fuel"
  shows "timer_position_loop cfg fuel t (hd_or (map Timer_Node ys) None) s =
    Inr (hd_or (map Timer_Node (dropWhile (\<lambda>y. \<not> expires_before s t y) ys)) None)"
  using assms(2,3)
proof (induction ys arbitrary: xs fuel)
  case (Cons y ys)
  obtain k where fuel: "fuel = Suc k" "length ys \<le> k" using Cons.prems(2) by (cases fuel) auto
  have ob: "nd_object (node_at (lmem s) (Timer_Node y)) = Some (Timer_Obj y)"
    using active_timers_object(2) [OF wf, of y] Cons.prems(1) by simp
  have "nd_next (node_at (lmem s) (Timer_Node y)) = hd_or (map Timer_Node ys) None"
    using mem_ok_split(2) [OF timer_wfD(1) [OF wf], of Timer_List "map Timer_Node xs" "Timer_Node y" "map Timer_Node ys"]
      Cons.prems(1) by (simp add: timer_nodes_of [OF wf])
  then show ?case
    using Cons.IH [of "xs @ [y]" k] Cons.prems(1) ob fuel
    by (simp add: Let_def expires_before_def)
qed simp

theorem timer_queue_insert_ok:
  assumes wf: "timer_wf cfg s" and cfg: "config_ok cfg" and t: "t < RTS_MAX_TIMERS cfg" "t \<notin> set (active_timers s)"
  obtains m where "rts_timer_queue_insert cfg (Some t) s = Inr (s\<lparr>lmem := m\<rparr>)"
    and "timer_wf cfg (s\<lparr>lmem := m\<rparr>)"
    and "active_timers (s\<lparr>lmem := m\<rparr>) = stable_insert (expires_before s) t (active_timers s)"
    and "\<And>l. l \<noteq> Timer_List \<Longrightarrow> nodes_of m l = nodes_of (lmem s) l"
    and "objects_but (Timer_Node t) (lmem s) m"
proof -
  note D = timer_wfD [OF wf]
  let ?xs = "takeWhile (\<lambda>y. \<not> expires_before s t y) (active_timers s)"
  let ?ys = "dropWhile (\<lambda>y. \<not> expires_before s t y) (active_timers s)"
  let ?m0 = "set_object (Timer_Node t) (Some (Timer_Obj t)) (lmem s)"
  have ins: "stable_insert (expires_before s) t (active_timers s) = ?xs @ t # ?ys"
    by (rule stable_insert_split)
  have pos: "timer_position_loop cfg (RTS_MAX_TIMERS cfg) t (ls_head (list_at (lmem s) Timer_List)) s =
      Inr (hd_or (map Timer_Node ?ys) None)"
    using timer_position_loop_ok [OF wf, of "[]" "active_timers s" "RTS_MAX_TIMERS cfg" t]
      active_timers_length [OF wf] mem_okD(2) [OF D(1), of Timer_List]
    by (simp add: timer_nodes_of [OF wf])
  have free: "nd_owner (node_at (lmem s) (Timer_Node t)) = None"
    using t(2) not_active_iff [OF wf] by simp
  then have free0: "nd_owner (node_at ?m0 (Timer_Node t)) = None" by simp
  have "map Timer_Node (active_timers s) = map Timer_Node (?xs @ ?ys)" by simp
  then have m0: "mem_ok ?m0" "nodes_of ?m0 Timer_List = map Timer_Node ?xs @ map Timer_Node ?ys"
    using D(1) by (simp_all add: timer_nodes_of [OF wf] flip: map_append)
  have room: "length (nodes_of ?m0 Timer_List) < SIZE_MAX"
    using active_timers_length [OF wf] timers_room [OF cfg] D(1) by (simp add: timer_nodes_of [OF wf])
  obtain m where link: "link_at cfg Timer_List (Timer_Node t) (hd_or (map Timer_Node ?ys) None) ?m0 = Inr m"
    and m: "mem_ok m" "nodes_of m = (nodes_of ?m0)(Timer_List := map Timer_Node ?xs @ Timer_Node t # map Timer_Node ?ys)"
      "same_objects ?m0 m"
    using link_at_ok [OF m0(1) free0 m0(2) room, of cfg] by blast
  have nodes: "nodes_of m = (nodes_of (lmem s))(Timer_List := map Timer_Node (?xs @ t # ?ys))"
    using m(2) D(1) by simp
  have obj: "objects_but (Timer_Node t) (lmem s) m"
    using m(3) by (simp add: objects_but_def same_objects_def)
  have "nd_object (node_at m (Timer_Node t)) = Some (Timer_Obj t)"
    using m(3) by (simp add: same_objects_def)
  then have wf': "timer_wf cfg (s\<lparr>lmem := m\<rparr>)" "active_timers (s\<lparr>lmem := m\<rparr>) = ?xs @ t # ?ys"
    using t(1) by (auto intro!: timer_wf_update [OF wf m(1) obj nodes] dest: set_takeWhileD set_dropWhileD)
  have "rts_timer_queue_insert cfg (Some t) s = Inr (s\<lparr>lmem := m\<rparr>)"
    using link free pos
    by (cases "hd_or (map Timer_Node ?ys) None")
      (simp_all add: rts_timer_queue_insert_def link_at_def on_lmem_def upd_lmem_def del: hd_or_None)
  with wf' nodes obj that ins show ?thesis by simp
qed

lemma timer_queue_remove_ok:
  assumes wf: "timer_wf cfg s" and t: "t \<in> set (active_timers s)"
  obtains m where "rts_timer_queue_remove cfg (Some t) s = Inr (s\<lparr>lmem := m\<rparr>)"
    and "timer_wf cfg (s\<lparr>lmem := m\<rparr>)" and "active_timers (s\<lparr>lmem := m\<rparr>) = remove1 t (active_timers s)"
    and "\<And>l. l \<noteq> Timer_List \<Longrightarrow> nodes_of m l = nodes_of (lmem s) l"
    and "same_objects (lmem s) m"
proof -
  note D = timer_wfD [OF wf]
  have own: "nd_owner (node_at (lmem s) (Timer_Node t)) = Some Timer_List" using active_timers_iff [OF wf] t by simp
  have rem: "remove1 (Timer_Node t) (map Timer_Node ts) = map Timer_Node (remove1 t ts)" for ts
    by (induction ts) auto
  obtain m where m: "rts_list_remove cfg (Some Timer_List) (Some (Timer_Node t)) (lmem s) = Inr m"
    "mem_ok m" "nodes_of m = (nodes_of (lmem s))(Timer_List := map Timer_Node (remove1 t (active_timers s)))"
    "same_objects (lmem s) m"
    using remove_ok [OF D(1), of "Timer_Node t" Timer_List cfg] t
    by (auto simp: timer_nodes_of [OF wf] rem)
  have obj: "objects_but (Timer_Node t) (lmem s) m"
    using m(4) by (simp add: objects_but_def same_objects_def)
  have "t \<notin> set (remove1 t (active_timers s))"
    using set_remove1_eq [OF distinct_active_timers [OF wf]] by simp
  then have "timer_wf cfg (s\<lparr>lmem := m\<rparr>)" "active_timers (s\<lparr>lmem := m\<rparr>) = remove1 t (active_timers s)"
    using active_timers_object(1) [OF wf t] set_remove1_subset [of t "active_timers s"]
    by (auto intro!: timer_wf_update [OF wf m(2) obj m(3)])
  moreover have "rts_timer_queue_remove cfg (Some t) s = Inr (s\<lparr>lmem := m\<rparr>)"
    using own m(1) by (simp add: rts_timer_queue_remove_def on_lmem_def)
  ultimately show ?thesis using that m(3,4) by simp
qed

lemma timer_queue_contains_iff:
  "timer_wf cfg s \<Longrightarrow> rts_timer_queue_contains (Some t) s \<longleftrightarrow> t \<in> set (active_timers s)"
  by (simp add: rts_timer_queue_contains_def active_timers_iff)

lemma timer_queue_peek_expired_ok:
  assumes wf: "timer_wf cfg s"
  shows "rts_timer_queue_peek_expired cfg now s =
    Inr (case active_timers s of [] \<Rightarrow> None
         | t # _ \<Rightarrow> if rts_tick_reached now (tm_expiration_tick (timers s t)) then Some t else None)"
  using mem_okD(2) [OF timer_wfD(1) [OF wf], of Timer_List] active_timers_object(2) [OF wf, of "hd (active_timers s)"]
  by (cases "active_timers s") (simp_all add: rts_timer_queue_peek_expired_def timer_nodes_of [OF wf])

lemma timer_queue_next_deadline_ok:
  assumes wf: "timer_wf cfg s"
  shows "rts_timer_queue_next_deadline cfg s =
    Inr (map_option (\<lambda>t. tm_expiration_tick (timers s t)) (hd_or (active_timers s) None))"
  using mem_okD(2) [OF timer_wfD(1) [OF wf], of Timer_List] active_timers_object(2) [OF wf, of "hd (active_timers s)"]
    active_timers_iff [OF wf, of "hd (active_timers s)"]
  by (cases "active_timers s") (simp_all add: rts_timer_queue_next_deadline_def timer_nodes_of [OF wf])

end
