(* ===== verification/Timer_Manager.thy ===== *)
theory Timer_Manager
  imports Scheduler Timer_Queue
begin

text \<open>
  Software timers (\<^verbatim>\<open>timer.c\<close>): the timer pool, starting, stopping and restarting, expiry
  processing and the validator of the timer manager. Timers are indices into \<open>timers\<close>; a handle
  is \<open>None\<close> for a null pointer.
\<close>

section \<open>The pool\<close>

text \<open>\<open>*timer = (struct rts_timer){0}\<close> followed by the field writes.\<close>

definition rts_timer_object_reset :: "rts_config \<Rightarrow> nat \<Rightarrow> nat \<Rightarrow> rts_kernel_state \<Rightarrow> rts_fatal + rts_kernel_state" where
  "rts_timer_object_reset cfg i slot_index s =
     (let s = upd_timer i (\<lambda>_. zero_timer) s;
          s = upd_lmem (write_node (Timer_Node i)
                (\<lambda>_. \<lparr>nd_previous = None, nd_next = None, nd_owner = None, nd_object = None\<rparr>)) s in
      bnd (on_lmem (rts_list_node_initialize cfg (Some (Timer_Node i))) s) (\<lambda>s.
      Inr (upd_timer i (\<lambda>x. x\<lparr>tm_slot_index := slot_index, tm_mode := RTS_TIMER_ONE_SHOT,
        tm_state := RTS_TIMER_UNINITIALIZED, tm_callback_state := RTS_TIMER_CALLBACK_IDLE,
        tm_slot_state := RTS_TIMER_SLOT_FREE\<rparr>) s)))"

definition rts_timer_manager_initialize :: "rts_config \<Rightarrow> rts_kernel_state \<Rightarrow> rts_fatal + rts_kernel_state" where
  "rts_timer_manager_initialize cfg s =
     bnd (for_loop (\<lambda>i. rts_timer_object_reset cfg i i) [0..<RTS_MAX_TIMERS cfg] s) (\<lambda>s.
     bnd (rts_timer_queue_initialize cfg s) (\<lambda>s.
     Inr (s\<lparr>callback_queue := rts_timer_callback_queue_initialize cfg (callback_queue s),
       tm_allocated_count := 0, tm_next_free_hint := 0\<rparr>)))"

definition timer_slot_is_free :: "rts_kernel_state \<Rightarrow> nat \<Rightarrow> bool" where
  "timer_slot_is_free s i \<longleftrightarrow> tm_slot_state (timers s i) = RTS_TIMER_SLOT_FREE"

definition rts_timer_reserve ::
  "rts_config \<Rightarrow> rts_kernel_state \<Rightarrow> rts_fatal + (nat option \<times> rts_kernel_state)" where
  "rts_timer_reserve cfg s =
     (if tm_next_free_hint s \<ge> RTS_MAX_TIMERS cfg then Inl RTS_FATAL_TIMER_CORRUPTION
      else case cyclic_scan (RTS_MAX_TIMERS cfg) (timer_slot_is_free s) (tm_next_free_hint s) (RTS_MAX_TIMERS cfg) 0 of
             None \<Rightarrow> Inr (None, s)
           | Some i \<Rightarrow> Inr (Some i, upd_timer i (\<lambda>x. x\<lparr>tm_slot_state := RTS_TIMER_SLOT_RESERVED\<rparr>)
               (s\<lparr>tm_next_free_hint := next_slot (RTS_MAX_TIMERS cfg) i\<rparr>)))"

definition rts_timer_config_is_valid :: "rts_timer_config option \<Rightarrow> bool" where
  "rts_timer_config_is_valid cp =
     (case cp of
        None \<Rightarrow> False
      | Some c \<Rightarrow> tmc_callback c \<noteq> 0 \<and> tmc_period c > 0 \<and> tmc_period c \<le> RTS_DELAY_MAX \<and>
          (tmc_mode c = RTS_TIMER_ONE_SHOT \<or> tmc_mode c = RTS_TIMER_PERIODIC))"

definition rts_timer_lifecycle_allows_control :: "rts_kernel_state \<Rightarrow> bool" where
  "rts_timer_lifecycle_allows_control s \<longleftrightarrow>
     lifecycle s = RTS_KERNEL_INITIALIZED \<or> lifecycle s = RTS_KERNEL_RUNNING"

definition rts_timer_resolve :: "rts_config \<Rightarrow> nat option \<Rightarrow> rts_kernel_state \<Rightarrow> nat option" where
  "rts_timer_resolve cfg handle s =
     (case find (\<lambda>i. handle = Some i) [0..<RTS_MAX_TIMERS cfg] of
        None \<Rightarrow> None
      | Some i \<Rightarrow> if tm_slot_state (timers s i) = RTS_TIMER_SLOT_ALLOCATED then Some i else None)"

definition rts_timer_handle_is_valid :: "rts_config \<Rightarrow> nat option \<Rightarrow> rts_kernel_state \<Rightarrow> bool" where
  "rts_timer_handle_is_valid cfg timer s \<longleftrightarrow> rts_timer_resolve cfg timer s \<noteq> None"

definition rts_timer_allocated_count :: "rts_kernel_state \<Rightarrow> nat" where
  "rts_timer_allocated_count s = tm_allocated_count s"

section \<open>The validator\<close>

text \<open>The walk over the pending callbacks: \<open>False\<close> as soon as an entry is inconsistent.\<close>

fun pending_work_loop ::
  "rts_config \<Rightarrow> rts_kernel_state \<Rightarrow> nat \<Rightarrow> nat \<Rightarrow> bool" where
  "pending_work_loop cfg s 0 queue_index = True"
| "pending_work_loop cfg s (Suc left) queue_index =
     (let work = cq_items (callback_queue s) ! queue_index;
          owned = list_ex (\<lambda>i. wk_timer work = Some i) [0..<RTS_MAX_TIMERS cfg];
          timer = timers s (the (wk_timer work)) in
      if \<not> owned \<or> tm_slot_state timer \<noteq> RTS_TIMER_SLOT_ALLOCATED \<or>
         tm_callback_state timer \<noteq> RTS_TIMER_CALLBACK_PENDING \<or>
         wk_generation work \<noteq> tm_generation timer \<or>
         rts_timer_callback_queue_count_for cfg (callback_queue s) (wk_timer work) \<noteq> 1
      then False
      else pending_work_loop cfg s left
        (let n = queue_index + 1 in if n = RTS_TIMER_CALLBACK_QUEUE_CAPACITY cfg then 0 else n))"

text \<open>The check of one slot: \<open>None\<close> where it fails, otherwise whether the slot is allocated.\<close>

definition timer_slot_check :: "rts_config \<Rightarrow> rts_kernel_state \<Rightarrow> nat \<Rightarrow> bool option" where
  "timer_slot_check cfg s i =
     (let x = timers s i; linked = rts_timer_queue_contains (Some i) s;
          pending = rts_timer_callback_queue_count_for cfg (callback_queue s) (Some i) in
      if tm_slot_state x = RTS_TIMER_SLOT_FREE
      then (if tm_state x \<noteq> RTS_TIMER_UNINITIALIZED \<or> linked \<or> pending \<noteq> 0 then None else Some False)
      else if tm_slot_state x = RTS_TIMER_SLOT_RESERVED
      then (if linked \<or> pending \<noteq> 0 then None else Some False)
      else if tm_slot_index x \<noteq> i \<or> tm_callback x = 0 \<or> tm_period x = 0 \<or> tm_period x > RTS_DELAY_MAX \<or>
        (tm_mode x \<noteq> RTS_TIMER_ONE_SHOT \<and> tm_mode x \<noteq> RTS_TIMER_PERIODIC) \<or>
        (tm_state x \<noteq> RTS_TIMER_STOPPED \<and> tm_state x \<noteq> RTS_TIMER_ACTIVE) \<or>
        linked \<noteq> (tm_state x = RTS_TIMER_ACTIVE) \<or>
        pending \<noteq> (if tm_callback_state x = RTS_TIMER_CALLBACK_PENDING then 1 else 0)
      then None
      else if RTS_ENABLE_ASSERTIONS cfg \<and> tm_validation_magic x \<noteq> RTS_TIMER_VALIDATION_MAGIC then None
      else Some True)"

fun timer_slots_loop :: "rts_config \<Rightarrow> rts_kernel_state \<Rightarrow> nat list \<Rightarrow> nat \<Rightarrow> nat option" where
  "timer_slots_loop cfg s [] allocated = Some allocated"
| "timer_slots_loop cfg s (i # is) allocated =
     (case timer_slot_check cfg s i of
        None \<Rightarrow> None
      | Some b \<Rightarrow> timer_slots_loop cfg s is (if b then allocated + 1 else allocated))"

definition rts_timer_manager_validate :: "rts_config \<Rightarrow> rts_kernel_state \<Rightarrow> bool" where
  "rts_timer_manager_validate cfg s =
     (if \<not> RTS_ENABLE_INVARIANT_CHECKS cfg then True
      else if tm_next_free_hint s \<ge> RTS_MAX_TIMERS cfg \<or> tm_allocated_count s > RTS_MAX_TIMERS cfg \<or>
         \<not> rts_timer_queue_validate cfg s \<or> \<not> rts_timer_callback_queue_validate cfg (callback_queue s)
      then False
      else if \<not> pending_work_loop cfg s (cq_count (callback_queue s)) (cq_head (callback_queue s)) then False
      else timer_slots_loop cfg s [0..<RTS_MAX_TIMERS cfg] 0 = Some (tm_allocated_count s))"

section \<open>Operations\<close>

text \<open>The handle is the second component; \<open>want\<close> is false when \<open>out_handle\<close> is null.\<close>

definition rts_timer_init ::
  "rts_config \<Rightarrow> rts_timer_config option \<Rightarrow> bool \<Rightarrow> rts_kernel_state \<Rightarrow>
   rts_fatal + (rts_status \<times> nat option \<times> rts_kernel_state)" where
  "rts_timer_init cfg cp want s =
     (if cp = None \<or> \<not> want \<or> \<not> rts_timer_config_is_valid cp then Inr (RTS_STATUS_INVALID_ARGUMENT, None, s)
      else if in_isr s then Inr (RTS_STATUS_INVALID_CONTEXT, None, s)
      else if lifecycle s \<noteq> RTS_KERNEL_INITIALIZED then Inr (RTS_STATUS_INVALID_STATE, None, s)
      else let c = the cp in
        bnd (rts_timer_reserve cfg s) (\<lambda>(r, s).
        case r of
          None \<Rightarrow> Inr (RTS_STATUS_CAPACITY_EXHAUSTED, None, s)
        | Some i \<Rightarrow>
            let s = upd_timer i (\<lambda>x. x\<lparr>tm_period := tmc_period c, tm_callback := tmc_callback c,
                  tm_argument := tmc_argument c, tm_mode := tmc_mode c, tm_state := RTS_TIMER_STOPPED,
                  tm_callback_state := RTS_TIMER_CALLBACK_IDLE, tm_generation := 1\<rparr>) s;
                s = (if RTS_ENABLE_ASSERTIONS cfg
                     then upd_timer i (\<lambda>x. x\<lparr>tm_validation_magic := RTS_TIMER_VALIDATION_MAGIC\<rparr>) s else s) in
            if tm_allocated_count s \<ge> RTS_MAX_TIMERS cfg then Inl RTS_FATAL_TIMER_CORRUPTION
            else
              let s = (upd_timer i (\<lambda>x. x\<lparr>tm_slot_state := RTS_TIMER_SLOT_ALLOCATED\<rparr>) s)
                        \<lparr>tm_allocated_count := tm_allocated_count s + 1\<rparr>;
                  s = diag_inc cfg timer_initializations s;
                  s = RTS_TRACE cfg RTS_TRACE_TIMER_INITIALIZED (of_nat (tm_slot_index (timers s i)))
                        (ucast (tm_mode (timers s i))) s in
              fatal_unless (rts_timer_manager_validate cfg s) (Inr (RTS_STATUS_OK, Some i, s))))"

definition rts_timer_invalidate_pending ::
  "rts_config \<Rightarrow> nat \<Rightarrow> rts_kernel_state \<Rightarrow> rts_fatal + (nat \<times> rts_kernel_state)" where
  "rts_timer_invalidate_pending cfg i s =
     (let (removed, q) = rts_timer_callback_queue_remove_timer cfg (Some i) (callback_queue s);
          s = s\<lparr>callback_queue := q\<rparr> in
      bnd (if tm_callback_state (timers s i) = RTS_TIMER_CALLBACK_PENDING
           then fatal_unless (removed = 1)
             (Inr (upd_timer i (\<lambda>x. x\<lparr>tm_callback_state := RTS_TIMER_CALLBACK_IDLE\<rparr>) s))
           else fatal_unless (removed = 0) (Inr s)) (\<lambda>s.
      bnd (if cq_count (callback_queue s) = 0 then rts_scheduler_timer_service_cancel_wake cfg s else Inr s) (\<lambda>s.
      let s = (if RTS_ENABLE_RUNTIME_STATS cfg
               then upd_timer i (\<lambda>x. x\<lparr>tm_diagnostic_stale_count :=
                 rts_diagnostic_counter_add (tm_diagnostic_stale_count x) (of_nat removed)\<rparr>) s else s);
          s = diag_add cfg timer_stale_callbacks (of_nat removed) s in
      Inr (removed, s))))"

definition rts_timer_arm ::
  "rts_config \<Rightarrow> nat option \<Rightarrow> bool \<Rightarrow> rts_kernel_state \<Rightarrow> rts_fatal + (rts_status \<times> rts_kernel_state)" where
  "rts_timer_arm cfg handle restart s =
     (if in_isr s then Inr (RTS_STATUS_INVALID_CONTEXT, s)
      else if \<not> rts_timer_lifecycle_allows_control s then Inr (RTS_STATUS_INVALID_STATE, s)
      else case rts_timer_resolve cfg handle s of
        None \<Rightarrow> Inr (RTS_STATUS_INVALID_ARGUMENT, s)
      | Some i \<Rightarrow>
          if \<not> restart \<and> (tm_state (timers s i) \<noteq> RTS_TIMER_STOPPED \<or>
               tm_callback_state (timers s i) \<noteq> RTS_TIMER_CALLBACK_IDLE)
          then Inr (RTS_STATUS_INVALID_STATE, s)
          else bnd (if restart
                    then bnd (if tm_state (timers s i) = RTS_TIMER_ACTIVE
                              then rts_timer_queue_remove cfg (Some i) s else Inr s) (\<lambda>s.
                      let s = upd_timer i (\<lambda>x. x\<lparr>tm_generation := tm_generation x + 1\<rparr>) s in
                      bnd (rts_timer_invalidate_pending cfg i s) (\<lambda>(_, s). Inr s))
                    else Inr s) (\<lambda>s.
            let s = upd_timer i (\<lambda>x. x\<lparr>tm_expiration_tick := current_tick s + tm_period x,
                  tm_state := RTS_TIMER_ACTIVE\<rparr>) s in
            bnd (rts_timer_queue_insert cfg (Some i) s) (\<lambda>s.
            let s = (if RTS_ENABLE_RUNTIME_STATS cfg then
                       if restart
                       then diag_inc cfg timer_restarts (upd_timer i (\<lambda>x. x\<lparr>tm_diagnostic_restart_count :=
                              rts_diagnostic_counter_increment (tm_diagnostic_restart_count x)\<rparr>) s)
                       else diag_inc cfg timer_starts (upd_timer i (\<lambda>x. x\<lparr>tm_diagnostic_start_count :=
                              rts_diagnostic_counter_increment (tm_diagnostic_start_count x)\<rparr>) s)
                     else s);
                s = RTS_TRACE cfg (if restart then RTS_TRACE_TIMER_RESTARTED else RTS_TRACE_TIMER_STARTED)
                      (of_nat (tm_slot_index (timers s i))) (tm_expiration_tick (timers s i)) s in
            fatal_unless (rts_timer_manager_validate cfg s) (Inr (RTS_STATUS_OK, s)))))"

definition rts_timer_start ::
  "rts_config \<Rightarrow> nat option \<Rightarrow> rts_kernel_state \<Rightarrow> rts_fatal + (rts_status \<times> rts_kernel_state)" where
  "rts_timer_start cfg timer s = rts_timer_arm cfg timer False s"

definition rts_timer_restart ::
  "rts_config \<Rightarrow> nat option \<Rightarrow> rts_kernel_state \<Rightarrow> rts_fatal + (rts_status \<times> rts_kernel_state)" where
  "rts_timer_restart cfg timer s = rts_timer_arm cfg timer True s"

definition rts_timer_stop ::
  "rts_config \<Rightarrow> nat option \<Rightarrow> rts_kernel_state \<Rightarrow> rts_fatal + (rts_status \<times> rts_kernel_state)" where
  "rts_timer_stop cfg handle s =
     (if in_isr s then Inr (RTS_STATUS_INVALID_CONTEXT, s)
      else if \<not> rts_timer_lifecycle_allows_control s then Inr (RTS_STATUS_INVALID_STATE, s)
      else case rts_timer_resolve cfg handle s of
        None \<Rightarrow> Inr (RTS_STATUS_INVALID_ARGUMENT, s)
      | Some i \<Rightarrow>
          if \<not> (tm_state (timers s i) = RTS_TIMER_ACTIVE \<or>
                tm_callback_state (timers s i) \<noteq> RTS_TIMER_CALLBACK_IDLE)
          then Inr (RTS_STATUS_INVALID_STATE, s)
          else bnd (if tm_state (timers s i) = RTS_TIMER_ACTIVE
                    then rts_timer_queue_remove cfg (Some i) s else Inr s) (\<lambda>s.
            let s = upd_timer i (\<lambda>x. x\<lparr>tm_state := RTS_TIMER_STOPPED, tm_generation := tm_generation x + 1\<rparr>) s in
            bnd (rts_timer_invalidate_pending cfg i s) (\<lambda>(_, s).
            let s = (if RTS_ENABLE_RUNTIME_STATS cfg
                     then diag_inc cfg timer_stops (upd_timer i (\<lambda>x. x\<lparr>tm_diagnostic_stop_count :=
                            rts_diagnostic_counter_increment (tm_diagnostic_stop_count x)\<rparr>) s)
                     else s);
                s = RTS_TRACE cfg RTS_TRACE_TIMER_STOPPED (of_nat (tm_slot_index (timers s i)))
                      (tm_generation (timers s i)) s in
            fatal_unless (rts_timer_manager_validate cfg s) (Inr (RTS_STATUS_OK, s)))))"

definition rts_timer_is_running :: "rts_config \<Rightarrow> nat option \<Rightarrow> rts_kernel_state \<Rightarrow> bool" where
  "rts_timer_is_running cfg handle s =
     (if in_isr s then False
      else case rts_timer_resolve cfg handle s of
        None \<Rightarrow> False
      | Some i \<Rightarrow> tm_state (timers s i) = RTS_TIMER_ACTIVE \<and> rts_timer_queue_contains (Some i) s)"

text \<open>The next deadline of a periodic timer and the number of missed periods.\<close>

definition rts_timer_periodic_next :: "rts_timer \<Rightarrow> rts_tick \<Rightarrow> rts_tick \<times> uint32" where
  "rts_timer_periodic_next timer now =
     (let lateness = now - tm_expiration_tick timer;
          skipped = lateness div tm_period timer;
          periods = skipped + 1 in
      (tm_expiration_tick timer + periods * tm_period timer, skipped))"

text \<open>The overrun accounting of an expiry whose callback is still pending or running.\<close>

definition timer_note_overrun :: "rts_config \<Rightarrow> nat \<Rightarrow> rts_tick \<Rightarrow> rts_kernel_state \<Rightarrow> rts_kernel_state" where
  "timer_note_overrun cfg i consumed_deadline s =
     (let s = (if RTS_ENABLE_RUNTIME_STATS cfg then
                 upd_timer i (\<lambda>x. x\<lparr>tm_diagnostic_overrun_count :=
                     rts_diagnostic_counter_increment (tm_diagnostic_overrun_count x),
                   tm_diagnostic_missed_period_count :=
                     rts_diagnostic_counter_increment (tm_diagnostic_missed_period_count x)\<rparr>)
                   (diag_inc cfg timer_missed_periods (diag_inc cfg timer_overruns s))
               else s) in
      RTS_TRACE cfg RTS_TRACE_TIMER_OVERRUN (of_nat (tm_slot_index (timers s i))) consumed_deadline s)"

text \<open>Queueing the callback of an expired timer and waking the service task.\<close>

definition timer_queue_callback ::
  "rts_config \<Rightarrow> nat \<Rightarrow> rts_tick \<Rightarrow> rts_kernel_state \<Rightarrow> rts_fatal + (bool \<times> rts_kernel_state)" where
  "timer_queue_callback cfg i consumed_deadline s =
     (let s = upd_timer i (\<lambda>x. x\<lparr>tm_expiration_sequence := tm_expiration_sequence x + 1\<rparr>) s;
          work = \<lparr>wk_timer = Some i, wk_expiration_tick = consumed_deadline,
                  wk_generation = tm_generation (timers s i), wk_sequence = tm_expiration_sequence (timers s i)\<rparr>;
          (queued, q) = rts_timer_callback_queue_enqueue cfg (Some work) (callback_queue s);
          s = s\<lparr>callback_queue := q\<rparr> in
      if \<not> queued then Inl RTS_FATAL_TIMER_CALLBACK_QUEUE_OVERFLOW
      else
        let s = upd_timer i (\<lambda>x. x\<lparr>tm_callback_state := RTS_TIMER_CALLBACK_PENDING\<rparr>) s;
            depth = (of_nat (cq_maximum_depth (callback_queue s)) :: uint32);
            s = (if RTS_ENABLE_RUNTIME_STATS cfg \<and>
                    depth > runtime_counters s timer_callback_queue_maximum_depth
                 then s\<lparr>runtime_counters := (runtime_counters s)(timer_callback_queue_maximum_depth := depth)\<rparr>
                 else s) in
        rts_scheduler_timer_service_wake cfg s)"

text \<open>One iteration of the expiry loop for the expired timer \<open>i\<close>; the result tells whether the service task was woken.\<close>

definition timer_expire_one ::
  "rts_config \<Rightarrow> rts_tick \<Rightarrow> nat \<Rightarrow> rts_kernel_state \<Rightarrow> rts_fatal + (bool \<times> rts_kernel_state)" where
  "timer_expire_one cfg now i s =
     (let consumed_deadline = tm_expiration_tick (timers s i) in
      bnd (rts_timer_queue_remove cfg (Some i) s) (\<lambda>s.
      let s = upd_timer i (\<lambda>x. x\<lparr>tm_last_expiration_tick := consumed_deadline\<rparr>) s in
      bnd (if tm_mode (timers s i) = RTS_TIMER_PERIODIC
           then
             let (next_tick, missed) = rts_timer_periodic_next (timers s i) now;
                 s = upd_timer i (\<lambda>x. x\<lparr>tm_expiration_tick := next_tick, tm_state := RTS_TIMER_ACTIVE\<rparr>) s in
             bnd (rts_timer_queue_insert cfg (Some i) s) (\<lambda>s. Inr (missed, s))
           else Inr (0, upd_timer i (\<lambda>x. x\<lparr>tm_state := RTS_TIMER_STOPPED\<rparr>) s)) (\<lambda>(missed, s).
      let s = (if RTS_ENABLE_RUNTIME_STATS cfg then
                 upd_timer i (\<lambda>x. x\<lparr>tm_diagnostic_expiration_count :=
                     rts_diagnostic_counter_increment (tm_diagnostic_expiration_count x),
                   tm_diagnostic_missed_period_count :=
                     rts_diagnostic_counter_add (tm_diagnostic_missed_period_count x) missed\<rparr>)
                   (diag_add cfg timer_missed_periods missed (diag_inc cfg timer_expirations s))
               else s);
          s = RTS_TRACE cfg RTS_TRACE_TIMER_EXPIRED (of_nat (tm_slot_index (timers s i))) consumed_deadline s in
      if tm_callback_state (timers s i) \<noteq> RTS_TIMER_CALLBACK_IDLE
      then Inr (False, timer_note_overrun cfg i consumed_deadline s)
      else timer_queue_callback cfg i consumed_deadline s)))"

text \<open>
  The expiry loop. Every iteration either removes a timer from the active queue or moves a
  periodic one behind the current tick; the fuel allows one iteration per timer and one more.
\<close>

fun expired_loop ::
  "rts_config \<Rightarrow> nat \<Rightarrow> rts_tick \<Rightarrow> bool \<Rightarrow> rts_kernel_state \<Rightarrow> rts_fatal + (bool \<times> rts_kernel_state)" where
  "expired_loop cfg 0 now service_woken s = Inl RTS_NO_RETURN"
| "expired_loop cfg (Suc fuel) now service_woken s =
     bnd (rts_timer_queue_peek_expired cfg now s) (\<lambda>timer.
     case timer of
       None \<Rightarrow> Inr (service_woken, s)
     | Some i \<Rightarrow> bnd (timer_expire_one cfg now i s) (\<lambda>(woken, s).
         expired_loop cfg fuel now (service_woken \<or> woken) s))"

definition rts_timer_manager_process_expired ::
  "rts_config \<Rightarrow> rts_tick \<Rightarrow> rts_kernel_state \<Rightarrow> rts_fatal + (bool \<times> rts_kernel_state)" where
  "rts_timer_manager_process_expired cfg now s =
     bnd (expired_loop cfg (RTS_MAX_TIMERS cfg + 1) now False s) (\<lambda>(service_woken, s).
     fatal_unless (rts_timer_manager_validate cfg s) (Inr (service_woken, s)))"

end
