(* ===== verification/Task_Control.thy ===== *)
theory Task_Control
  imports Scheduler
begin

text \<open>
  The task interface: creation (\<^verbatim>\<open>task_create.c\<close>), yielding (\<^verbatim>\<open>task_yield.c\<close>) and delaying
  (\<^verbatim>\<open>task_delay.c\<close>).
\<close>

section \<open>Creation\<close>

definition rts_task_create_rollback ::
  "rts_config \<Rightarrow> task_ref option \<Rightarrow> nat \<Rightarrow> rts_kernel_state \<Rightarrow> rts_fatal + rts_kernel_state" where
  "rts_task_create_rollback cfg tp slot_index s =
     bnd (rts_policy_validate cfg tp True s) (\<lambda>ready.
     bnd (if ready then bnd (rts_policy_remove cfg tp s) (\<lambda>(_, s). Inr s) else Inr s) (\<lambda>s.
     bnd (rts_task_object_reset cfg tp s) (\<lambda>s.
     rts_task_pool_rollback cfg slot_index s)))"

text \<open>Creation behind the reservation of slot \<open>slot_index\<close>.\<close>

definition task_create_in_slot ::
  "rts_config \<Rightarrow> rts_port \<Rightarrow> rts_task_config \<Rightarrow> nat \<Rightarrow> rts_kernel_state \<Rightarrow>
   rts_fatal + (rts_status \<times> task_ref option \<times> rts_kernel_state)" where
  "task_create_in_slot cfg pt c slot_index s =
     bnd (rts_task_pool_get cfg slot_index) (\<lambda>task.
     bnd (rts_task_object_initialize cfg task (Some c) (lifecycle s) s) (\<lambda>(status, s).
     if status \<noteq> RTS_STATUS_OK
     then bnd (rts_task_create_rollback cfg task slot_index s) (\<lambda>s. Inr (status, None, s))
     else
       let t = the task;
           s = s\<lparr>bytes := rts_stack_diagnostics_prepare cfg (stack_low (tcbs s t)) (stack_high (tcbs s t)) (bytes s)\<rparr>;
           (result, b) = pt_stack_initialize pt (tc_stack_buffer c) (tc_stack_size_bytes c) (tc_entry c)
             (tc_argument c) (bytes s);
           s = s\<lparr>bytes := b\<rparr> in
       if psr_status result \<noteq> RTS_STATUS_OK \<or> psr_saved_stack_pointer result = 0
       then bnd (rts_task_create_rollback cfg task slot_index s) (\<lambda>s.
         Inr (if psr_status result \<noteq> RTS_STATUS_OK then psr_status result else RTS_STATUS_PORT_ERROR, None, s))
       else
         let s = upd_tcb t (\<lambda>x. x\<lparr>saved_stack_pointer := psr_saved_stack_pointer result\<rparr>) s in
         bnd (rts_policy_insert cfg task s) (\<lambda>(inserted, s).
         if \<not> inserted
         then bnd (rts_policy_validate cfg task True s) (\<lambda>v.
           rts_assert cfg v (
           bnd (rts_task_create_rollback cfg task slot_index s) (\<lambda>s. Inr (RTS_STATUS_PORT_ERROR, None, s))))
         else
           let s = upd_tcb t (\<lambda>x. x\<lparr>task_state := RTS_TASK_STATE_READY\<rparr>) s in
           bnd (rts_task_pool_commit cfg slot_index s) (\<lambda>s.
           rts_assert cfg (slot_state (tcbs s t) = RTS_TASK_SLOT_ALLOCATED) (
           if slot_state (tcbs s t) \<noteq> RTS_TASK_SLOT_ALLOCATED
           then bnd (rts_policy_remove cfg task s) (\<lambda>(_, s).
             bnd (rts_task_create_rollback cfg task slot_index s) (\<lambda>s. Inr (RTS_STATUS_PORT_ERROR, None, s)))
           else
             let s = (if RTS_ENABLE_ASSERTIONS cfg
                      then upd_tcb t (\<lambda>x. x\<lparr>validation_magic := RTS_TASK_VALIDATION_MAGIC\<rparr>) s else s);
                 s = diag_inc cfg task_creations s;
                 s = RTS_TRACE cfg RTS_TRACE_TASK_CREATED (ucast (priority (tcbs s t))) (of_nat slot_index) s in
             Inr (RTS_STATUS_OK, task, s))))))"

text \<open>The handle is the second component; \<open>want\<close> is false when \<open>out_handle\<close> is null.\<close>

definition rts_task_create ::
  "rts_config \<Rightarrow> rts_port \<Rightarrow> rts_task_config option \<Rightarrow> bool \<Rightarrow> rts_kernel_state \<Rightarrow>
   rts_fatal + (rts_status \<times> task_ref option \<times> rts_kernel_state)" where
  "rts_task_create cfg pt cp want s =
     (if \<not> want then Inr (RTS_STATUS_INVALID_ARGUMENT, None, s)
      else if in_isr s then rts_assert cfg (\<not> in_isr s) (Inr (RTS_STATUS_INVALID_CONTEXT, None, s))
      else bnd (rts_task_config_validate cfg pt cp (lifecycle s)) (\<lambda>status.
        if status \<noteq> RTS_STATUS_OK then Inr (status, None, s)
        else if lifecycle s \<noteq> RTS_KERNEL_INITIALIZED then Inr (RTS_STATUS_INVALID_STATE, None, s)
        else bnd (rts_task_pool_reserve cfg s) (\<lambda>(r, s).
          case r of
            None \<Rightarrow> Inr (RTS_STATUS_CAPACITY_EXHAUSTED, None, s)
          | Some slot_index \<Rightarrow> task_create_in_slot cfg pt (the cp) slot_index s)))"

section \<open>Yield\<close>

definition rts_yield_current_is_coherent :: "rts_config \<Rightarrow> rts_kernel_state \<Rightarrow> rts_fatal + bool" where
  "rts_yield_current_is_coherent cfg s =
     (case rts_scheduler_current_get s of
        None \<Rightarrow> Inr False
      | Some t \<Rightarrow>
          and_then (task_state (tcbs s t) = RTS_TASK_STATE_RUNNING)
          (bnd (rts_scheduler_current_is_valid cfg s) (\<lambda>v.
           and_then v
          (bnd (rts_policy_validate cfg (Some t) True s) (\<lambda>ready.
           and_then ready
          (bnd (rts_policy_pick_next cfg s) (\<lambda>p.
           Inr (p = Some t \<and> \<not> sp_active (switch_plan s)))))))))"

definition rts_task_yield :: "rts_config \<Rightarrow> rts_kernel_state \<Rightarrow> rts_fatal + (rts_status \<times> rts_kernel_state)" where
  "rts_task_yield cfg s =
     (if in_isr s then Inr (RTS_STATUS_INVALID_CONTEXT, s)
      else if lifecycle s \<noteq> RTS_KERNEL_RUNNING then Inr (RTS_STATUS_INVALID_STATE, s)
      else bnd (rts_yield_current_is_coherent cfg s) (\<lambda>coherent.
        rts_assert cfg coherent (
        if \<not> coherent then Inr (RTS_STATUS_INVALID_STATE, s)
        else
          let current = rts_scheduler_current_get s;
              s = upd_tcb (the current) (\<lambda>x. x\<lparr>slice_remaining := RTS_TIME_SLICE_TICKS cfg\<rparr>) s;
              s = diag_inc cfg yields s;
              s = RTS_TRACE cfg RTS_TRACE_YIELD (ucast (priority (tcbs s (the current)))) 0 s in
          bnd (rts_policy_yield cfg current s) (\<lambda>(yielded, s).
          if \<not> yielded then Inr (RTS_STATUS_OK, s)
          else
            bnd (rts_scheduler_select_highest_ready cfg s) (\<lambda>selected.
            rts_assert cfg (selected \<noteq> None) (
            rts_assert cfg (selected \<noteq> current) (
            rts_assert cfg (selected = None \<or> task_state (tcbs s (the selected)) = RTS_TASK_STATE_READY) (
            if selected = None \<or> selected = current \<or> task_state (tcbs s (the selected)) \<noteq> RTS_TASK_STATE_READY
            then Inr (RTS_STATUS_INVALID_STATE, s)
            else bnd (rts_scheduler_prepare_switch cfg selected s) (\<lambda>(notify, s).
              Inr (RTS_STATUS_OK, if notify then rts_port_request_reschedule s else s))))))))))"

section \<open>Delay\<close>

definition rts_delay_current_is_coherent :: "rts_config \<Rightarrow> rts_kernel_state \<Rightarrow> rts_fatal + bool" where
  "rts_delay_current_is_coherent cfg s =
     (case rts_scheduler_current_get s of
        None \<Rightarrow> Inr False
      | Some t \<Rightarrow>
          let x = tcbs s t in
          and_then (task_state x = RTS_TASK_STATE_RUNNING \<and> \<not> rts_scheduler_task_is_idle (Some t) s)
          (bnd (rts_scheduler_current_is_valid cfg s) (\<lambda>v.
           and_then v
          (bnd (rts_policy_validate cfg (Some t) True s) (\<lambda>ready.
           Inr (ready \<and> wait_reason x = RTS_WAIT_NONE \<and> wait_result x = RTS_WAIT_RESULT_NONE \<and>
             wait_object x = None \<and> \<not> timeout_active x \<and> wait_owner t s = None \<and>
             delay_owner t s = None \<and> \<not> sp_active (switch_plan s)))))))"

definition rts_task_delay ::
  "rts_config \<Rightarrow> rts_tick \<Rightarrow> rts_kernel_state \<Rightarrow> rts_fatal + (rts_status \<times> rts_kernel_state)" where
  "rts_task_delay cfg delay s =
     (if delay = 0 then rts_task_yield cfg s
      else if \<not> rts_tick_relative_is_valid delay then Inr (RTS_STATUS_INVALID_ARGUMENT, s)
      else if in_isr s then Inr (RTS_STATUS_INVALID_CONTEXT, s)
      else if lifecycle s \<noteq> RTS_KERNEL_RUNNING then Inr (RTS_STATUS_INVALID_STATE, s)
      else if rts_scheduler_task_is_timer_service (rts_scheduler_current_get s) s
      then Inr (RTS_STATUS_INVALID_CONTEXT, s)
      else bnd (rts_delay_current_is_coherent cfg s) (\<lambda>coherent.
        rts_assert cfg coherent (
        if \<not> coherent then Inr (RTS_STATUS_INVALID_STATE, s)
        else
          let current = rts_scheduler_current_get s; t = the current;
              s = upd_tcb t (\<lambda>x. x\<lparr>wake_tick := current_tick s + delay\<rparr>) s in
          bnd (rts_policy_task_block cfg current s) (\<lambda>(ok, s).
          fatal_unless ok (
          bnd (rts_policy_validate cfg current False s) (\<lambda>v.
          fatal_unless v (
          let s = upd_tcb t (\<lambda>x. x\<lparr>wait_reason := RTS_WAIT_DELAY, wait_result := RTS_WAIT_RESULT_NONE,
                wait_object := None, timeout_active := False, slice_remaining := RTS_TIME_SLICE_TICKS cfg,
                task_state := RTS_TASK_STATE_BLOCKED\<rparr>) s;
              s = task_diag_block cfg t (diag_inc cfg delay_blocks s);
              s = RTS_TRACE cfg RTS_TRACE_TASK_BLOCKED (wait_reason_code RTS_WAIT_DELAY) delay s in
          bnd (rts_delay_insert cfg current s) (\<lambda>s.
          bnd (rts_scheduler_task_is_blocked_delay cfg current s) (\<lambda>b.
          fatal_unless b (
          bnd (rts_scheduler_select_highest_ready cfg s) (\<lambda>selected.
          fatal_unless (selected \<noteq> None) (
          fatal_unless (selected = None \<or> selected \<noteq> current) (
          bnd (rts_scheduler_prepare_switch cfg selected s) (\<lambda>(notify, s).
          fatal_unless (sp_pending (switch_plan s) \<or> sp_active (switch_plan s)) (
          Inr (RTS_STATUS_OK, if notify then rts_port_request_reschedule s else s))))))))))))))))"

end
