(* ===== verification/Kernel_Boot.thy ===== *)
theory Kernel_Boot
  imports Timer_Manager Task_Control
begin

text \<open>
  Initialising the kernel (\<^verbatim>\<open>scheduler_init.c\<close>) and starting it (\<^verbatim>\<open>scheduler_start.c\<close>).
\<close>

section \<open>Initialisation\<close>

text \<open>
  \<open>*kernel = (rts_kernel_state_t){0}\<close>: every TCB, the ready and delay lists, the switch plan and the
  counters, and the two kernel stacks, which are arrays inside the structure. Timers, semaphores,
  mutexes and the trace live outside of it.
\<close>

definition zero_node :: "('n, 'l, 'o) rts_list_node" where
  "zero_node = \<lparr>nd_previous = None, nd_next = None, nd_owner = None, nd_object = None\<rparr>"

definition zero_list :: "'n rts_list" where
  "zero_list = \<lparr>ls_head = None, ls_tail = None, ls_count = 0\<rparr>"

fun kernel_node :: "node_ref \<Rightarrow> bool" where
  "kernel_node (Timer_Node i) \<longleftrightarrow> False"
| "kernel_node _ \<longleftrightarrow> True"

definition zero_kernel :: "rts_config \<Rightarrow> rts_image \<Rightarrow> rts_kernel_state \<Rightarrow> rts_kernel_state" where
  "zero_kernel cfg im s = s\<lparr>
     tcbs := \<lambda>_. zero_tcb,
     lmem := \<lparr>node_at = \<lambda>n. if kernel_node n then zero_node else node_at (lmem s) n,
       list_at = \<lambda>l. if l = Timer_List then list_at (lmem s) l else zero_list\<rparr>,
     wmem := (wmem s)\<lparr>node_at := \<lambda>_. zero_node\<rparr>,
     omem := (omem s)\<lparr>list_at := \<lambda>_. zero_list\<rparr>,
     allocated_count := 0, next_free_hint := 0, lifecycle := RTS_KERNEL_RESET,
     current_task := None, idle_task := None,
     switch_plan := \<lparr>sp_from = None, sp_to = None, sp_pending = False, sp_active = False,
       sp_reselection_required = False, sp_generation = 0\<rparr>,
     timer_service_task := None,
     ready_bitmap := replicate (RTS_READY_BITMAP_WORDS cfg) 0,
     policy_release_sequence := 0, current_tick := 0, runtime_counters := \<lambda>_. 0,
     bytes := fill_loop (RTS_TIMER_SERVICE_STACK_SIZE_BYTES cfg) (im_service_stack im) 0
       (fill_loop (RTS_IDLE_STACK_SIZE_BYTES cfg) (im_idle_stack im) 0 (bytes s))\<rparr>"

definition rts_kernel_restore_reset ::
  "rts_config \<Rightarrow> rts_image \<Rightarrow> rts_kernel_state \<Rightarrow> rts_fatal + rts_kernel_state" where
  "rts_kernel_restore_reset cfg im s = rts_timer_manager_initialize cfg (zero_kernel cfg im s)"

definition rts_idle_object_initialize ::
  "rts_config \<Rightarrow> rts_image \<Rightarrow> rts_kernel_state \<Rightarrow> rts_fatal + rts_kernel_state" where
  "rts_idle_object_initialize cfg im s =
     bnd (clear_task_nodes cfg Idle s) (\<lambda>s.
     Inr (upd_tcb Idle (\<lambda>x. clear_task_diagnostics cfg (x\<lparr>
       saved_stack_pointer := 0, stack_low := im_idle_stack im,
       stack_high := im_idle_stack im + of_nat (RTS_IDLE_STACK_SIZE_BYTES cfg),
       entry := im_idle_entry im, argument := 0,
       wait_reason := RTS_WAIT_NONE, wait_result := RTS_WAIT_RESULT_NONE, wake_tick := 0,
       wait_object := None, timeout_active := False, slice_remaining := RTS_TIME_SLICE_TICKS cfg,
       base_priority := RTS_IDLE_PRIORITY, priority := RTS_IDLE_PRIORITY, period := 0,
       relative_deadline := 0, absolute_deadline := 0, release_tick := 0, execution_budget := 0,
       release_sequence := 0, task_state := RTS_TASK_STATE_DORMANT,
       slot_state := RTS_TASK_SLOT_ALLOCATED\<rparr>)) s))"

definition rts_timer_service_object_initialize ::
  "rts_config \<Rightarrow> rts_image \<Rightarrow> rts_kernel_state \<Rightarrow> rts_fatal + rts_kernel_state" where
  "rts_timer_service_object_initialize cfg im s =
     bnd (clear_task_nodes cfg Service s) (\<lambda>s.
     let s = upd_tcb Service (\<lambda>x. clear_task_diagnostics cfg (x\<lparr>
           saved_stack_pointer := 0, stack_low := im_service_stack im,
           stack_high := im_service_stack im + of_nat (RTS_TIMER_SERVICE_STACK_SIZE_BYTES cfg),
           entry := im_service_entry im, argument := 0,
           wait_reason := RTS_WAIT_TIMER_SERVICE, wait_result := RTS_WAIT_RESULT_NONE, wake_tick := 0,
           wait_object := None, timeout_active := False, slice_remaining := RTS_TIME_SLICE_TICKS cfg,
           base_priority := of_nat (RTS_TIMER_SERVICE_PRIORITY cfg),
           priority := of_nat (RTS_TIMER_SERVICE_PRIORITY cfg), period := 1,
           relative_deadline := 1, absolute_deadline := 0, release_tick := 0, execution_budget := 0,
           release_sequence := 0, task_state := RTS_TASK_STATE_BLOCKED,
           slot_state := RTS_TASK_SLOT_ALLOCATED\<rparr>)) s;
         s = (if RTS_ENABLE_ASSERTIONS cfg
              then upd_tcb Service (\<lambda>x. x\<lparr>validation_magic := RTS_TASK_VALIDATION_MAGIC\<rparr>) s else s) in
     Inr (s\<lparr>timer_service_task := Some Service\<rparr>))"

text \<open>
  Preparing and initialising the stack of a kernel task: the saved stack pointer, or \<open>None\<close> where
  the port refuses the stack.
\<close>

definition init_kernel_stack ::
  "rts_config \<Rightarrow> rts_port \<Rightarrow> task_ref \<Rightarrow> uintptr \<Rightarrow> nat \<Rightarrow> uintptr \<Rightarrow> rts_kernel_state \<Rightarrow>
   uintptr option \<times> rts_kernel_state" where
  "init_kernel_stack cfg pt t stack stack_size task_entry s =
     (let s = s\<lparr>bytes := rts_stack_diagnostics_prepare cfg (stack_low (tcbs s t)) (stack_high (tcbs s t)) (bytes s)\<rparr>;
          (result, b) = pt_stack_initialize pt stack stack_size task_entry 0 (bytes s);
          s = s\<lparr>bytes := b\<rparr> in
      if psr_status result \<noteq> RTS_STATUS_OK \<or> psr_saved_stack_pointer result = 0 then (None, s)
      else (Some (psr_saved_stack_pointer result), s))"

definition rts_init ::
  "rts_config \<Rightarrow> rts_port \<Rightarrow> rts_image \<Rightarrow> rts_kernel_state \<Rightarrow> rts_fatal + (rts_status \<times> rts_kernel_state)" where
  "rts_init cfg pt im s =
     (if in_isr s then rts_assert cfg (\<not> in_isr s) (Inr (RTS_STATUS_INVALID_CONTEXT, s))
      else if lifecycle s = RTS_KERNEL_INITIALIZED then Inr (RTS_STATUS_ALREADY_INITIALIZED, s)
      else if lifecycle s = RTS_KERNEL_RUNNING then Inr (RTS_STATUS_ALREADY_STARTED, s)
      else
        let fail = (\<lambda>s. bnd (rts_kernel_restore_reset cfg im s) (\<lambda>s. Inr (RTS_STATUS_PORT_ERROR, s))) in
        bnd (rts_kernel_restore_reset cfg im s) (\<lambda>s.
        let s = rts_task_pool_initialize cfg s in
        bnd (rts_policy_initialize cfg s) (\<lambda>s.
        bnd (rts_delay_initialize cfg s) (\<lambda>s.
        if pt_initialize pt \<noteq> RTS_STATUS_OK then fail s
        else
          bnd (rts_timer_service_object_initialize cfg im s) (\<lambda>s.
          case init_kernel_stack cfg pt Service (im_service_stack im) (RTS_TIMER_SERVICE_STACK_SIZE_BYTES cfg)
                 (im_service_entry im) s of
            (None, s) \<Rightarrow> fail s
          | (Some sp, s) \<Rightarrow>
              let s = upd_tcb Service (\<lambda>x. x\<lparr>saved_stack_pointer := sp\<rparr>) s in
              bnd (rts_idle_object_initialize cfg im s) (\<lambda>s.
              case init_kernel_stack cfg pt Idle (im_idle_stack im) (RTS_IDLE_STACK_SIZE_BYTES cfg)
                     (im_idle_entry im) s of
                (None, s) \<Rightarrow> fail s
              | (Some sp, s) \<Rightarrow>
                  let s = upd_tcb Idle (\<lambda>x. x\<lparr>saved_stack_pointer := sp\<rparr>) s in
                  bnd (rts_policy_insert cfg (Some Idle) s) (\<lambda>(ok, s).
                  if \<not> ok
                  then bnd (rts_kernel_restore_reset cfg im s) (\<lambda>s.
                    fatal_unless False (Inr (RTS_STATUS_PORT_ERROR, s)))
                  else
                    let s = upd_tcb Idle (\<lambda>x. x\<lparr>task_state := RTS_TASK_STATE_READY\<rparr>) s;
                        s = (if RTS_ENABLE_ASSERTIONS cfg
                             then upd_tcb Idle (\<lambda>x. x\<lparr>validation_magic := RTS_TASK_VALIDATION_MAGIC\<rparr>) s else s) in
                    Inr (RTS_STATUS_OK, s\<lparr>idle_task := Some Idle, lifecycle := RTS_KERNEL_INITIALIZED\<rparr>))))))))"

section \<open>Start\<close>

definition rts_start_preflight_is_coherent :: "rts_config \<Rightarrow> rts_kernel_state \<Rightarrow> rts_fatal + bool" where
  "rts_start_preflight_is_coherent cfg s =
     and_then (lifecycle s = RTS_KERNEL_INITIALIZED \<and> rts_scheduler_current_get s = None \<and>
       idle_task s \<noteq> None \<and> idle_task s = Some Idle \<and> task_state (tcbs s Idle) = RTS_TASK_STATE_READY)
     (bnd (rts_policy_validate cfg (idle_task s) True s) (\<lambda>ready.
      and_then (ready \<and> timer_service_task s = Some Service)
     (bnd (rts_scheduler_task_is_blocked_wait cfg (timer_service_task s) s) (\<lambda>blocked.
      and_then (blocked \<and> cq_count (callback_queue s) = 0)
     (bnd (rts_policy_pick_next cfg s) (\<lambda>p.
      Inr (p \<noteq> None \<and> ls_count (list_at (lmem s) Delay_List) = 0 \<and>
        \<not> sp_pending (switch_plan s) \<and> \<not> sp_active (switch_plan s) \<and>
        sp_from (switch_plan s) = None \<and> sp_to (switch_plan s) = None)))))))"

definition rts_start_rollback :: "rts_config \<Rightarrow> rts_kernel_state \<Rightarrow> rts_fatal + rts_kernel_state" where
  "rts_start_rollback cfg s =
     bnd (rts_scheduler_current_release_initial cfg (s\<lparr>lifecycle := RTS_KERNEL_INITIALIZED\<rparr>)) (\<lambda>(ok, s).
     fatal_unless ok (
     fatal_unless (rts_scheduler_current_get s = None) (
     bnd (rts_scheduler_current_is_valid cfg s) (\<lambda>v. fatal_unless v (Inr s)))))"

text \<open>
  On the host port the call returns; on the target a successful \<open>rts_port_start_first_task\<close> does
  not, and the state of the result is the one the first task starts in.
\<close>

definition rts_start ::
  "rts_config \<Rightarrow> rts_port \<Rightarrow> rts_kernel_state \<Rightarrow> rts_fatal + (rts_status \<times> rts_kernel_state)" where
  "rts_start cfg pt s =
     (if in_isr s then rts_assert cfg (\<not> in_isr s) (Inr (RTS_STATUS_INVALID_CONTEXT, s))
      else if lifecycle s = RTS_KERNEL_RESET then Inr (RTS_STATUS_INVALID_STATE, s)
      else if lifecycle s = RTS_KERNEL_RUNNING then Inr (RTS_STATUS_ALREADY_STARTED, s)
      else bnd (rts_start_preflight_is_coherent cfg s) (\<lambda>coherent.
        rts_assert cfg coherent (
        if \<not> coherent then Inr (RTS_STATUS_INVALID_STATE, s)
        else
          bnd (rts_scheduler_select_highest_ready cfg s) (\<lambda>selected.
          fatal_unless (selected \<noteq> None) (
          fatal_unless (task_state (tcbs s (the selected)) = RTS_TASK_STATE_READY) (
          bnd (rts_scheduler_task_is_runnable cfg selected s) (\<lambda>r.
          fatal_unless r (
          bnd (rts_scheduler_current_establish cfg selected s) (\<lambda>(established, s).
          if \<not> established then Inr (RTS_STATUS_INVALID_STATE, s)
          else
            let s = s\<lparr>lifecycle := RTS_KERNEL_RUNNING\<rparr>;
                s = rts_runtime_task_started cfg (rts_scheduler_current_get s) (current_tick s) s;
                s = diag_inc cfg scheduler_starts s;
                s = RTS_TRACE cfg RTS_TRACE_SCHEDULER_STARTED
                      (ucast (priority (tcbs s (the (rts_scheduler_current_get s))))) 0 s in
            bnd (rts_scheduler_current_is_valid cfg s) (\<lambda>v.
            fatal_unless v (
            let (port_status, on) = pt_tick_start pt (tick_on s); s = s\<lparr>tick_on := on\<rparr> in
            if port_status \<noteq> RTS_STATUS_OK
            then bnd (rts_start_rollback cfg (s\<lparr>tick_on := pt_tick_stop pt (tick_on s)\<rparr>)) (\<lambda>s.
              Inr (RTS_STATUS_PORT_ERROR, s))
            else if pt_start_first_task pt s \<noteq> RTS_STATUS_OK
            then bnd (rts_start_rollback cfg (s\<lparr>tick_on := pt_tick_stop pt (tick_on s)\<rparr>)) (\<lambda>s.
              Inr (RTS_STATUS_PORT_ERROR, s))
            else Inr (RTS_STATUS_OK, s))))))))))))"

end
