(* ===== verification/Semaphore.thy ===== *)
theory Semaphore
  imports Scheduler
begin

text \<open>
  Counting semaphores (\<^verbatim>\<open>semaphore.c\<close>). A semaphore is an index into \<open>semaphores\<close>; its waiters
  are the wait object \<open>Sem_Waiters i\<close>.

  \<open>rts_semaphore_take\<close> blocks inside the call: the port switches away at the reschedule request
  and the task continues behind it when it is dispatched again. The call is modelled in two
  steps, \<open>rts_semaphore_take_begin\<close> up to and including the request, and
  \<open>rts_semaphore_take_resume\<close> from there; \<open>rts_semaphore_take\<close> runs both in sequence, which is
  what the deterministic host port does.
\<close>

definition rts_semaphore_is_valid :: "rts_config \<Rightarrow> nat option \<Rightarrow> rts_kernel_state \<Rightarrow> bool" where
  "rts_semaphore_is_valid cfg sp s =
     (case sp of
        None \<Rightarrow> False
      | Some i \<Rightarrow>
          let sem = semaphores s i in
          sem_identity sem = Some i \<and> sem_signature sem = RTS_SEMAPHORE_SIGNATURE \<and>
          sem_maximum_count sem > 0 \<and> sem_count sem \<le> sem_maximum_count sem \<and>
          rts_wait_object_validate cfg (Some (Sem_Waiters i)) s)"

definition upd_sem :: "nat \<Rightarrow> (rts_semaphore \<Rightarrow> rts_semaphore) \<Rightarrow> rts_kernel_state \<Rightarrow> rts_kernel_state" where
  "upd_sem i f s = s\<lparr>semaphores := (semaphores s)(i := f (semaphores s i))\<rparr>"

definition rts_semaphore_init ::
  "rts_config \<Rightarrow> nat option \<Rightarrow> rts_count \<Rightarrow> rts_count \<Rightarrow> rts_kernel_state \<Rightarrow>
   rts_fatal + (rts_status \<times> rts_kernel_state)" where
  "rts_semaphore_init cfg sp initial_count maximum_count s =
     (if sp = None \<or> maximum_count = 0 \<or> initial_count > maximum_count
      then Inr (RTS_STATUS_INVALID_ARGUMENT, s)
      else if in_isr s then Inr (RTS_STATUS_INVALID_CONTEXT, s)
      else if rts_semaphore_is_valid cfg sp s then Inr (RTS_STATUS_ALREADY_INITIALIZED, s)
      else let i = the sp;
               s = upd_sem i (\<lambda>x. x\<lparr>sem_count := initial_count, sem_maximum_count := maximum_count\<rparr>) s in
        bnd (rts_wait_object_initialize cfg (Some (Sem_Waiters i)) s) (\<lambda>s.
        let s = upd_sem i (\<lambda>x. x\<lparr>sem_identity := Some i, sem_signature := RTS_SEMAPHORE_SIGNATURE\<rparr>) s in
        fatal_unless (rts_semaphore_is_valid cfg sp s) (Inr (RTS_STATUS_OK, s))))"

text \<open>
  The condition under which the current task may block, shared word for word by semaphores
  and mutexes (\<open>rts_semaphore_current_can_block\<close>, \<open>rts_mutex_current_can_block\<close>).
\<close>

definition current_can_block :: "rts_config \<Rightarrow> rts_kernel_state \<Rightarrow> rts_fatal + bool" where
  "current_can_block cfg s =
     (case rts_scheduler_current_get s of
        None \<Rightarrow> Inr False
      | Some t \<Rightarrow>
          let x = tcbs s t in
          and_then (task_state x = RTS_TASK_STATE_RUNNING \<and> \<not> rts_scheduler_task_is_idle (Some t) s)
          (bnd (rts_scheduler_current_is_valid cfg s) (\<lambda>v.
           and_then v
          (bnd (rts_policy_validate cfg (Some t) True s) (\<lambda>ready.
           Inr (ready \<and> wait_reason x = RTS_WAIT_NONE \<and> wait_result x = RTS_WAIT_RESULT_NONE \<and>
             wait_object x = None \<and> \<not> timeout_active x \<and> delay_owner t s = None \<and>
             wait_owner t s = None \<and> \<not> sp_active (switch_plan s)))))))"

definition rts_semaphore_current_can_block :: "rts_config \<Rightarrow> rts_kernel_state \<Rightarrow> rts_fatal + bool" where
  "rts_semaphore_current_can_block cfg s = current_can_block cfg s"

definition rts_semaphore_make_ready ::
  "rts_config \<Rightarrow> task_ref \<Rightarrow> rts_wait_result \<Rightarrow> rts_kernel_state \<Rightarrow> rts_fatal + rts_kernel_state" where
  "rts_semaphore_make_ready cfg t result s =
     (let still_executing = (Some t = rts_scheduler_current_get s);
          waiters = sem_waiters_of (wait_object (tcbs s t)) in
      fatal_unless (task_state (tcbs s t) = RTS_TASK_STATE_BLOCKED) (
      fatal_unless (wait_reason (tcbs s t) = RTS_WAIT_SEMAPHORE) (
      fatal_unless (wait_owner t s = waiters) (
      bnd (rts_wait_object_remove cfg waiters (Some t) s) (\<lambda>s.
      bnd (if timeout_active (tcbs s t)
           then bnd (rts_delay_contains cfg (Some t) s) (\<lambda>c.
             fatal_unless c (rts_delay_remove cfg (Some t) s))
           else Inr s) (\<lambda>s.
      let s = upd_tcb t (\<lambda>x. x\<lparr>wait_reason := RTS_WAIT_NONE, wait_result := result, wake_tick := 0,
            wait_object := None, timeout_active := False, slice_remaining := RTS_TIME_SLICE_TICKS cfg,
            task_state := (if still_executing then RTS_TASK_STATE_RUNNING else RTS_TASK_STATE_READY)\<rparr>) s in
      bnd (rts_policy_task_unblock cfg (Some t) s) (\<lambda>(ok, s).
      fatal_unless ok (
      let s = task_diag_wake cfg t s;
          s = (if result = RTS_WAIT_RESULT_ACQUIRED then diag_inc cfg semaphore_acquisitions s
               else diag_inc cfg semaphore_timeouts s);
          s = RTS_TRACE cfg RTS_TRACE_SEMAPHORE (wait_result_code result) (ucast (priority (tcbs s t))) s in
      bnd (rts_scheduler_task_is_runnable cfg (Some t) s) (\<lambda>r.
      fatal_unless r (Inr s))))))))))"

definition rts_semaphore_wake_one ::
  "rts_config \<Rightarrow> nat \<Rightarrow> rts_kernel_state \<Rightarrow> rts_fatal + (bool \<times> rts_kernel_state)" where
  "rts_semaphore_wake_one cfg i s =
     (case ls_head (list_at (wmem s) (Sem_Waiters i)) of
        None \<Rightarrow> Inr (False, s)
      | Some t \<Rightarrow> bnd (rts_semaphore_make_ready cfg t RTS_WAIT_RESULT_ACQUIRED s) (\<lambda>s. Inr (True, s)))"

definition rts_semaphore_plan_after_wake ::
  "rts_config \<Rightarrow> rts_kernel_state \<Rightarrow> rts_fatal + (bool \<times> rts_kernel_state)" where
  "rts_semaphore_plan_after_wake cfg s =
     bnd (rts_scheduler_select_highest_ready cfg s) (\<lambda>selected.
     let current = rts_scheduler_current_get s in
     fatal_unless (selected \<noteq> None) (
     fatal_unless (current \<noteq> None) (
     if selected = current
     then bnd (rts_scheduler_prepare_switch cfg current s) (\<lambda>(_, s). Inr (False, s))
     else if task_state (tcbs s (the current)) = RTS_TASK_STATE_BLOCKED \<or> selected \<noteq> current
     then rts_scheduler_prepare_switch cfg selected s
     else Inr (False, s))))"

definition rts_semaphore_wait_result_consume ::
  "task_ref option \<Rightarrow> rts_kernel_state \<Rightarrow> rts_status \<times> rts_kernel_state" where
  "rts_semaphore_wait_result_consume tp s =
     (case tp of
        None \<Rightarrow> (RTS_STATUS_INVALID_ARGUMENT, s)
      | Some t \<Rightarrow>
          if wait_result (tcbs s t) = RTS_WAIT_RESULT_ACQUIRED
          then (RTS_STATUS_OK, upd_tcb t (\<lambda>x. x\<lparr>wait_result := RTS_WAIT_RESULT_NONE\<rparr>) s)
          else if wait_result (tcbs s t) = RTS_WAIT_RESULT_TIMEOUT
          then (RTS_STATUS_TIMEOUT, upd_tcb t (\<lambda>x. x\<lparr>wait_result := RTS_WAIT_RESULT_NONE\<rparr>) s)
          else (RTS_STATUS_INVALID_STATE, s))"

text \<open>
  The first step of a take: \<open>Inl status\<close> where the call has returned, \<open>Inr t\<close> where task \<open>t\<close> is
  blocked in it.
\<close>

definition rts_semaphore_take_begin ::
  "rts_config \<Rightarrow> nat option \<Rightarrow> rts_tick \<Rightarrow> rts_kernel_state \<Rightarrow>
   rts_fatal + ((rts_status + task_ref) \<times> rts_kernel_state)" where
  "rts_semaphore_take_begin cfg sp timeout s =
     (if sp = None \<or> (timeout > RTS_DELAY_MAX \<and> timeout \<noteq> RTS_WAIT_FOREVER)
      then Inr (Inl RTS_STATUS_INVALID_ARGUMENT, s)
      else if in_isr s then Inr (Inl RTS_STATUS_INVALID_CONTEXT, s)
      else if lifecycle s \<noteq> RTS_KERNEL_RUNNING then Inr (Inl RTS_STATUS_INVALID_STATE, s)
      else if \<not> rts_semaphore_is_valid cfg sp s then Inr (Inl RTS_STATUS_INVALID_ARGUMENT, s)
      else let i = the sp in
        if sem_count (semaphores s i) > 0
        then
          let s = upd_sem i (\<lambda>x. x\<lparr>sem_count := sem_count x - 1\<rparr>) s;
              s = diag_inc cfg semaphore_acquisitions s;
              s = RTS_TRACE cfg RTS_TRACE_SEMAPHORE (wait_result_code RTS_WAIT_RESULT_ACQUIRED)
                    (sem_count (semaphores s i)) s in
          Inr (Inl RTS_STATUS_OK, s)
        else if timeout = 0 then Inr (Inl RTS_STATUS_TIMEOUT, s)
        else if rts_scheduler_task_is_timer_service (rts_scheduler_current_get s) s
        then Inr (Inl RTS_STATUS_INVALID_CONTEXT, s)
        else bnd (and_then (lifecycle s = RTS_KERNEL_RUNNING) (rts_semaphore_current_can_block cfg s)) (\<lambda>can_block.
          if \<not> can_block then Inr (Inl RTS_STATUS_INVALID_STATE, s)
          else
            let current = rts_scheduler_current_get s; t = the current in
            bnd (rts_policy_task_block cfg current s) (\<lambda>(ok, s).
            fatal_unless ok (
            let timed = (timeout \<noteq> RTS_WAIT_FOREVER);
                s = upd_tcb t (\<lambda>x. x\<lparr>wait_reason := RTS_WAIT_SEMAPHORE, wait_result := RTS_WAIT_RESULT_NONE,
                      wait_object := Some (Semaphore i), timeout_active := timed,
                      wake_tick := (if timed then current_tick s + timeout else 0),
                      slice_remaining := RTS_TIME_SLICE_TICKS cfg, task_state := RTS_TASK_STATE_BLOCKED\<rparr>) s;
                s = diag_inc cfg semaphore_blocks s;
                s = task_diag_block cfg t s in
            bnd (rts_wait_object_insert cfg (Some (Sem_Waiters i)) current s) (\<lambda>s.
            bnd (if timeout_active (tcbs s t) then rts_delay_insert cfg current s else Inr s) (\<lambda>s.
            bnd (rts_scheduler_task_is_blocked_wait cfg current s) (\<lambda>b.
            fatal_unless b (
            bnd (rts_scheduler_select_highest_ready cfg s) (\<lambda>selected.
            fatal_unless (selected \<noteq> None \<and> selected \<noteq> current) (
            bnd (rts_scheduler_prepare_switch cfg selected s) (\<lambda>(notify, s).
            Inr (Inr t, if notify then rts_port_request_reschedule s else s))))))))))))"

text \<open>Behind the reschedule request, when the task executes again.\<close>

definition rts_semaphore_take_resume :: "task_ref \<Rightarrow> rts_kernel_state \<Rightarrow> rts_status \<times> rts_kernel_state" where
  "rts_semaphore_take_resume t s =
     (if wait_result (tcbs s t) \<noteq> RTS_WAIT_RESULT_NONE then rts_semaphore_wait_result_consume (Some t) s
      else (RTS_STATUS_OK, s))"

definition rts_semaphore_take ::
  "rts_config \<Rightarrow> nat option \<Rightarrow> rts_tick \<Rightarrow> rts_kernel_state \<Rightarrow> rts_fatal + (rts_status \<times> rts_kernel_state)" where
  "rts_semaphore_take cfg sp timeout s =
     bnd (rts_semaphore_take_begin cfg sp timeout s) (\<lambda>(r, s).
     case r of Inl status \<Rightarrow> Inr (status, s) | Inr t \<Rightarrow> Inr (rts_semaphore_take_resume t s))"

text \<open>\<open>notify_port\<close> is the second component of the result.\<close>

definition rts_semaphore_give_common ::
  "rts_config \<Rightarrow> nat option \<Rightarrow> rts_kernel_state \<Rightarrow> rts_fatal + (rts_status \<times> bool \<times> rts_kernel_state)" where
  "rts_semaphore_give_common cfg sp s =
     (if lifecycle s \<noteq> RTS_KERNEL_RUNNING then Inr (RTS_STATUS_INVALID_STATE, False, s)
      else if \<not> rts_semaphore_is_valid cfg sp s then Inr (RTS_STATUS_INVALID_ARGUMENT, False, s)
      else let i = the sp in
        bnd (rts_semaphore_wake_one cfg i s) (\<lambda>(woke, s).
        if \<not> woke then
          if sem_count (semaphores s i) = sem_maximum_count (semaphores s i)
          then Inr (RTS_STATUS_FULL, False, s)
          else Inr (RTS_STATUS_OK, False, upd_sem i (\<lambda>x. x\<lparr>sem_count := sem_count x + 1\<rparr>) s)
        else bnd (rts_semaphore_plan_after_wake cfg s) (\<lambda>(notify, s). Inr (RTS_STATUS_OK, notify, s))))"

definition rts_semaphore_give ::
  "rts_config \<Rightarrow> nat option \<Rightarrow> rts_kernel_state \<Rightarrow> rts_fatal + (rts_status \<times> rts_kernel_state)" where
  "rts_semaphore_give cfg sp s =
     (if sp = None then Inr (RTS_STATUS_INVALID_ARGUMENT, s)
      else if in_isr s then Inr (RTS_STATUS_INVALID_CONTEXT, s)
      else bnd (rts_semaphore_give_common cfg sp s) (\<lambda>(status, notify, s).
        Inr (status, if status = RTS_STATUS_OK \<and> notify then rts_port_request_reschedule s else s)))"

text \<open>\<open>woken\<close> is false when \<open>higher_priority_task_woken\<close> is null; the flag is the second component.\<close>

definition rts_semaphore_give_from_isr ::
  "rts_config \<Rightarrow> nat option \<Rightarrow> bool \<Rightarrow> rts_kernel_state \<Rightarrow> rts_fatal + (rts_status \<times> bool \<times> rts_kernel_state)" where
  "rts_semaphore_give_from_isr cfg sp woken s =
     (if sp = None \<or> \<not> woken then Inr (RTS_STATUS_INVALID_ARGUMENT, False, s)
      else if \<not> in_isr s then Inr (RTS_STATUS_INVALID_CONTEXT, False, s)
      else bnd (rts_semaphore_give_common cfg sp s) (\<lambda>(status, notify, s).
        Inr (status, status = RTS_STATUS_OK \<and> notify, s)))"

definition rts_semaphore_timeout_task ::
  "rts_config \<Rightarrow> task_ref option \<Rightarrow> rts_kernel_state \<Rightarrow> rts_fatal + (bool \<times> rts_kernel_state)" where
  "rts_semaphore_timeout_task cfg tp s =
     (if tp = None then Inr (False, s)
      else bnd (rts_scheduler_task_is_blocked_wait cfg tp s) (\<lambda>blocked.
        if \<not> blocked \<or> \<not> timeout_active (tcbs s (the tp)) then Inr (False, s)
        else bnd (rts_semaphore_make_ready cfg (the tp) RTS_WAIT_RESULT_TIMEOUT s) (\<lambda>s. Inr (True, s))))"

end
