(* ===== verification/Priority_Inheritance.thy ===== *)
theory Priority_Inheritance
  imports Scheduler
begin

text \<open>
  Priority inheritance (\<^verbatim>\<open>priority_inheritance.c\<close>): the effective priority of a task is the
  maximum of its base priority and the priorities of the first waiters of the mutexes it owns,
  propagated along the chain of mutex owners.
\<close>

text \<open>\<open>((rts_mutex_t *)object)->owner\<close>; the owned-mutex node of a mutex holds its owner.\<close>

abbreviation mutex_owner :: "nat \<Rightarrow> rts_kernel_state \<Rightarrow> task_ref option" where
  "mutex_owner m s \<equiv> nd_owner (node_at (omem s) m)"

fun sync_owner :: "sync_ref option \<Rightarrow> rts_kernel_state \<Rightarrow> task_ref option" where
  "sync_owner (Some (Mutex m)) s = mutex_owner m s"
| "sync_owner _ s = None"

definition rts_priority_waiters_for :: "task_ref \<Rightarrow> rts_kernel_state \<Rightarrow> wait_ref option" where
  "rts_priority_waiters_for t s =
     (if wait_reason (tcbs s t) = RTS_WAIT_MUTEX then mutex_waiters_of (wait_object (tcbs s t))
      else if wait_reason (tcbs s t) = RTS_WAIT_SEMAPHORE then sem_waiters_of (wait_object (tcbs s t))
      else None)"

definition rts_priority_set_effective ::
  "rts_config \<Rightarrow> task_ref option \<Rightarrow> rts_priority \<Rightarrow> rts_kernel_state \<Rightarrow> rts_fatal + (bool \<times> rts_kernel_state)" where
  "rts_priority_set_effective cfg tp effective_priority s =
     (if tp = None \<or> effective_priority < base_priority (tcbs s (the tp)) \<or>
         effective_priority = RTS_IDLE_PRIORITY \<or> unat effective_priority \<ge> RTS_PRIORITY_COUNT cfg
      then Inr (False, s)
      else let t = the tp in
        if priority (tcbs s t) = effective_priority then Inr (True, s)
        else
          let previous = priority (tcbs s t) in
          bnd (rts_policy_priority_changed cfg tp effective_priority s) (\<lambda>(ok, s).
          if \<not> ok then Inr (False, s)
          else
            let s = (if effective_priority > previous then diag_inc cfg priority_raises s
                     else diag_inc cfg priority_restorations s);
                s = RTS_TRACE cfg RTS_TRACE_PRIORITY (ucast previous) (ucast effective_priority) s;
                waiters = rts_priority_waiters_for t s in
            if waiters \<noteq> None
            then fatal_unless (rts_wait_object_contains waiters tp s) (
              bnd (rts_wait_object_reprioritize cfg waiters tp s) (\<lambda>s. Inr (True, s)))
            else Inr (True, s)))"

text \<open>The walk over the owned mutexes; the fuel is the code's bound \<open>RTS_MAX_MUTEXES_PER_TASK\<close>.\<close>

fun required_loop ::
  "nat \<Rightarrow> task_ref \<Rightarrow> nat option \<Rightarrow> rts_priority \<Rightarrow> rts_kernel_state \<Rightarrow> rts_fatal + rts_priority" where
  "required_loop left t None required s = Inr required"
| "required_loop 0 t (Some m) required s = fatal_unless False (Inr required)"
| "required_loop (Suc left) t (Some m) required s =
     (if mutex_owner m s \<noteq> Some t then fatal_unless False (Inr required)
      else
        let head = ls_head (list_at (wmem s) (Mutex_Waiters m));
            required = (if head \<noteq> None \<and> priority (tcbs s (the head)) > required
                        then priority (tcbs s (the head)) else required) in
        required_loop left t (nd_next (node_at (omem s) m)) required s)"

definition rts_priority_required_by_owned ::
  "rts_config \<Rightarrow> task_ref \<Rightarrow> rts_kernel_state \<Rightarrow> rts_fatal + rts_priority" where
  "rts_priority_required_by_owned cfg t s =
     required_loop (RTS_MAX_MUTEXES_PER_TASK cfg) t (ls_head (list_at (omem s) t)) (base_priority (tcbs s t)) s"

text \<open>The walk along the owner chain; the fuel is the code's bound on the depth.\<close>

fun recompute_loop ::
  "rts_config \<Rightarrow> nat \<Rightarrow> task_ref list \<Rightarrow> task_ref option \<Rightarrow> rts_kernel_state \<Rightarrow>
   rts_fatal + (bool \<times> rts_kernel_state)" where
  "recompute_loop cfg left visited None s = Inr (True, s)"
| "recompute_loop cfg 0 visited (Some t) s = fatal_unless False (Inr (False, s))"
| "recompute_loop cfg (Suc left) visited (Some t) s =
     (if t \<in> set visited then fatal_unless False (Inr (False, s))
      else bnd (rts_priority_required_by_owned cfg t s) (\<lambda>required.
        bnd (rts_priority_set_effective cfg (Some t) required s) (\<lambda>(ok, s).
        if \<not> ok then Inr (False, s)
        else if task_state (tcbs s t) \<noteq> RTS_TASK_STATE_BLOCKED \<or> wait_reason (tcbs s t) \<noteq> RTS_WAIT_MUTEX
        then Inr (True, s)
        else recompute_loop cfg left (visited @ [t]) (sync_owner (wait_object (tcbs s t)) s) s)))"

definition rts_priority_recompute_chain ::
  "rts_config \<Rightarrow> task_ref option \<Rightarrow> rts_kernel_state \<Rightarrow> rts_fatal + (bool \<times> rts_kernel_state)" where
  "rts_priority_recompute_chain cfg tp s =
     recompute_loop cfg (RTS_SCHEDULABLE_TASK_CAPACITY cfg) [] tp s"

end
