(* ===== verification/Mutex.thy ===== *)
theory Mutex
  imports Semaphore Priority_Inheritance
begin

text \<open>
  Mutexes with priority inheritance and direct hand-off (\<^verbatim>\<open>mutex.c\<close>). A mutex is an index; its
  owner and its place among the mutexes of the owner are the node \<open>m\<close> of \<open>omem\<close>, its waiters the
  wait object \<open>Mutex_Waiters m\<close>. As for semaphores, the blocking \<open>rts_mutex_lock\<close> is split at the
  reschedule request.
\<close>

definition rts_mutex_is_valid :: "rts_config \<Rightarrow> nat option \<Rightarrow> rts_kernel_state \<Rightarrow> bool" where
  "rts_mutex_is_valid cfg mp s =
     (case mp of
        None \<Rightarrow> False
      | Some m \<Rightarrow>
          let node = node_at (omem s) m in
          if mx_identity (mutexes s m) \<noteq> Some m \<or> mx_signature (mutexes s m) \<noteq> RTS_MUTEX_SIGNATURE \<or>
             \<not> rts_wait_object_validate cfg (Some (Mutex_Waiters m)) s
          then False
          else case nd_owner node of
                 None \<Rightarrow> nd_previous node = None \<and> nd_next node = None \<and>
                   ls_count (list_at (wmem s) (Mutex_Waiters m)) = 0
               | Some t \<Rightarrow> ls_head (list_at (omem s) t) = Some m \<or> nd_previous node \<noteq> None)"

definition upd_mutex :: "nat \<Rightarrow> (rts_mutex \<Rightarrow> rts_mutex) \<Rightarrow> rts_kernel_state \<Rightarrow> rts_kernel_state" where
  "upd_mutex m f s = s\<lparr>mutexes := (mutexes s)(m := f (mutexes s m))\<rparr>"

definition upd_omem :: "((nat, task_ref, unit) list_mem \<Rightarrow> (nat, task_ref, unit) list_mem) \<Rightarrow>
    rts_kernel_state \<Rightarrow> rts_kernel_state" where
  "upd_omem f s = s\<lparr>omem := f (omem s)\<rparr>"

definition rts_mutex_init ::
  "rts_config \<Rightarrow> nat option \<Rightarrow> rts_kernel_state \<Rightarrow> rts_fatal + (rts_status \<times> rts_kernel_state)" where
  "rts_mutex_init cfg mp s =
     (if mp = None then Inr (RTS_STATUS_INVALID_ARGUMENT, s)
      else if in_isr s then Inr (RTS_STATUS_INVALID_CONTEXT, s)
      else if rts_mutex_is_valid cfg mp s then Inr (RTS_STATUS_ALREADY_INITIALIZED, s)
      else let m = the mp; s = upd_omem (write_node m (\<lambda>x. x\<lparr>nd_owner := None\<rparr>)) s in
        bnd (rts_wait_object_initialize cfg (Some (Mutex_Waiters m)) s) (\<lambda>s.
        let s = upd_omem (write_node m (\<lambda>x. x\<lparr>nd_previous := None, nd_next := None\<rparr>)) s;
            s = upd_mutex m (\<lambda>x. x\<lparr>mx_identity := Some m, mx_signature := RTS_MUTEX_SIGNATURE\<rparr>) s in
        fatal_unless (rts_mutex_is_valid cfg mp s) (Inr (RTS_STATUS_OK, s))))"

definition rts_mutex_owner_link ::
  "rts_config \<Rightarrow> nat \<Rightarrow> task_ref \<Rightarrow> rts_kernel_state \<Rightarrow> rts_fatal + rts_kernel_state" where
  "rts_mutex_owner_link cfg m t s =
     fatal_unless (nd_owner (node_at (omem s) m) = None) (
     fatal_unless (nd_previous (node_at (omem s) m) = None \<and> nd_next (node_at (omem s) m) = None) (
     fatal_unless (ls_count (list_at (omem s) t) < RTS_MAX_MUTEXES_PER_TASK cfg) (
     let tail = ls_tail (list_at (omem s) t);
         om = write_node m (\<lambda>x. x\<lparr>nd_owner := Some t, nd_previous := tail, nd_next := None\<rparr>) (omem s);
         om = (case tail of
                 None \<Rightarrow> write_list t (\<lambda>x. x\<lparr>ls_head := Some m\<rparr>) om
               | Some k \<Rightarrow> write_node k (\<lambda>x. x\<lparr>nd_next := Some m\<rparr>) om) in
     Inr (s\<lparr>omem := write_list t (\<lambda>x. x\<lparr>ls_tail := Some m, ls_count := ls_count x + 1\<rparr>) om\<rparr>))))"

definition rts_mutex_owner_unlink ::
  "rts_config \<Rightarrow> nat \<Rightarrow> rts_kernel_state \<Rightarrow> rts_fatal + rts_kernel_state" where
  "rts_mutex_owner_unlink cfg m s =
     (let owner = nd_owner (node_at (omem s) m); om = omem s in
      fatal_unless (owner \<noteq> None) (
      let t = the owner; previous = nd_previous (node_at om m); nxt = nd_next (node_at om m) in
      bnd (case previous of
             None \<Rightarrow> fatal_unless (ls_head (list_at om t) = Some m)
               (Inr (write_list t (\<lambda>x. x\<lparr>ls_head := nxt\<rparr>) om))
           | Some p \<Rightarrow> Inr (write_node p (\<lambda>x. x\<lparr>nd_next := nxt\<rparr>) om)) (\<lambda>om.
      bnd (case nxt of
             None \<Rightarrow> fatal_unless (ls_tail (list_at om t) = Some m)
               (Inr (write_list t (\<lambda>x. x\<lparr>ls_tail := previous\<rparr>) om))
           | Some n \<Rightarrow> Inr (write_node n (\<lambda>x. x\<lparr>nd_previous := previous\<rparr>) om)) (\<lambda>om.
      let om = write_node m (\<lambda>x. x\<lparr>nd_owner := None, nd_previous := None, nd_next := None\<rparr>) om in
      fatal_unless (ls_count (list_at om t) > 0) (
      Inr (s\<lparr>omem := write_list t (\<lambda>x. x\<lparr>ls_count := ls_count x - 1\<rparr>) om\<rparr>))))))"

definition rts_mutex_current_can_block :: "rts_config \<Rightarrow> rts_kernel_state \<Rightarrow> rts_fatal + bool" where
  "rts_mutex_current_can_block cfg s = current_can_block cfg s"

text \<open>The walk of the deadlock check; the fuel is the code's bound on the depth.\<close>

fun would_cycle_loop ::
  "nat \<Rightarrow> task_ref option \<Rightarrow> task_ref option \<Rightarrow> rts_kernel_state \<Rightarrow> rts_fatal + bool" where
  "would_cycle_loop left current None s = Inr False"
| "would_cycle_loop 0 current (Some t) s = fatal_unless False (Inr True)"
| "would_cycle_loop (Suc left) current (Some t) s =
     (if Some t = current then Inr True
      else if task_state (tcbs s t) \<noteq> RTS_TASK_STATE_BLOCKED \<or> wait_reason (tcbs s t) \<noteq> RTS_WAIT_MUTEX
      then Inr False
      else would_cycle_loop left current (sync_owner (wait_object (tcbs s t)) s) s)"

definition rts_mutex_would_cycle ::
  "rts_config \<Rightarrow> task_ref option \<Rightarrow> nat \<Rightarrow> rts_kernel_state \<Rightarrow> rts_fatal + bool" where
  "rts_mutex_would_cycle cfg current m s =
     would_cycle_loop (RTS_SCHEDULABLE_TASK_CAPACITY cfg) current (mutex_owner m s) s"

definition rts_mutex_plan_final ::
  "rts_config \<Rightarrow> rts_kernel_state \<Rightarrow> rts_fatal + (bool \<times> rts_kernel_state)" where
  "rts_mutex_plan_final cfg s =
     bnd (rts_scheduler_select_highest_ready cfg s) (\<lambda>selected.
     let current = rts_scheduler_current_get s in
     fatal_unless (selected \<noteq> None \<and> current \<noteq> None) (
     if selected = current
     then bnd (rts_scheduler_prepare_switch cfg current s) (\<lambda>(_, s). Inr (False, s))
     else if task_state (tcbs s (the current)) = RTS_TASK_STATE_BLOCKED \<or> selected \<noteq> current
     then rts_scheduler_prepare_switch cfg selected s
     else Inr (False, s)))"

definition rts_mutex_wait_result_consume ::
  "task_ref option \<Rightarrow> rts_kernel_state \<Rightarrow> rts_status \<times> rts_kernel_state" where
  "rts_mutex_wait_result_consume tp s =
     (case tp of
        None \<Rightarrow> (RTS_STATUS_INVALID_ARGUMENT, s)
      | Some t \<Rightarrow>
          if wait_result (tcbs s t) = RTS_WAIT_RESULT_ACQUIRED
          then (RTS_STATUS_OK, upd_tcb t (\<lambda>x. x\<lparr>wait_result := RTS_WAIT_RESULT_NONE\<rparr>) s)
          else if wait_result (tcbs s t) = RTS_WAIT_RESULT_TIMEOUT
          then (RTS_STATUS_TIMEOUT, upd_tcb t (\<lambda>x. x\<lparr>wait_result := RTS_WAIT_RESULT_NONE\<rparr>) s)
          else (RTS_STATUS_INVALID_STATE, s))"

text \<open>
  The blocking part of a lock, behind the guards: \<open>Inr t\<close> where task \<open>t\<close> is blocked in the call.
\<close>

definition mutex_lock_block ::
  "rts_config \<Rightarrow> nat \<Rightarrow> rts_tick \<Rightarrow> rts_kernel_state \<Rightarrow> rts_fatal + ((rts_status + task_ref) \<times> rts_kernel_state)" where
  "mutex_lock_block cfg m timeout s =
     (let current = rts_scheduler_current_get s; t = the current in
      bnd (rts_policy_task_block cfg current s) (\<lambda>(ok, s).
      fatal_unless ok (
      let timed = (timeout \<noteq> RTS_WAIT_FOREVER);
          s = upd_tcb t (\<lambda>x. x\<lparr>wait_reason := RTS_WAIT_MUTEX, wait_result := RTS_WAIT_RESULT_NONE,
                wait_object := Some (Mutex m), timeout_active := timed,
                wake_tick := (if timed then current_tick s + timeout else 0),
                slice_remaining := RTS_TIME_SLICE_TICKS cfg, task_state := RTS_TASK_STATE_BLOCKED\<rparr>) s;
          s = diag_inc cfg mutex_blocks s;
          s = task_diag_block cfg t s;
          s = RTS_TRACE cfg RTS_TRACE_MUTEX (wait_reason_code RTS_WAIT_MUTEX) (ucast (priority (tcbs s t))) s in
      bnd (rts_wait_object_insert cfg (Some (Mutex_Waiters m)) current s) (\<lambda>s.
      bnd (if timeout_active (tcbs s t) then rts_delay_insert cfg current s else Inr s) (\<lambda>s.
      bnd (rts_priority_recompute_chain cfg (mutex_owner m s) s) (\<lambda>(ok, s).
      fatal_unless ok (
      bnd (rts_scheduler_task_is_blocked_wait cfg current s) (\<lambda>b.
      fatal_unless b (
      bnd (rts_scheduler_select_highest_ready cfg s) (\<lambda>selected.
      fatal_unless (selected \<noteq> None \<and> selected \<noteq> current) (
      bnd (rts_scheduler_prepare_switch cfg selected s) (\<lambda>(notify, s).
      Inr (Inr t, if notify then rts_port_request_reschedule s else s)))))))))))))"

definition rts_mutex_lock_begin ::
  "rts_config \<Rightarrow> nat option \<Rightarrow> rts_tick \<Rightarrow> rts_kernel_state \<Rightarrow>
   rts_fatal + ((rts_status + task_ref) \<times> rts_kernel_state)" where
  "rts_mutex_lock_begin cfg mp timeout s =
     (if mp = None \<or> (timeout > RTS_DELAY_MAX \<and> timeout \<noteq> RTS_WAIT_FOREVER)
      then Inr (Inl RTS_STATUS_INVALID_ARGUMENT, s)
      else if in_isr s then Inr (Inl RTS_STATUS_INVALID_CONTEXT, s)
      else if lifecycle s \<noteq> RTS_KERNEL_RUNNING then Inr (Inl RTS_STATUS_INVALID_STATE, s)
      else if \<not> rts_mutex_is_valid cfg mp s then Inr (Inl RTS_STATUS_INVALID_ARGUMENT, s)
      else let m = the mp; current = rts_scheduler_current_get s; t = the current in
        if mutex_owner m s = None
        then fatal_unless (ls_count (list_at (wmem s) (Mutex_Waiters m)) = 0) (
          if ls_count (list_at (omem s) t) \<ge> RTS_MAX_MUTEXES_PER_TASK cfg
          then Inr (Inl RTS_STATUS_CAPACITY_EXHAUSTED, s)
          else bnd (rts_mutex_owner_link cfg m t s) (\<lambda>s. Inr (Inl RTS_STATUS_OK, s)))
        else if mutex_owner m s = current then Inr (Inl RTS_STATUS_INVALID_STATE, s)
        else if timeout = 0 then Inr (Inl RTS_STATUS_TIMEOUT, s)
        else if rts_scheduler_task_is_timer_service current s then Inr (Inl RTS_STATUS_INVALID_CONTEXT, s)
        else if ls_count (list_at (omem s) t) \<ge> RTS_MAX_MUTEXES_PER_TASK cfg
        then Inr (Inl RTS_STATUS_CAPACITY_EXHAUSTED, s)
        else bnd (rts_mutex_would_cycle cfg current m s) (\<lambda>cycle.
          if cycle then
            bnd (rts_mutex_would_cycle cfg current m s) (\<lambda>cycle.
            rts_assert cfg (\<not> cycle) (Inr (Inl RTS_STATUS_INVALID_STATE, s)))
          else bnd (rts_mutex_current_can_block cfg s) (\<lambda>can_block.
            if \<not> can_block then Inr (Inl RTS_STATUS_INVALID_STATE, s)
            else mutex_lock_block cfg m timeout s)))"

definition rts_mutex_lock_resume :: "task_ref \<Rightarrow> rts_kernel_state \<Rightarrow> rts_status \<times> rts_kernel_state" where
  "rts_mutex_lock_resume t s =
     (if wait_result (tcbs s t) \<noteq> RTS_WAIT_RESULT_NONE then rts_mutex_wait_result_consume (Some t) s
      else (RTS_STATUS_OK, s))"

definition rts_mutex_lock ::
  "rts_config \<Rightarrow> nat option \<Rightarrow> rts_tick \<Rightarrow> rts_kernel_state \<Rightarrow> rts_fatal + (rts_status \<times> rts_kernel_state)" where
  "rts_mutex_lock cfg mp timeout s =
     bnd (rts_mutex_lock_begin cfg mp timeout s) (\<lambda>(r, s).
     case r of Inl status \<Rightarrow> Inr (status, s) | Inr t \<Rightarrow> Inr (rts_mutex_lock_resume t s))"

definition rts_mutex_handoff ::
  "rts_config \<Rightarrow> nat \<Rightarrow> rts_kernel_state \<Rightarrow> rts_fatal + (task_ref \<times> rts_kernel_state)" where
  "rts_mutex_handoff cfg m s =
     (let head = ls_head (list_at (wmem s) (Mutex_Waiters m)) in
      fatal_unless (head \<noteq> None) (
      let waiter = the head in
      bnd (rts_wait_object_remove cfg (Some (Mutex_Waiters m)) head s) (\<lambda>s.
      bnd (if timeout_active (tcbs s waiter) then rts_delay_remove cfg head s else Inr s) (\<lambda>s.
      bnd (rts_mutex_owner_unlink cfg m s) (\<lambda>s.
      bnd (rts_mutex_owner_link cfg m waiter s) (\<lambda>s.
      let s = upd_tcb waiter (\<lambda>x. x\<lparr>wait_reason := RTS_WAIT_NONE, wait_result := RTS_WAIT_RESULT_ACQUIRED,
            wake_tick := 0, wait_object := None, timeout_active := False,
            slice_remaining := RTS_TIME_SLICE_TICKS cfg,
            task_state := (if head = rts_scheduler_current_get s then RTS_TASK_STATE_RUNNING
                           else RTS_TASK_STATE_READY)\<rparr>) s in
      bnd (rts_policy_task_unblock cfg head s) (\<lambda>(ok, s).
      fatal_unless ok (
      Inr (waiter, task_diag_wake cfg waiter (diag_inc cfg mutex_handoffs s))))))))))"

definition rts_mutex_unlock ::
  "rts_config \<Rightarrow> nat option \<Rightarrow> rts_kernel_state \<Rightarrow> rts_fatal + (rts_status \<times> rts_kernel_state)" where
  "rts_mutex_unlock cfg mp s =
     (if mp = None then Inr (RTS_STATUS_INVALID_ARGUMENT, s)
      else if in_isr s then Inr (RTS_STATUS_INVALID_CONTEXT, s)
      else if lifecycle s \<noteq> RTS_KERNEL_RUNNING then Inr (RTS_STATUS_INVALID_STATE, s)
      else if \<not> rts_mutex_is_valid cfg mp s then Inr (RTS_STATUS_INVALID_ARGUMENT, s)
      else let m = the mp in
        if mutex_owner m s \<noteq> rts_scheduler_current_get s then Inr (RTS_STATUS_INVALID_STATE, s)
        else
          let former_owner = mutex_owner m s in
          bnd (if ls_head (list_at (wmem s) (Mutex_Waiters m)) = None then rts_mutex_owner_unlink cfg m s
               else bnd (rts_mutex_handoff cfg m s) (\<lambda>(_, s). Inr s)) (\<lambda>s.
          bnd (rts_priority_recompute_chain cfg former_owner s) (\<lambda>(ok, s).
          fatal_unless ok (
          bnd (if mutex_owner m s \<noteq> None
               then bnd (rts_priority_recompute_chain cfg (mutex_owner m s) s) (\<lambda>(ok, s). fatal_unless ok (Inr s))
               else Inr s) (\<lambda>s.
          bnd (rts_mutex_plan_final cfg s) (\<lambda>(notify, s).
          Inr (RTS_STATUS_OK, if notify then rts_port_request_reschedule s else s)))))))"

definition rts_mutex_timeout_task ::
  "rts_config \<Rightarrow> task_ref option \<Rightarrow> rts_kernel_state \<Rightarrow> rts_fatal + (bool \<times> rts_kernel_state)" where
  "rts_mutex_timeout_task cfg tp s =
     (if tp = None \<or> wait_reason (tcbs s (the tp)) \<noteq> RTS_WAIT_MUTEX \<or> \<not> timeout_active (tcbs s (the tp))
      then Inr (False, s)
      else bnd (rts_scheduler_task_is_blocked_wait cfg tp s) (\<lambda>blocked.
        if \<not> blocked then Inr (False, s)
        else
          let t = the tp; object = wait_object (tcbs s t); owner = sync_owner object s;
              still_executing = (tp = rts_scheduler_current_get s) in
          bnd (rts_wait_object_remove cfg (mutex_waiters_of object) tp s) (\<lambda>s.
          bnd (rts_delay_remove cfg tp s) (\<lambda>s.
          let s = upd_tcb t (\<lambda>x. x\<lparr>wait_reason := RTS_WAIT_NONE, wait_result := RTS_WAIT_RESULT_TIMEOUT,
                wake_tick := 0, wait_object := None, timeout_active := False,
                slice_remaining := RTS_TIME_SLICE_TICKS cfg,
                task_state := (if still_executing then RTS_TASK_STATE_RUNNING else RTS_TASK_STATE_READY)\<rparr>) s in
          bnd (rts_policy_task_unblock cfg tp s) (\<lambda>(ok, s).
          fatal_unless ok (
          let s = task_diag_wake cfg t (diag_inc cfg mutex_timeouts s) in
          bnd (rts_priority_recompute_chain cfg owner s) (\<lambda>(ok, s).
          fatal_unless ok (Inr (True, s)))))))))"

end
