(* ===== verification/Kernel_Time.thy ===== *)
theory Kernel_Time
  imports Mutex Timer_Manager
begin

text \<open>
  Kernel time (\<^verbatim>\<open>time.c\<close>): advancing the tick, waking the tasks whose deadline has passed,
  expiring timers, time slices, and the resulting reschedule decision.
\<close>

definition rts_kernel_tick_now :: "rts_kernel_state \<Rightarrow> rts_tick" where
  "rts_kernel_tick_now s = current_tick s"

definition rts_tick_expired_task_is_valid ::
  "rts_config \<Rightarrow> task_ref option \<Rightarrow> rts_kernel_state \<Rightarrow> rts_fatal + bool" where
  "rts_tick_expired_task_is_valid cfg tp s =
     and_then (tp \<noteq> None \<and> tp \<noteq> idle_task s)
       (bnd (rts_scheduler_task_is_blocked_delay cfg tp s) (\<lambda>d.
        if d then Inr True
        else bnd (rts_scheduler_task_is_blocked_wait cfg tp s) (\<lambda>w.
          Inr (w \<and> timeout_active (tcbs s (the tp))))))"

definition rts_tick_wake_task ::
  "rts_config \<Rightarrow> task_ref option \<Rightarrow> rts_kernel_state \<Rightarrow> rts_fatal + (bool \<times> rts_kernel_state)" where
  "rts_tick_wake_task cfg tp s =
     bnd (rts_tick_expired_task_is_valid cfg tp s) (\<lambda>valid.
     let still_executing = (tp = rts_scheduler_current_get s); t = the tp in
     fatal_unless valid (
     if wait_reason (tcbs s t) = RTS_WAIT_SEMAPHORE then rts_semaphore_timeout_task cfg tp s
     else if wait_reason (tcbs s t) = RTS_WAIT_MUTEX then rts_mutex_timeout_task cfg tp s
     else
       bnd (rts_delay_remove cfg tp s) (\<lambda>s.
       fatal_unless (delay_owner t s = None) (
       let s = upd_tcb t (\<lambda>x. x\<lparr>wait_reason := RTS_WAIT_NONE, wait_result := RTS_WAIT_RESULT_NONE,
             wake_tick := 0, wait_object := None, timeout_active := False,
             slice_remaining := RTS_TIME_SLICE_TICKS cfg,
             task_state := (if still_executing then RTS_TASK_STATE_RUNNING else RTS_TASK_STATE_READY)\<rparr>) s in
       bnd (rts_policy_task_unblock cfg tp s) (\<lambda>(ok, s).
       fatal_unless ok (
       let s = task_diag_wake cfg t (diag_inc cfg delay_wakeups s);
           s = RTS_TRACE cfg RTS_TRACE_TASK_WOKE (wait_reason_code RTS_WAIT_DELAY)
                 (ucast (priority (tcbs s t))) s in
       bnd (rts_scheduler_task_is_runnable cfg tp s) (\<lambda>r.
       fatal_unless r (Inr (r, s)))))))))"

text \<open>
  The wake-up loop; its state is \<open>woke_task\<close> and \<open>current_woke\<close>. Every iteration removes a task from
  the delay queue, so one unit of fuel per task and one more are enough. The first component of
  the result is false where the function returns inside the loop.
\<close>

fun wake_loop ::
  "rts_config \<Rightarrow> nat \<Rightarrow> bool \<Rightarrow> bool \<Rightarrow> rts_kernel_state \<Rightarrow> rts_fatal + (bool \<times> bool \<times> bool \<times> rts_kernel_state)" where
  "wake_loop cfg 0 woke_task current_woke s = Inl RTS_NO_RETURN"
| "wake_loop cfg (Suc fuel) woke_task current_woke s =
     bnd (rts_delay_peek_expired cfg (current_tick s) s) (\<lambda>expired.
     if expired = None then Inr (True, woke_task, current_woke, s)
     else
       let current_woke = (current_woke \<or> expired = rts_scheduler_current_get s) in
       bnd (rts_tick_wake_task cfg expired s) (\<lambda>(ok, s).
       if \<not> ok then Inr (False, woke_task, current_woke, s)
       else wake_loop cfg fuel True current_woke s))"

text \<open>The reschedule decision at the end of a tick.\<close>

definition time_reschedule ::
  "rts_config \<Rightarrow> rts_kernel_state \<Rightarrow> rts_fatal + (bool \<times> rts_kernel_state)" where
  "time_reschedule cfg s =
     (let current = rts_scheduler_current_get s in
      fatal_unless (current \<noteq> None) (
      bnd (rts_scheduler_select_highest_ready cfg s) (\<lambda>selected.
      fatal_unless (selected \<noteq> None) (
      if selected = current
      then bnd (rts_scheduler_prepare_switch cfg current s) (\<lambda>(_, s). Inr (False, s))
      else if task_state (tcbs s (the current)) = RTS_TASK_STATE_BLOCKED
      then
        bnd (rts_scheduler_task_is_blocked_delay cfg current s) (\<lambda>d.
        bnd (if d then Inr True else rts_scheduler_task_is_blocked_wait cfg current s) (\<lambda>b.
        fatal_unless b (rts_scheduler_prepare_switch cfg selected s)))
      else
        fatal_unless (task_state (tcbs s (the current)) = RTS_TASK_STATE_RUNNING) (
        bnd (rts_scheduler_current_is_valid cfg s) (\<lambda>v.
        fatal_unless v (rts_scheduler_prepare_switch cfg selected s)))))))"

definition rts_kernel_time_advance_common ::
  "rts_config \<Rightarrow> rts_tick \<Rightarrow> rts_kernel_state \<Rightarrow> rts_fatal + (bool \<times> rts_kernel_state)" where
  "rts_kernel_time_advance_common cfg elapsed_ticks s =
     (let s = s\<lparr>current_tick := current_tick s + elapsed_ticks\<rparr>;
          s = diag_add cfg scheduler_ticks elapsed_ticks s;
          s = RTS_TRACE cfg RTS_TRACE_TICK elapsed_ticks (current_tick s) s in
      bnd (wake_loop cfg (RTS_SCHEDULABLE_TASK_CAPACITY cfg + 1) False False s) (\<lambda>(ok, woke_task, current_woke, s).
      if \<not> ok then Inr (False, s)
      else
        bnd (rts_timer_manager_process_expired cfg (current_tick s) s) (\<lambda>(service_woken, s).
        let woke_task = (woke_task \<or> service_woken) in
        bnd (if current_woke then Inr (False, s) else rts_policy_tick cfg elapsed_ticks s) (\<lambda>(slice_rotated, s).
        if \<not> woke_task \<and> \<not> slice_rotated then Inr (False, s)
        else time_reschedule cfg s))))"

definition rts_kernel_tick_advance ::
  "rts_config \<Rightarrow> rts_tick \<Rightarrow> rts_kernel_state \<Rightarrow> rts_fatal + (bool \<times> rts_kernel_state)" where
  "rts_kernel_tick_advance cfg elapsed_ticks s =
     (let valid = (lifecycle s = RTS_KERNEL_RUNNING \<and> in_isr s \<and> elapsed_ticks \<noteq> 0 \<and>
            elapsed_ticks \<le> RTS_TICK_MAX_ADVANCE) in
      rts_assert cfg valid (if valid then rts_kernel_time_advance_common cfg elapsed_ticks s else Inr (False, s)))"

definition rts_kernel_time_skip ::
  "rts_config \<Rightarrow> rts_tick \<Rightarrow> rts_kernel_state \<Rightarrow> rts_fatal + (bool \<times> rts_kernel_state)" where
  "rts_kernel_time_skip cfg elapsed_ticks s =
     (let valid = (lifecycle s = RTS_KERNEL_RUNNING \<and> \<not> in_isr s \<and> elapsed_ticks \<noteq> 0 \<and>
            elapsed_ticks \<le> RTS_TICK_MAX_ADVANCE) in
      rts_assert cfg valid (if valid then rts_kernel_time_advance_common cfg elapsed_ticks s else Inr (False, s)))"

end
