(* ===== verification/Timer_Service.thy ===== *)
theory Timer_Service
  imports Timer_Manager
begin

text \<open>
  The timer service task (\<^verbatim>\<open>timer_service.c\<close>). The application's callback is a parameter
  \<open>callback\<close>: what calling the function at an address with an argument does to the kernel state.
\<close>

type_synonym timer_callback = "uintptr \<Rightarrow> uintptr \<Rightarrow> rts_kernel_state \<Rightarrow> rts_fatal + rts_kernel_state"

text \<open>The bookkeeping behind the callback.\<close>

definition service_callback_end ::
  "rts_config \<Rightarrow> rts_timer_callback_work \<Rightarrow> rts_kernel_state \<Rightarrow> rts_fatal + (bool \<times> rts_kernel_state)" where
  "service_callback_end cfg work s =
     (let i = the (wk_timer work) in
      fatal_unless (tm_callback_state (timers s i) = RTS_TIMER_CALLBACK_RUNNING) (
      let s = upd_timer i (\<lambda>x. x\<lparr>tm_callback_state := RTS_TIMER_CALLBACK_IDLE\<rparr>) s;
          s = (if RTS_ENABLE_RUNTIME_STATS cfg
               then diag_inc cfg timer_callbacks_executed (upd_timer i (\<lambda>x. x\<lparr>tm_diagnostic_callback_count :=
                      rts_diagnostic_counter_increment (tm_diagnostic_callback_count x)\<rparr>) s)
               else s);
          s = RTS_TRACE cfg RTS_TRACE_TIMER_CALLBACK_END (of_nat (tm_slot_index (timers s i)))
                (wk_sequence work) s in
      fatal_unless (rts_timer_manager_validate cfg s) (Inr (True, s))))"

definition rts_timer_service_process_one ::
  "rts_config \<Rightarrow> timer_callback \<Rightarrow> rts_kernel_state \<Rightarrow> rts_fatal + (bool \<times> rts_kernel_state)" where
  "rts_timer_service_process_one cfg callback s =
     (let valid_context = (\<not> in_isr s \<and> lifecycle s = RTS_KERNEL_RUNNING \<and>
            rts_scheduler_current_get s = timer_service_task s \<and> timer_service_task s \<noteq> None \<and>
            task_state (tcbs s (the (timer_service_task s))) = RTS_TASK_STATE_RUNNING) in
      rts_assert cfg valid_context (
      if \<not> valid_context then Inr (False, s)
      else
        let (r, q) = rts_timer_callback_queue_dequeue cfg (callback_queue s) in
        case r of
          None \<Rightarrow> Inr (False, s\<lparr>callback_queue := q\<rparr>)
        | Some work \<Rightarrow>
            let s = s\<lparr>callback_queue := q\<rparr>; i = the (wk_timer work);
                valid = rts_timer_handle_is_valid cfg (wk_timer work) s in
            if \<not> valid \<or> tm_generation (timers s i) \<noteq> wk_generation work \<or>
               tm_callback_state (timers s i) \<noteq> RTS_TIMER_CALLBACK_PENDING
            then
              let s = (if valid \<and> tm_callback_state (timers s i) = RTS_TIMER_CALLBACK_PENDING
                       then upd_timer i (\<lambda>x. let x = x\<lparr>tm_callback_state := RTS_TIMER_CALLBACK_IDLE\<rparr> in
                         if RTS_ENABLE_RUNTIME_STATS cfg
                         then x\<lparr>tm_diagnostic_stale_count := rts_diagnostic_counter_increment (tm_diagnostic_stale_count x)\<rparr>
                         else x) s
                       else s);
                  s = diag_inc cfg timer_stale_callbacks s;
                  s = RTS_TRACE cfg RTS_TRACE_TIMER_STALE_CALLBACK (wk_generation work) (wk_sequence work) s in
              Inr (True, s)
            else
              let s = upd_timer i (\<lambda>x. x\<lparr>tm_callback_state := RTS_TIMER_CALLBACK_RUNNING\<rparr>) s;
                  function = tm_callback (timers s i); arg = tm_argument (timers s i) in
              fatal_unless (function \<noteq> 0) (
              let s = RTS_TRACE cfg RTS_TRACE_TIMER_CALLBACK_BEGIN (of_nat (tm_slot_index (timers s i)))
                    (wk_sequence work) s in
              bnd (callback function arg s) (service_callback_end cfg work))))"

text \<open>
  \<open>while (rts_timer_service_process_one()) ++processed;\<close> ends only if the callbacks let the
  queue run empty, so it is a partial function: \<open>None\<close> where it never returns.
\<close>

partial_function (option) service_drain_loop ::
  "rts_config \<Rightarrow> timer_callback \<Rightarrow> nat \<Rightarrow> rts_kernel_state \<Rightarrow> (rts_fatal + (nat \<times> rts_kernel_state)) option" where
  "service_drain_loop cfg callback processed s =
     (case rts_timer_service_process_one cfg callback s of
        Inl e \<Rightarrow> Some (Inl e)
      | Inr (handled, s) \<Rightarrow>
          if handled then service_drain_loop cfg callback (processed + 1) s
          else Some (Inr (processed, s)))"

declare service_drain_loop.simps [code]

definition rts_timer_service_drain ::
  "rts_config \<Rightarrow> timer_callback \<Rightarrow> rts_kernel_state \<Rightarrow> (rts_fatal + (nat \<times> rts_kernel_state)) option" where
  "rts_timer_service_drain cfg callback s = service_drain_loop cfg callback 0 s"

text \<open>One round of the endless loop of the service task.\<close>

definition rts_timer_service_entry ::
  "rts_config \<Rightarrow> timer_callback \<Rightarrow> rts_kernel_state \<Rightarrow> (rts_fatal + rts_kernel_state) option" where
  "rts_timer_service_entry cfg callback s =
     (case rts_timer_service_drain cfg callback s of
        None \<Rightarrow> None
      | Some r \<Rightarrow> Some (bnd r (\<lambda>(_, s).
          if cq_count (callback_queue s) \<noteq> 0 then Inr s
          else bnd (rts_scheduler_timer_service_block cfg s) (\<lambda>(notify, s).
            fatal_unless (task_state (tcbs s (the (timer_service_task s))) = RTS_TASK_STATE_BLOCKED) (
            Inr (if notify then rts_port_request_reschedule s else s))))))"

end
