(* ===== verification/Power_Manager.thy ===== *)
theory Power_Manager
  imports Kernel_Time Port_Interface
begin

text \<open>
  Tickless idle (\<^verbatim>\<open>power.c\<close>): whether the idle task may sleep, for how long, and what happens when
  the port wakes up again. The application hooks are the empty default ones of the source.
\<close>

definition RTS_POWER_DEADLINE_MAINTENANCE :: "8 word" where "RTS_POWER_DEADLINE_MAINTENANCE = 0"
definition RTS_POWER_DEADLINE_DELAY :: "8 word" where "RTS_POWER_DEADLINE_DELAY = 1"
definition RTS_POWER_DEADLINE_TIMER :: "8 word" where "RTS_POWER_DEADLINE_TIMER = 2"

record rts_power_plan =
  pp_current_tick :: rts_tick
  pp_wake_tick :: rts_tick
  pp_sleep_ticks :: rts_tick
  pp_source :: "8 word"

definition rts_power_sleep_is_allowed :: "rts_config \<Rightarrow> rts_kernel_state \<Rightarrow> rts_fatal + bool" where
  "rts_power_sleep_is_allowed cfg s =
     (if \<not> RTS_ENABLE_TICKLESS_IDLE cfg then Inr False
      else and_then (lifecycle s = RTS_KERNEL_RUNNING \<and> \<not> in_isr s \<and> rts_scheduler_current_get s \<noteq> None \<and>
          rts_scheduler_current_get s = idle_task s \<and>
          task_state (tcbs s (the (idle_task s))) = RTS_TASK_STATE_RUNNING \<and>
          \<not> sp_pending (switch_plan s) \<and> \<not> sp_active (switch_plan s))
        (bnd (rts_policy_pick_next cfg s) (\<lambda>p. Inr (p = idle_task s))))"

definition rts_power_consider_deadline ::
  "rts_config \<Rightarrow> rts_tick \<Rightarrow> rts_tick \<Rightarrow> 8 word \<Rightarrow> rts_power_plan \<Rightarrow> rts_fatal + rts_power_plan" where
  "rts_power_consider_deadline cfg now candidate source plan =
     (if rts_tick_reached now candidate
      then Inr (plan\<lparr>pp_wake_tick := now, pp_sleep_ticks := 0, pp_source := source\<rparr>)
      else
        let distance = candidate - now in
        rts_assert cfg (distance \<le> RTS_TICK_MAX_ADVANCE) (
        if distance \<le> RTS_TICK_MAX_ADVANCE \<and> distance < pp_sleep_ticks plan
        then Inr (plan\<lparr>pp_wake_tick := candidate, pp_sleep_ticks := distance, pp_source := source\<rparr>)
        else Inr plan))"

text \<open>A deadline, where there is one.\<close>

definition consider_opt ::
  "rts_config \<Rightarrow> rts_tick \<Rightarrow> rts_tick option \<Rightarrow> 8 word \<Rightarrow> rts_power_plan \<Rightarrow> rts_fatal + rts_power_plan" where
  "consider_opt cfg now deadline source plan =
     (case deadline of None \<Rightarrow> Inr plan | Some d \<Rightarrow> rts_power_consider_deadline cfg now d source plan)"

text \<open>The plan is the result; \<open>None\<close> where the call returns false.\<close>

definition rts_power_plan_compute :: "rts_config \<Rightarrow> rts_kernel_state \<Rightarrow> rts_fatal + rts_power_plan option" where
  "rts_power_plan_compute cfg s =
     bnd (rts_power_sleep_is_allowed cfg s) (\<lambda>allowed.
     if \<not> allowed then Inr None
     else
       let plan = \<lparr>pp_current_tick = current_tick s,
             pp_wake_tick = current_tick s + RTS_TICKLESS_MAX_SLEEP_TICKS cfg,
             pp_sleep_ticks = RTS_TICKLESS_MAX_SLEEP_TICKS cfg,
             pp_source = RTS_POWER_DEADLINE_MAINTENANCE\<rparr> in
       bnd (rts_delay_next_deadline cfg s) (\<lambda>deadline.
       bnd (consider_opt cfg (current_tick s) deadline RTS_POWER_DEADLINE_DELAY plan) (\<lambda>plan.
       bnd (rts_timer_queue_next_deadline cfg s) (\<lambda>deadline.
       bnd (consider_opt cfg (current_tick s) deadline RTS_POWER_DEADLINE_TIMER plan) (\<lambda>plan.
       Inr (if pp_sleep_ticks plan \<noteq> 0 then Some plan else None))))))"

definition rts_power_record_wake ::
  "rts_config \<Rightarrow> rts_port_sleep_result \<Rightarrow> rts_kernel_state \<Rightarrow> rts_kernel_state" where
  "rts_power_record_wake cfg result s =
     (if \<not> RTS_ENABLE_RUNTIME_STATS cfg then s
      else
        let s = diag_add cfg tickless_suppressed_ticks (slr_elapsed_ticks result) s;
            s = (if slr_elapsed_ticks result > runtime_counters s tickless_longest_sleep
                 then s\<lparr>runtime_counters := (runtime_counters s)(tickless_longest_sleep := slr_elapsed_ticks result)\<rparr>
                 else s) in
        if slr_wake_source result = RTS_PORT_WAKE_TIMER then diag_inc cfg tickless_timer_wakes s
        else diag_inc cfg tickless_external_wakes s)"

definition rts_power_idle :: "rts_config \<Rightarrow> rts_port \<Rightarrow> rts_kernel_state \<Rightarrow> rts_fatal + rts_kernel_state" where
  "rts_power_idle cfg pt s =
     (if \<not> RTS_ENABLE_TICKLESS_IDLE cfg then Inr s
      else bnd (rts_power_sleep_is_allowed cfg s) (\<lambda>allowed.
        if \<not> allowed then Inr s
        else
          let s = diag_inc cfg tickless_sleep_attempts s in
          bnd (rts_power_plan_compute cfg s) (\<lambda>plan.
          case plan of
            None \<Rightarrow> Inr s
          | Some plan \<Rightarrow>
              let s = RTS_TRACE cfg RTS_TRACE_SLEEP_ENTER (pp_sleep_ticks plan) (ucast (pp_source plan)) s;
                  result = pt_power_sleep pt (pp_sleep_ticks plan);
                  valid_result = (slr_status result = RTS_STATUS_OK \<and>
                    slr_elapsed_ticks result \<le> pp_sleep_ticks plan \<and>
                    slr_wake_source result \<le> RTS_PORT_WAKE_OTHER) in
              rts_assert cfg (slr_status result \<noteq> RTS_STATUS_OK \<or> valid_result) (
              if \<not> valid_result
              then Inr (RTS_TRACE cfg RTS_TRACE_SLEEP_ABORT (status_code (slr_status result))
                (slr_elapsed_ticks result) (diag_inc cfg tickless_sleep_aborts s))
              else
                let s = diag_inc cfg tickless_sleep_entries s in
                bnd (if slr_elapsed_ticks result \<noteq> 0 then rts_kernel_time_skip cfg (slr_elapsed_ticks result) s
                     else Inr (False, s)) (\<lambda>(request_switch, s).
                let s = rts_power_record_wake cfg result s;
                    s = RTS_TRACE cfg RTS_TRACE_SLEEP_EXIT (slr_elapsed_ticks result)
                          (ucast (slr_wake_source result)) s in
                Inr (if request_switch then rts_port_request_reschedule s else s))))))"

end
