(* ===== verification/Invariant_Check.thy ===== *)
theory Invariant_Check
  imports Mutex Timer_Manager
begin

text \<open>
  The kernel's self-checks (\<^verbatim>\<open>invariant_check.c\<close>). A check that calls the policy or the delay queue
  may stop fatally, so the checks return \<open>rts_fatal + bool\<close>.
\<close>

text \<open>\<open>task->wait.object\<close> read as a semaphore or a mutex pointer.\<close>

fun wait_semaphore :: "sync_ref option \<Rightarrow> nat option" where
  "wait_semaphore (Some (Semaphore i)) = Some i"
| "wait_semaphore _ = None"

fun wait_mutex :: "sync_ref option \<Rightarrow> nat option" where
  "wait_mutex (Some (Mutex m)) = Some m"
| "wait_mutex _ = None"

definition rts_task_membership_is_valid ::
  "rts_config \<Rightarrow> task_ref \<Rightarrow> rts_kernel_state \<Rightarrow> rts_fatal + bool" where
  "rts_task_membership_is_valid cfg t s =
     bnd (rts_policy_validate cfg (Some t) True s) (\<lambda>ready.
     bnd (rts_delay_contains cfg (Some t) s) (\<lambda>delayed.
     let x = tcbs s t; waiting = (wait_owner t s \<noteq> None) in
     Inr (if task_state x = RTS_TASK_STATE_READY
          then ready \<and> \<not> delayed \<and> \<not> waiting \<and> wait_reason x = RTS_WAIT_NONE
          else if task_state x = RTS_TASK_STATE_RUNNING
          then Some t = rts_scheduler_current_get s \<and> ready \<and> \<not> delayed \<and> \<not> waiting \<and>
            wait_reason x = RTS_WAIT_NONE
          else if task_state x \<noteq> RTS_TASK_STATE_BLOCKED \<or> ready then False
          else if wait_reason x = RTS_WAIT_TIMER_SERVICE
          then rts_scheduler_task_is_timer_service (Some t) s \<and> \<not> delayed \<and> \<not> waiting \<and>
            wait_object x = None \<and> \<not> timeout_active x
          else if wait_reason x = RTS_WAIT_DELAY then delayed \<and> \<not> waiting \<and> \<not> timeout_active x
          else if wait_reason x = RTS_WAIT_SEMAPHORE \<or> wait_reason x = RTS_WAIT_MUTEX
          then waiting \<and> delayed = timeout_active x \<and> wait_object x \<noteq> None
          else False)))"

definition rts_task_validate_internal ::
  "rts_config \<Rightarrow> task_ref option \<Rightarrow> rts_kernel_state \<Rightarrow> rts_fatal + bool" where
  "rts_task_validate_internal cfg tp s =
     (if \<not> RTS_ENABLE_INVARIANT_CHECKS cfg then Inr True
      else case tp of
        None \<Rightarrow> Inr False
      | Some t \<Rightarrow>
          let x = tcbs s t in
          and_then (slot_state x = RTS_TASK_SLOT_ALLOCATED \<and> priority x \<ge> base_priority x \<and>
              unat (priority x) < RTS_PRIORITY_COUNT cfg \<and> rts_stack_guard_is_valid cfg tp s \<and>
              rts_stack_saved_sp_is_valid cfg tp s)
            (bnd (rts_task_membership_is_valid cfg t s) (\<lambda>member.
             Inr (if \<not> member then False
                  else if wait_reason x = RTS_WAIT_SEMAPHORE \<and>
                    (\<not> rts_semaphore_is_valid cfg (wait_semaphore (wait_object x)) s \<or>
                     \<not> rts_wait_object_contains (sem_waiters_of (wait_object x)) tp s) then False
                  else if wait_reason x = RTS_WAIT_MUTEX \<and>
                    (\<not> rts_mutex_is_valid cfg (wait_mutex (wait_object x)) s \<or>
                     \<not> rts_wait_object_contains (mutex_waiters_of (wait_object x)) tp s) then False
                  else True))))"

text \<open>The check of one node of the delay list against its predecessor.\<close>

definition delay_node_check :: "rts_kernel_state \<Rightarrow> node_ref option \<Rightarrow> node_ref \<Rightarrow> bool" where
  "delay_node_check s previous node =
     (case obj_task (nd_object (node_at (lmem s) node)) of
        None \<Rightarrow> False
      | Some t \<Rightarrow> Delay_Node t = node \<and> nd_owner (node_at (lmem s) node) = Some Delay_List \<and>
          (case previous of
             None \<Rightarrow> True
           | Some p \<Rightarrow> \<not> rts_tick_before (wake_tick (tcbs s t))
               (wake_tick (tcbs s (the (obj_task (nd_object (node_at (lmem s) p)))))))) "

definition rts_scheduler_validate_internal :: "rts_config \<Rightarrow> rts_kernel_state \<Rightarrow> rts_fatal + bool" where
  "rts_scheduler_validate_internal cfg s =
     (if \<not> RTS_ENABLE_INVARIANT_CHECKS cfg then Inr True
      else if lifecycle s = RTS_KERNEL_RESET
      then Inr (rts_scheduler_current_get s = None \<and> idle_task s = None \<and> timer_service_task s = None \<and>
        allocated_count s = 0)
      else bnd (rts_policy_validate cfg None False s) (\<lambda>policy_valid.
        bnd (and_then (policy_valid \<and> idle_task s \<noteq> None \<and> idle_task s = Some Idle)
              (bnd (rts_task_validate_internal cfg (idle_task s) s) (\<lambda>idle_valid.
               and_then (idle_valid \<and> timer_service_task s = Some Service)
                 (rts_task_validate_internal cfg (timer_service_task s) s)))) (\<lambda>tasks_valid.
        let service = tcbs s (the (timer_service_task s)); pending = cq_count (callback_queue s) in
        if \<not> tasks_valid then Inr False
        else if (task_state service = RTS_TASK_STATE_BLOCKED \<and> pending \<noteq> 0) \<or>
                (task_state service = RTS_TASK_STATE_READY \<and> pending = 0) then Inr False
        else case check_walk (RTS_SCHEDULABLE_TASK_CAPACITY cfg + 1) (delay_node_check s)
               (\<lambda>n. nd_next (node_at (lmem s) n)) (ls_head (list_at (lmem s) Delay_List)) None 0 of
               None \<Rightarrow> Inr False
             | Some (node, _, count) \<Rightarrow>
                 if node \<noteq> None \<or> count \<noteq> ls_count (list_at (lmem s) Delay_List) then Inr False
                 else
                   let current = rts_scheduler_current_get s in
                   if lifecycle s = RTS_KERNEL_RUNNING \<and> current = None then Inr False
                   else bnd (if lifecycle s = RTS_KERNEL_RUNNING \<and>
                                task_state (tcbs s (the current)) \<noteq> RTS_TASK_STATE_RUNNING
                             then and_then (task_state (tcbs s (the current)) = RTS_TASK_STATE_BLOCKED \<and>
                                 (sp_pending (switch_plan s) \<or> sp_active (switch_plan s)))
                               (bnd (rts_scheduler_task_is_blocked_delay cfg current s) (\<lambda>d.
                                if d then Inr True else rts_scheduler_task_is_blocked_wait cfg current s))
                             else Inr True) (\<lambda>ok.
                     Inr (ok \<and> \<not> (sp_active (switch_plan s) \<and> sp_pending (switch_plan s)))))))"

text \<open>
  The owner chain of a task: \<open>left\<close> is what remains of the code's bound on the depth. Behind the
  bound, a task that is still blocked on a mutex fails the check.
\<close>

definition blocked_on_mutex :: "task_ref \<Rightarrow> rts_kernel_state \<Rightarrow> bool" where
  "blocked_on_mutex t s \<longleftrightarrow>
     task_state (tcbs s t) = RTS_TASK_STATE_BLOCKED \<and> wait_reason (tcbs s t) = RTS_WAIT_MUTEX"

fun chain_loop :: "rts_config \<Rightarrow> nat \<Rightarrow> task_ref \<Rightarrow> task_ref \<Rightarrow> rts_kernel_state \<Rightarrow> bool" where
  "chain_loop cfg 0 task cursor s \<longleftrightarrow> \<not> blocked_on_mutex cursor s"
| "chain_loop cfg (Suc left) task cursor s \<longleftrightarrow>
     (if \<not> blocked_on_mutex cursor s then True
      else if \<not> rts_mutex_is_valid cfg (wait_mutex (wait_object (tcbs s cursor))) s then False
      else case sync_owner (wait_object (tcbs s cursor)) s of
             None \<Rightarrow> False
           | Some owner \<Rightarrow>
               if owner = task \<or>
                  (\<not> rts_task_handle_is_application_task cfg (Some owner) \<and> Some owner \<noteq> idle_task s \<and>
                   Some owner \<noteq> timer_service_task s)
               then False else chain_loop cfg left task owner s)"

text \<open>The walk over the owned mutexes: where it stopped, the number visited and the required priority.\<close>

fun owned_loop ::
  "rts_config \<Rightarrow> nat \<Rightarrow> task_ref \<Rightarrow> nat option \<Rightarrow> nat \<Rightarrow> rts_priority \<Rightarrow> rts_kernel_state \<Rightarrow>
   (nat option \<times> nat \<times> rts_priority) option" where
  "owned_loop cfg left task None owned required s = Some (None, owned, required)"
| "owned_loop cfg 0 task (Some m) owned required s = Some (Some m, owned, required)"
| "owned_loop cfg (Suc left) task (Some m) owned required s =
     (if \<not> rts_mutex_is_valid cfg (Some m) s \<or> mutex_owner m s \<noteq> Some task then None
      else
        let head = ls_head (list_at (wmem s) (Mutex_Waiters m));
            required = (if head \<noteq> None \<and> priority (tcbs s (the head)) > required
                        then priority (tcbs s (the head)) else required) in
        owned_loop cfg left task (nd_next (node_at (omem s) m)) (owned + 1) required s)"

definition owned_check :: "rts_config \<Rightarrow> task_ref \<Rightarrow> rts_kernel_state \<Rightarrow> bool" where
  "owned_check cfg task s =
     (case owned_loop cfg (RTS_MAX_MUTEXES_PER_TASK cfg) task (ls_head (list_at (omem s) task)) 0
             (base_priority (tcbs s task)) s of
        None \<Rightarrow> False
      | Some (mutex, owned, required) \<Rightarrow>
          mutex = None \<and> owned = ls_count (list_at (omem s) task) \<and> required = priority (tcbs s task))"

definition rts_sync_validate_internal :: "rts_config \<Rightarrow> rts_kernel_state \<Rightarrow> bool" where
  "rts_sync_validate_internal cfg s =
     (if \<not> RTS_ENABLE_INVARIANT_CHECKS cfg then True
      else if lifecycle s = RTS_KERNEL_RESET then True
      else if \<not> list_all (\<lambda>i. slot_state (tcbs s (App i)) = RTS_TASK_SLOT_ALLOCATED \<longrightarrow>
               chain_loop cfg (RTS_SCHEDULABLE_TASK_CAPACITY cfg) (App i) (App i) s \<and> owned_check cfg (App i) s)
             [0..<RTS_MAX_TASKS cfg] then False
      else case timer_service_task s of None \<Rightarrow> False | Some service \<Rightarrow> owned_check cfg service s)"

text \<open>The last loop, with the number of allocated slots seen.\<close>

fun validate_slots_loop ::
  "rts_config \<Rightarrow> rts_kernel_state \<Rightarrow> nat list \<Rightarrow> nat \<Rightarrow> rts_fatal + bool" where
  "validate_slots_loop cfg s [] allocated = Inr (allocated = allocated_count s)"
| "validate_slots_loop cfg s (i # is) allocated =
     (if slot_state (tcbs s (App i)) = RTS_TASK_SLOT_ALLOCATED
      then bnd (rts_task_validate_internal cfg (Some (App i)) s) (\<lambda>ok.
        if \<not> ok then Inr False else validate_slots_loop cfg s is (allocated + 1))
      else validate_slots_loop cfg s is allocated)"

definition rts_kernel_validate_all :: "rts_config \<Rightarrow> rts_kernel_state \<Rightarrow> rts_fatal + bool" where
  "rts_kernel_validate_all cfg s =
     (if \<not> RTS_ENABLE_INVARIANT_CHECKS cfg then Inr True
      else bnd (rts_scheduler_validate_internal cfg s) (\<lambda>ok.
        if \<not> ok \<or> \<not> rts_sync_validate_internal cfg s \<or> \<not> rts_timer_manager_validate cfg s then Inr False
        else validate_slots_loop cfg s [0..<RTS_MAX_TASKS cfg] 0))"

end
