(* ===== verification/Fatal_Record.thy ===== *)
theory Fatal_Record
  imports Task_Pool
begin

text \<open>
  What is left behind when the kernel stops (\<^verbatim>\<open>fatal.c\<close>), and the diagnostics snapshot
  (\<^verbatim>\<open>runtime_stats.c\<close>). The record \<open>g_rts_fatal_record\<close> is an argument of its own: the rest of the
  kernel never reads it. Addresses of source files and contexts are numbers, the current task is
  a reference; the exception number is what the port reports.
\<close>

record rts_fatal_record =
  fr_valid :: uint32
  fr_reason :: "rts_fatal option"
  fr_lifecycle :: rts_kernel_lifecycle
  fr_tick :: uint32
  fr_exception_number :: uint32
  fr_current_task :: "task_ref option"
  fr_context :: uintptr
  fr_source_file :: uintptr
  fr_source_line :: uint32
  fr_switch_generation :: uint32
  fr_switch_flags :: uint32
  fr_fatal_count :: uint32

text \<open>The all-zero record; \<open>RTS_FATAL_NONE\<close> is \<open>None\<close>.\<close>

definition rts_fatal_record_reset_for_test :: rts_fatal_record where
  "rts_fatal_record_reset_for_test = \<lparr>fr_valid = 0, fr_reason = None, fr_lifecycle = RTS_KERNEL_RESET,
     fr_tick = 0, fr_exception_number = 0, fr_current_task = None, fr_context = 0, fr_source_file = 0,
     fr_source_line = 0, fr_switch_generation = 0, fr_switch_flags = 0, fr_fatal_count = 0\<rparr>"

definition switch_flags :: "rts_switch_plan \<Rightarrow> uint32" where
  "switch_flags plan = (if sp_pending plan then 1 else 0) OR (if sp_active plan then 2 else 0) OR
     (if sp_reselection_required plan then 4 else 0)"

definition rts_fatal_record_capture ::
  "uint32 \<Rightarrow> rts_fatal \<Rightarrow> uintptr \<Rightarrow> uintptr \<Rightarrow> uint32 \<Rightarrow> rts_kernel_state \<Rightarrow> rts_fatal_record \<Rightarrow>
   bool \<times> rts_fatal_record" where
  "rts_fatal_record_capture exception_number reason ctx file line s r =
     (if fr_valid r \<noteq> 0 then (False, r)
      else (True, r\<lparr>fr_reason := Some reason, fr_lifecycle := lifecycle s, fr_tick := current_tick s,
        fr_exception_number := exception_number, fr_current_task := rts_scheduler_current_get s,
        fr_context := ctx, fr_source_file := file, fr_source_line := line,
        fr_switch_generation := sp_generation (switch_plan s), fr_switch_flags := switch_flags (switch_plan s),
        fr_fatal_count := 1, fr_valid := 1\<rparr>))"

text \<open>
  \<open>rts_kernel_fatal_at\<close> ends in an endless loop; the result is the record passed to the target's
  hook, if it is called, and the record the loop leaves behind.
\<close>

definition rts_kernel_fatal_at ::
  "uint32 \<Rightarrow> rts_fatal \<Rightarrow> uintptr \<Rightarrow> uintptr \<Rightarrow> uint32 \<Rightarrow> rts_kernel_state \<Rightarrow> rts_fatal_record \<Rightarrow>
   rts_fatal_record option \<times> rts_fatal_record" where
  "rts_kernel_fatal_at exception_number reason ctx file line s r =
     (let (first, r) = rts_fatal_record_capture exception_number reason ctx file line s r in
      (if first then Some r else None, r))"

definition rts_assert_fail ::
  "uint32 \<Rightarrow> uintptr \<Rightarrow> uintptr \<Rightarrow> int \<Rightarrow> rts_kernel_state \<Rightarrow> rts_fatal_record \<Rightarrow>
   rts_fatal_record option \<times> rts_fatal_record" where
  "rts_assert_fail exception_number expression file line s r =
     rts_kernel_fatal_at exception_number RTS_FATAL_ASSERTION expression file
       (if line < 0 then 0 else of_int line) s r"

section \<open>Diagnostics snapshot\<close>

record rts_diagnostics_snapshot =
  dg_tick :: rts_tick
  dg_context_switches :: uint32
  dg_task_count :: uint32
  dg_idle_ticks :: uint32
  dg_non_idle_ticks :: uint32
  dg_tickless_sleep_entries :: uint32
  dg_tickless_suppressed_ticks :: uint32
  dg_tickless_longest_sleep :: uint32
  dg_fatal_reason :: "rts_fatal option"

text \<open>The snapshot is the result; \<open>None\<close> where the call returns false, \<open>want\<close> is false for a null pointer.\<close>

definition rts_diagnostics_snapshot_read ::
  "rts_config \<Rightarrow> bool \<Rightarrow> rts_fatal_record \<Rightarrow> rts_kernel_state \<Rightarrow> rts_fatal + rts_diagnostics_snapshot option" where
  "rts_diagnostics_snapshot_read cfg want r s =
     (if \<not> RTS_ENABLE_DIAGNOSTICS cfg \<or> \<not> want then Inr None
      else
        let stats = RTS_ENABLE_RUNTIME_STATS cfg;
            counter = (\<lambda>c. if stats then runtime_counters s c else 0);
            idle_ticks = (if \<not> stats then 0
              else case idle_task s of
                None \<Rightarrow> 0
              | Some idle \<Rightarrow>
                  if rts_scheduler_current_get s = idle_task s \<and> lifecycle s = RTS_KERNEL_RUNNING
                  then diagnostic_running_ticks (tcbs s idle) +
                    (current_tick s - diagnostic_last_start_tick (tcbs s idle))
                  else diagnostic_running_ticks (tcbs s idle));
            total_ticks = (if stats then runtime_counters s scheduler_ticks else current_tick s);
            idle_ticks = (if idle_ticks > total_ticks then total_ticks else idle_ticks) in
        bnd (rts_task_pool_allocated_count cfg s) (\<lambda>count.
        Inr (Some \<lparr>dg_tick = current_tick s, dg_context_switches = counter context_switches,
          dg_task_count = of_nat count, dg_idle_ticks = idle_ticks, dg_non_idle_ticks = total_ticks - idle_ticks,
          dg_tickless_sleep_entries = counter tickless_sleep_entries,
          dg_tickless_suppressed_ticks = counter tickless_suppressed_ticks,
          dg_tickless_longest_sleep = counter tickless_longest_sleep,
          dg_fatal_reason = fr_reason r\<rparr>)))"

section \<open>Lemmas\<close>

text \<open>Only the first fatal event is recorded.\<close>

lemma fatal_capture_latches:
  assumes "rts_fatal_record_capture e reason ctx file line s r = (first, r1)"
  shows "fr_valid r1 \<noteq> 0" and "rts_fatal_record_capture e' reason' ctx' file' line' s' r1 = (False, r1)"
  using assms by (auto simp: rts_fatal_record_capture_def split: if_splits)

lemma switch_flags_bits:
  "bit (switch_flags plan) 0 = sp_pending plan" "bit (switch_flags plan) 1 = sp_active plan"
  "bit (switch_flags plan) 2 = sp_reselection_required plan"
  by (simp_all add: switch_flags_def bit_simps bit_numeral_rec)

lemma snapshot_accounts_ticks:
  assumes "rts_diagnostics_snapshot_read cfg want r s = Inr (Some g)"
  shows "unat (dg_idle_ticks g) + unat (dg_non_idle_ticks g) =
    unat (if RTS_ENABLE_RUNTIME_STATS cfg then runtime_counters s scheduler_ticks else current_tick s)"
proof -
  have split: "unat a + unat (t - a) = unat t" if "a \<le> t" for a t :: uint32
    using that by (simp add: unat_sub_if' word_le_nat_alt)
  show ?thesis
    using assms by (auto simp: rts_diagnostics_snapshot_read_def Let_def bnd_Inr_iff not_less intro!: split split: if_splits)
qed

end
