(* ===== verification/Rate_Monotonic.thy ===== *)
theory Rate_Monotonic
  imports Ready_Policy
begin

text \<open>
  The rate-monotonic priority assignment (\<^verbatim>\<open>policy_rms.c\<close>): the rank of a task is one more than
  the number of participating tasks with a longer period, so ranks are in the range of the
  configured priorities and a shorter period is a higher priority.
\<close>

definition rms_longer :: "rts_config \<Rightarrow> task_ref option \<Rightarrow> rts_kernel_state \<Rightarrow> nat \<Rightarrow> nat set" where
  "rms_longer cfg new_task s i = {j. j < RTS_MAX_TASKS cfg \<and> rms_included new_task s j \<and>
     period (tcbs s (App i)) < period (tcbs s (App j))}"

lemma finite_rms_longer [simp]: "finite (rms_longer cfg n s i)"
  by (simp add: rms_longer_def)

lemma card_rms_longer: "card (rms_longer cfg n s i) \<le> RTS_MAX_TASKS cfg"
proof -
  have "card (rms_longer cfg n s i) \<le> card {..<RTS_MAX_TASKS cfg}"
    by (rule card_mono) (auto simp: rms_longer_def)
  then show ?thesis by simp
qed

lemma fold_count: "fold (\<lambda>x r. if P x then r + 1 else r) xs r = (r :: 8 word) + of_nat (length (filter P xs))"
  by (induction xs arbitrary: r) (simp_all add: algebra_simps)

lemma rms_rank_card: "rms_rank cfg n s i = of_nat (1 + card (rms_longer cfg n s i))"
proof -
  have "length (filter (\<lambda>j. rms_included n s j \<and> period (tcbs s (App j)) > period (tcbs s (App i))) [0..<RTS_MAX_TASKS cfg]) =
      card (rms_longer cfg n s i)"
    by (subst distinct_card [symmetric]) (auto simp: rms_longer_def intro!: arg_cong [where f = card])
  then show ?thesis by (simp add: rms_rank_def fold_count)
qed

lemma unat_of_nat_u8: "k < 2 ^ 8 \<Longrightarrow> unat (of_nat k :: 8 word) = k"
  by (simp add: unsigned_of_nat take_bit_nat_eq_self)

text \<open>The build checks of a rate-monotonic configuration keep every rank in range.\<close>

lemma rms_rank_bounds:
  assumes "config_ok cfg" and "RTS_POLICY cfg = RTS_POLICY_KIND_RMS"
  shows "unat (rms_rank cfg n s i) = 1 + card (rms_longer cfg n s i)"
    and "unat (rms_rank cfg n s i) < RTS_PRIORITY_COUNT cfg" and "rms_rank cfg n s i \<noteq> RTS_IDLE_PRIORITY"
proof -
  have c: "RTS_MAX_TASKS cfg + 1 < RTS_PRIORITY_COUNT cfg" "RTS_PRIORITY_COUNT cfg \<le> 256"
    using assms by (simp_all add: config_ok_def config_internal_checks_def)
  then have "1 + card (rms_longer cfg n s i) < 2 ^ 8" using card_rms_longer [of cfg n s i] by simp
  then show u: "unat (rms_rank cfg n s i) = 1 + card (rms_longer cfg n s i)"
    by (simp only: rms_rank_card unat_of_nat_u8)
  then show "unat (rms_rank cfg n s i) < RTS_PRIORITY_COUNT cfg" using c card_rms_longer [of cfg n s i] by linarith
  show "rms_rank cfg n s i \<noteq> RTS_IDLE_PRIORITY"
    unfolding RTS_IDLE_PRIORITY_def using u by (metis add_is_0 unsigned_0 zero_neq_one)
qed

lemma rms_rank_mono:
  assumes "config_ok cfg" and "RTS_POLICY cfg = RTS_POLICY_KIND_RMS"
    and "j < RTS_MAX_TASKS cfg" and "rms_included n s j" and "period (tcbs s (App i)) < period (tcbs s (App j))"
  shows "rms_rank cfg n s j < rms_rank cfg n s i"
proof -
  have "rms_longer cfg n s j \<subset> rms_longer cfg n s i"
    using assms(3-5) by (auto simp: rms_longer_def)
  then have "card (rms_longer cfg n s j) < card (rms_longer cfg n s i)" by (simp add: psubset_card_mono)
  then show ?thesis by (simp add: word_less_nat_alt rms_rank_bounds(1) [OF assms(1,2)])
qed

text \<open>Ranks depend on periods and slot states only, which the assignment does not touch.\<close>

lemma rms_rank_cong:
  assumes "\<And>t. period (tcbs s' t) = period (tcbs s t)" and "\<And>t. slot_state (tcbs s' t) = slot_state (tcbs s t)"
  shows "rms_included n s' = rms_included n s" and "rms_rank cfg n s' = rms_rank cfg n s"
  using assms by (simp_all add: rms_included_def rms_rank_def fun_eq_iff)

text \<open>One step: the new rank becomes the base and the effective priority of the task.\<close>

definition rms_tcb :: "rts_priority \<Rightarrow> rts_tcb \<Rightarrow> rts_tcb" where
  "rms_tcb p x = x\<lparr>base_priority := p, priority := p\<rparr>"

definition rms_assigned :: "rts_config \<Rightarrow> task_ref option \<Rightarrow> nat list \<Rightarrow> rts_kernel_state \<Rightarrow> task_ref \<Rightarrow> rts_tcb" where
  "rms_assigned cfg n is s t = (case t of
     App i \<Rightarrow> if i \<in> set is \<and> rms_included n s i then rms_tcb (rms_rank cfg n s i) (tcbs s t) else tcbs s t
   | _ \<Rightarrow> tcbs s t)"

lemma rms_step:
  fixes n :: "task_ref option"
  assumes inv: "fp_inv cfg s" and cfg: "RTS_POLICY cfg = RTS_POLICY_KIND_RMS" and i: "i < RTS_MAX_TASKS cfg"
    and adm: "unat (priority (tcbs s (App i))) < RTS_PRIORITY_COUNT cfg"
  defines "p \<equiv> rms_rank cfg n s i"
  obtains m b where "bnd (rts_policy_fp_priority_changed cfg (Some (App i)) p (upd_tcb (App i) (\<lambda>x. x\<lparr>base_priority := p\<rparr>) s))
      (\<lambda>(_, s). Inr s) = Inr (upd_tcb (App i) (rms_tcb p) s\<lparr>lmem := m, ready_bitmap := b\<rparr>)"
    and "fp_inv cfg (upd_tcb (App i) (rms_tcb p) s\<lparr>lmem := m, ready_bitmap := b\<rparr>)"
    and "set (fp_order cfg (upd_tcb (App i) (rms_tcb p) s\<lparr>lmem := m, ready_bitmap := b\<rparr>)) = set (fp_order cfg s)"
    and "ready_frame (App i) (lmem s) m"
proof -
  let ?s0 = "upd_tcb (App i) (\<lambda>x. x\<lparr>base_priority := p\<rparr>) s"
  have cok: "config_ok cfg" and r: "ready_inv cfg s" using inv by (simp_all add: fp_inv_def)
  have "ready_inv cfg ?s0" by (rule ready_inv_cong [OF r]) (auto simp: upd_tcb_def)
  then have inv0: "fp_inv cfg ?s0" using inv by (simp add: fp_inv_def upd_tcb_def)
  have adm0: "fp_adm cfg (App i) ?s0" using i adm by (simp add: fp_adm_def upd_tcb_def)
  have o0: "fp_order cfg ?s0 = fp_order cfg s"
    by (simp add: fp_order_def ready_tasks_def [abs_def] upd_tcb_def)
  note B = rms_rank_bounds [OF cok cfg, of n s i, folded p_def]
  have e: "upd_tcb (App i) (\<lambda>x. x\<lparr>priority := p\<rparr>) ?s0 = upd_tcb (App i) (rms_tcb p) s"
    by (simp add: upd_tcb_def rms_tcb_def)
  obtain m b where c: "rts_policy_fp_priority_changed cfg (Some (App i)) p ?s0 =
      Inr (True, upd_tcb (App i) (rms_tcb p) s\<lparr>lmem := m, ready_bitmap := b\<rparr>)"
    "fp_inv cfg (upd_tcb (App i) (rms_tcb p) s\<lparr>lmem := m, ready_bitmap := b\<rparr>)" "ready_frame (App i) (lmem ?s0) m"
    "fp_order cfg (upd_tcb (App i) (rms_tcb p) s\<lparr>lmem := m, ready_bitmap := b\<rparr>) =
      (if App i \<notin> set (fp_order cfg ?s0) \<or> p = priority (tcbs ?s0 (App i)) then fp_order cfg ?s0
       else stable_insert (fp_before (upd_tcb (App i) (rms_tcb p) s)) (App i) (remove1 (App i) (fp_order cfg ?s0)))"
    using fp_priority_changed_law [OF inv0 adm0 B(3,2)] unfolding e by blast
  have d: "distinct (fp_order cfg s)" using distinct_fp_order [OF r] .
  have "set (fp_order cfg (upd_tcb (App i) (rms_tcb p) s\<lparr>lmem := m, ready_bitmap := b\<rparr>)) = set (fp_order cfg s)"
    using d by (auto simp: c(4) o0)
  then show ?thesis using that c(1-3) by (simp add: upd_tcb_def)
qed

text \<open>What an assignment leaves alone: every node that is not a ready node, and the other queues.\<close>

definition ready_only :: "(node_ref, list_ref, obj_ref) list_mem \<Rightarrow> (node_ref, list_ref, obj_ref) list_mem \<Rightarrow> bool" where
  "ready_only m m' \<longleftrightarrow>
     nodes_of m' Delay_List = nodes_of m Delay_List \<and> nodes_of m' Timer_List = nodes_of m Timer_List \<and>
     (\<forall>k. (\<forall>t. k \<noteq> Ready_Node t) \<longrightarrow> nd_owner (node_at m' k) = nd_owner (node_at m k) \<and>
        nd_object (node_at m' k) = nd_object (node_at m k))"

lemma ready_frame_only: "ready_frame t m m' \<Longrightarrow> ready_only m m'"
  by (simp add: ready_frame_def ready_only_def)

lemma ready_only_trans: "ready_only m1 m2 \<Longrightarrow> ready_only m2 m3 \<Longrightarrow> ready_only m1 m3"
  by (simp add: ready_only_def)

lemma rms_assign_loop:
  assumes "fp_inv cfg s" and "RTS_POLICY cfg = RTS_POLICY_KIND_RMS" and "set is \<subseteq> {..<RTS_MAX_TASKS cfg}"
    and "\<forall>i \<in> set is. unat (priority (tcbs s (App i))) < RTS_PRIORITY_COUNT cfg"
  shows "\<exists>m b. for_loop (\<lambda>i s.
       if \<not> rms_included n s i then Inr s
       else let rank = rms_rank cfg n s i; s = upd_tcb (App i) (\<lambda>x. x\<lparr>base_priority := rank\<rparr>) s in
         bnd (rts_policy_fp_priority_changed cfg (Some (App i)) rank s) (\<lambda>(_, s). Inr s)) is s =
      Inr (s\<lparr>tcbs := rms_assigned cfg n is s, lmem := m, ready_bitmap := b\<rparr>) \<and>
    fp_inv cfg (s\<lparr>tcbs := rms_assigned cfg n is s, lmem := m, ready_bitmap := b\<rparr>) \<and>
    set (fp_order cfg (s\<lparr>tcbs := rms_assigned cfg n is s, lmem := m, ready_bitmap := b\<rparr>)) = set (fp_order cfg s) \<and>
    ready_only (lmem s) m"
  using assms
proof (induction "is" arbitrary: s)
  case Nil
  have "rms_assigned cfg n [] s = tcbs s" by (auto simp: rms_assigned_def fun_eq_iff split: task_ref.splits)
  with Nil show ?case by (intro exI [of _ "lmem s"] exI [of _ "ready_bitmap s"]) (simp add: ready_only_def)
next
  case (Cons i js)
  have len: "i < RTS_MAX_TASKS cfg" "unat (priority (tcbs s (App i))) < RTS_PRIORITY_COUNT cfg" using Cons.prems by auto
  show ?case
  proof (cases "rms_included n s i")
    case False
    then have "rms_assigned cfg n (i # js) s = rms_assigned cfg n js s"
      by (auto simp: rms_assigned_def fun_eq_iff split: task_ref.splits)
    with False Cons show ?thesis by simp
  next
    case True
    let ?p = "rms_rank cfg n s i"
    obtain m b where st: "bnd (rts_policy_fp_priority_changed cfg (Some (App i)) ?p (upd_tcb (App i) (\<lambda>x. x\<lparr>base_priority := ?p\<rparr>) s))
        (\<lambda>(_, s). Inr s) = Inr (upd_tcb (App i) (rms_tcb ?p) s\<lparr>lmem := m, ready_bitmap := b\<rparr>)"
      and inv1: "fp_inv cfg (upd_tcb (App i) (rms_tcb ?p) s\<lparr>lmem := m, ready_bitmap := b\<rparr>)"
      and o1: "set (fp_order cfg (upd_tcb (App i) (rms_tcb ?p) s\<lparr>lmem := m, ready_bitmap := b\<rparr>)) = set (fp_order cfg s)"
      and f1: "ready_frame (App i) (lmem s) m"
      by (rule rms_step [OF Cons.prems(1,2) len])
    define s1 where "s1 = upd_tcb (App i) (rms_tcb ?p) s\<lparr>lmem := m, ready_bitmap := b\<rparr>"
    have cong: "rms_included n s1 = rms_included n s" "rms_rank cfg n s1 = rms_rank cfg n s"
      by (rule rms_rank_cong; simp add: s1_def upd_tcb_def rms_tcb_def)+
    have cok: "config_ok cfg" using Cons.prems(1) by (simp add: fp_inv_def)
    have pr: "\<forall>j \<in> set js. unat (priority (tcbs s1 (App j))) < RTS_PRIORITY_COUNT cfg"
      using Cons.prems(4) rms_rank_bounds(2) [OF cok Cons.prems(2)] by (simp add: s1_def upd_tcb_def rms_tcb_def)
    have asg: "rms_assigned cfg n js s1 = rms_assigned cfg n (i # js) s"
    proof -
      have "tcbs s1 t = (if t = App i then rms_tcb ?p (tcbs s t) else tcbs s t)" for t by (simp add: s1_def upd_tcb_def)
      then show ?thesis
        using True by (auto simp: rms_assigned_def cong fun_eq_iff rms_tcb_def split: task_ref.splits)
    qed
    have upd: "s1\<lparr>tcbs := rms_assigned cfg n js s1, lmem := m', ready_bitmap := b'\<rparr> =
        s\<lparr>tcbs := rms_assigned cfg n (i # js) s, lmem := m', ready_bitmap := b'\<rparr>" for m' b'
      unfolding asg by (simp add: s1_def upd_tcb_def)
    have "fp_inv cfg s1" using inv1 by (simp add: s1_def)
    from Cons.IH [OF this Cons.prems(2) _ pr] Cons.prems(3) obtain m' b' where
      r: "for_loop (\<lambda>i s. if \<not> rms_included n s i then Inr s
       else let rank = rms_rank cfg n s i; s = upd_tcb (App i) (\<lambda>x. x\<lparr>base_priority := rank\<rparr>) s in
         bnd (rts_policy_fp_priority_changed cfg (Some (App i)) rank s) (\<lambda>(_, s). Inr s)) js s1 =
        Inr (s\<lparr>tcbs := rms_assigned cfg n (i # js) s, lmem := m', ready_bitmap := b'\<rparr>)"
      "fp_inv cfg (s\<lparr>tcbs := rms_assigned cfg n (i # js) s, lmem := m', ready_bitmap := b'\<rparr>)"
      "set (fp_order cfg (s\<lparr>tcbs := rms_assigned cfg n (i # js) s, lmem := m', ready_bitmap := b'\<rparr>)) = set (fp_order cfg s1)"
      "ready_only (lmem s1) m'"
      unfolding upd by auto
    have "ready_only (lmem s) m'"
      using ready_only_trans [OF ready_frame_only [OF f1]] r(4) by (simp add: s1_def)
    moreover have "set (fp_order cfg s1) = set (fp_order cfg s)" using o1 by (simp add: s1_def)
    ultimately show ?thesis
      using r(1-3) True st by (intro exI [of _ m'] exI [of _ b']) (simp add: Let_def s1_def)
  qed
qed

lemma rms_assign_ok:
  assumes "fp_inv cfg s" and "RTS_POLICY cfg = RTS_POLICY_KIND_RMS"
    and "\<forall>i < RTS_MAX_TASKS cfg. unat (priority (tcbs s (App i))) < RTS_PRIORITY_COUNT cfg"
  obtains m b where "rts_policy_rms_assign_priorities cfg n s =
      Inr (s\<lparr>tcbs := rms_assigned cfg n [0..<RTS_MAX_TASKS cfg] s, lmem := m, ready_bitmap := b\<rparr>)"
    and "fp_inv cfg (s\<lparr>tcbs := rms_assigned cfg n [0..<RTS_MAX_TASKS cfg] s, lmem := m, ready_bitmap := b\<rparr>)"
    and "set (fp_order cfg (s\<lparr>tcbs := rms_assigned cfg n [0..<RTS_MAX_TASKS cfg] s, lmem := m, ready_bitmap := b\<rparr>)) =
      set (fp_order cfg s)"
    and "ready_only (lmem s) m"
proof -
  have "set [0..<RTS_MAX_TASKS cfg] \<subseteq> {..<RTS_MAX_TASKS cfg}" by auto
  from rms_assign_loop [OF assms(1,2) this, of n] assms(3) that show ?thesis
    unfolding rts_policy_rms_assign_priorities_def by auto
qed

end
