(* ===== verification/Queue_Properties.thy ===== *)
theory Queue_Properties
  imports Rate_Monotonic Delay_Queue Timer_Queue Wait_Object Task_Pool
begin

text \<open>
  The properties of the data structures the kernel is built on: intrusive lists, the callback
  ring, the trace ring and the counters, the ready, delay, timer and wait queues, the scheduling
  policies and the task pool. Each is stated over the component's operations and follows from the
  refinement lemmas of its theory.
\<close>

section \<open>Intrusive lists\<close>

text \<open>Sequences of list operations, on the linked structure and on the lists it represents.\<close>

datatype ('n, 'l) list_op = Push_Back 'l 'n | Insert_Before 'l 'n 'n | Unlink 'l 'n

fun list_step :: "rts_config \<Rightarrow> ('n, 'l) list_op \<Rightarrow> ('n, 'l, 'o) list_mem \<Rightarrow> rts_fatal + ('n, 'l, 'o) list_mem" where
  "list_step cfg (Push_Back l n) m = rts_list_push_back cfg (Some l) (Some n) m"
| "list_step cfg (Insert_Before l p n) m = rts_list_insert_before cfg (Some l) (Some p) (Some n) m"
| "list_step cfg (Unlink l n) m = rts_list_remove cfg (Some l) (Some n) m"

fun insert_in_front :: "'n \<Rightarrow> 'n \<Rightarrow> 'n list \<Rightarrow> 'n list" where
  "insert_in_front p n [] = [n]"
| "insert_in_front p n (x # xs) = (if x = p then n # x # xs else x # insert_in_front p n xs)"

fun spec_step :: "('n, 'l) list_op \<Rightarrow> ('l \<Rightarrow> 'n list) \<Rightarrow> ('l \<Rightarrow> 'n list) option" where
  "spec_step (Push_Back l n) A =
     (if (\<forall>k. n \<notin> set (A k)) \<and> length (A l) < SIZE_MAX then Some (A(l := A l @ [n])) else None)"
| "spec_step (Insert_Before l p n) A =
     (if (\<forall>k. n \<notin> set (A k)) \<and> length (A l) < SIZE_MAX \<and> p \<in> set (A l)
      then Some (A(l := insert_in_front p n (A l))) else None)"
| "spec_step (Unlink l n) A = (if n \<in> set (A l) then Some (A(l := remove1 n (A l))) else None)"

fun list_run :: "rts_config \<Rightarrow> ('n, 'l) list_op list \<Rightarrow> ('n, 'l, 'o) list_mem \<Rightarrow> rts_fatal + ('n, 'l, 'o) list_mem" where
  "list_run cfg [] m = Inr m"
| "list_run cfg (x # xs) m = bnd (list_step cfg x m) (list_run cfg xs)"

fun spec_run :: "('n, 'l) list_op list \<Rightarrow> ('l \<Rightarrow> 'n list) \<Rightarrow> ('l \<Rightarrow> 'n list) option" where
  "spec_run [] A = Some A"
| "spec_run (x # xs) A = (case spec_step x A of None \<Rightarrow> None | Some B \<Rightarrow> spec_run xs B)"

lemma insert_in_front_split:
  "p \<notin> set xs \<Longrightarrow> insert_in_front p n (xs @ p # ys) = xs @ n # p # ys"
  by (induction xs) auto

lemma list_step_refines:
  assumes abs: "mem_abs m A" and step: "spec_step x A = Some B"
  shows "\<exists>m'. list_step cfg x m = Inr m' \<and> mem_abs m' B"
proof (cases x)
  case (Push_Back l n)
  with step abs show ?thesis
    using push_back_refines [OF abs, of n l cfg] mem_abs_unlinked [OF abs, of n]
    by (fastforce split: if_splits)
next
  case (Insert_Before l p n)
  with step obtain xs ys where "A l = xs @ p # ys" and p: "p \<notin> set xs"
    by (auto split: if_splits dest!: split_list_first)
  with Insert_Before step abs show ?thesis
    using insert_before_refines [OF abs, of n l xs p ys cfg] mem_abs_unlinked [OF abs, of n]
    by (fastforce simp: insert_in_front_split split: if_splits)
next
  case (Unlink l n)
  with step obtain xs ys where "A l = xs @ n # ys" and "n \<notin> set xs"
    by (auto split: if_splits dest!: split_list_first)
  with Unlink step abs show ?thesis
    using remove_refines [OF abs, of l xs n ys cfg] by (fastforce simp: remove1_append split: if_splits)
qed

text \<open>
  C26. The intrusive lists (\<^verbatim>\<open>kernel/intrusive_list.c\<close>) refine abstract lists: whatever sequence of
  appends, insertions in front of a node and removals is legal on the abstract lists (a node is
  linked at most once, positions and removed nodes are in the list), the linked structure carries
  it out without an assertion, and represents exactly the resulting lists.
\<close>

theorem list_run_refines:
  assumes "mem_abs m A" and "spec_run xs A = Some B"
  shows "\<exists>m'. list_run cfg xs m = Inr m' \<and> mem_abs m' B"
  using assms
proof (induction xs arbitrary: m A)
  case (Cons x xs)
  then obtain C where C: "spec_step x A = Some C" "spec_run xs C = Some B" by (auto split: option.splits)
  obtain m1 where "list_step cfg x m = Inr m1" "mem_abs m1 C"
    using list_step_refines [OF Cons.prems(1) C(1)] by blast
  with Cons.IH [of m1 C] C(2) show ?case by simp
qed simp

theorem list_run_refines_witness:
  "\<exists>m'. list_run test_config [Push_Back Delay_List (3 :: nat), Insert_Before Delay_List 3 5, Push_Back Edf_List 7,
      Push_Back Delay_List 4, Unlink Delay_List 3] (zero_mem :: (nat, list_ref, unit) list_mem) = Inr m' \<and>
    mem_abs m' ((\<lambda>_. [])(Delay_List := [5, 4], Edf_List := [7]))"
proof (rule list_run_refines [OF zero_mem_abs])
  show "spec_run [Push_Back Delay_List (3 :: nat), Insert_Before Delay_List 3 5, Push_Back Edf_List 7,
      Push_Back Delay_List 4, Unlink Delay_List 3] (\<lambda>_. []) = Some ((\<lambda>_. [])(Delay_List := [5, 4], Edf_List := [7]))"
    by (auto simp: SIZE_MAX_def fun_upd_def)
qed

section \<open>Rings and counters\<close>

text \<open>
  C22. The pending-callback ring (\<^verbatim>\<open>kernel/timer_callback_queue.c\<close>) is a bounded FIFO queue with
  removal by timer: enqueueing appends (and is refused, changing nothing, exactly when the ring is
  full), dequeueing takes the oldest entry, removing a timer filters its entries and reports how
  many there were; every operation keeps the ring well formed.
\<close>

theorem callback_queue_is_fifo:
  assumes "cq_inv cfg q" and "wk_timer w \<noteq> None"
    and "rts_timer_callback_queue_enqueue cfg (Some w) q = (ok, q1)"
    and "rts_timer_callback_queue_dequeue cfg q = (r, q2)"
    and "rts_timer_callback_queue_remove_timer cfg (Some t) q = (n, q3)"
  shows "(cq_inv cfg q1 \<and> ok = (cq_count q < RTS_TIMER_CALLBACK_QUEUE_CAPACITY cfg) \<and>
      (if ok then cq_list cfg q1 = cq_list cfg q @ [w] else q1 = q)) \<and>
    (cq_inv cfg q2 \<and> cq_list cfg q = (case r of None \<Rightarrow> cq_list cfg q2 | Some x \<Rightarrow> x # cq_list cfg q2) \<and>
      (r = None) = (cq_list cfg q = [])) \<and>
    (cq_inv cfg q3 \<and> cq_list cfg q3 = filter (\<lambda>x. wk_timer x \<noteq> Some t) (cq_list cfg q) \<and>
      n = rts_timer_callback_queue_count_for cfg q (Some t) \<and>
      rts_timer_callback_queue_count_for cfg q3 (Some t) = 0)"
proof (intro conjI)
  note enq = cq_enqueue_refines [OF assms(1,2) _ assms(3)]
  have full: "\<not> cq_count q < RTS_TIMER_CALLBACK_QUEUE_CAPACITY cfg \<Longrightarrow> ok = False \<and> q1 = q"
    using cq_enqueue_full [of cfg q "Some w"] assms(3) by simp
  show "cq_inv cfg q1" and "ok = (cq_count q < RTS_TIMER_CALLBACK_QUEUE_CAPACITY cfg)"
    and "if ok then cq_list cfg q1 = cq_list cfg q @ [w] else q1 = q"
    using enq full assms(1) by auto
  note deq = cq_dequeue_refines [OF assms(1,4)]
  then show "cq_inv cfg q2" by simp
  show "cq_list cfg q = (case r of None \<Rightarrow> cq_list cfg q2 | Some x \<Rightarrow> x # cq_list cfg q2)"
    and "(r = None) = (cq_list cfg q = [])"
    using deq by (cases "cq_list cfg q"; simp)+
  note rem = cq_remove_timer_refines [OF assms(1,5)]
  then show "cq_inv cfg q3" "cq_list cfg q3 = filter (\<lambda>x. wk_timer x \<noteq> Some t) (cq_list cfg q)"
    "n = rts_timer_callback_queue_count_for cfg q (Some t)" "rts_timer_callback_queue_count_for cfg q3 (Some t) = 0"
    using cq_count_for_refines [OF assms(1), of t] cq_count_for_refines [of cfg q3 t] by simp_all
qed

text \<open>A ring holding the callbacks of timers 4 and 7.\<close>

definition ex_work :: "nat \<Rightarrow> rts_timer_callback_work" where
  "ex_work i = \<lparr>wk_timer = Some i, wk_expiration_tick = 10, wk_generation = 1, wk_sequence = 1\<rparr>"

definition ex_ring :: rts_timer_callback_queue where
  "ex_ring = \<lparr>cq_items = [ex_work 4, ex_work 7] @ replicate 6 zero_work, cq_head = 0, cq_tail = 2, cq_count = 2,
     cq_maximum_depth = 2\<rparr>"

lemma ex_ring_inv: "cq_inv test_config ex_ring"
  by (subst cq_validate_iff [symmetric])
    (simp_all add: ex_ring_def test_config_def rts_timer_callback_queue_validate_def ex_work_def eval_nat_numeral
      rts_timer_callback_queue_next_def)

theorem callback_queue_is_fifo_witness:
  "cq_inv test_config (snd (rts_timer_callback_queue_enqueue test_config (Some (ex_work 2)) ex_ring)) \<and>
   cq_list test_config (snd (rts_timer_callback_queue_enqueue test_config (Some (ex_work 2)) ex_ring)) =
     cq_list test_config ex_ring @ [ex_work 2]"
  using callback_queue_is_fifo [OF ex_ring_inv _ prod.collapse [symmetric] prod.collapse [symmetric]
      prod.collapse [symmetric], of "ex_work 2" 4]
  by (simp add: ex_work_def ex_ring_def test_config_def rts_timer_callback_queue_enqueue_def Let_def)

definition emit_all :: "rts_config \<Rightarrow> (rts_tick \<times> rts_trace_event \<times> uintptr \<times> uintptr) list \<Rightarrow> rts_trace \<Rightarrow> rts_trace" where
  "emit_all cfg es tr = fold (\<lambda>(tick, ev, a0, a1). rts_trace_emit cfg tick ev a0 a1) es tr"

text \<open>Every event ever emitted, as it would be recorded without bound; the sequence number saturates.\<close>

definition nth_sequence :: "nat \<Rightarrow> uint32" where
  "nth_sequence k = of_nat (min k (2 ^ 32 - 1))"

definition full_trace :: "(rts_tick \<times> rts_trace_event \<times> uintptr \<times> uintptr) list \<Rightarrow> rts_trace_entry list" where
  "full_trace es = map (\<lambda>(k, tick, ev, a0, a1). \<lparr>te_sequence = nth_sequence k, te_tick = tick, te_argument0 = a0,
     te_argument1 = a1, te_event = Some ev\<rparr>) (enumerate 1 es)"

lemma full_trace_snoc:
  "full_trace (es @ [(tick, ev, a0, a1)]) = full_trace es @
     [\<lparr>te_sequence = nth_sequence (Suc (length es)), te_tick = tick, te_argument0 = a0, te_argument1 = a1, te_event = Some ev\<rparr>]"
  by (simp add: full_trace_def enumerate_append_eq)

lemma length_full_trace [simp]: "length (full_trace es) = length es"
  by (simp add: full_trace_def)

lemma counter_increment_sequence: "rts_diagnostic_counter_increment (nth_sequence n) = nth_sequence (Suc n)"
  unfolding word_unat_eq_iff [where 'a = 32] nth_sequence_def
  by (simp add: unat_counter_increment unsigned_of_nat take_bit_nat_eq_self min_def del: of_nat_Suc)

lemma emit_all_trace:
  assumes "trace_inv cfg tr" and "RTS_ENABLE_TRACE cfg" and "trace_used tr = 0" and "trace_sequence tr = 0"
  shows "trace_inv cfg (emit_all cfg es tr) \<and> trace_sequence (emit_all cfg es tr) = nth_sequence (length es) \<and>
    trace_used (emit_all cfg es tr) = min (length es) (RTS_TRACE_CAPACITY cfg) \<and>
    trace_list cfg (emit_all cfg es tr) = drop (length es - RTS_TRACE_CAPACITY cfg) (full_trace es)"
proof (induction es rule: rev_induct)
  case Nil
  with assms show ?case by (simp add: emit_all_def full_trace_def trace_list_def nth_sequence_def)
next
  case (snoc e es)
  obtain tick ev a0 a1 where e: "e = (tick, ev, a0, a1)" by (cases e)
  let ?tr = "emit_all cfg es tr"
  have inv: "trace_inv cfg ?tr" and seq: "trace_sequence ?tr = nth_sequence (length es)"
    and used: "trace_used ?tr = min (length es) (RTS_TRACE_CAPACITY cfg)"
    and l: "trace_list cfg ?tr = drop (length es - RTS_TRACE_CAPACITY cfg) (full_trace es)"
    using snoc.IH by simp_all
  have step: "emit_all cfg (es @ [e]) tr = rts_trace_emit cfg tick ev a0 a1 ?tr"
    by (simp add: emit_all_def e)
  note inc = counter_increment_sequence [of "length es"]
  note R = trace_emit_refines [OF inv assms(2), of tick ev a0 a1]
  have cap: "0 < RTS_TRACE_CAPACITY cfg" using inv by (simp add: trace_inv_def)
  have "trace_list cfg (emit_all cfg (es @ [e]) tr) =
      drop (Suc (length es) - RTS_TRACE_CAPACITY cfg) (full_trace (es @ [e]))"
    using cap unfolding step R(2) unfolding e full_trace_snoc used l seq inc
    by (auto simp: drop_Suc tl_drop Suc_diff_le not_less min_def)
  moreover have "trace_sequence (emit_all cfg (es @ [e]) tr) = nth_sequence (Suc (length es))"
    "trace_used (emit_all cfg (es @ [e]) tr) = min (Suc (length es)) (RTS_TRACE_CAPACITY cfg)"
    unfolding step using assms(2) inc seq used by (auto simp: rts_trace_emit_def Let_def min_def)
  ultimately show ?case using R(1) by (simp add: step)
qed

text \<open>
  C30. The trace ring (\<^verbatim>\<open>kernel/trace.c\<close>) keeps the most recent events: after any number of emissions
  into a cleared ring (tracing enabled), reading index \<open>i\<close> returns the \<open>i\<close>-th oldest of the last
  \<open>RTS_TRACE_CAPACITY\<close> events, and nothing beyond them. The \<open>k\<close>-th event carries sequence number \<open>k\<close>, or the
  largest 32-bit number once \<open>k\<close> exceeds it: the sequence saturates and never wraps.
\<close>

theorem trace_keeps_most_recent:
  assumes "trace_inv cfg tr" and "RTS_ENABLE_TRACE cfg" and "trace_used tr = 0" and "trace_sequence tr = 0"
  shows "rts_trace_count cfg (emit_all cfg es tr) = min (length es) (RTS_TRACE_CAPACITY cfg) \<and>
    rts_trace_read cfg i (emit_all cfg es tr) =
      (if i < min (length es) (RTS_TRACE_CAPACITY cfg)
       then Some (full_trace es ! (length es - min (length es) (RTS_TRACE_CAPACITY cfg) + i)) else None)"
  using emit_all_trace [OF assms, of es] assms(2)
  by (auto simp: rts_trace_count_def trace_read_refines min_def)

definition ex_trace :: rts_trace where
  "ex_trace = \<lparr>trace_buffer = replicate 64 \<lparr>te_sequence = 0, te_tick = 0, te_argument0 = 0, te_argument1 = 0,
     te_event = None\<rparr>, trace_head = 0, trace_used = 0, trace_sequence = 0, trace_overwrites = 0\<rparr>"

theorem trace_keeps_most_recent_witness:
  "rts_trace_count test_config (emit_all test_config [(1, RTS_TRACE_TICK, 1, 1), (2, RTS_TRACE_YIELD, 3, 0)] ex_trace) = 2 \<and>
   rts_trace_read test_config 1 (emit_all test_config [(1, RTS_TRACE_TICK, 1, 1), (2, RTS_TRACE_YIELD, 3, 0)] ex_trace) =
     Some \<lparr>te_sequence = 2, te_tick = 2, te_argument0 = 3, te_argument1 = 0, te_event = Some RTS_TRACE_YIELD\<rparr>"
  using trace_keeps_most_recent [of test_config ex_trace "[(1, RTS_TRACE_TICK, 1, 1), (2, RTS_TRACE_YIELD, 3, 0)]" 1]
  by (simp add: ex_trace_def trace_inv_def test_config_def full_trace_def nth_sequence_def)

text \<open>
  C32. Diagnostic counters (\<^verbatim>\<open>kernel/runtime_stats.c\<close>) saturate: any sequence of additions
  gives the exact sum of the increments while it fits into 32 bits, and the maximum from there on;
  no sequence makes a counter wrap.
\<close>

theorem counters_saturate:
  "unat (fold (\<lambda>i v. rts_diagnostic_counter_add v i) is v) = min (2 ^ 32 - 1) (unat v + sum_list (map unat is))"
proof (induction "is" arbitrary: v)
  case Nil
  show ?case using unat_u32 [of v] by simp
qed (auto simp: unat_counter_add min_def)


section \<open>An example state\<close>

text \<open>
  A kernel with empty queues for the concrete instances: tasks of priorities 3, 5 and 3 with wake
  ticks on both sides of the wrap-around of the tick counter, and three timers.
\<close>

definition ex_tcb :: "rts_priority \<Rightarrow> rts_tick \<Rightarrow> rts_tick \<Rightarrow> rts_tcb" where
  "ex_tcb p wake deadline = zero_tcb\<lparr>base_priority := p, priority := p, wake_tick := wake,
     relative_deadline := deadline, absolute_deadline := deadline, period := deadline,
     task_state := RTS_TASK_STATE_READY\<rparr>"

definition ex_kernel :: rts_kernel_state where
  "ex_kernel = \<lparr>
     tcbs = (\<lambda>_. zero_tcb)(App 0 := ex_tcb 3 4 30, App 1 := ex_tcb 5 0xfffffffe 20, App 2 := ex_tcb 3 0xfffffffe 30,
       Idle := ex_tcb 0 0 0, Service := ex_tcb 63 0 1),
     lmem = zero_mem, wmem = zero_mem, omem = zero_mem, allocated_count = 0, next_free_hint = 0,
     lifecycle = RTS_KERNEL_RUNNING, current_task = Some (App 0), idle_task = Some Idle,
     switch_plan = \<lparr>sp_from = None, sp_to = None, sp_pending = False, sp_active = False,
       sp_reselection_required = False, sp_generation = 0\<rparr>,
     timer_service_task = Some Service, ready_bitmap = [0, 0, 0], policy_release_sequence = 0,
     current_tick = 0xfffffff0, runtime_counters = \<lambda>_. 0, trace = ex_trace,
     timers = (\<lambda>_. zero_timer)(0 := zero_timer\<lparr>tm_expiration_tick := 3\<rparr>, 1 := zero_timer\<lparr>tm_expiration_tick := 0xfffffff8\<rparr>),
     callback_queue = ex_ring, tm_allocated_count = 0, tm_next_free_hint = 0,
     semaphores = \<lambda>_. \<lparr>sem_count = 0, sem_maximum_count = 0, sem_identity = None, sem_signature = 0\<rparr>,
     mutexes = \<lambda>_. \<lparr>mx_identity = None, mx_signature = 0\<rparr>,
     in_isr = False, tick_on = False, reschedule_requests = 0, bytes = \<lambda>_. 0\<rparr>"

lemma test_config_fields [simp]:
  "RTS_MAX_TASKS test_config = 8" "RTS_MAX_TIMERS test_config = 8" "RTS_TIMER_SERVICE_PRIORITY test_config = 63"
  "RTS_TIMER_CALLBACK_QUEUE_CAPACITY test_config = 8" "RTS_PRIORITY_COUNT test_config = 65" "RTS_POLICY test_config = RTS_POLICY_KIND_FIXED_PRIORITY"
  "RTS_TIME_SLICE_TICKS test_config = 10" "RTS_TRACE_CAPACITY test_config = 64" "RTS_STACK_GUARD_SIZE_BYTES test_config = 16"
  "RTS_MAX_MUTEXES_PER_TASK test_config = 8" "RTS_ENABLE_TICKLESS_IDLE test_config" "RTS_ENABLE_TIME_SLICING test_config"
  "RTS_ENABLE_ASSERTIONS test_config" "RTS_ENABLE_DIAGNOSTICS test_config" "RTS_ENABLE_TRACE test_config"
  "RTS_ENABLE_STACK_GUARDS test_config" "RTS_ENABLE_STACK_WATERMARK test_config" "RTS_ENABLE_RUNTIME_STATS test_config"
  "RTS_ENABLE_INVARIANT_CHECKS test_config"
  by (simp_all add: test_config_def)

lemma ex_kernel_fields [simp]:
  "wake_tick (tcbs ex_kernel (App 0)) = 4" "wake_tick (tcbs ex_kernel (App (Suc 0))) = 0xfffffffe"
  "wake_tick (tcbs ex_kernel (App 2)) = 0xfffffffe" "current_tick ex_kernel = 0xfffffff0"
  "priority (tcbs ex_kernel (App 0)) = 3" "priority (tcbs ex_kernel (App (Suc 0))) = 5"
  "priority (tcbs ex_kernel (App 2)) = 3" "tm_expiration_tick (timers ex_kernel (Suc 0)) = 0xfffffff8"
  by (simp_all add: ex_kernel_def ex_tcb_def)

lemma zero_mem_node [simp]:
  "node_at zero_mem n = \<lparr>nd_previous = None, nd_next = None, nd_owner = None, nd_object = None\<rparr>"
  by (simp add: zero_mem_def)

lemma ex_ready_inv: "ready_inv test_config ex_kernel"
proof -
  have "ready_bit [0, 0, 0] p = False" if "p < 96" for p
  proof -
    have "p div 32 < 3" using that by (simp add: less_mult_imp_div_less)
    then consider "p div 32 = 0" | "p div 32 = 1" | "p div 32 = 2" by linarith
    then show ?thesis by cases (simp_all add: ready_bit_def)
  qed
  then show ?thesis
    by (simp add: ready_inv_def ex_kernel_def zero_mem_ok zero_mem_nodes RTS_READY_BITMAP_WORDS_def test_config_def)
qed

lemma ex_policy_inv: "policy_inv test_config ex_kernel"
proof -
  have "fp_inv test_config ex_kernel" using ex_ready_inv test_config_ok by (simp add: fp_inv_def ex_kernel_def)
  then show ?thesis by (simp add: policy_inv_def test_config_def)
qed

lemma ex_policy_order: "policy_order test_config ex_kernel = []"
  by (simp add: policy_order_def test_config_def fp_order_def ready_tasks_def [abs_def] ex_kernel_def zero_mem_nodes)

lemma ex_delay_wf: "delay_wf test_config ex_kernel" and ex_delayed: "delayed ex_kernel = []"
  by (simp_all add: delay_wf_def delayed_def ex_kernel_def zero_mem_ok zero_mem_nodes)

lemma ex_timer_wf: "timer_wf test_config ex_kernel" and ex_active_timers: "active_timers ex_kernel = []"
  by (simp_all add: timer_wf_def active_timers_def ex_kernel_def zero_mem_ok zero_mem_nodes)


section \<open>Ordered queues\<close>

lemma wake_before_lmem [simp]: "wake_before (s\<lparr>lmem := m\<rparr>) = wake_before s"
  by (simp add: wake_before_def fun_eq_iff)

lemma delay_insert_all:
  assumes "delay_inv cfg s" and "config_ok cfg" and "distinct (ts @ delayed s)"
    and "\<And>t. t \<in> set ts \<Longrightarrow> valid_task cfg t \<and> wake_tick (tcbs s t) \<in> tick_window (current_tick s)"
  shows "\<exists>m. for_loop (\<lambda>t. rts_delay_insert cfg (Some t)) ts s = Inr (s\<lparr>lmem := m\<rparr>) \<and>
    delay_inv cfg (s\<lparr>lmem := m\<rparr>) \<and> delayed (s\<lparr>lmem := m\<rparr>) = fold (stable_insert (wake_before s)) ts (delayed s)"
  using assms
proof (induction ts arbitrary: s)
  case Nil
  then show ?case by (intro exI [of _ "lmem s"]) simp
next
  case (Cons t ts)
  have t: "valid_task cfg t" "t \<notin> set (delayed s)" "wake_tick (tcbs s t) \<in> tick_window (current_tick s)"
    using Cons.prems(3,4) by auto
  obtain m where m: "rts_delay_insert cfg (Some t) s = Inr (s\<lparr>lmem := m\<rparr>)" "delay_inv cfg (s\<lparr>lmem := m\<rparr>)"
    "delayed (s\<lparr>lmem := m\<rparr>) = stable_insert (wake_before s) t (delayed s)"
    using delay_insert_ok [OF Cons.prems(1,2) t] by metis
  obtain m' where "for_loop (\<lambda>t. rts_delay_insert cfg (Some t)) ts (s\<lparr>lmem := m\<rparr>) = Inr (s\<lparr>lmem := m\<rparr>\<lparr>lmem := m'\<rparr>)"
    "delay_inv cfg (s\<lparr>lmem := m\<rparr>\<lparr>lmem := m'\<rparr>)"
    "delayed (s\<lparr>lmem := m\<rparr>\<lparr>lmem := m'\<rparr>) = fold (stable_insert (wake_before (s\<lparr>lmem := m\<rparr>))) ts (delayed (s\<lparr>lmem := m\<rparr>))"
    using Cons.IH [OF m(2) Cons.prems(2)] Cons.prems(3,4) m(3) by auto
  with m show ?case by (intro exI [of _ m']) simp
qed

text \<open>
  C19. The delay queue (\<^verbatim>\<open>kernel/delay_queue.c\<close>) sorts by wake-up time across the wrap-around of the
  tick counter: inserting any distinct tasks whose wake ticks lie within half the tick range keeps
  the queue ordered, first come first served among equal wake ticks (each insertion is the stable one),
  and the next deadline it reports is that of a queued task that no other queued task precedes.
\<close>

theorem delay_queue_sorts:
  assumes "delay_inv cfg s" and "config_ok cfg" and "distinct (ts @ delayed s)"
    and "\<forall>t \<in> set ts. valid_task cfg t \<and> wake_tick (tcbs s t) \<in> tick_window (current_tick s)"
  shows "\<exists>s'. for_loop (\<lambda>t. rts_delay_insert cfg (Some t)) ts s = Inr s' \<and> delay_inv cfg s' \<and>
    delayed s' = fold (stable_insert (wake_before s)) ts (delayed s) \<and>
    (\<exists>d. rts_delay_next_deadline cfg s' = Inr d \<and>
       (\<forall>t \<in> set (delayed s'). d \<noteq> None \<and> the d \<in> (\<lambda>u. wake_tick (tcbs s u)) ` set (delayed s') \<and>
          \<not> rts_tick_before (wake_tick (tcbs s t)) (the d)))"
proof -
  obtain m where m: "for_loop (\<lambda>t. rts_delay_insert cfg (Some t)) ts s = Inr (s\<lparr>lmem := m\<rparr>)"
    "delay_inv cfg (s\<lparr>lmem := m\<rparr>)" "delayed (s\<lparr>lmem := m\<rparr>) = fold (stable_insert (wake_before s)) ts (delayed s)"
    using delay_insert_all [OF assms(1-3)] assms(4) by blast
  have wf: "delay_wf cfg (s\<lparr>lmem := m\<rparr>)" and ord: "ordered_by (wake_before s) (delayed (s\<lparr>lmem := m\<rparr>))"
    using m(2) by (simp_all add: delay_inv_def)
  have irr: "\<not> rts_tick_before x x" for x by (simp add: rts_tick_before_iff)
  show ?thesis
    using m(1,2) m(3) [symmetric] ord delay_next_deadline_ok [OF wf]
    by (cases "delayed (s\<lparr>lmem := m\<rparr>)") (auto simp: wake_before_def irr intro!: exI [of _ "s\<lparr>lmem := m\<rparr>"])
qed

theorem delay_queue_sorts_witness:
  "\<exists>s'. for_loop (\<lambda>t. rts_delay_insert test_config (Some t)) [App 0, App 1, App 2] ex_kernel = Inr s' \<and>
     delayed s' = [App 1, App 2, App 0]"
proof -
  have "delay_inv test_config ex_kernel" by (simp add: delay_inv_def ex_delay_wf ex_delayed)
  moreover have "fold (stable_insert (wake_before ex_kernel)) [App 0, App 1, App 2] [] = [App 1, App 2, App 0]"
    by (simp add: wake_before_def rts_tick_before_iff)
  ultimately show ?thesis
    using delay_queue_sorts [of test_config ex_kernel "[App 0, App 1, App 2]"] test_config_ok
    by (auto simp: ex_delayed tick_window_def)
qed

definition timer_ordered :: "rts_tick \<Rightarrow> rts_kernel_state \<Rightarrow> bool" where
  "timer_ordered base s \<longleftrightarrow> ordered_by (expires_before s) (active_timers s) \<and>
     (\<forall>t \<in> set (active_timers s). tm_expiration_tick (timers s t) \<in> tick_window base)"

lemma tick_before_window_unat:
  "x \<in> tick_window base \<Longrightarrow> y \<in> tick_window base \<Longrightarrow> rts_tick_before x y \<longleftrightarrow> unat (x - base) < unat (y - base)"
  by (simp add: tick_window_def rts_tick_before_window [of _ base])

lemma tick_window_eq:
  "x \<in> tick_window base \<Longrightarrow> y \<in> tick_window base \<Longrightarrow> x = y \<longleftrightarrow> unat (x - base) = unat (y - base)"
  by (simp add: word_unat_eq_iff [symmetric])

lemma tick_reached_window:
  "now \<in> tick_window base \<Longrightarrow> d \<in> tick_window base \<Longrightarrow> rts_tick_reached now d \<longleftrightarrow> unat (d - base) \<le> unat (now - base)"
  by (auto simp: rts_tick_reached_def tick_before_window_unat tick_window_eq le_less)

text \<open>
  C20. The queue of active timers (\<^verbatim>\<open>kernel/timer_queue.c\<close>): inserting a timer is stable insertion by
  expiration tick, and removing it again restores the queue; while the expiration ticks
  lie within half the tick range of a common base, the queue stays ordered, so the deadline
  reported is that of a queued timer which no other precedes; at any time of that range, this timer is
  the one reported as expired, if any queued timer has expired, and otherwise none is.
\<close>

theorem timer_queue_sorts:
  assumes "timer_wf cfg s" and "config_ok cfg" and "t < RTS_MAX_TIMERS cfg" and "t \<notin> set (active_timers s)"
    and "timer_ordered base s" and "tm_expiration_tick (timers s t) \<in> tick_window base"
  shows "\<exists>s1 s2. rts_timer_queue_insert cfg (Some t) s = Inr s1 \<and> timer_wf cfg s1 \<and> timer_ordered base s1 \<and>
    active_timers s1 = stable_insert (expires_before s) t (active_timers s) \<and>
    (\<exists>u \<in> set (active_timers s1). rts_timer_queue_next_deadline cfg s1 = Inr (Some (tm_expiration_tick (timers s u))) \<and>
       (\<forall>v \<in> set (active_timers s1). \<not> rts_tick_before (tm_expiration_tick (timers s v)) (tm_expiration_tick (timers s u))) \<and>
       (\<forall>now \<in> tick_window base. rts_timer_queue_peek_expired cfg now s1 =
          Inr (if \<exists>v \<in> set (active_timers s1). rts_tick_reached now (tm_expiration_tick (timers s v)) then Some u else None))) \<and>
    rts_timer_queue_remove cfg (Some t) s1 = Inr s2 \<and> timer_wf cfg s2 \<and> active_timers s2 = active_timers s"
proof -
  obtain m where m: "rts_timer_queue_insert cfg (Some t) s = Inr (s\<lparr>lmem := m\<rparr>)" "timer_wf cfg (s\<lparr>lmem := m\<rparr>)"
    "active_timers (s\<lparr>lmem := m\<rparr>) = stable_insert (expires_before s) t (active_timers s)"
    using timer_queue_insert_ok [OF assms(1-4)] by metis
  obtain m' where m': "rts_timer_queue_remove cfg (Some t) (s\<lparr>lmem := m\<rparr>) = Inr (s\<lparr>lmem := m\<rparr>\<lparr>lmem := m'\<rparr>)"
    "timer_wf cfg (s\<lparr>lmem := m\<rparr>\<lparr>lmem := m'\<rparr>)"
    "active_timers (s\<lparr>lmem := m\<rparr>\<lparr>lmem := m'\<rparr>) = remove1 t (active_timers (s\<lparr>lmem := m\<rparr>))"
    using timer_queue_remove_ok [OF m(2), of t] m(3) by auto
  have eb: "expires_before (s\<lparr>lmem := m\<rparr>) = expires_before s"
    "expires_before s = (\<lambda>x y. rts_tick_before (tm_expiration_tick (timers s x)) (tm_expiration_tick (timers s y)))"
    by (simp_all add: expires_before_def fun_eq_iff)
  have ord: "ordered_by (expires_before s) (stable_insert (expires_before s) t (active_timers s))"
    using assms(5,6) unfolding timer_ordered_def eb(2)
    by (intro tick.stable_insert_ordered [where base = base]) auto
  have irr: "\<not> rts_tick_before x x" for x by (simp add: rts_tick_before_iff)
  have rem: "t \<notin> set xs \<Longrightarrow> remove1 t (stable_insert lt t xs) = xs" for xs lt by (induction xs) auto
  obtain u us where u: "stable_insert (expires_before s) t (active_timers s) = u # us"
    by (metis length_stable_insert length_Suc_conv)
  have "timer_ordered base (s\<lparr>lmem := m\<rparr>)"
    using ord assms(5,6) by (simp add: timer_ordered_def m(3) eb(1))
  moreover have first: "\<not> rts_tick_before (tm_expiration_tick (timers s v)) (tm_expiration_tick (timers s u))"
    if "v \<in> set (u # us)" for v
    using ord that unfolding u by (auto simp: expires_before_def irr)
  moreover have "rts_timer_queue_peek_expired cfg now (s\<lparr>lmem := m\<rparr>) =
      Inr (if \<exists>v \<in> set (u # us). rts_tick_reached now (tm_expiration_tick (timers s v)) then Some u else None)"
    if now: "now \<in> tick_window base" for now
  proof -
    have w: "tm_expiration_tick (timers s v) \<in> tick_window base" if "v \<in> set (u # us)" for v
      using that assms(5,6) unfolding u [symmetric] by (auto simp: timer_ordered_def)
    have "rts_tick_reached now (tm_expiration_tick (timers s u))"
      if "v \<in> set (u # us)" "rts_tick_reached now (tm_expiration_tick (timers s v))" for v
      using that first [OF that(1)] w [OF that(1)] w [of u] now
      by (simp add: tick_reached_window tick_before_window_unat)
    then have "(\<exists>v \<in> set (u # us). rts_tick_reached now (tm_expiration_tick (timers s v))) \<longleftrightarrow>
        rts_tick_reached now (tm_expiration_tick (timers s u))" by (meson list.set_intros(1))
    then show ?thesis using timer_queue_peek_expired_ok [OF m(2), of now] m(3) u by simp
  qed
  moreover have "rts_timer_queue_next_deadline cfg (s\<lparr>lmem := m\<rparr>) = Inr (Some (tm_expiration_tick (timers s u)))"
    using timer_queue_next_deadline_ok [OF m(2)] m(3) u by simp
  moreover have "active_timers (s\<lparr>lmem := m\<rparr>\<lparr>lmem := m'\<rparr>) = active_timers s"
    unfolding m'(3) m(3) by (rule rem [OF assms(4)])
  ultimately show ?thesis
    using m m'(1,2)
    by (intro exI [of _ "s\<lparr>lmem := m\<rparr>"] exI [of _ "s\<lparr>lmem := m\<rparr>\<lparr>lmem := m'\<rparr>"] conjI bexI [of _ u]) (simp_all add: u)
qed

theorem timer_queue_sorts_witness:
  "\<exists>s1. rts_timer_queue_insert test_config (Some 1) ex_kernel = Inr s1 \<and> active_timers s1 = [1]"
  using timer_queue_sorts [of test_config ex_kernel 1 "0xfffffff0"] test_config_ok ex_timer_wf
  by (auto simp: timer_ordered_def ex_active_timers tick_window_def)


text \<open>
  C21. Wait objects (\<^verbatim>\<open>kernel/wait_object.c\<close>): after a task joins, the next task to be served is one of
  the highest priority among all that wait, the one that came first among equals; it is exactly the
  joining task if its priority is strictly above that of every earlier waiter.
\<close>

theorem wait_object_serves_highest:
  assumes "mem_ok (wmem s)" and "waiters_ok cfg s w" and "i < RTS_MAX_TASKS cfg" and "wait_owner (App i) s = None"
  shows "\<exists>s1 s2 t. rts_wait_object_insert cfg (Some w) (Some (App i)) s = Inr s1 \<and>
    set (waiting s1 w) = insert (App i) (set (waiting s w)) \<and>
    rts_wait_object_pop_highest cfg (Some w) s1 = Inr (Some t, s2) \<and> waiting s1 w = t # waiting s2 w \<and>
    waiters_ok cfg s2 w \<and> wait_owner t s2 = None \<and>
    (\<forall>u \<in> set (waiting s2 w). priority (tcbs s u) \<le> priority (tcbs s t)) \<and>
    t = (case waiting s w of [] \<Rightarrow> App i
         | u # _ \<Rightarrow> if priority (tcbs s u) < priority (tcbs s (App i)) then App i else u)"
proof -
  obtain m where m: "rts_wait_object_insert cfg (Some w) (Some (App i)) s = Inr (s\<lparr>wmem := m\<rparr>)" "mem_ok m"
    "waiters_ok cfg (s\<lparr>wmem := m\<rparr>) w"
    "nodes_of m = (nodes_of (wmem s))(w := stable_insert (fp_before s) (App i) (waiting s w))"
    using wait_object_insert_ok [OF assms] by metis
  let ?s1 = "s\<lparr>wmem := m\<rparr>"
  obtain t ts where t: "stable_insert (fp_before s) (App i) (waiting s w) = t # ts"
    by (metis length_stable_insert length_Suc_conv)
  then have t1: "waiting ?s1 w = t # ts" using m(4) by simp
  obtain m' where m': "rts_wait_object_pop_highest cfg (Some w) ?s1 = Inr (Some t, ?s1\<lparr>wmem := m'\<rparr>)" "mem_ok m'"
    "waiters_ok cfg (?s1\<lparr>wmem := m'\<rparr>) w" "nodes_of m' = (nodes_of m)(w := ts)" "nd_owner (node_at m' t) = None"
    using wait_pop_highest_ok [OF _ m(3) t1] m(2) by auto
  have "ordered_by (fp_before ?s1) (t # ts)" using m(3) t1 by (simp add: waiters_ok_def)
  then have top: "\<forall>u \<in> set ts. priority (tcbs s u) \<le> priority (tcbs s t)"
    by (auto simp: fp_before_iff)
  have who: "t = (case waiting s w of [] \<Rightarrow> App i
      | u # _ \<Rightarrow> if priority (tcbs s u) < priority (tcbs s (App i)) then App i else u)"
    using t by (auto simp: fp_before_iff split: list.splits if_splits)
  have "set (waiting ?s1 w) = insert (App i) (set (waiting s w))" by (simp add: m(4))
  moreover have "waiting ?s1 w = t # waiting (?s1\<lparr>wmem := m'\<rparr>) w" using t1 m'(4) by simp
  moreover have "\<forall>u \<in> set (waiting (?s1\<lparr>wmem := m'\<rparr>) w). priority (tcbs s u) \<le> priority (tcbs s t)"
    using top m'(4) by simp
  moreover have "wait_owner t (?s1\<lparr>wmem := m'\<rparr>) = None" using m'(5) by simp
  ultimately show ?thesis using m(1) m'(1,3) who by blast
qed

theorem wait_object_serves_highest_witness:
  "\<exists>s1 s2. rts_wait_object_insert test_config (Some (Sem_Waiters 0)) (Some (App 2)) ex_kernel = Inr s1 \<and>
    rts_wait_object_pop_highest test_config (Some (Sem_Waiters 0)) s1 = Inr (Some (App 2), s2)"
  using wait_object_serves_highest [of ex_kernel test_config "Sem_Waiters 0" 2]
  by (auto simp: ex_kernel_def waiters_ok_def zero_mem_ok zero_mem_nodes)

section \<open>Scheduling policies\<close>

text \<open>
  C15. Fixed priority (\<^verbatim>\<open>kernel/policy_fixed_priority.c\<close>, \<^verbatim>\<open>kernel/ready_queue.c\<close>): the bitmap search picks
  a task exactly if some task is queued, and then a queued task of the highest priority of all
  queued ones, the oldest of its priority.
\<close>

theorem fp_picks_highest:
  assumes "fp_inv cfg s"
  shows "\<exists>r. rts_policy_fp_pick_next cfg s = Inr r \<and> ((r = None) = (\<forall>t. ready_owner t s = None)) \<and>
    (\<forall>t. r = Some t \<longrightarrow> (\<exists>ts. ready_tasks s (unat (priority (tcbs s t))) = t # ts) \<and>
      (\<forall>u. ready_owner u s \<noteq> None \<longrightarrow> priority (tcbs s u) \<le> priority (tcbs s t)))"
proof -
  have r: "ready_inv cfg s" using assms by (simp add: fp_inv_def)
  have pick: "rts_policy_fp_pick_next cfg s = Inr (hd_or (fp_order cfg s) None)" by (rule fp.pick_law [OF assms])
  have top: "priority (tcbs s u) \<le> priority (tcbs s t)" if "fp_order cfg s = t # ts" "ready_owner u s \<noteq> None" for t ts u
    using fp_order_ordered [OF r] fp.order_owner [OF assms, of u] that by (auto simp: fp_before_iff)
  have front: "\<exists>us. ready_tasks s (unat (priority (tcbs s t))) = t # us" if t: "fp_order cfg s = t # ts" for t ts
  proof -
    let ?p = "unat (priority (tcbs s t))"
    have "t \<in> set (fp_order cfg s)" by (simp add: t)
    then have "?p < RTS_PRIORITY_COUNT cfg"
      using ready_tasks_priority [OF r] by (fastforce simp: fp_order_def)
    from ready_tasks_filter [OF r this]
    show ?thesis by (simp add: t)
  qed
  show ?thesis
    using pick top front fp.pick_none_iff [OF assms]
    by (cases "fp_order cfg s") (auto intro!: exI [of _ "hd_or (fp_order cfg s) None"])
qed

text \<open>The example state with the three tasks made ready.\<close>

lemma ex_insert:
  assumes inv: "fp_inv test_config (ex_kernel\<lparr>lmem := m, ready_bitmap := b\<rparr>)"
    and o: "fp_order test_config (ex_kernel\<lparr>lmem := m, ready_bitmap := b\<rparr>) = ts"
    and t: "t \<notin> set ts" "t \<in> {App 0, App 1, App 2}"
  obtains m' b' where "fp_inv test_config (ex_kernel\<lparr>lmem := m', ready_bitmap := b'\<rparr>)"
    and "fp_order test_config (ex_kernel\<lparr>lmem := m', ready_bitmap := b'\<rparr>) = stable_insert (fp_before ex_kernel) t ts"
proof -
  have adm: "fp_adm test_config t (ex_kernel\<lparr>lmem := m, ready_bitmap := b\<rparr>)" using t(2) by (auto simp: fp_adm_def)
  have bef: "fp_before (ex_kernel\<lparr>lmem := m, ready_bitmap := b\<rparr>) = fp_before ex_kernel" by (simp add: fp_before_def fun_eq_iff)
  show ?thesis using fp_insert_law [OF inv adm] t(1) that by (auto simp: o bef)
qed

lemma ex_three_ready:
  obtains s m b where "s = ex_kernel\<lparr>lmem := m, ready_bitmap := b\<rparr>" and "fp_inv test_config s"
    and "fp_order test_config s = [App 1, App 0, App 2]"
proof -
  have inv: "fp_inv test_config (ex_kernel\<lparr>lmem := lmem ex_kernel, ready_bitmap := ready_bitmap ex_kernel\<rparr>)"
    using ex_policy_inv by (simp add: policy_inv_def)
  have o: "fp_order test_config (ex_kernel\<lparr>lmem := lmem ex_kernel, ready_bitmap := ready_bitmap ex_kernel\<rparr>) = []"
    using ex_policy_order by (simp add: policy_order_def)
  obtain m b where 1: "fp_inv test_config (ex_kernel\<lparr>lmem := m, ready_bitmap := b\<rparr>)"
    "fp_order test_config (ex_kernel\<lparr>lmem := m, ready_bitmap := b\<rparr>) = [App 0]"
    by (rule ex_insert [OF inv o, of "App 0"]) simp_all
  obtain m b where 2: "fp_inv test_config (ex_kernel\<lparr>lmem := m, ready_bitmap := b\<rparr>)"
    "fp_order test_config (ex_kernel\<lparr>lmem := m, ready_bitmap := b\<rparr>) = [App 1, App 0]"
    by (rule ex_insert [OF 1, of "App 1"]) (simp_all add: fp_before_iff)
  obtain m b where 3: "fp_inv test_config (ex_kernel\<lparr>lmem := m, ready_bitmap := b\<rparr>)"
    "fp_order test_config (ex_kernel\<lparr>lmem := m, ready_bitmap := b\<rparr>) = [App 1, App 0, App 2]"
    by (rule ex_insert [OF 2, of "App 2"]) (simp_all add: fp_before_iff)
  then show ?thesis by (rule that [OF refl])
qed

theorem fp_picks_highest_witness:
  "\<exists>s. fp_inv test_config s \<and> ready_owner (App 0) s \<noteq> None \<and> priority (tcbs s (App 0)) = 3 \<and>
    (\<exists>t. rts_policy_fp_pick_next test_config s = Inr (Some t) \<and> 3 \<le> priority (tcbs s t))"
proof -
  obtain s m b where s: "s = ex_kernel\<lparr>lmem := m, ready_bitmap := b\<rparr>" "fp_inv test_config s"
    "fp_order test_config s = [App 1, App 0, App 2]" by (rule ex_three_ready)
  have r: "ready_owner (App 0) s \<noteq> None" using fp.order_owner [OF s(2), of "App 0"] s(3) by simp
  have p: "priority (tcbs s (App 0)) = 3" by (simp add: s(1))
  with fp_picks_highest [OF s(2)] r show ?thesis using s(2) by (metis option.exhaust)
qed

text \<open>Deadlines first, release order second: an order while both stay within half the range.\<close>

definition edf_window :: "rts_tick \<Rightarrow> uint32 \<Rightarrow> rts_kernel_state \<Rightarrow> task_ref set" where
  "edf_window base seq s = {t. Some t = idle_task s \<or>
     (absolute_deadline (tcbs s t) \<in> tick_window base \<and> release_sequence (tcbs s t) \<in> tick_window seq)}"

interpretation edf_lex: stable_order "rts_policy_edf_is_before s" "edf_window base seq s"
  for s and base :: rts_tick and seq :: uint32
proof unfold_locales
  fix x y z
  let ?d = "\<lambda>t. unat (absolute_deadline (tcbs s t) - base)" and ?r = "\<lambda>t. unat (release_sequence (tcbs s t) - seq)"
  have before: "rts_policy_edf_is_before s t u \<longleftrightarrow> Some t \<noteq> idle_task s \<and>
      (Some u = idle_task s \<or> ?d t < ?d u \<or> ?d t = ?d u \<and> ?r t < ?r u)"
    if "t \<in> edf_window base seq s" "u \<in> edf_window base seq s" for t u
    using that
    by (auto simp: rts_policy_edf_is_before_def edf_window_def tick_before_window_unat [where base = base]
        tick_before_window_unat [where base = seq] tick_window_eq [where base = base] tick_window_eq [where base = seq])
  assume xy: "x \<in> edf_window base seq s" "y \<in> edf_window base seq s"
  show "\<not> rts_policy_edf_is_before s y x" if "rts_policy_edf_is_before s x y"
    using that xy by (auto simp: before)
  show "\<not> rts_policy_edf_is_before s z x" if "z \<in> edf_window base seq s"
    "\<not> rts_policy_edf_is_before s y x" "\<not> rts_policy_edf_is_before s z y"
    using that xy by (auto simp: before)
qed

text \<open>
  C14. Earliest deadline first (\<^verbatim>\<open>kernel/policy_edf.c\<close>): while the deadlines of the ready tasks
  lie within half the tick range and their release numbers within half the range of the counter, a task that
  becomes ready is queued so that the order stays one by deadline and release; the task then picked
  is ready, and no ready task has an earlier deadline (the idle task comes last).
\<close>

theorem edf_picks_earliest:
  assumes "edf_inv cfg s" and "valid_task cfg t" and "t \<notin> set (edf_order s)"
    and "ordered_by (rts_policy_edf_is_before s) (edf_order s)"
    and "insert t (set (edf_order s)) \<subseteq> edf_window base seq s"
  shows "\<exists>s' u. rts_policy_edf_insert cfg (Some t) s = Inr (True, s') \<and> edf_inv cfg s' \<and>
    set (edf_order s') = insert t (set (edf_order s)) \<and>
    ordered_by (rts_policy_edf_is_before s') (edf_order s') \<and> rts_policy_edf_pick_next s' = Some u \<and>
    u \<in> set (edf_order s') \<and> (\<forall>v \<in> set (edf_order s'). Some v \<noteq> idle_task s \<longrightarrow>
      Some u \<noteq> idle_task s \<and> \<not> rts_tick_before (absolute_deadline (tcbs s v)) (absolute_deadline (tcbs s u)))"
proof -
  obtain m b where i: "rts_policy_edf_insert cfg (Some t) s = Inr (True, s\<lparr>lmem := m, ready_bitmap := b\<rparr>)"
    and inv: "edf_inv cfg (s\<lparr>lmem := m, ready_bitmap := b\<rparr>)"
    and ord: "edf_order (s\<lparr>lmem := m, ready_bitmap := b\<rparr>) = stable_insert (rts_policy_edf_is_before s) t (edf_order s)"
    using edf_insert_law [OF assms(1-3)] by blast
  let ?s' = "s\<lparr>lmem := m, ready_bitmap := b\<rparr>"
  have bef: "rts_policy_edf_is_before ?s' = rts_policy_edf_is_before s"
    by (simp add: rts_policy_edf_is_before_def fun_eq_iff)
  have sorted: "ordered_by (rts_policy_edf_is_before s) (edf_order ?s')"
    unfolding ord using assms(4,5) by (intro edf_lex.stable_insert_ordered [of s _ base seq]) auto
  obtain u us where u: "edf_order ?s' = u # us" unfolding ord by (metis length_stable_insert length_Suc_conv)
  have pick: "rts_policy_edf_pick_next ?s' = Some u"
    using edf.pick_law [OF inv] u by simp
  have carrier: "set (edf_order ?s') \<subseteq> edf_window base seq s" using assms(5) by (simp add: ord)
  have irr: "\<not> rts_tick_before x x" for x by (simp add: rts_tick_before_iff)
  have "Some u \<noteq> idle_task s \<and> \<not> rts_tick_before (absolute_deadline (tcbs s v)) (absolute_deadline (tcbs s u))"
    if v: "v \<in> set (edf_order ?s')" "Some v \<noteq> idle_task s" for v
  proof -
    have "\<not> rts_policy_edf_is_before s v u"
      using edf_lex.ordered_head_minimal [of s u us v base seq] sorted carrier v(1) by (simp add: u)
    with v(2) irr show ?thesis by (auto simp: rts_policy_edf_is_before_def split: if_splits)
  qed
  moreover have "set (edf_order ?s') = insert t (set (edf_order s))" by (simp add: ord)
  moreover have "u \<in> set (edf_order ?s')" by (simp add: u)
  moreover have "ordered_by (rts_policy_edf_is_before ?s') (edf_order ?s')" using sorted by (simp only: bef)
  ultimately show ?thesis using i inv pick by blast
qed



text \<open>The example state scheduled by deadline.\<close>

definition edf_config :: rts_config where
  "edf_config = test_config\<lparr>RTS_POLICY := RTS_POLICY_KIND_EDF\<rparr>"

lemma edf_config_ok: "config_ok edf_config"
  using test_config_ok by (simp add: edf_config_def config_ok_def rts_types_checks_def config_internal_checks_def)

lemma ex_edf_inv: "edf_inv edf_config ex_kernel" and ex_edf_order: "edf_order ex_kernel = []"
  using edf_config_ok by (simp_all add: edf_inv_def edf_order_def ex_kernel_def zero_mem_ok zero_mem_nodes)

theorem edf_picks_earliest_witness:
  "\<exists>s'. rts_policy_edf_insert edf_config (Some (App 1)) ex_kernel = Inr (True, s') \<and>
    rts_policy_edf_pick_next s' = Some (App 1)"
proof -
  have "App 1 \<in> edf_window 0 0 ex_kernel"
    by (simp add: edf_window_def tick_window_def ex_kernel_def ex_tcb_def zero_tcb_def)
  moreover have "valid_task edf_config (App 1)" by (simp add: edf_config_def)
  ultimately show ?thesis
    using edf_picks_earliest [OF ex_edf_inv, of "App 1" 0 0] by (auto simp: ex_edf_order)
qed

text \<open>
  C17. The policy dispatcher (\<^verbatim>\<open>kernel/scheduler_policy.c\<close>), whichever policy is configured: a task made
  ready is the next to run exactly if it goes before the task that was next; taking it out again
  restores the service order, and validation sees it ready in between and not ready afterwards.
\<close>

theorem policy_insert_pick_remove:
  assumes "policy_inv cfg s" and "policy_adm cfg t s" and "t \<notin> set (policy_order cfg s)"
  shows "\<exists>s1 s2. rts_policy_insert cfg (Some t) s = Inr (True, s1) \<and> policy_inv cfg s1 \<and>
    rts_policy_pick_next cfg s1 = Inr (Some (case policy_order cfg s of [] \<Rightarrow> t
      | u # _ \<Rightarrow> if policy_before cfg (rts_policy_record_release t s) t u then t else u)) \<and>
    rts_policy_validate cfg (Some t) True s1 = Inr True \<and> rts_policy_validate cfg (Some t) False s1 = Inr False \<and>
    rts_policy_remove cfg (Some t) s1 = Inr (True, s2) \<and> policy_inv cfg s2 \<and>
    policy_order cfg s2 = policy_order cfg s \<and>
    rts_policy_validate cfg (Some t) True s2 = Inr False \<and> rts_policy_validate cfg (Some t) False s2 = Inr True"
proof -
  obtain m b s1 where s1: "s1 = (rts_policy_record_release t s)\<lparr>lmem := m, ready_bitmap := b\<rparr>"
    "rts_policy_insert cfg (Some t) s = Inr (True, s1)" "policy_inv cfg s1"
    "policy_order cfg s1 = stable_insert (policy_before cfg (rts_policy_record_release t s)) t (policy_order cfg s)"
    using policy.insert_law [OF assms] by blast
  have t: "t \<in> set (policy_order cfg s1)" by (simp add: s1(4))
  obtain m' b' s2 where s2: "s2 = s1\<lparr>lmem := m', ready_bitmap := b'\<rparr>"
    "rts_policy_remove cfg (Some t) s1 = Inr (True, s2)" "policy_inv cfg s2" "policy_order cfg s2 = remove1 t (policy_order cfg s1)"
    using policy.remove_law [OF s1(3) t] by blast
  have "policy_adm cfg t (rts_policy_record_release t s)" by (rule policy.prep_law(2) [OF assms(2)])
  then have adm: "policy_adm cfg t s1" "policy_adm cfg t s2" by (rule policy.adm_cong; simp add: s1(1) s2(1))+
  have rem: "t \<notin> set xs \<Longrightarrow> remove1 t (stable_insert lt t xs) = xs" for xs lt by (induction xs) auto
  have o2: "policy_order cfg s2 = policy_order cfg s" unfolding s2(4) s1(4) by (rule rem [OF assms(3)])
  have "rts_policy_pick_next cfg s1 = Inr (Some (case policy_order cfg s of [] \<Rightarrow> t
      | u # _ \<Rightarrow> if policy_before cfg (rts_policy_record_release t s) t u then t else u))"
    using policy.pick_law [OF s1(3)] by (auto simp: s1(4) split: list.splits)
  with s1(2,3) s2(2,3) o2 policy.validate_law [OF s1(3) adm(1)] policy.validate_law [OF s2(3) adm(2)] t assms(3)
  show ?thesis by simp
qed

theorem policy_insert_pick_remove_witness:
  "\<exists>s1. rts_policy_insert test_config (Some (App 1)) ex_kernel = Inr (True, s1) \<and>
    rts_policy_pick_next test_config s1 = Inr (Some (App 1))"
  using policy_insert_pick_remove [of test_config ex_kernel "App 1"] ex_policy_inv ex_policy_order
  by (auto simp: policy_adm_def)

section \<open>Round robin\<close>

text \<open>\<open>k\<close> yields by whichever task is at the front of priority \<open>p\<close>.\<close>

fun yield_rounds :: "rts_config \<Rightarrow> nat \<Rightarrow> nat \<Rightarrow> rts_kernel_state \<Rightarrow> rts_fatal + rts_kernel_state" where
  "yield_rounds cfg p 0 s = Inr s"
| "yield_rounds cfg p (Suc k) s =
     bnd (rts_policy_fp_yield cfg (hd_or (ready_tasks s p) None) s) (\<lambda>(_, s). yield_rounds cfg p k s)"

lemma fp_yield_rotates:
  assumes inv: "fp_inv cfg s" and p: "ready_tasks s p = t # ts"
  obtains m where "rts_policy_fp_yield cfg (Some t) s = Inr (ts \<noteq> [], s\<lparr>lmem := m\<rparr>)"
    and "fp_inv cfg (s\<lparr>lmem := m\<rparr>)" and "ready_tasks (s\<lparr>lmem := m\<rparr>) = (ready_tasks s)(p := ts @ [t])"
proof -
  have r: "ready_inv cfg s" and cfg: "config_ok cfg" using inv by (simp_all add: fp_inv_def)
  have tp: "unat (priority (tcbs s t)) = p" "p < RTS_PRIORITY_COUNT cfg"
    using ready_tasks_priority [OF r, of t p] p by simp_all
  have own: "ready_owner t s = Some (Ready_List p)" using ready_tasks_iff [OF r, of t p] p by simp
  have t: "t \<in> set (fp_order cfg s)" using own by (simp add: fp_order_iff [OF r] tp(1))
  have con: "rts_ready_contains cfg (Some t) s = Inr True" using ready_contains_ok [OF r, of t] t tp by simp
  have has: "rts_ready_has_peer cfg (Some t) s = Inr (ts \<noteq> [])"
    using ready_has_peer_ok [OF r t] by (simp add: tp(1) p)
  show ?thesis
  proof (cases "ts = []")
    case True
    then have "(ready_tasks s)(p := ts @ [t]) = ready_tasks s" using p by auto
    with True con has inv show ?thesis by (intro that [of "lmem s"]) (simp_all add: rts_policy_fp_yield_def)
  next
    case False
    then have peer: "1 < length (ready_tasks s (unat (priority (tcbs s t))))" by (simp add: tp(1) p Suc_le_eq)
    obtain m where rot: "rts_ready_rotate cfg (priority (tcbs s t)) s = Inr (s\<lparr>lmem := m\<rparr>)"
      and nodes: "nodes_of m = (nodes_of (lmem s))(Ready_List p :=
        tl (nodes_of (lmem s) (Ready_List p)) @ [hd (nodes_of (lmem s) (Ready_List p))])"
      using ready_rotate_ok [OF r cfg, of "priority (tcbs s t)"] tp peer by auto
    have front: "hd_or (ready_tasks s (unat (priority (tcbs s t)))) None = Some t" by (simp add: tp(1) p)
    obtain m' where m': "rts_policy_fp_yield cfg (Some t) s = Inr (True, s\<lparr>lmem := m'\<rparr>)" "fp_inv cfg (s\<lparr>lmem := m'\<rparr>)"
      using fp_yield_law [OF inv front] peer by auto
    have "s\<lparr>lmem := m'\<rparr> = s\<lparr>lmem := m\<rparr>"
      using m'(1) con has rot False by (simp add: rts_policy_fp_yield_def)
    moreover have "nodes_of (lmem s) (Ready_List p) = map Ready_Node (t # ts)" by (simp add: ready_nodes_of [OF r] p)
    then have "ready_tasks (s\<lparr>lmem := m\<rparr>) = (ready_tasks s)(p := ts @ [t])"
      using nodes by (auto simp: ready_tasks_def fun_eq_iff comp_def)
    ultimately show ?thesis using m' False by (intro that [of m']) simp_all
  qed
qed

text \<open>
  C18. Yielding under fixed priority is round robin: \<open>k\<close> yields by the tasks at the front of a
  priority rotate its queue by \<open>k\<close> and touch no other priority, so each of \<open>n\<close> ready peers is at the
  front once in every \<open>n\<close> yields.
\<close>

theorem yield_is_round_robin:
  assumes "fp_inv cfg s" and "ready_tasks s p \<noteq> []"
  shows "\<exists>s'. yield_rounds cfg p k s = Inr s' \<and> fp_inv cfg s' \<and>
    ready_tasks s' = (ready_tasks s)(p := rotate k (ready_tasks s p))"
  using assms
proof (induction k arbitrary: s)
  case (Suc k)
  then obtain t ts where p: "ready_tasks s p = t # ts" by (cases "ready_tasks s p") auto
  obtain m where m: "rts_policy_fp_yield cfg (Some t) s = Inr (ts \<noteq> [], s\<lparr>lmem := m\<rparr>)" "fp_inv cfg (s\<lparr>lmem := m\<rparr>)"
    "ready_tasks (s\<lparr>lmem := m\<rparr>) = (ready_tasks s)(p := ts @ [t])"
    by (rule fp_yield_rotates [OF Suc.prems(1) p])
  with Suc.IH [OF m(2)] p show ?case
    by (auto simp: rotate1_rotate_swap fun_eq_iff)
qed (use fun_upd_triv in auto)

theorem yield_is_round_robin_witness:
  "\<exists>s s'. fp_inv test_config s \<and> ready_tasks s 3 = [App 0, App 2] \<and> yield_rounds test_config 3 1 s = Inr s' \<and>
    ready_tasks s' 3 = [App 2, App 0]"
proof -
  obtain s m b where s: "s = ex_kernel\<lparr>lmem := m, ready_bitmap := b\<rparr>" "fp_inv test_config s"
    "fp_order test_config s = [App 1, App 0, App 2]" by (rule ex_three_ready)
  have r: "ready_inv test_config s" using s(2) by (simp add: fp_inv_def)
  have t: "ready_tasks s 3 = [App 0, App 2]" using ready_tasks_filter [OF r, of 3] s(3) by (simp add: s(1))
  with yield_is_round_robin [OF s(2), of 3 1] show ?thesis using s(2) t by (auto simp: fun_upd_def)
qed

text \<open>
  C16. Rate-monotonic priorities (\<^verbatim>\<open>kernel/policy_rms.c\<close>): assigning priorities when a task is created
  gives every participating task, queued or not, a base and effective priority strictly between
  the idle priority and the number of priorities; a task with a shorter period gets a strictly
  higher priority, and the set of ready tasks does not change.
\<close>

theorem rms_shorter_period_higher_priority:
  assumes "fp_inv cfg s" and "RTS_POLICY cfg = RTS_POLICY_KIND_RMS"
    and "\<forall>i < RTS_MAX_TASKS cfg. unat (priority (tcbs s (App i))) < RTS_PRIORITY_COUNT cfg"
  shows "\<exists>s'. rts_policy_rms_assign_priorities cfg new_task s = Inr s' \<and> fp_inv cfg s' \<and>
    set (fp_order cfg s') = set (fp_order cfg s) \<and>
    (\<forall>i < RTS_MAX_TASKS cfg. rms_included new_task s i \<longrightarrow>
       priority (tcbs s' (App i)) = base_priority (tcbs s' (App i)) \<and> RTS_IDLE_PRIORITY < priority (tcbs s' (App i)) \<and>
       unat (priority (tcbs s' (App i))) < RTS_PRIORITY_COUNT cfg \<and>
       (\<forall>j < RTS_MAX_TASKS cfg. rms_included new_task s j \<and> period (tcbs s (App i)) < period (tcbs s (App j)) \<longrightarrow>
          priority (tcbs s' (App j)) < priority (tcbs s' (App i))))"
proof -
  have cok: "config_ok cfg" using assms(1) by (simp add: fp_inv_def)
  obtain m b where "rts_policy_rms_assign_priorities cfg new_task s =
      Inr (s\<lparr>tcbs := rms_assigned cfg new_task [0..<RTS_MAX_TASKS cfg] s, lmem := m, ready_bitmap := b\<rparr>)"
    "fp_inv cfg (s\<lparr>tcbs := rms_assigned cfg new_task [0..<RTS_MAX_TASKS cfg] s, lmem := m, ready_bitmap := b\<rparr>)"
    "set (fp_order cfg (s\<lparr>tcbs := rms_assigned cfg new_task [0..<RTS_MAX_TASKS cfg] s, lmem := m, ready_bitmap := b\<rparr>)) =
      set (fp_order cfg s)"
    using rms_assign_ok [OF assms] by blast
  moreover have "rms_assigned cfg new_task [0..<RTS_MAX_TASKS cfg] s (App i) =
      rms_tcb (rms_rank cfg new_task s i) (tcbs s (App i))"
    if "i < RTS_MAX_TASKS cfg" "rms_included new_task s i" for i
    using that by (simp add: rms_assigned_def)
  ultimately show ?thesis
    using rms_rank_bounds [OF cok assms(2)] rms_rank_mono [OF cok assms(2)]
    by (intro exI [of _ "s\<lparr>tcbs := rms_assigned cfg new_task [0..<RTS_MAX_TASKS cfg] s, lmem := m, ready_bitmap := b\<rparr>"])
      (auto simp: rms_tcb_def RTS_IDLE_PRIORITY_def word_neq_0_conv)
qed

definition rms_config :: rts_config where
  "rms_config = test_config\<lparr>RTS_POLICY := RTS_POLICY_KIND_RMS\<rparr>"

lemma rms_config_ok: "config_ok rms_config"
  using test_config_ok
  by (simp add: rms_config_def config_ok_def rts_types_checks_def config_internal_checks_def)

text \<open>Tasks 0 and 1 of the example state allocated; task 2 is being created.\<close>

definition ex_rms_kernel :: rts_kernel_state where
  "ex_rms_kernel = upd_tcb (App 0) (\<lambda>x. x\<lparr>slot_state := RTS_TASK_SLOT_ALLOCATED\<rparr>)
     (upd_tcb (App 1) (\<lambda>x. x\<lparr>slot_state := RTS_TASK_SLOT_ALLOCATED\<rparr>) ex_kernel)"

lemma ex_rms_kernel_fields [simp]:
  "lmem ex_rms_kernel = zero_mem" "ready_bitmap ex_rms_kernel = [0, 0, 0]"
  "priority (tcbs ex_rms_kernel t) = priority (tcbs ex_kernel t)" "period (tcbs ex_rms_kernel t) = period (tcbs ex_kernel t)"
  by (simp_all add: ex_rms_kernel_def upd_tcb_def ex_kernel_def)

theorem rms_shorter_period_higher_priority_witness:
  "\<exists>s'. rts_policy_rms_assign_priorities rms_config (Some (App 2)) ex_rms_kernel = Inr s' \<and>
    priority (tcbs s' (App 2)) < priority (tcbs s' (App 1))"
proof -
  have "ready_inv rms_config ex_rms_kernel"
    using ready_inv_cong [OF ex_ready_inv, of ex_rms_kernel]
    by (simp add: ready_inv_def rms_config_def ex_kernel_def RTS_READY_BITMAP_WORDS_def valid_task.simps zero_mem_nodes)
  then have inv: "fp_inv rms_config ex_rms_kernel" using rms_config_ok by (simp add: fp_inv_def)
  have prio: "\<forall>i < RTS_MAX_TASKS rms_config. unat (priority (tcbs ex_rms_kernel (App i))) < RTS_PRIORITY_COUNT rms_config"
    by (simp add: rms_config_def ex_kernel_def ex_tcb_def zero_tcb_def)
  have inc: "rms_included (Some (App 2)) ex_rms_kernel 1" "rms_included (Some (App 2)) ex_rms_kernel 2"
    by (simp_all add: rms_included_def ex_rms_kernel_def upd_tcb_def)
  have per: "period (tcbs ex_rms_kernel (App 1)) < period (tcbs ex_rms_kernel (App 2))"
    by (simp add: ex_kernel_def ex_tcb_def)
  have lt: "1 < RTS_MAX_TASKS rms_config" "2 < RTS_MAX_TASKS rms_config" "RTS_POLICY rms_config = RTS_POLICY_KIND_RMS"
    by (simp_all add: rms_config_def)
  with rms_shorter_period_higher_priority [OF inv lt(3) prio, of "Some (App 2)"] inc per show ?thesis by blast
qed

section \<open>Pools and stacks\<close>

text \<open>
  C28. The task pool (\<^verbatim>\<open>kernel/task_pool.c\<close>): \<open>n\<close> reservations in a row return as many distinct slots as
  \<open>n\<close> and the free slots allow, all of them free before and exactly them taken afterwards; a
  reservation fails only when no slot is free, wherever the search starts.
\<close>

theorem task_pool_reserves_all:
  assumes "pool_inv cfg s"
  shows "\<exists>is s'. reserve_many (rts_task_pool_reserve cfg) n s = Inr (is, s') \<and> pool_inv cfg s' \<and> distinct is \<and>
    set is \<subseteq> {i. i < RTS_MAX_TASKS cfg \<and> slot_is_free s i} \<and>
    length is = min n (card {i. i < RTS_MAX_TASKS cfg \<and> slot_is_free s i}) \<and>
    {i. i < RTS_MAX_TASKS cfg \<and> slot_is_free s' i} = {i. i < RTS_MAX_TASKS cfg \<and> slot_is_free s i} - set is"
  using task_pool.reserve_many_ok [OF assms, of n] by (simp add: task_pool.free_slots_def)

theorem task_pool_reserves_all_witness:
  "\<exists>is s'. reserve_many (rts_task_pool_reserve test_config) 9 ex_kernel = Inr (is, s') \<and> distinct is \<and> length is = 8"
proof -
  have "pool_inv test_config ex_kernel"
    by (simp add: pool_inv_def ex_kernel_def ex_tcb_def zero_tcb_def)
  moreover have "{i. i < RTS_MAX_TASKS test_config \<and> slot_is_free ex_kernel i} = {..<8}"
    by (auto simp: slot_is_free_def ex_kernel_def ex_tcb_def zero_tcb_def)
  ultimately show ?thesis using task_pool_reserves_all [of test_config ex_kernel 9] by auto
qed

text \<open>
  C29. Stack checking (\<^verbatim>\<open>kernel/stack_check.c\<close>): a stack that is at least as large as the guard has, freshly
  prepared, a valid guard and no recorded use, and preparing it writes no byte outside the stack. (The guard is written
  without regard to the end of the stack, so the size is needed.)
\<close>

theorem prepared_stack_is_clean:
  assumes "bytes s = rts_stack_diagnostics_prepare cfg (stack_low (tcbs s t)) (stack_high (tcbs s t)) m"
    and "stack_low (tcbs s t) \<noteq> 0" and "stack_low (tcbs s t) < stack_high (tcbs s t)"
    and "RTS_STACK_GUARD_SIZE_BYTES cfg \<le> unat (stack_high (tcbs s t) - stack_low (tcbs s t))"
  shows "rts_stack_guard_is_valid cfg (Some t) s \<and> rts_stack_high_water_used_bytes cfg (Some t) s = 0 \<and>
    (\<forall>a. a < stack_low (tcbs s t) \<or> stack_high (tcbs s t) \<le> a \<longrightarrow> bytes s a = m a)"
proof -
  have le: "unat (stack_low (tcbs s t)) \<le> unat (stack_high (tcbs s t))" using assms(3) by (simp add: word_less_nat_alt)
  have "bytes s a = m a" if "a < stack_low (tcbs s t) \<or> stack_high (tcbs s t) \<le> a" for a
    using that assms(4) le unfolding assms(1) prepare_bytes [OF assms(2-4)]
    by (auto simp: word_less_nat_alt word_le_nat_alt unat_sub_if')
  with prepare_guard_valid [OF assms] prepare_watermark_zero [OF assms] show ?thesis by blast
qed

definition ex_stack_kernel :: rts_kernel_state where
  "ex_stack_kernel = ex_kernel\<lparr>tcbs := \<lambda>_. zero_tcb\<lparr>stack_low := 0x1000, stack_high := 0x1100\<rparr>,
     bytes := rts_stack_diagnostics_prepare test_config 0x1000 0x1100 (\<lambda>_. 7)\<rparr>"

theorem prepared_stack_is_clean_witness:
  "rts_stack_guard_is_valid test_config (Some Idle) ex_stack_kernel \<and> bytes ex_stack_kernel 0x1100 = 7"
  using prepared_stack_is_clean [of ex_stack_kernel test_config Idle "\<lambda>_. 7"]
  by (simp add: ex_stack_kernel_def)

end
