(* ===== verification/Kernel_Links.thy ===== *)
theory Kernel_Links
  imports Rate_Monotonic Delay_Queue Timer_Queue Wait_Object Scheduler
begin

text \<open>
  The linked structures of the kernel together. The service order of the policy, the delay queue
  and the active timers are functions of the one memory \<open>lmem\<close>; \<open>links_inv\<close> says that all
  of them, the wait queues and the owned-mutex lists are well formed. Each law below is the law of
  one component, extended by what it leaves alone in the others.
\<close>

section \<open>Views of the linked structures\<close>

definition ready_q :: "rts_config \<Rightarrow> (node_ref, list_ref, obj_ref) list_mem \<Rightarrow> task_ref list" where
  "ready_q cfg m = (if RTS_POLICY cfg = RTS_POLICY_KIND_EDF then map node_task (nodes_of m Edf_List)
     else concat (map (\<lambda>p. map node_task (nodes_of m (Ready_List p))) (rev [0..<RTS_PRIORITY_COUNT cfg])))"

definition delay_q :: "(node_ref, list_ref, obj_ref) list_mem \<Rightarrow> task_ref list" where
  "delay_q m = map node_task (nodes_of m Delay_List)"

definition timer_q :: "(node_ref, list_ref, obj_ref) list_mem \<Rightarrow> nat list" where
  "timer_q m = map node_timer (nodes_of m Timer_List)"

lemma view_simps [simp]:
  "policy_order cfg s = ready_q cfg (lmem s)" "delayed s = delay_q (lmem s)" "active_timers s = timer_q (lmem s)"
  by (simp_all add: policy_order_def ready_q_def edf_order_def fp_order_def ready_tasks_def [abs_def]
      delayed_def delay_q_def active_timers_def timer_q_def)

definition links_inv :: "rts_config \<Rightarrow> rts_kernel_state \<Rightarrow> bool" where
  "links_inv cfg s \<longleftrightarrow> config_ok cfg \<and> policy_inv cfg s \<and> delay_wf cfg s \<and> timer_wf cfg s \<and>
     mem_ok (wmem s) \<and> mem_ok (omem s) \<and> (\<forall>w. \<forall>t \<in> set (waiting s w). \<exists>i < RTS_MAX_TASKS cfg. t = App i)"

lemma links_invD:
  assumes "links_inv cfg s"
  shows "config_ok cfg" and "policy_inv cfg s" and "delay_wf cfg s" and "timer_wf cfg s"
    and "mem_ok (wmem s)" and "mem_ok (omem s)" and "mem_ok (lmem s)"
    and "t \<in> set (waiting s w) \<Longrightarrow> \<exists>i < RTS_MAX_TASKS cfg. t = App i"
  using assms delay_wfD(1) unfolding links_inv_def by blast+

lemma ready_q_owner: "links_inv cfg s \<Longrightarrow> t \<in> set (ready_q cfg (lmem s)) \<longleftrightarrow> ready_owner t s \<noteq> None"
  using policy.order_owner [of cfg s t] by (simp add: links_inv_def)

lemma delay_q_owner: "links_inv cfg s \<Longrightarrow> t \<in> set (delay_q (lmem s)) \<longleftrightarrow> delay_owner t s \<noteq> None"
  using not_delayed_iff [of cfg s t] by (simp add: links_inv_def)

lemma distinct_ready_q: "links_inv cfg s \<Longrightarrow> distinct (ready_q cfg (lmem s))"
  using policy.order_distinct [of cfg s] by (simp add: links_inv_def)

lemma distinct_delay_q: "links_inv cfg s \<Longrightarrow> distinct (delay_q (lmem s))"
  using distinct_delayed [of cfg s] by (simp add: links_inv_def)

lemma delay_wf_cong: "delay_wf cfg s \<Longrightarrow> lmem s' = lmem s \<Longrightarrow> delay_wf cfg s'"
  by (simp add: delay_wf_def)

lemma timer_wf_cong: "timer_wf cfg s \<Longrightarrow> lmem s' = lmem s \<Longrightarrow> timer_wf cfg s'"
  by (simp add: timer_wf_def)

lemma links_cong:
  assumes "links_inv cfg s" and "lmem s' = lmem s" and "ready_bitmap s' = ready_bitmap s" and "wmem s' = wmem s"
    and "omem s' = omem s" and "\<And>t. t \<in> set (ready_q cfg (lmem s)) \<Longrightarrow> priority (tcbs s' t) = priority (tcbs s t)"
  shows "links_inv cfg s'"
  using assms policy_inv_cong [of cfg s s'] delay_wf_cong [of cfg s s'] timer_wf_cong [of cfg s s']
    ready_q_owner [OF assms(1)] by (simp add: links_inv_def)

section \<open>Changes of one queue\<close>

text \<open>Changing ready nodes only.\<close>

lemma delay_wf_ready_only:
  assumes "delay_wf cfg s" and "ready_only (lmem s) (lmem s')" and "mem_ok (lmem s')"
  shows "delay_wf cfg s'"
  using assms unfolding delay_wf_def ready_only_def by auto

lemma timer_wf_ready_only:
  assumes "timer_wf cfg s" and "ready_only (lmem s) (lmem s')" and "mem_ok (lmem s')"
  shows "timer_wf cfg s'"
proof -
  have "nd_object (node_at (lmem s') (Timer_Node i)) = nd_object (node_at (lmem s) (Timer_Node i))"
    "nd_owner (node_at (lmem s') (Timer_Node i)) = nd_owner (node_at (lmem s) (Timer_Node i))" for i
    using assms(2) by (simp_all add: ready_only_def)
  moreover have "nodes_of (lmem s') Timer_List = nodes_of (lmem s) Timer_List" using assms(2) by (simp add: ready_only_def)
  ultimately show ?thesis using assms(1,3) unfolding timer_wf_def by fastforce
qed

lemma ready_only_views:
  assumes "ready_only m m'"
  shows "delay_q m' = delay_q m" and "timer_q m' = timer_q m"
  using assms by (simp_all add: ready_only_def delay_q_def timer_q_def)

lemma links_ready_only:
  assumes inv: "links_inv cfg s" and pol: "policy_inv cfg s'" and only: "ready_only (lmem s) (lmem s')"
    and "wmem s' = wmem s" and "omem s' = omem s"
  shows "links_inv cfg s'"
  using links_invD [OF inv] assms delay_wf_ready_only [of cfg s s'] timer_wf_ready_only [of cfg s s']
    policy_mem_ok [OF pol] unfolding links_inv_def by simp

text \<open>Changing one delay or timer node.\<close>

definition frame_but :: "node_ref \<Rightarrow> (node_ref, list_ref, obj_ref) list_mem \<Rightarrow> (node_ref, list_ref, obj_ref) list_mem \<Rightarrow> bool" where
  "frame_but n m m' \<longleftrightarrow> mem_ok m \<and> mem_ok m' \<and>
     (\<forall>k. k \<noteq> n \<longrightarrow> nd_owner (node_at m' k) = nd_owner (node_at m k) \<and> nd_object (node_at m' k) = nd_object (node_at m k))"

lemma frame_butI:
  assumes "mem_ok m" and "mem_ok m'" and "\<And>l. l \<noteq> q \<Longrightarrow> nodes_of m' l = nodes_of m l"
    and "set (nodes_of m' q) - {n} = set (nodes_of m q) - {n}" and "objects_but n m m'"
  shows "frame_but n m m'"
proof -
  have "nodes_of m' = (nodes_of m)(q := nodes_of m' q)" using assms(3) by auto
  from owners_but [OF assms(1,2) this assms(4)] assms(1,2,5) show ?thesis
    by (simp add: frame_but_def objects_but_def)
qed

lemma policy_inv_frame:
  assumes "policy_inv cfg s" and "mem_ok (lmem s')" and "ready_bitmap s' = ready_bitmap s" and "tcbs s' = tcbs s"
    and "\<And>p. nodes_of (lmem s') (Ready_List p) = nodes_of (lmem s) (Ready_List p)"
    and "nodes_of (lmem s') Edf_List = nodes_of (lmem s) Edf_List"
    and "\<And>t. ready_owner t s' = ready_owner t s"
    and "\<And>t. nd_object (node_at (lmem s') (Ready_Node t)) = nd_object (node_at (lmem s) (Ready_Node t))"
  shows "policy_inv cfg s'"
  using assms by (simp add: policy_inv_def edf_inv_def fp_inv_def ready_inv_def split: if_splits)

lemma ready_q_frame:
  assumes "\<And>p. nodes_of m' (Ready_List p) = nodes_of m (Ready_List p)" and "nodes_of m' Edf_List = nodes_of m Edf_List"
  shows "ready_q cfg m' = ready_q cfg m"
  using assms by (simp add: ready_q_def)

lemma links_delay_frame:
  assumes inv: "links_inv cfg s" and wf: "delay_wf cfg (s\<lparr>lmem := m\<rparr>)"
    and nodes: "\<And>l. l \<noteq> Delay_List \<Longrightarrow> nodes_of m l = nodes_of (lmem s) l"
    and set: "set (delay_q m) - {t} = set (delay_q (lmem s)) - {t}" and obj: "objects_but (Delay_Node t) (lmem s) m"
  shows "links_inv cfg (s\<lparr>lmem := m\<rparr>)" and "ready_q cfg m = ready_q cfg (lmem s)" and "timer_q m = timer_q (lmem s)"
proof -
  note D = links_invD [OF inv]
  have m: "mem_ok m" using delay_wfD(1) [OF wf] by simp
  have "set (nodes_of m Delay_List) - {Delay_Node t} = set (nodes_of (lmem s) Delay_List) - {Delay_Node t}"
    using set delay_nodes_of [OF wf] delay_nodes_of [OF D(3)] by auto
  then have fr: "frame_but (Delay_Node t) (lmem s) m" using frame_butI [OF D(7) m _ _ obj, of Delay_List] nodes by blast
  have "policy_inv cfg (s\<lparr>lmem := m\<rparr>)"
    by (rule policy_inv_frame [OF D(2)]) (use m nodes fr in \<open>simp_all add: frame_but_def\<close>)
  moreover have "timer_wf cfg (s\<lparr>lmem := m\<rparr>)"
    using D(4) m nodes fr unfolding timer_wf_def frame_but_def by fastforce
  ultimately show "links_inv cfg (s\<lparr>lmem := m\<rparr>)" using inv wf by (simp add: links_inv_def)
  show "ready_q cfg m = ready_q cfg (lmem s)" by (rule ready_q_frame) (simp_all add: nodes)
  show "timer_q m = timer_q (lmem s)" by (simp add: timer_q_def nodes)
qed

lemma links_timer_frame:
  assumes inv: "links_inv cfg s" and wf: "timer_wf cfg (s\<lparr>lmem := m\<rparr>)"
    and nodes: "\<And>l. l \<noteq> Timer_List \<Longrightarrow> nodes_of m l = nodes_of (lmem s) l"
    and set: "set (timer_q m) - {i} = set (timer_q (lmem s)) - {i}" and obj: "objects_but (Timer_Node i) (lmem s) m"
  shows "links_inv cfg (s\<lparr>lmem := m\<rparr>)" and "ready_q cfg m = ready_q cfg (lmem s)" and "delay_q m = delay_q (lmem s)"
proof -
  note D = links_invD [OF inv]
  have m: "mem_ok m" using timer_wfD(1) [OF wf] by simp
  have "set (nodes_of m Timer_List) - {Timer_Node i} = set (nodes_of (lmem s) Timer_List) - {Timer_Node i}"
    using set timer_nodes_of [OF wf] timer_nodes_of [OF D(4)] by auto
  then have fr: "frame_but (Timer_Node i) (lmem s) m" using frame_butI [OF D(7) m _ _ obj, of Timer_List] nodes by blast
  have "policy_inv cfg (s\<lparr>lmem := m\<rparr>)"
    by (rule policy_inv_frame [OF D(2)]) (use m nodes fr in \<open>simp_all add: frame_but_def\<close>)
  moreover have "delay_wf cfg (s\<lparr>lmem := m\<rparr>)"
    using D(3) m nodes fr unfolding delay_wf_def frame_but_def by simp
  ultimately show "links_inv cfg (s\<lparr>lmem := m\<rparr>)" using inv wf by (simp add: links_inv_def)
  show "ready_q cfg m = ready_q cfg (lmem s)" by (rule ready_q_frame) (simp_all add: nodes)
  show "delay_q m = delay_q (lmem s)" by (simp add: delay_q_def nodes)
qed

section \<open>The laws of the operations\<close>

text \<open>Making a task ready and taking it out of the ready structure.\<close>

lemma links_unblock:
  assumes inv: "links_inv cfg s" and adm: "policy_adm cfg t s" and t: "t \<notin> set (ready_q cfg (lmem s))"
  defines "s1 \<equiv> rts_policy_record_release t s"
  obtains m b where "rts_policy_task_unblock cfg (Some t) s = Inr (True, s1\<lparr>lmem := m, ready_bitmap := b\<rparr>)"
    and "links_inv cfg (s1\<lparr>lmem := m, ready_bitmap := b\<rparr>)"
    and "ready_q cfg m = stable_insert (policy_before cfg s1) t (ready_q cfg (lmem s))"
    and "delay_q m = delay_q (lmem s)" and "timer_q m = timer_q (lmem s)"
proof -
  note D = links_invD [OF inv]
  obtain m b where m: "rts_policy_insert cfg (Some t) s = Inr (True, s1\<lparr>lmem := m, ready_bitmap := b\<rparr>)"
    "policy_inv cfg (s1\<lparr>lmem := m, ready_bitmap := b\<rparr>)" "ready_frame t (lmem s) m"
    "ready_q cfg m = stable_insert (policy_before cfg s1) t (ready_q cfg (lmem s))"
    using policy_insert_law [OF D(2) adm] t unfolding s1_def by auto
  have only: "ready_only (lmem s) m" using ready_frame_only [OF m(3)] .
  have "links_inv cfg (s1\<lparr>lmem := m, ready_bitmap := b\<rparr>)"
    by (rule links_ready_only [OF inv m(2)])
      (use only in \<open>simp_all add: s1_def rts_policy_record_release_def Let_def upd_tcb_def\<close>)
  with m that ready_only_views [OF only] show ?thesis by (simp add: policy_task_unblock_eq)
qed

lemma links_block:
  assumes inv: "links_inv cfg s" and t: "t \<in> set (ready_q cfg (lmem s))"
  obtains m b where "rts_policy_task_block cfg (Some t) s = Inr (True, s\<lparr>lmem := m, ready_bitmap := b\<rparr>)"
    and "links_inv cfg (s\<lparr>lmem := m, ready_bitmap := b\<rparr>)" and "ready_q cfg m = remove1 t (ready_q cfg (lmem s))"
    and "delay_q m = delay_q (lmem s)" and "timer_q m = timer_q (lmem s)"
proof -
  note D = links_invD [OF inv]
  obtain m b where m: "rts_policy_remove cfg (Some t) s = Inr (True, s\<lparr>lmem := m, ready_bitmap := b\<rparr>)"
    "policy_inv cfg (s\<lparr>lmem := m, ready_bitmap := b\<rparr>)" "ready_frame t (lmem s) m"
    "ready_q cfg m = remove1 t (ready_q cfg (lmem s))"
    using policy_remove_law [OF D(2), of t] t by auto
  have only: "ready_only (lmem s) m" using ready_frame_only [OF m(3)] .
  have "links_inv cfg (s\<lparr>lmem := m, ready_bitmap := b\<rparr>)"
    by (rule links_ready_only [OF inv m(2)]) (use only in simp_all)
  with m that ready_only_views [OF only] show ?thesis by (simp add: policy_task_block_eq)
qed

lemma links_validate:
  assumes "links_inv cfg s" and "policy_adm cfg t s"
  shows "rts_policy_validate cfg (Some t) b s = Inr ((t \<in> set (ready_q cfg (lmem s))) = b)"
  using policy.validate_law [of cfg s t b] assms by (simp add: links_inv_def)

lemma links_pick: "links_inv cfg s \<Longrightarrow> rts_policy_pick_next cfg s = Inr (hd_or (ready_q cfg (lmem s)) None)"
  using policy.pick_law [of cfg s] by (simp add: links_inv_def)

text \<open>Changing an effective priority.\<close>

lemma links_priority_changed:
  assumes inv: "links_inv cfg s" and adm: "policy_adm cfg t s"
    and p: "p \<noteq> RTS_IDLE_PRIORITY" "unat p < RTS_PRIORITY_COUNT cfg"
  defines "s1 \<equiv> upd_tcb t (\<lambda>x. x\<lparr>priority := p\<rparr>) s"
  obtains m b where "rts_policy_priority_changed cfg (Some t) p s = Inr (True, s1\<lparr>lmem := m, ready_bitmap := b\<rparr>)"
    and "links_inv cfg (s1\<lparr>lmem := m, ready_bitmap := b\<rparr>)"
    and "ready_q cfg m = reprioritized cfg t s s1"
    and "set (ready_q cfg m) = set (ready_q cfg (lmem s))" and "delay_q m = delay_q (lmem s)" and "timer_q m = timer_q (lmem s)"
proof -
  note D = links_invD [OF inv]
  obtain m b where m: "rts_policy_priority_changed cfg (Some t) p s = Inr (True, s1\<lparr>lmem := m, ready_bitmap := b\<rparr>)"
    "policy_inv cfg (s1\<lparr>lmem := m, ready_bitmap := b\<rparr>)" "ready_frame t (lmem s) m"
    "ready_q cfg m = reprioritized cfg t s s1"
    using policy_priority_changed_law [OF D(2) adm p] unfolding s1_def by auto
  have only: "ready_only (lmem s) m" using ready_frame_only [OF m(3)] .
  have "links_inv cfg (s1\<lparr>lmem := m, ready_bitmap := b\<rparr>)"
    by (rule links_ready_only [OF inv m(2)]) (use only in \<open>simp_all add: s1_def upd_tcb_def\<close>)
  moreover have "set (ready_q cfg m) = set (ready_q cfg (lmem s))"
    using set_reprioritized [of cfg s t s1] distinct_ready_q [OF inv] m(4) by simp
  ultimately show ?thesis using m ready_only_views [OF only] by (intro that [of b m]) simp_all
qed

text \<open>Yielding from the front.\<close>

lemma links_yield:
  assumes inv: "links_inv cfg s" and front: "policy_front cfg t s"
  shows "if policy_peer cfg t s
    then \<exists>m b. rts_policy_yield cfg (Some t) s = Inr (True, (yield_prep cfg t s)\<lparr>lmem := m, ready_bitmap := b\<rparr>) \<and>
      links_inv cfg ((yield_prep cfg t s)\<lparr>lmem := m, ready_bitmap := b\<rparr>) \<and>
      ready_q cfg m = stable_insert (policy_before cfg (yield_prep cfg t s)) t (remove1 t (ready_q cfg (lmem s))) \<and>
      delay_q m = delay_q (lmem s) \<and> timer_q m = timer_q (lmem s)
    else rts_policy_yield cfg (Some t) s = Inr (False, s)"
proof -
  note D = links_invD [OF inv]
  note Y = policy_yield_law [OF D(2) front]
  show ?thesis
  proof (cases "policy_peer cfg t s")
    case True
    then obtain m b where m: "rts_policy_yield cfg (Some t) s = Inr (True, (yield_prep cfg t s)\<lparr>lmem := m, ready_bitmap := b\<rparr>)"
      "policy_inv cfg ((yield_prep cfg t s)\<lparr>lmem := m, ready_bitmap := b\<rparr>)" "ready_frame t (lmem s) m"
      "ready_q cfg m = stable_insert (policy_before cfg (yield_prep cfg t s)) t (remove1 t (ready_q cfg (lmem s)))"
      using Y by auto
    have only: "ready_only (lmem s) m" using ready_frame_only [OF m(3)] .
    have "links_inv cfg ((yield_prep cfg t s)\<lparr>lmem := m, ready_bitmap := b\<rparr>)"
      by (rule links_ready_only [OF inv m(2)]) (use only in \<open>simp_all add: yield_prep_def upd_tcb_def\<close>)
    with True m ready_only_views [OF only] show ?thesis by auto
  qed (use Y in simp)
qed

text \<open>The delay queue; the window of the wake ticks has any base.\<close>

definition delay_ordered :: "rts_tick \<Rightarrow> rts_kernel_state \<Rightarrow> bool" where
  "delay_ordered base s \<longleftrightarrow> ordered_by (wake_before s) (delay_q (lmem s)) \<and>
     (\<forall>t \<in> set (delay_q (lmem s)). wake_tick (tcbs s t) \<in> tick_window base)"

lemma links_delay_insert:
  assumes inv: "links_inv cfg s" and ord: "delay_ordered base s"
    and t: "valid_task cfg t" "t \<notin> set (delay_q (lmem s))" and w: "wake_tick (tcbs s t) \<in> tick_window base"
  obtains m where "rts_delay_insert cfg (Some t) s = Inr (s\<lparr>lmem := m\<rparr>)" and "links_inv cfg (s\<lparr>lmem := m\<rparr>)"
    and "delay_q m = stable_insert (wake_before s) t (delay_q (lmem s))" and "delay_ordered base (s\<lparr>lmem := m\<rparr>)"
    and "ready_q cfg m = ready_q cfg (lmem s)" and "timer_q m = timer_q (lmem s)"
proof -
  note D = links_invD [OF inv]
  have wf: "delay_wf cfg s" by (rule D(3))
  let ?lt = "\<lambda>y. \<not> wake_before s t y" and ?ts = "delay_q (lmem s)"
  let ?ys = "dropWhile ?lt ?ts"
  have split: "delayed s = takeWhile ?lt ?ts @ ?ys" by simp
  have nt: "t \<notin> set (delayed s)" using t(2) by simp
  have loop: "delay_insert_loop cfg (RTS_SCHEDULABLE_TASK_CAPACITY cfg) t (hd_or (map Delay_Node (delayed s)) None) s =
      delay_link cfg t (hd_or (map Delay_Node ?ys) None) s"
    using delay_insert_loop_ok [OF wf D(1) t(1) nt, of base "[]" "delayed s" "RTS_SCHEDULABLE_TASK_CAPACITY cfg"]
      delayed_length [OF wf] w ord by (auto simp: delay_ordered_def RTS_SCHEDULABLE_TASK_CAPACITY_def)
  obtain m where m: "delay_link cfg t (hd_or (map Delay_Node ?ys) None) s = Inr (s\<lparr>lmem := m\<rparr>)"
    "delay_wf cfg (s\<lparr>lmem := m\<rparr>)" "delayed (s\<lparr>lmem := m\<rparr>) = takeWhile ?lt ?ts @ t # ?ys"
    "nodes_of m = (nodes_of (lmem s))(Delay_List := map Delay_Node (takeWhile ?lt ?ts @ t # ?ys))"
    "objects_but (Delay_Node t) (lmem s) m"
    by (rule delay_link_ok [OF wf D(1) t(1) nt split])
  have dq: "delay_q m = stable_insert (wake_before s) t ?ts" using m(3) by (simp add: stable_insert_split)
  have own: "delay_owner t s = None" using not_delayed_iff [OF wf, of t] nt by simp
  have head: "ls_head (list_at (lmem s) Delay_List) = hd_or (map Delay_Node (delayed s)) None"
    using mem_okD(2) [OF D(7), of Delay_List] delay_nodes_of [OF wf] by simp
  have free: "nd_previous (node_at (lmem s) (Delay_Node t)) = None" "nd_next (node_at (lmem s) (Delay_Node t)) = None"
    "nd_object (node_at (lmem s) (Delay_Node t)) = None"
    using mem_okD(5,6) [OF D(7), of "Delay_Node t"] own delay_wfD(3) [OF wf, of t] by simp_all
  have ins: "rts_delay_insert cfg (Some t) s = Inr (s\<lparr>lmem := m\<rparr>)"
    unfolding rts_delay_insert_def using own free loop m(1) by (simp add: head)
  have nodes: "nodes_of m l = nodes_of (lmem s) l" if "l \<noteq> Delay_List" for l using m(4) that by simp
  have "set (delay_q m) - {t} = set (delay_q (lmem s)) - {t}" by (auto simp: dq)
  note F = links_delay_frame [OF inv m(2) nodes this m(5)]
  have wb: "wake_before (s\<lparr>lmem := m\<rparr>) = wake_before s"
    "wake_before s = (\<lambda>x y. rts_tick_before (wake_tick (tcbs s x)) (wake_tick (tcbs s y)))"
    by (simp_all add: wake_before_def fun_eq_iff)
  have "ordered_by (wake_before s) (stable_insert (wake_before s) t ?ts)"
    using ord w unfolding delay_ordered_def wb(2)
    by (intro tick.stable_insert_ordered [where base = base]) auto
  then have "delay_ordered base (s\<lparr>lmem := m\<rparr>)"
    using ord w by (simp add: delay_ordered_def dq wb(1))
  with ins F dq show ?thesis by (intro that [of m]) simp_all
qed

lemma links_delay_remove:
  assumes inv: "links_inv cfg s" and t: "t \<in> set (delay_q (lmem s))"
  obtains m where "rts_delay_remove cfg (Some t) s = Inr (s\<lparr>lmem := m\<rparr>)" and "links_inv cfg (s\<lparr>lmem := m\<rparr>)"
    and "delay_q m = remove1 t (delay_q (lmem s))" and "ready_q cfg m = ready_q cfg (lmem s)"
    and "timer_q m = timer_q (lmem s)" and "nd_owner (node_at m (Delay_Node t)) = None"
proof -
  note D = links_invD [OF inv]
  obtain m where m: "rts_delay_remove cfg (Some t) s = Inr (s\<lparr>lmem := m\<rparr>)" "delay_wf cfg (s\<lparr>lmem := m\<rparr>)"
    "delay_q m = remove1 t (delay_q (lmem s))" "\<And>l. l \<noteq> Delay_List \<Longrightarrow> nodes_of m l = nodes_of (lmem s) l"
    "objects_but (Delay_Node t) (lmem s) m" "nd_owner (node_at m (Delay_Node t)) = None"
    using delay_remove_ok [OF D(3), of t] t by auto
  have "set (delay_q m) - {t} = set (delay_q (lmem s)) - {t}" using distinct_delay_q [OF inv] by (auto simp: m(3))
  from links_delay_frame [OF inv m(2,4) this m(5)] m that show ?thesis by auto
qed

lemma links_delay_contains:
  "links_inv cfg s \<Longrightarrow> rts_delay_contains cfg (Some t) s = Inr (t \<in> set (delay_q (lmem s)))"
  using delay_contains_ok [of cfg s t] by (simp add: links_inv_def)

text \<open>The wait queues. The other queues of waiters and the waiters of no queue are left alone.\<close>

lemma links_wait_owner: "links_inv cfg s \<Longrightarrow> wait_owner t s = Some w \<longleftrightarrow> t \<in> set (waiting s w)"
  by (simp add: links_inv_def mem_okD(3))

lemma links_wait_memory:
  assumes inv: "links_inv cfg s" and m: "mem_ok m" and nodes: "nodes_of m = (nodes_of (wmem s))(w := ts)"
    and ts: "\<And>u. u \<in> set ts \<Longrightarrow> \<exists>i < RTS_MAX_TASKS cfg. u = App i" "set ts - {t} = set (waiting s w) - {t}"
  shows "links_inv cfg (s\<lparr>wmem := m\<rparr>)"
    and "u \<noteq> t \<Longrightarrow> nd_owner (node_at m u) = wait_owner u s"
proof -
  have cong: "delay_wf cfg (s\<lparr>wmem := m\<rparr>) = delay_wf cfg s" "timer_wf cfg (s\<lparr>wmem := m\<rparr>) = timer_wf cfg s"
    by (simp_all add: delay_wf_def timer_wf_def)
  have "policy_inv cfg (s\<lparr>wmem := m\<rparr>)"
    by (rule policy_inv_cong [OF links_invD(2) [OF inv]]) simp_all
  then show "links_inv cfg (s\<lparr>wmem := m\<rparr>)" using inv ts(1) unfolding links_inv_def cong by (auto simp: m nodes)
  show "u \<noteq> t \<Longrightarrow> nd_owner (node_at m u) = wait_owner u s"
    using owners_but [OF links_invD(5) [OF inv] m nodes ts(2), of u] .
qed

lemma links_waiters_ok:
  "links_inv cfg s \<Longrightarrow> ordered_by (fp_before s) (waiting s w) \<Longrightarrow> waiters_ok cfg s w"
  by (simp add: links_inv_def waiters_ok_def)

lemma links_wait_insert:
  assumes inv: "links_inv cfg s" and ord: "ordered_by (fp_before s) (waiting s w)"
    and t: "i < RTS_MAX_TASKS cfg" "wait_owner (App i) s = None"
  obtains m where "rts_wait_object_insert cfg (Some w) (Some (App i)) s = Inr (s\<lparr>wmem := m\<rparr>)"
    and "links_inv cfg (s\<lparr>wmem := m\<rparr>)"
    and "nodes_of m = (nodes_of (wmem s))(w := stable_insert (fp_before s) (App i) (waiting s w))"
    and "ordered_by (fp_before s) (nodes_of m w)" and "nd_owner (node_at m (App i)) = Some w"
    and "\<And>u. u \<noteq> App i \<Longrightarrow> nd_owner (node_at m u) = wait_owner u s"
proof -
  obtain m where m: "rts_wait_object_insert cfg (Some w) (Some (App i)) s = Inr (s\<lparr>wmem := m\<rparr>)" "mem_ok m"
    "waiters_ok cfg (s\<lparr>wmem := m\<rparr>) w"
    "nodes_of m = (nodes_of (wmem s))(w := stable_insert (fp_before s) (App i) (waiting s w))"
    using wait_object_insert_ok [OF links_invD(5) [OF inv] links_waiters_ok [OF inv ord] t] by metis
  have fb: "fp_before (s\<lparr>wmem := m\<rparr>) = fp_before s" by (simp add: fp_before_def fun_eq_iff)
  have "App i \<notin> set (waiting s w)" using links_wait_owner [OF inv, of "App i" w] t(2) by simp
  then have st: "set (stable_insert (fp_before s) (App i) (waiting s w)) - {App i} = set (waiting s w) - {App i}" by auto
  have app: "\<exists>j < RTS_MAX_TASKS cfg. u = App j" if "u \<in> set (stable_insert (fp_before s) (App i) (waiting s w))" for u
    using that t(1) links_invD(8) [OF inv, of u w] by auto
  note L = links_wait_memory [OF inv m(2,4) app st]
  moreover have "nd_owner (node_at m (App i)) = Some w" using mem_okD(3) [OF m(2), of "App i" w] m(4) by simp
  ultimately show ?thesis using m fb by (intro that [of m]) (simp_all add: waiters_ok_def)
qed

lemma links_wait_remove:
  assumes inv: "links_inv cfg s" and ord: "ordered_by (fp_before s) (remove1 t (waiting s w))"
    and t: "t \<in> set (waiting s w)"
  obtains m where "rts_wait_object_remove cfg (Some w) (Some t) s = Inr (s\<lparr>wmem := m\<rparr>)"
    and "links_inv cfg (s\<lparr>wmem := m\<rparr>)" and "nodes_of m = (nodes_of (wmem s))(w := remove1 t (waiting s w))"
    and "nd_owner (node_at m t) = None" and "\<And>u. u \<noteq> t \<Longrightarrow> nd_owner (node_at m u) = wait_owner u s"
proof -
  have app: "\<forall>u \<in> set (waiting s w). \<exists>i < RTS_MAX_TASKS cfg. u = App i" using links_invD(8) [OF inv] by blast
  obtain m where m: "rts_wait_object_remove cfg (Some w) (Some t) s = Inr (s\<lparr>wmem := m\<rparr>)" "mem_ok m"
    "nodes_of m = (nodes_of (wmem s))(w := remove1 t (waiting s w))" "nd_owner (node_at m t) = None"
    using wait_object_remove_ok [OF links_invD(5) [OF inv] t ord app] by metis
  have st: "set (remove1 t (waiting s w)) - {t} = set (waiting s w) - {t}"
    using mem_okD(1) [OF links_invD(5) [OF inv], of w] by auto
  have app': "\<exists>j < RTS_MAX_TASKS cfg. u = App j" if "u \<in> set (remove1 t (waiting s w))" for u
    using app set_remove1_subset that by fastforce
  from links_wait_memory [OF inv m(2,3) app' st] m show ?thesis by (intro that [of m]) simp_all
qed

end
