(* ===== verification/Kernel_Tasks.thy ===== *)
theory Kernel_Tasks
  imports Kernel_Links Mutex Timer_Manager
begin

text \<open>
  The task part of the kernel invariant. \<open>tasks_inv\<close>: every allocated task is in exactly the queues
  its state names, and is the idle task, the timer service or an application task with a sound stack
  and priority. Under it the classification predicates of the scheduler decide the task state.
\<close>

section \<open>Tasks\<close>

definition live :: "rts_config \<Rightarrow> rts_kernel_state \<Rightarrow> task_ref \<Rightarrow> bool" where
  "live cfg s t \<longleftrightarrow> valid_task cfg t \<and> slot_state (tcbs s t) = RTS_TASK_SLOT_ALLOCATED"

fun is_app :: "task_ref \<Rightarrow> bool" where
  "is_app (App i) = True"
| "is_app _ = False"

text \<open>What never changes while a task lives, and the range of its priorities.\<close>

definition task_static :: "rts_config \<Rightarrow> task_ref \<Rightarrow> rts_tcb \<Rightarrow> bool" where
  "task_static cfg t x \<longleftrightarrow>
     saved_stack_pointer x \<noteq> 0 \<and> stack_low x \<noteq> 0 \<and> stack_high x \<noteq> 0 \<and> stack_low x < stack_high x \<and> entry x \<noteq> 0 \<and>
     base_priority x \<le> priority x \<and> unat (priority x) < RTS_PRIORITY_COUNT cfg \<and>
     (if t = Idle then priority x = RTS_IDLE_PRIORITY else base_priority x \<noteq> RTS_IDLE_PRIORITY) \<and>
     (RTS_POLICY cfg = RTS_POLICY_KIND_RMS \<longrightarrow> is_app t \<longrightarrow> period x \<noteq> 0) \<and>
     (RTS_ENABLE_ASSERTIONS cfg \<longrightarrow> validation_magic x = RTS_TASK_VALIDATION_MAGIC)"

definition not_waiting :: "rts_tcb \<Rightarrow> bool" where
  "not_waiting x \<longleftrightarrow> wait_reason x = RTS_WAIT_NONE \<and> wait_object x = None \<and> \<not> timeout_active x"

text \<open>
  The queues a task is in, by its state: \<open>r\<close> ready, \<open>d\<close> delayed, \<open>w\<close> the queue of waiters, \<open>c\<close>
  whether it is the current task.
\<close>

definition member_ok :: "task_ref \<Rightarrow> rts_tcb \<Rightarrow> bool \<Rightarrow> bool \<Rightarrow> wait_ref option \<Rightarrow> bool \<Rightarrow> bool" where
  "member_ok t x r d w c =
     (case task_state x of
        RTS_TASK_STATE_DORMANT \<Rightarrow> False
      | RTS_TASK_STATE_READY \<Rightarrow> r \<and> \<not> d \<and> w = None \<and> \<not> c \<and> not_waiting x
      | RTS_TASK_STATE_RUNNING \<Rightarrow> r \<and> \<not> d \<and> w = None \<and> c \<and> not_waiting x
      | RTS_TASK_STATE_BLOCKED \<Rightarrow> \<not> r \<and> wait_result x = RTS_WAIT_RESULT_NONE \<and>
          (case wait_reason x of
             RTS_WAIT_NONE \<Rightarrow> False
           | RTS_WAIT_DELAY \<Rightarrow> is_app t \<and> d \<and> w = None \<and> wait_object x = None \<and> \<not> timeout_active x
           | RTS_WAIT_SEMAPHORE \<Rightarrow> is_app t \<and> d = timeout_active x \<and> w \<noteq> None \<and> wait_object x \<noteq> None \<and>
               w = sem_waiters_of (wait_object x)
           | RTS_WAIT_MUTEX \<Rightarrow> is_app t \<and> d = timeout_active x \<and> w \<noteq> None \<and> wait_object x \<noteq> None \<and>
               w = mutex_waiters_of (wait_object x)
           | RTS_WAIT_TIMER_SERVICE \<Rightarrow> t = Service \<and> \<not> d \<and> w = None \<and> wait_object x = None \<and> \<not> timeout_active x))"

definition task_ok :: "rts_config \<Rightarrow> rts_kernel_state \<Rightarrow> task_ref \<Rightarrow> bool" where
  "task_ok cfg s t =
     (if live cfg s t
      then task_static cfg t (tcbs s t) \<and>
        member_ok t (tcbs s t) (t \<in> set (ready_q cfg (lmem s))) (t \<in> set (delay_q (lmem s))) (wait_owner t s)
          (current_task s = Some t)
      else t \<notin> set (ready_q cfg (lmem s)) \<and> t \<notin> set (delay_q (lmem s)) \<and> wait_owner t s = None \<and>
        nodes_of (omem s) t = [] \<and> current_task s \<noteq> Some t)"

definition tasks_inv :: "rts_config \<Rightarrow> rts_kernel_state \<Rightarrow> bool" where
  "tasks_inv cfg s \<longleftrightarrow> idle_task s = Some Idle \<and> timer_service_task s = Some Service \<and>
     live cfg s Idle \<and> live cfg s Service \<and> (\<forall>t. task_ok cfg s t)"

lemma tasks_invD:
  assumes "tasks_inv cfg s"
  shows "idle_task s = Some Idle" and "timer_service_task s = Some Service" and "live cfg s Idle"
    and "live cfg s Service" and "task_ok cfg s t"
  using assms by (simp_all add: tasks_inv_def)

lemma live_static: "tasks_inv cfg s \<Longrightarrow> live cfg s t \<Longrightarrow> task_static cfg t (tcbs s t)"
  using tasks_invD(5) [of cfg s t] by (simp add: task_ok_def)

lemma live_member:
  "tasks_inv cfg s \<Longrightarrow> live cfg s t \<Longrightarrow> member_ok t (tcbs s t) (t \<in> set (ready_q cfg (lmem s)))
     (t \<in> set (delay_q (lmem s))) (wait_owner t s) (current_task s = Some t)"
  using tasks_invD(5) [of cfg s t] by (simp add: task_ok_def)

lemma queued_live:
  assumes "tasks_inv cfg s"
  shows "t \<in> set (ready_q cfg (lmem s)) \<Longrightarrow> live cfg s t" and "t \<in> set (delay_q (lmem s)) \<Longrightarrow> live cfg s t"
    and "wait_owner t s \<noteq> None \<Longrightarrow> live cfg s t" and "current_task s = Some t \<Longrightarrow> live cfg s t"
    and "nodes_of (omem s) t \<noteq> [] \<Longrightarrow> live cfg s t"
  using tasks_invD(5) [OF assms, of t] by (auto simp: task_ok_def split: if_splits)

lemma ready_iff_state:
  assumes "tasks_inv cfg s" and "live cfg s t"
  shows "t \<in> set (ready_q cfg (lmem s)) \<longleftrightarrow>
    task_state (tcbs s t) = RTS_TASK_STATE_READY \<or> task_state (tcbs s t) = RTS_TASK_STATE_RUNNING"
  using live_member [OF assms] by (auto simp: member_ok_def split: rts_task_state.splits)

lemma running_iff_current:
  assumes "tasks_inv cfg s" and "live cfg s t"
  shows "task_state (tcbs s t) = RTS_TASK_STATE_RUNNING \<longleftrightarrow>
    current_task s = Some t \<and> task_state (tcbs s t) \<noteq> RTS_TASK_STATE_BLOCKED"
  using live_member [OF assms] by (auto simp: member_ok_def split: rts_task_state.splits)

lemma idle_ready: "tasks_inv cfg s \<Longrightarrow> Idle \<in> set (ready_q cfg (lmem s))"
  using live_member [of cfg s Idle] tasks_invD(3) [of cfg s]
  by (auto simp: member_ok_def split: rts_task_state.splits rts_wait_reason.splits)

lemma live_adm:
  assumes "tasks_inv cfg s" and "live cfg s t"
  shows "policy_adm cfg t s"
proof -
  have "task_state (tcbs s t) \<noteq> RTS_TASK_STATE_DORMANT" using live_member [OF assms] by (auto simp: member_ok_def)
  then show ?thesis
    using live_static [OF assms] assms tasks_invD(1,2) [OF assms(1)]
    by (cases t) (auto simp: policy_adm_def task_static_def live_def)
qed

section \<open>Classification\<close>

lemma application_task_iff:
  "rts_task_handle_is_application_task cfg (Some t) \<longleftrightarrow> (\<exists>i < RTS_MAX_TASKS cfg. t = App i)"
  by (auto simp: rts_task_handle_is_application_task_def list_ex_iff)

lemma live_application: "live cfg s t \<Longrightarrow> rts_task_handle_is_application_task cfg (Some t) = is_app t"
  by (cases t) (auto simp: application_task_iff live_def)

lemma is_idle_iff: "tasks_inv cfg s \<Longrightarrow> rts_scheduler_task_is_idle (Some t) s \<longleftrightarrow> t = Idle"
  using tasks_invD(1) [of cfg s] by (simp add: rts_scheduler_task_is_idle_def)

lemma is_service_iff: "tasks_inv cfg s \<Longrightarrow> rts_scheduler_task_is_timer_service (Some t) s \<longleftrightarrow> t = Service"
  using tasks_invD(2) [of cfg s] by (simp add: rts_scheduler_task_is_timer_service_def)

lemma runnable_iff:
  assumes links: "links_inv cfg s" and tasks: "tasks_inv cfg s" and t: "live cfg s t"
  shows "rts_scheduler_task_is_runnable cfg (Some t) s =
    Inr (task_state (tcbs s t) = RTS_TASK_STATE_READY \<or> task_state (tcbs s t) = RTS_TASK_STATE_RUNNING)"
proof -
  note st = live_static [OF tasks t]
  note mem = live_member [OF tasks t]
  have v: "rts_policy_validate cfg (Some t) True s = Inr (t \<in> set (ready_q cfg (lmem s)))"
    using links_validate [OF links live_adm [OF tasks t], of True] by simp
  have dl: "delay_owner t s \<noteq> None \<longleftrightarrow> t \<in> set (delay_q (lmem s))" using delay_q_owner [OF links] by simp
  have ident: "(if priority (tcbs s t) = RTS_IDLE_PRIORITY then rts_scheduler_task_is_idle (Some t) s
      else unat (priority (tcbs s t)) < RTS_PRIORITY_COUNT cfg \<and>
        (rts_task_handle_is_application_task cfg (Some t) \<or> rts_scheduler_task_is_timer_service (Some t) s)) = True"
    using st is_idle_iff [OF tasks] is_service_iff [OF tasks] live_application [OF t]
    by (cases t) (auto simp: task_static_def RTS_IDLE_PRIORITY_def)
  have slot: "slot_state (tcbs s t) = RTS_TASK_SLOT_ALLOCATED" using t by (simp add: live_def)
  have pr: "\<not> priority (tcbs s t) < base_priority (tcbs s t)" "\<not> RTS_PRIORITY_COUNT cfg \<le> unat (base_priority (tcbs s t))"
    "magic_is_valid cfg t s"
    using st by (auto simp: task_static_def not_less word_le_nat_alt magic_is_valid_def)
  show ?thesis
  proof (cases "task_state (tcbs s t) = RTS_TASK_STATE_READY \<or> task_state (tcbs s t) = RTS_TASK_STATE_RUNNING")
    case True
    then have q: "t \<in> set (ready_q cfg (lmem s))" "t \<notin> set (delay_q (lmem s))" "wait_owner t s = None"
      "not_waiting (tcbs s t)" "task_state (tcbs s t) = RTS_TASK_STATE_RUNNING \<longrightarrow> current_task s = Some t"
      using mem by (auto simp: member_ok_def)
    have d: "delay_owner t s = None" using dl q(2) by simp
    have sok: "saved_stack_pointer (tcbs s t) \<noteq> 0" "stack_low (tcbs s t) \<noteq> 0" "stack_high (tcbs s t) \<noteq> 0"
      "\<not> stack_low (tcbs s t) \<ge> stack_high (tcbs s t)" "entry (tcbs s t) \<noteq> 0"
      using st by (auto simp: task_static_def)
    have nw: "wait_reason (tcbs s t) = RTS_WAIT_NONE" "wait_object (tcbs s t) = None" "\<not> timeout_active (tcbs s t)"
      using q(4) by (auto simp: not_waiting_def)
    have state: "task_state (tcbs s t) = RTS_TASK_STATE_READY \<or>
        (Some t = current_task s \<and> task_state (tcbs s t) = RTS_TASK_STATE_RUNNING)"
      using True q(5) by auto
    show ?thesis
      unfolding rts_scheduler_task_is_runnable_def Let_def option.case ident rts_scheduler_current_get_def
      by (simp add: sok nw q(1,3) d v slot pr True state)
  next
    case False
    then have "t \<notin> set (ready_q cfg (lmem s))" using ready_iff_state [OF tasks t] by simp
    with False v show ?thesis by (simp add: rts_scheduler_task_is_runnable_def Let_def)
  qed
qed

lemma blocked_delay_iff:
  assumes links: "links_inv cfg s" and tasks: "tasks_inv cfg s" and t: "live cfg s t"
  shows "rts_scheduler_task_is_blocked_delay cfg (Some t) s =
    Inr (task_state (tcbs s t) = RTS_TASK_STATE_BLOCKED \<and> wait_reason (tcbs s t) = RTS_WAIT_DELAY)"
proof -
  note st = live_static [OF tasks t]
  note mem = live_member [OF tasks t]
  show ?thesis
  proof (cases "task_state (tcbs s t) = RTS_TASK_STATE_BLOCKED \<and> wait_reason (tcbs s t) = RTS_WAIT_DELAY")
    case True
    then have q: "is_app t" "t \<notin> set (ready_q cfg (lmem s))" "t \<in> set (delay_q (lmem s))" "wait_owner t s = None"
      "wait_object (tcbs s t) = None" "\<not> timeout_active (tcbs s t)"
      using mem by (auto simp: member_ok_def)
    have own: "ready_owner t s = None" using ready_q_owner [OF links, of t] q(2) by simp
    have node: "nd_previous (node_at (lmem s) (Ready_Node t)) = None" "nd_next (node_at (lmem s) (Ready_Node t)) = None"
      "nd_object (node_at (lmem s) (Ready_Node t)) = None"
      using mem_okD(5,6) [OF links_invD(7) [OF links], of "Ready_Node t"] own
        edf_invD(4) [of cfg s t] ready_invD(3) [of cfg s t] links_invD(2) [OF links]
      by (auto simp: policy_inv_def fp_inv_def split: if_splits)
    have idle: "Some t \<noteq> idle_task s" "t \<noteq> Idle" using tasks_invD(1) [OF tasks] q(1) by auto
    have gt: "priority (tcbs s t) > RTS_IDLE_PRIORITY"
      using st idle(2) by (auto simp: task_static_def RTS_IDLE_PRIORITY_def word_neq_0_conv intro: less_le_trans)
    show ?thesis
      using True q st node idle gt t live_application [OF t] links_validate [OF links live_adm [OF tasks t], of False]
        links_delay_contains [OF links, of t]
      by (simp add: rts_scheduler_task_is_blocked_delay_def Let_def task_static_def live_def magic_is_valid_def)
  next
    case False
    then show ?thesis by (auto simp: rts_scheduler_task_is_blocked_delay_def Let_def)
  qed
qed

lemma blocked_wait_iff:
  assumes links: "links_inv cfg s" and tasks: "tasks_inv cfg s" and t: "live cfg s t"
  shows "rts_scheduler_task_is_blocked_wait cfg (Some t) s =
    Inr (task_state (tcbs s t) = RTS_TASK_STATE_BLOCKED \<and> wait_reason (tcbs s t) \<noteq> RTS_WAIT_DELAY)"
proof -
  note st = live_static [OF tasks t]
  note mem = live_member [OF tasks t]
  have idle: "Some t = idle_task s \<longleftrightarrow> t = Idle" using tasks_invD(1) [OF tasks] by auto
  have svc: "rts_scheduler_task_is_timer_service (Some t) s \<longleftrightarrow> t = Service" by (rule is_service_iff [OF tasks])
  have slot: "slot_state (tcbs s t) = RTS_TASK_SLOT_ALLOCATED" using t by (simp add: live_def)
  have del: "delay_owner t s = None \<longleftrightarrow> t \<notin> set (delay_q (lmem s))" using delay_q_owner [OF links, of t] by auto
  have gt: "t \<noteq> Idle \<Longrightarrow> priority (tcbs s t) > RTS_IDLE_PRIORITY"
    using st by (auto simp: task_static_def RTS_IDLE_PRIORITY_def word_neq_0_conv intro: less_le_trans)
  note V = links_validate [OF links live_adm [OF tasks t], of False] and C = links_delay_contains [OF links, of t]
  note app = live_application [OF t]
  show ?thesis
  proof (cases "task_state (tcbs s t) = RTS_TASK_STATE_BLOCKED")
    case False
    then show ?thesis by (auto simp: rts_scheduler_task_is_blocked_wait_def Let_def)
  next
    case blocked: True
    then have nr: "t \<notin> set (ready_q cfg (lmem s))" using mem by (simp add: member_ok_def)
    show ?thesis
    proof (cases "wait_reason (tcbs s t)")
      case RTS_WAIT_NONE
      with blocked mem show ?thesis by (simp add: member_ok_def)
    next
      case RTS_WAIT_DELAY
      with blocked mem have "t \<noteq> Service" by (auto simp: member_ok_def)
      with RTS_WAIT_DELAY svc show ?thesis by (auto simp: rts_scheduler_task_is_blocked_wait_def Let_def)
    next
      case RTS_WAIT_TIMER_SERVICE
      with blocked mem have q: "t = Service" "t \<notin> set (delay_q (lmem s))" "wait_owner t s = None"
        "wait_object (tcbs s t) = None" "\<not> timeout_active (tcbs s t)" "wait_result (tcbs s t) = RTS_WAIT_RESULT_NONE"
        by (auto simp: member_ok_def)
      have d: "delay_owner t s = None" using del q(2) by simp
      have f: "rts_scheduler_task_is_timer_service (Some t) s" "Some t \<noteq> idle_task s" using svc idle q(1) by simp_all
      from RTS_WAIT_TIMER_SERVICE blocked q(2-) nr slot st V d f show ?thesis
        by (simp add: rts_scheduler_task_is_blocked_wait_def Let_def magic_is_valid_def task_static_def)
    next
      case RTS_WAIT_SEMAPHORE
      with blocked mem have q: "is_app t" "wait_object (tcbs s t) \<noteq> None" "wait_owner t s \<noteq> None"
        "wait_owner t s = sem_waiters_of (wait_object (tcbs s t))" "(t \<in> set (delay_q (lmem s))) = timeout_active (tcbs s t)"
        "wait_result (tcbs s t) = RTS_WAIT_RESULT_NONE"
        by (auto simp: member_ok_def)
      then have "t \<noteq> Idle" "t \<noteq> Service" by auto
      with RTS_WAIT_SEMAPHORE blocked q nr slot st V C gt app svc idle show ?thesis
        by (simp add: rts_scheduler_task_is_blocked_wait_def Let_def magic_is_valid_def task_static_def)
    next
      case RTS_WAIT_MUTEX
      with blocked mem have q: "is_app t" "wait_object (tcbs s t) \<noteq> None" "wait_owner t s \<noteq> None"
        "wait_owner t s = mutex_waiters_of (wait_object (tcbs s t))" "(t \<in> set (delay_q (lmem s))) = timeout_active (tcbs s t)"
        "wait_result (tcbs s t) = RTS_WAIT_RESULT_NONE"
        by (auto simp: member_ok_def)
      then have "t \<noteq> Idle" "t \<noteq> Service" by auto
      with RTS_WAIT_MUTEX blocked q nr slot st V C gt app svc idle show ?thesis
        by (simp add: rts_scheduler_task_is_blocked_wait_def Let_def magic_is_valid_def task_static_def)
    qed
  qed
qed

section \<open>What the invariant does not read\<close>

text \<open>The part of a TCB that \<open>tasks_inv\<close> depends on.\<close>

definition tcb_core :: "rts_tcb \<Rightarrow> rts_tcb" where
  "tcb_core x = x\<lparr>wake_tick := 0, slice_remaining := 0, argument := 0, relative_deadline := 0, absolute_deadline := 0,
     release_tick := 0, execution_budget := 0, release_sequence := 0, diagnostic_dispatch_count := 0,
     diagnostic_block_count := 0, diagnostic_wake_count := 0, diagnostic_running_ticks := 0,
     diagnostic_last_start_tick := 0, diagnostic_max_stack_used := 0\<rparr>"

lemma tcb_core_fields:
  assumes "tcb_core x = tcb_core y"
  shows "task_state x = task_state y" and "wait_reason x = wait_reason y" and "wait_result x = wait_result y"
    and "wait_object x = wait_object y" and "timeout_active x = timeout_active y" and "priority x = priority y"
    and "base_priority x = base_priority y" and "slot_state x = slot_state y"
    and "saved_stack_pointer x = saved_stack_pointer y" and "stack_low x = stack_low y" and "stack_high x = stack_high y"
    and "entry x = entry y" and "period x = period y" and "validation_magic x = validation_magic y"
proof -
  have "f (tcb_core x) = f (tcb_core y)" for f :: "rts_tcb \<Rightarrow> 'a" by (simp add: assms)
  from this [of task_state] show "task_state x = task_state y" by (simp add: tcb_core_def)
  have "f (tcb_core x) = f (tcb_core y)" for f :: "rts_tcb \<Rightarrow> 'a" by (simp add: assms)
  from this [of wait_reason] show "wait_reason x = wait_reason y" by (simp add: tcb_core_def)
  show "wait_result x = wait_result y" using arg_cong [OF assms, of wait_result] by (simp add: tcb_core_def)
  show "wait_object x = wait_object y" using arg_cong [OF assms, of wait_object] by (simp add: tcb_core_def)
  show "timeout_active x = timeout_active y" using arg_cong [OF assms, of timeout_active] by (simp add: tcb_core_def)
  show "priority x = priority y" using arg_cong [OF assms, of priority] by (simp add: tcb_core_def)
  show "base_priority x = base_priority y" using arg_cong [OF assms, of base_priority] by (simp add: tcb_core_def)
  show "slot_state x = slot_state y" using arg_cong [OF assms, of slot_state] by (simp add: tcb_core_def)
  show "saved_stack_pointer x = saved_stack_pointer y" using arg_cong [OF assms, of saved_stack_pointer] by (simp add: tcb_core_def)
  show "stack_low x = stack_low y" using arg_cong [OF assms, of stack_low] by (simp add: tcb_core_def)
  show "stack_high x = stack_high y" using arg_cong [OF assms, of stack_high] by (simp add: tcb_core_def)
  show "entry x = entry y" using arg_cong [OF assms, of entry] by (simp add: tcb_core_def)
  show "period x = period y" using arg_cong [OF assms, of period] by (simp add: tcb_core_def)
  show "validation_magic x = validation_magic y" using arg_cong [OF assms, of validation_magic] by (simp add: tcb_core_def)
qed

lemma member_ok_core: "tcb_core x = tcb_core y \<Longrightarrow> member_ok t x = member_ok t y"
proof -
  assume "tcb_core x = tcb_core y"
  note f = tcb_core_fields [OF this]
  show ?thesis unfolding member_ok_def not_waiting_def fun_eq_iff f by simp
qed

lemma task_static_core: "tcb_core x = tcb_core y \<Longrightarrow> task_static cfg t x = task_static cfg t y"
proof -
  assume "tcb_core x = tcb_core y"
  note f = tcb_core_fields [OF this]
  show ?thesis unfolding task_static_def f by simp
qed

text \<open>The part of the state that \<open>links_inv\<close> and \<open>tasks_inv\<close> read.\<close>

definition same_core :: "rts_config \<Rightarrow> rts_kernel_state \<Rightarrow> rts_kernel_state \<Rightarrow> bool" where
  "same_core cfg s s' \<longleftrightarrow> (\<forall>t. tcb_core (tcbs s' t) = tcb_core (tcbs s t)) \<and> lmem s' = lmem s \<and>
     ready_bitmap s' = ready_bitmap s \<and> wmem s' = wmem s \<and> omem s' = omem s \<and> current_task s' = current_task s \<and>
     idle_task s' = idle_task s \<and> timer_service_task s' = timer_service_task s"

lemma same_core_refl [simp]: "same_core cfg s s"
  by (simp add: same_core_def)

lemma same_core_trans: "same_core cfg s s' \<Longrightarrow> same_core cfg s' s'' \<Longrightarrow> same_core cfg s s''"
  by (simp add: same_core_def)

lemma same_core_live: "same_core cfg s s' \<Longrightarrow> live cfg s' t = live cfg s t"
  using tcb_core_fields(8) [of "tcbs s' t" "tcbs s t"] by (simp add: same_core_def live_def)

lemma same_core_links: "links_inv cfg s \<Longrightarrow> same_core cfg s s' \<Longrightarrow> links_inv cfg s'"
  by (rule links_cong [of cfg s s'])
    (simp_all add: same_core_def tcb_core_fields(6) [of "tcbs s' t" "tcbs s t" for t])

lemma same_core_tasks:
  assumes "tasks_inv cfg s" and same: "same_core cfg s s'"
  shows "tasks_inv cfg s'"
proof -
  have "task_ok cfg s' t = task_ok cfg s t" for t
  proof -
    have c: "tcb_core (tcbs s' t) = tcb_core (tcbs s t)" using same by (simp add: same_core_def)
    have f: "lmem s' = lmem s" "wmem s' = wmem s" "omem s' = omem s" "current_task s' = current_task s"
      using same by (simp_all add: same_core_def)
    show ?thesis unfolding task_ok_def same_core_live [OF same] member_ok_core [OF c] task_static_core [OF c] f ..
  qed
  moreover have "idle_task s' = idle_task s" "timer_service_task s' = timer_service_task s"
    using same by (simp_all add: same_core_def)
  ultimately show ?thesis using assms(1) unfolding tasks_inv_def same_core_live [OF same] by metis
qed

text \<open>Bookkeeping that leaves the core alone.\<close>

lemma same_core_bookkeeping [simp]:
  "same_core cfg s (s\<lparr>switch_plan := p\<rparr>)" "same_core cfg s (s\<lparr>runtime_counters := rc\<rparr>)" "same_core cfg s (s\<lparr>trace := tr\<rparr>)"
  "same_core cfg s (s\<lparr>tick_on := b\<rparr>)" "same_core cfg s (s\<lparr>reschedule_requests := n\<rparr>)" "same_core cfg s (s\<lparr>lifecycle := lc\<rparr>)"
  "same_core cfg s (s\<lparr>current_tick := tk\<rparr>)" "same_core cfg s (s\<lparr>bytes := bs\<rparr>)"
  "same_core cfg s (s\<lparr>timers := ts\<rparr>)" "same_core cfg s (s\<lparr>callback_queue := cq\<rparr>)" "same_core cfg s (s\<lparr>semaphores := sm\<rparr>)"
  by (simp_all add: same_core_def)

lemma same_core_upd_tcb: "tcb_core (f (tcbs s t)) = tcb_core (tcbs s t) \<Longrightarrow> same_core cfg s (upd_tcb t f s)"
  by (simp add: same_core_def upd_tcb_def)

lemma same_core_diag [simp]:
  "same_core cfg s (diag_inc cfg c s)" "same_core cfg s (diag_add cfg c n s)" "same_core cfg s (RTS_TRACE cfg e a b s)"
  "same_core cfg s (upd_plan f s)" "same_core cfg s (rts_port_request_reschedule s)"
  by (simp_all add: diag_inc_def diag_add_def RTS_TRACE_def upd_plan_def rts_port_request_reschedule_def)

lemma tcb_core_diag [simp]:
  "tcb_core (x\<lparr>diagnostic_wake_count := n\<rparr>) = tcb_core x" "tcb_core (x\<lparr>diagnostic_block_count := n\<rparr>) = tcb_core x"
  "tcb_core (x\<lparr>diagnostic_running_ticks := n\<rparr>) = tcb_core x" "tcb_core (x\<lparr>diagnostic_last_start_tick := n\<rparr>) = tcb_core x"
  "tcb_core (x\<lparr>diagnostic_dispatch_count := n\<rparr>) = tcb_core x"
  by (cases x; simp add: tcb_core_def)+

lemma same_core_task_diag [simp]:
  "same_core cfg s (rts_runtime_task_started cfg tp now s)" "same_core cfg s (rts_runtime_task_stopped cfg tp now s)"
  "same_core cfg s (task_diag_block cfg t s)" "same_core cfg s (task_diag_wake cfg t s)"
  by (cases tp; simp add: rts_runtime_task_started_def rts_runtime_task_stopped_def task_diag_block_def
      task_diag_wake_def same_core_upd_tcb)+

end
