(* ===== verification/Switch_Plan.thy ===== *)
theory Switch_Plan
  imports Kernel_Tasks
begin

text \<open>
  Selection and the switch plan under the invariant. \<open>plan_inv\<close>: the plan is empty, pending or
  active; a proposed switch leads from the current task to a ready one, and, unless a reselection is
  due, to the first task of the service order. The selection returns the first task of the service
  order, and the plan operations keep the invariant.
\<close>

section \<open>Selection\<close>

definition head_ready :: "rts_config \<Rightarrow> rts_kernel_state \<Rightarrow> task_ref" where
  "head_ready cfg s = hd (ready_q cfg (lmem s))"

lemma head_ready_props:
  assumes "tasks_inv cfg s"
  shows "hd_or (ready_q cfg (lmem s)) None = Some (head_ready cfg s)" and "head_ready cfg s \<in> set (ready_q cfg (lmem s))"
    and "live cfg s (head_ready cfg s)"
    and "task_state (tcbs s (head_ready cfg s)) = RTS_TASK_STATE_READY \<or>
      task_state (tcbs s (head_ready cfg s)) = RTS_TASK_STATE_RUNNING"
proof -
  obtain h hs where h: "ready_q cfg (lmem s) = h # hs"
    using idle_ready [OF assms] by (cases "ready_q cfg (lmem s)") auto
  then show "hd_or (ready_q cfg (lmem s)) None = Some (head_ready cfg s)"
    and r: "head_ready cfg s \<in> set (ready_q cfg (lmem s))"
    by (simp_all add: head_ready_def)
  show l: "live cfg s (head_ready cfg s)" by (rule queued_live(1) [OF assms r])
  show "task_state (tcbs s (head_ready cfg s)) = RTS_TASK_STATE_READY \<or>
      task_state (tcbs s (head_ready cfg s)) = RTS_TASK_STATE_RUNNING"
    using ready_iff_state [OF assms l] r by simp
qed

lemma select_head:
  assumes "links_inv cfg s" and "tasks_inv cfg s" and "lifecycle s \<noteq> RTS_KERNEL_RESET"
  shows "rts_scheduler_select_highest_ready cfg s = Inr (Some (head_ready cfg s))"
proof -
  have "lifecycle s = RTS_KERNEL_INITIALIZED \<or> lifecycle s = RTS_KERNEL_RUNNING"
    using assms(3) by (cases "lifecycle s") auto
  then show ?thesis
    using links_pick [OF assms(1)] head_ready_props [OF assms(2)] runnable_iff [OF assms(1,2)]
    by (simp add: rts_scheduler_select_highest_ready_def)
qed

lemma current_valid:
  assumes "links_inv cfg s" and "tasks_inv cfg s" and "current_task s = Some t"
  shows "rts_scheduler_current_is_valid cfg s =
    Inr (lifecycle s \<noteq> RTS_KERNEL_RESET \<and> task_state (tcbs s t) = RTS_TASK_STATE_RUNNING)"
  using runnable_iff [OF assms(1,2) queued_live(4) [OF assms(2,3)]] assms(3)
  by (cases "lifecycle s"; cases "task_state (tcbs s t) = RTS_TASK_STATE_RUNNING")
    (simp_all add: rts_scheduler_current_is_valid_def rts_scheduler_current_get_def)

section \<open>The switch plan\<close>

text \<open>The task that runs next: the target of a pending or active switch, else the current task.\<close>

definition plan_target :: "rts_kernel_state \<Rightarrow> task_ref option" where
  "plan_target s = (if sp_pending (switch_plan s) \<or> sp_active (switch_plan s) then sp_to (switch_plan s) else current_task s)"

definition plan_wf :: "rts_config \<Rightarrow> rts_kernel_state \<Rightarrow> bool" where
  "plan_wf cfg s \<longleftrightarrow> lifecycle s = RTS_KERNEL_RUNNING \<and> current_task s \<noteq> None \<and>
     \<not> (sp_pending (switch_plan s) \<and> sp_active (switch_plan s)) \<and>
     (sp_pending (switch_plan s) \<or> sp_active (switch_plan s) \<longrightarrow> sp_from (switch_plan s) = current_task s \<and>
        (\<exists>u. sp_to (switch_plan s) = Some u \<and> live cfg s u \<and> task_state (tcbs s u) = RTS_TASK_STATE_READY))"

definition plan_inv :: "rts_config \<Rightarrow> rts_kernel_state \<Rightarrow> bool" where
  "plan_inv cfg s \<longleftrightarrow> plan_wf cfg s \<and>
     (\<not> sp_pending (switch_plan s) \<and> \<not> sp_active (switch_plan s) \<longrightarrow>
        task_state (tcbs s (the (current_task s))) = RTS_TASK_STATE_RUNNING) \<and>
     (sp_reselection_required (switch_plan s) \<longrightarrow> sp_active (switch_plan s)) \<and>
     (sp_reselection_required (switch_plan s) \<or> plan_target s = Some (head_ready cfg s))"

lemma current_outgoing:
  assumes links: "links_inv cfg s" and tasks: "tasks_inv cfg s" and c: "current_task s = Some c"
  shows "rts_switch_outgoing_is_valid cfg (Some c) s = Inr True"
proof -
  have l: "live cfg s c" by (rule queued_live(4) [OF tasks c])
  have "task_state (tcbs s c) = RTS_TASK_STATE_RUNNING \<or> task_state (tcbs s c) = RTS_TASK_STATE_BLOCKED"
    using live_member [OF tasks l] c by (auto simp: member_ok_def split: rts_task_state.splits)
  then show ?thesis
    using runnable_iff [OF links tasks l] blocked_delay_iff [OF links tasks l] blocked_wait_iff [OF links tasks l] c
    by (auto simp: rts_switch_outgoing_is_valid_def rts_scheduler_current_get_def Let_def)
qed

text \<open>The plan after a switch to \<open>n\<close> was proposed.\<close>

definition plan_proposed :: "task_ref \<Rightarrow> task_ref \<Rightarrow> rts_switch_plan \<Rightarrow> rts_switch_plan \<Rightarrow> bool" where
  "plan_proposed c n p p' \<longleftrightarrow>
     (if sp_active p then p' = p\<lparr>sp_reselection_required := True\<rparr>
      else \<not> sp_reselection_required p' \<and> \<not> sp_active p' \<and> sp_pending p' = (n \<noteq> c) \<and>
        (n \<noteq> c \<longrightarrow> sp_from p' = Some c \<and> sp_to p' = Some n))"

lemma prepare_switch_law:
  assumes links: "links_inv cfg s" and tasks: "tasks_inv cfg s" and plan: "plan_wf cfg s"
    and c: "current_task s = Some c" and n: "n \<in> set (ready_q cfg (lmem s))"
  obtains p rc where "rts_scheduler_prepare_switch cfg (Some n) s =
      Inr (n \<noteq> c \<and> \<not> sp_active (switch_plan s) \<and> \<not> sp_pending (switch_plan s),
        s\<lparr>switch_plan := p, runtime_counters := rc\<rparr>)"
    and "plan_proposed c n (switch_plan s) p"
proof -
  have lc: "lifecycle s = RTS_KERNEL_RUNNING" using plan by (simp add: plan_wf_def)
  have l: "live cfg s n" by (rule queued_live(1) [OF tasks n])
  have st: "task_state (tcbs s n) = RTS_TASK_STATE_READY \<or> task_state (tcbs s n) = RTS_TASK_STATE_RUNNING"
    using ready_iff_state [OF tasks l] n by simp
  then have r: "rts_scheduler_task_is_runnable cfg (Some n) s = Inr True" using runnable_iff [OF links tasks l] by simp
  have rd: "task_state (tcbs s n) = RTS_TASK_STATE_READY" if "n \<noteq> c"
    using running_iff_current [OF tasks l] st c that by auto
  have out: "rts_switch_outgoing_is_valid cfg (Some c) s = Inr True" by (rule current_outgoing [OF links tasks c])
  have fromto: "sp_from (switch_plan s) = Some c" "sp_to (switch_plan s) \<noteq> None" if "sp_pending (switch_plan s)"
    using plan that c by (auto simp: plan_wf_def)
  let ?p = "switch_plan s" and ?rc = "runtime_counters s"
  show ?thesis
  proof (cases "sp_active ?p")
    case True
    have "rts_scheduler_prepare_switch cfg (Some n) s =
        Inr (False, s\<lparr>switch_plan := ?p\<lparr>sp_reselection_required := True\<rparr>, runtime_counters := ?rc\<rparr>)"
      using True lc c r out by (simp add: rts_scheduler_prepare_switch_def rts_scheduler_current_get_def Let_def upd_plan_def)
    with True show ?thesis
      by (intro that [of ?rc "?p\<lparr>sp_reselection_required := True\<rparr>"]) (simp_all add: plan_proposed_def)
  next
    case act: False
    show ?thesis
    proof (cases "n = c")
      case True
      note defs = rts_scheduler_prepare_switch_def rts_scheduler_current_get_def Let_def upd_plan_def
        plan_proposed_def rts_switch_plan_clear_def
      show ?thesis
      proof (cases "sp_pending ?p")
        case pend: True
        with True act lc c r out fromto show ?thesis
          by (intro that [of ?rc "rts_switch_plan_clear (?p\<lparr>sp_reselection_required := False,
              sp_generation := rts_switch_next_generation (sp_generation ?p)\<rparr>)"]) (simp_all add: defs)
      next
        case pend: False
        with True act lc c r out show ?thesis
          by (intro that [of ?rc "?p\<lparr>sp_reselection_required := False\<rparr>"]) (simp_all add: defs)
      qed
    next
      case False
      note defs = rts_scheduler_prepare_switch_def rts_scheduler_current_get_def Let_def upd_plan_def
        plan_proposed_def rts_switch_plan_clear_def diag_inc_def
      show ?thesis
      proof (cases "sp_pending ?p")
        case True
        then obtain v where v: "sp_to ?p = Some v" "sp_from ?p = Some c" using fromto by auto
        show ?thesis
        proof (cases "v = n")
          case to: True
          with True False act lc c r out v rd show ?thesis
            by (intro that [of ?rc "?p\<lparr>sp_reselection_required := False\<rparr>"]) (simp_all add: defs)
        next
          case to: False
          with True False act lc c r out v rd show ?thesis
            by (intro that [of ?rc "?p\<lparr>sp_reselection_required := False, sp_to := Some n,
              sp_generation := rts_switch_next_generation (sp_generation ?p)\<rparr>"]) (simp_all add: defs)
        qed
      next
        case pend: False
        let ?p' = "?p\<lparr>sp_reselection_required := False, sp_from := Some c, sp_to := Some n,
            sp_pending := True, sp_generation := rts_switch_next_generation (sp_generation ?p)\<rparr>"
        define rc where "rc = (if RTS_ENABLE_RUNTIME_STATS cfg
          then ?rc(switch_requests := rts_diagnostic_counter_increment (?rc switch_requests)) else ?rc)"
        from pend False act lc c r out rd show ?thesis
          by (intro that [of rc ?p']) (simp_all add: defs rc_def)
      qed
    qed
  qed
qed

lemma plan_inv_proposed:
  assumes tasks: "tasks_inv cfg s" and plan: "plan_wf cfg s" and c: "current_task s = Some c"
    and p: "plan_proposed c (head_ready cfg s) (switch_plan s) p"
    and s': "lifecycle s' = lifecycle s" "current_task s' = current_task s" "switch_plan s' = p" "tcbs s' = tcbs s"
      "lmem s' = lmem s"
  shows "plan_inv cfg s'"
proof -
  let ?h = "head_ready cfg s"
  note H = head_ready_props [OF tasks]
  have h: "head_ready cfg s' = ?h" by (simp add: head_ready_def s')
  have l: "live cfg s' u = live cfg s u" for u by (simp add: live_def s')
  have run: "task_state (tcbs s c) = RTS_TASK_STATE_RUNNING" if "?h = c"
    using running_iff_current [OF tasks queued_live(4) [OF tasks c]] H(4) c that by auto
  have rd: "task_state (tcbs s ?h) = RTS_TASK_STATE_READY" if "?h \<noteq> c"
    using running_iff_current [OF tasks H(3)] H(4) c that by auto
  show ?thesis
    using plan p c run rd H(3)
    by (auto simp: plan_inv_def plan_wf_def plan_proposed_def plan_target_def s' h l split: if_splits)
qed

text \<open>Acquiring and completing a switch.\<close>

lemma switch_acquire_law:
  assumes links: "links_inv cfg s" and tasks: "tasks_inv cfg s" and plan: "plan_inv cfg s"
    and act: "\<not> sp_active (switch_plan s)"
  shows "rts_scheduler_switch_acquire cfg s =
    (if sp_pending (switch_plan s)
     then Inr (Some \<lparr>ss_from = current_task s, ss_to = sp_to (switch_plan s), ss_generation = sp_generation (switch_plan s)\<rparr>,
       s\<lparr>switch_plan := (switch_plan s)\<lparr>sp_pending := False, sp_active := True\<rparr>\<rparr>)
     else Inr (None, s))"
    and "plan_inv cfg (s\<lparr>switch_plan := (switch_plan s)\<lparr>sp_pending := False, sp_active := True\<rparr>\<rparr>) \<or>
      \<not> sp_pending (switch_plan s)"
proof -
  have wf: "plan_wf cfg s" using plan by (simp add: plan_inv_def)
  then obtain c where c: "current_task s = Some c" and lc: "lifecycle s = RTS_KERNEL_RUNNING" by (auto simp: plan_wf_def)
  show "rts_scheduler_switch_acquire cfg s =
    (if sp_pending (switch_plan s)
     then Inr (Some \<lparr>ss_from = current_task s, ss_to = sp_to (switch_plan s), ss_generation = sp_generation (switch_plan s)\<rparr>,
       s\<lparr>switch_plan := (switch_plan s)\<lparr>sp_pending := False, sp_active := True\<rparr>\<rparr>)
     else Inr (None, s))"
  proof (cases "sp_pending (switch_plan s)")
    case True
    then obtain u where u: "sp_from (switch_plan s) = Some c" "sp_to (switch_plan s) = Some u" "live cfg s u"
      "task_state (tcbs s u) = RTS_TASK_STATE_READY"
      using wf c by (auto simp: plan_wf_def)
    have "u \<noteq> c" using live_member [OF tasks u(3)] u(4) c by (auto simp: member_ok_def)
    then show ?thesis
      using True act lc c u current_outgoing [OF links tasks c] runnable_iff [OF links tasks u(3)]
      by (simp add: rts_scheduler_switch_acquire_def rts_scheduler_current_get_def Let_def upd_plan_def)
  next
    case False
    with act lc show ?thesis by (simp add: rts_scheduler_switch_acquire_def Let_def)
  qed
  have h: "head_ready cfg (s\<lparr>switch_plan := p\<rparr>) = head_ready cfg s" for p by (simp add: head_ready_def)
  have l: "live cfg (s\<lparr>switch_plan := p\<rparr>) u = live cfg s u" for p u by (simp add: live_def)
  show "plan_inv cfg (s\<lparr>switch_plan := (switch_plan s)\<lparr>sp_pending := False, sp_active := True\<rparr>\<rparr>) \<or>
      \<not> sp_pending (switch_plan s)"
    using plan by (auto simp: plan_inv_def plan_wf_def plan_target_def h l)
qed

end
