(* ===== verification/Task_Moves.thy ===== *)
theory Task_Moves
  imports Switch_Plan
begin

text \<open>
  Moving one task between the queues. \<open>tasks_but t\<close> is the task invariant for every task except
  \<open>t\<close>: it holds in the middle of an operation that blocks or wakes \<open>t\<close>. \<open>block_law\<close> opens it,
  \<open>wake_law\<close> and \<open>tasks_close\<close> close it again.
\<close>

lemma task_static_upd [simp]:
  "task_static cfg t (x\<lparr>task_state := a\<rparr>) = task_static cfg t x" "task_static cfg t (x\<lparr>wait_reason := b\<rparr>) = task_static cfg t x"
  "task_static cfg t (x\<lparr>wait_result := c\<rparr>) = task_static cfg t x" "task_static cfg t (x\<lparr>wake_tick := d\<rparr>) = task_static cfg t x"
  "task_static cfg t (x\<lparr>wait_object := e\<rparr>) = task_static cfg t x" "task_static cfg t (x\<lparr>timeout_active := f\<rparr>) = task_static cfg t x"
  "task_static cfg t (x\<lparr>slice_remaining := g\<rparr>) = task_static cfg t x"
  by (simp_all add: task_static_def)

definition tasks_but :: "rts_config \<Rightarrow> task_ref \<Rightarrow> rts_kernel_state \<Rightarrow> bool" where
  "tasks_but cfg t s \<longleftrightarrow> idle_task s = Some Idle \<and> timer_service_task s = Some Service \<and>
     live cfg s Idle \<and> live cfg s Service \<and> live cfg s t \<and> (\<forall>u. u \<noteq> t \<longrightarrow> task_ok cfg s u)"

lemma tasks_open: "tasks_inv cfg s \<Longrightarrow> live cfg s t \<Longrightarrow> tasks_but cfg t s"
  by (simp add: tasks_inv_def tasks_but_def)

lemma tasks_close: "tasks_but cfg t s \<Longrightarrow> task_ok cfg s t \<Longrightarrow> tasks_inv cfg s"
  by (auto simp: tasks_inv_def tasks_but_def)

lemma tasks_but_cong:
  assumes "tasks_but cfg t s" and "idle_task s' = idle_task s" and "timer_service_task s' = timer_service_task s"
    and "current_task s' = current_task s" and "omem s' = omem s"
    and "\<And>u. slot_state (tcbs s' u) = slot_state (tcbs s u)"
    and "\<And>u. u \<noteq> t \<Longrightarrow> tcb_core (tcbs s' u) = tcb_core (tcbs s u)"
    and "\<And>u. u \<noteq> t \<Longrightarrow> u \<in> set (ready_q cfg (lmem s')) \<longleftrightarrow> u \<in> set (ready_q cfg (lmem s))"
    and "\<And>u. u \<noteq> t \<Longrightarrow> u \<in> set (delay_q (lmem s')) \<longleftrightarrow> u \<in> set (delay_q (lmem s))"
    and "\<And>u. u \<noteq> t \<Longrightarrow> wait_owner u s' = wait_owner u s"
  shows "tasks_but cfg t s'"
proof -
  have l: "live cfg s' u = live cfg s u" for u by (simp add: live_def assms(6))
  have "task_ok cfg s' u = task_ok cfg s u" if "u \<noteq> t" for u
    unfolding task_ok_def l member_ok_core [OF assms(7) [OF that]] task_static_core [OF assms(7) [OF that]]
      assms(4,5) assms(8,9) [OF that] assms(10) [OF that] ..
  with assms(1-3) show ?thesis by (simp add: tasks_but_def l)
qed

text \<open>Writes to the TCB of \<open>t\<close> itself.\<close>

lemma tasks_but_upd_tcb:
  assumes "tasks_but cfg t s" and "slot_state (f (tcbs s t)) = slot_state (tcbs s t)"
  shows "tasks_but cfg t (upd_tcb t f s)"
  by (rule tasks_but_cong [OF assms(1)]) (use assms(2) in \<open>auto simp: upd_tcb_def\<close>)

lemma tasks_but_same_core: "tasks_but cfg t s \<Longrightarrow> same_core cfg s s' \<Longrightarrow> tasks_but cfg t s'"
  by (rule tasks_but_cong [of cfg t s s'])
    (auto simp: same_core_def tcb_core_fields(8) [of "tcbs s' t" "tcbs s t" for t])

lemma links_upd_tcb:
  "links_inv cfg s \<Longrightarrow> priority (f (tcbs s t)) = priority (tcbs s t) \<Longrightarrow> links_inv cfg (upd_tcb t f s)"
  by (rule links_cong [of cfg s]) (auto simp: upd_tcb_def)

text \<open>Taking \<open>t\<close> out of the ready structure.\<close>

lemma block_law:
  assumes "links_inv cfg s" and "tasks_inv cfg s" and "t \<in> set (ready_q cfg (lmem s))"
  obtains m b where "rts_policy_task_block cfg (Some t) s = Inr (True, s\<lparr>lmem := m, ready_bitmap := b\<rparr>)"
    and "links_inv cfg (s\<lparr>lmem := m, ready_bitmap := b\<rparr>)" and "tasks_but cfg t (s\<lparr>lmem := m, ready_bitmap := b\<rparr>)"
    and "ready_q cfg m = remove1 t (ready_q cfg (lmem s))" and "t \<notin> set (ready_q cfg m)"
    and "delay_q m = delay_q (lmem s)" and "timer_q m = timer_q (lmem s)"
proof -
  obtain m b where m: "rts_policy_task_block cfg (Some t) s = Inr (True, s\<lparr>lmem := m, ready_bitmap := b\<rparr>)"
    "links_inv cfg (s\<lparr>lmem := m, ready_bitmap := b\<rparr>)" "ready_q cfg m = remove1 t (ready_q cfg (lmem s))"
    "delay_q m = delay_q (lmem s)" "timer_q m = timer_q (lmem s)"
    by (rule links_block [OF assms(1,3)])
  have d: "distinct (ready_q cfg (lmem s))" by (rule distinct_ready_q [OF assms(1)])
  have "tasks_but cfg t (s\<lparr>lmem := m, ready_bitmap := b\<rparr>)"
    by (rule tasks_but_cong [OF tasks_open [OF assms(2) queued_live(1) [OF assms(2,3)]]])
      (use d in \<open>simp_all add: m(3,4)\<close>)
  with m d show ?thesis by (intro that [of b m]) simp_all
qed

text \<open>Making \<open>t\<close> ready again once its TCB says that it is.\<close>

lemma wake_law:
  assumes links: "links_inv cfg s" and but: "tasks_but cfg t s" and static: "task_static cfg t (tcbs s t)"
    and q: "t \<notin> set (ready_q cfg (lmem s))" "t \<notin> set (delay_q (lmem s))" "wait_owner t s = None"
    and x: "not_waiting (tcbs s t)"
      "task_state (tcbs s t) = (if current_task s = Some t then RTS_TASK_STATE_RUNNING else RTS_TASK_STATE_READY)"
  defines "s1 \<equiv> rts_policy_record_release t s"
  obtains m b where "rts_policy_task_unblock cfg (Some t) s = Inr (True, s1\<lparr>lmem := m, ready_bitmap := b\<rparr>)"
    and "links_inv cfg (s1\<lparr>lmem := m, ready_bitmap := b\<rparr>)" and "tasks_inv cfg (s1\<lparr>lmem := m, ready_bitmap := b\<rparr>)"
    and "ready_q cfg m = stable_insert (policy_before cfg s1) t (ready_q cfg (lmem s))"
    and "delay_q m = delay_q (lmem s)" and "timer_q m = timer_q (lmem s)"
proof -
  have l: "live cfg s t" using but by (simp add: tasks_but_def)
  have adm: "policy_adm cfg t s"
    using static x(2) l but by (cases t) (auto simp: policy_adm_def task_static_def live_def tasks_but_def)
  obtain m b where m: "rts_policy_task_unblock cfg (Some t) s = Inr (True, s1\<lparr>lmem := m, ready_bitmap := b\<rparr>)"
    "links_inv cfg (s1\<lparr>lmem := m, ready_bitmap := b\<rparr>)"
    "ready_q cfg m = stable_insert (policy_before cfg s1) t (ready_q cfg (lmem s))"
    "delay_q m = delay_q (lmem s)" "timer_q m = timer_q (lmem s)"
    using links_unblock [OF links adm q(1)] unfolding s1_def by metis
  let ?s2 = "s1\<lparr>lmem := m, ready_bitmap := b\<rparr>"
  have core: "tcb_core (tcbs s1 u) = tcb_core (tcbs s u)" "slot_state (tcbs s1 u) = slot_state (tcbs s u)" for u
    by (simp_all add: s1_def rts_policy_record_release_def Let_def upd_tcb_def tcb_core_def)
  have fields: "idle_task s1 = idle_task s" "timer_service_task s1 = timer_service_task s" "current_task s1 = current_task s"
    "omem s1 = omem s" "wmem s1 = wmem s"
    by (simp_all add: s1_def rts_policy_record_release_def Let_def upd_tcb_def)
  have b2: "tasks_but cfg t ?s2"
    by (rule tasks_but_cong [OF but]) (simp_all add: core fields m(3,4))
  have l2: "live cfg ?s2 t" using b2 by (simp add: tasks_but_def)
  have "task_static cfg t (tcbs ?s2 t)" using static task_static_core [OF core(1), of cfg t t] by simp
  moreover have "member_ok t (tcbs ?s2 t) True False None (current_task s = Some t)"
    using member_ok_core [OF core(1), of t t] x by (simp add: member_ok_def)
  ultimately have "task_ok cfg ?s2 t" using l2 q(2,3) by (simp add: task_ok_def m(3,4) fields)
  with b2 have "tasks_inv cfg ?s2" by (rule tasks_close)
  with m show ?thesis by (intro that)
qed

section \<open>Completing a switch\<close>

text \<open>The two TCBs and the current task after the switch.\<close>

definition switched :: "rts_config \<Rightarrow> task_ref \<Rightarrow> task_ref \<Rightarrow> rts_kernel_state \<Rightarrow> rts_kernel_state" where
  "switched cfg from to s = s\<lparr>tcbs := (tcbs s)(
       from := (tcbs s from)\<lparr>task_state := (if task_state (tcbs s from) = RTS_TASK_STATE_RUNNING
         then RTS_TASK_STATE_READY else task_state (tcbs s from))\<rparr>,
       to := (tcbs s to)\<lparr>task_state := RTS_TASK_STATE_RUNNING\<rparr>),
     current_task := Some to\<rparr>"

lemma switched_tasks:
  assumes tasks: "tasks_inv cfg s" and cur: "current_task s = Some from"
    and to: "live cfg s to" "task_state (tcbs s to) = RTS_TASK_STATE_READY"
  shows "tasks_inv cfg (switched cfg from to s)" and "from \<noteq> to"
proof -
  have f: "live cfg s from" by (rule queued_live(4) [OF tasks cur])
  note mf = live_member [OF tasks f] and mt = live_member [OF tasks to(1)]
  show ne: "from \<noteq> to" using mt to(2) cur by (auto simp: member_ok_def)
  let ?s = "switched cfg from to s"
  have l: "live cfg ?s u = live cfg s u" for u by (simp add: live_def switched_def)
  have q: "lmem ?s = lmem s" "wmem ?s = wmem s" "omem ?s = omem s" "current_task ?s = Some to"
    "idle_task ?s = idle_task s" "timer_service_task ?s = timer_service_task s"
    by (simp_all add: switched_def)
  have "task_ok cfg ?s u" for u
  proof (cases "live cfg s u")
    case False
    then have "task_ok cfg s u" "u \<noteq> to" using tasks_invD(5) [OF tasks] to by auto
    with False show ?thesis by (auto simp: task_ok_def l q)
  next
    case True
    note m = live_member [OF tasks True] and st = live_static [OF tasks True]
    have "task_static cfg u (tcbs ?s u)" using st by (auto simp: switched_def)
    moreover have "member_ok u (tcbs ?s u) (u \<in> set (ready_q cfg (lmem s))) (u \<in> set (delay_q (lmem s)))
        (wait_owner u s) (Some to = Some u)"
    proof (cases "u = to")
      case True
      then show ?thesis using mt to(2) ne by (simp add: switched_def member_ok_def not_waiting_def)
    next
      case False
      show ?thesis
      proof (cases "u = from")
        case True
        then show ?thesis using mf ne cur
          by (cases "task_state (tcbs s from)"; cases "wait_reason (tcbs s from)") (simp_all add: switched_def member_ok_def not_waiting_def)
      next
        case nf: False
        then show ?thesis using m cur False by (simp add: switched_def)
      qed
    qed
    ultimately show ?thesis using True by (simp add: task_ok_def l q)
  qed
  with tasks show "tasks_inv cfg ?s" by (simp add: tasks_inv_def l q)
qed

lemma tcb_core_upd:
  "tcb_core (x\<lparr>task_state := a\<rparr>) = (tcb_core x)\<lparr>task_state := a\<rparr>" "tcb_core (x\<lparr>slice_remaining := n\<rparr>) = tcb_core x"
  "tcb_core (x\<lparr>wake_tick := w\<rparr>) = tcb_core x"
  by (cases x; simp add: tcb_core_def)+

lemma switch_complete_law:
  assumes links: "links_inv cfg s" and tasks: "tasks_inv cfg s" and plan: "plan_inv cfg s"
    and act: "sp_active (switch_plan s)" and cur: "current_task s = Some from" and to: "sp_to (switch_plan s) = Some to"
    and stacks: "rts_stack_guard_is_valid cfg (Some from) s" "rts_stack_guard_is_valid cfg (Some to) s"
      "rts_stack_saved_sp_is_valid cfg (Some from) s" "rts_stack_saved_sp_is_valid cfg (Some to) s"
  obtains s' where "rts_scheduler_switch_complete cfg
      (Some \<lparr>ss_from = Some from, ss_to = Some to, ss_generation = sp_generation (switch_plan s)\<rparr>) s = Inr s'"
    and "same_core cfg (switched cfg from to s) s'" and "tasks_inv cfg s'" and "links_inv cfg s'" and "plan_wf cfg s'"
    and "task_state (tcbs s' to) = RTS_TASK_STATE_RUNNING" and "current_task s' = Some to"
    and "sp_reselection_required (switch_plan s) \<or> plan_inv cfg s'"
    and "switch_plan s' = rts_switch_plan_clear (switch_plan s)" and "bytes s' = bytes s" and "semaphores s' = semaphores s"
    and "mutexes s' = mutexes s" and "\<And>u. wake_tick (tcbs s' u) = wake_tick (tcbs s u)"
proof -
  have wf: "plan_wf cfg s" using plan by (simp add: plan_inv_def)
  have lc: "lifecycle s = RTS_KERNEL_RUNNING" and np: "\<not> sp_pending (switch_plan s)"
    and fr: "sp_from (switch_plan s) = Some from" and lt: "live cfg s to"
    and rd: "task_state (tcbs s to) = RTS_TASK_STATE_READY"
    using wf act cur to by (auto simp: plan_wf_def)
  have ne: "from \<noteq> to" by (rule switched_tasks(2) [OF tasks cur lt rd])
  have st: "task_state (tcbs s from) = RTS_TASK_STATE_RUNNING \<or> task_state (tcbs s from) = RTS_TASK_STATE_BLOCKED"
    using live_member [OF tasks queued_live(4) [OF tasks cur]] cur by (auto simp: member_ok_def split: rts_task_state.splits)
  define s1 where "s1 = rts_runtime_task_stopped cfg (Some from) (current_tick s) s"
  define s2 where "s2 = (if task_state (tcbs s from) = RTS_TASK_STATE_RUNNING
      then upd_tcb from (\<lambda>x. x\<lparr>task_state := RTS_TASK_STATE_READY\<rparr>) s1 else s1)"
  define s3 where "s3 = upd_tcb to (\<lambda>x. x\<lparr>slice_remaining := RTS_TIME_SLICE_TICKS cfg, task_state := RTS_TASK_STATE_RUNNING\<rparr>) s2
      \<lparr>current_task := Some to\<rparr>"
  define s4 where "s4 = rts_runtime_task_started cfg (Some to) (current_tick s3) s3"
  define s5 where "s5 = diag_inc cfg context_switches s4"
  define s6 where "s6 = RTS_TRACE cfg RTS_TRACE_TASK_SWITCHED (ucast (priority (tcbs s5 from))) (ucast (priority (tcbs s5 to))) s5"
  define s7 where "s7 = upd_plan rts_switch_plan_clear s6"
  have state1: "task_state (tcbs s1 u) = task_state (tcbs s u)" for u
    by (simp add: s1_def rts_runtime_task_stopped_def upd_tcb_def)
  have core3: "same_core cfg (switched cfg from to s) s3"
    using same_core_task_diag(2) [of cfg s "Some from" "current_tick s", folded s1_def] ne
    by (auto simp: same_core_def switched_def s3_def s2_def upd_tcb_def tcb_core_upd)
  have "same_core cfg s3 s4" "same_core cfg s4 s5" "same_core cfg s5 s6" "same_core cfg s6 s7"
    by (simp_all add: s4_def s5_def s6_def s7_def)
  with core3 have core7: "same_core cfg (switched cfg from to s) s7" by (metis same_core_trans)
  have t7: "tasks_inv cfg s7" by (rule same_core_tasks [OF switched_tasks(1) [OF tasks cur lt rd] core7])
  have l7: "links_inv cfg s7"
    by (rule same_core_links [OF links_cong [OF links] core7]) (auto simp: switched_def)
  have plan7: "switch_plan s7 = rts_switch_plan_clear (switch_plan s)" and lc7: "lifecycle s7 = lifecycle s"
    and rest7: "bytes s7 = bytes s" "semaphores s7 = semaphores s" "mutexes s7 = mutexes s" "wake_tick (tcbs s7 u) = wake_tick (tcbs s u)" for u
    by (simp_all add: s7_def s6_def s5_def s4_def s3_def s2_def s1_def upd_plan_def RTS_TRACE_def diag_inc_def
        rts_runtime_task_started_def rts_runtime_task_stopped_def upd_tcb_def)
  have cur7: "current_task s7 = Some to" and lm7: "lmem s7 = lmem s" using core7 by (simp_all add: same_core_def switched_def)
  have run7: "task_state (tcbs s7 to) = RTS_TASK_STATE_RUNNING"
    using core7 tcb_core_fields(1) [of "tcbs s7 to" "tcbs (switched cfg from to s) to"] by (simp add: same_core_def switched_def)
  have "plan_target s = Some to" using act to by (simp add: plan_target_def)
  moreover have w7: "plan_wf cfg s7" using lc by (simp add: plan_wf_def plan7 lc7 cur7 rts_switch_plan_clear_def)
  ultimately have p7: "sp_reselection_required (switch_plan s) \<or> plan_inv cfg s7"
    using plan run7 by (auto simp: plan_inv_def plan_target_def plan7 cur7 head_ready_def lm7 rts_switch_plan_clear_def)
  have v7: "rts_scheduler_current_is_valid cfg s7 = Inr True"
    using current_valid [OF l7 t7 cur7] run7 lc lc7 by simp
  have "rts_scheduler_switch_complete cfg
      (Some \<lparr>ss_from = Some from, ss_to = Some to, ss_generation = sp_generation (switch_plan s)\<rparr>) s = Inr s7"
    using stacks lc act np fr to ne cur rd current_outgoing [OF links tasks cur] runnable_iff [OF links tasks lt] st
      v7 [unfolded s7_def s6_def s5_def s4_def s3_def s2_def]
    unfolding rts_scheduler_switch_complete_def Let_def option.sel
    by (cases "task_state (tcbs s from) = RTS_TASK_STATE_RUNNING")
      (simp_all add: rts_scheduler_current_get_def s1_def [symmetric] state1 s2_def s3_def s4_def s5_def s6_def s7_def)
  then show ?thesis using core7 t7 l7 w7 run7 cur7 p7 plan7 rest7 by (rule that)
qed

lemma reselect_law:
  assumes links: "links_inv cfg s" and tasks: "tasks_inv cfg s" and plan: "plan_wf cfg s"
    and c: "current_task s = Some c" "task_state (tcbs s c) = RTS_TASK_STATE_RUNNING"
    and no: "sp_reselection_required (switch_plan s) \<or> plan_inv cfg s"
  obtains notify p rc where "rts_scheduler_reselect_after_switch cfg s =
      Inr (notify, s\<lparr>switch_plan := p, runtime_counters := rc\<rparr>)"
    and "plan_inv cfg (s\<lparr>switch_plan := p, runtime_counters := rc\<rparr>)"
    and "\<not> sp_active (switch_plan s) \<Longrightarrow> \<not> sp_active p"
proof (cases "sp_reselection_required (switch_plan s)")
  case False
  with no show ?thesis
    by (intro that [of False "runtime_counters s" "switch_plan s"]) (simp_all add: rts_scheduler_reselect_after_switch_def)
next
  case True
  have lc: "lifecycle s \<noteq> RTS_KERNEL_RESET" using plan by (simp add: plan_wf_def)
  note H = head_ready_props [OF tasks]
  obtain p rc where p: "rts_scheduler_prepare_switch cfg (Some (head_ready cfg s)) s =
      Inr (head_ready cfg s \<noteq> c \<and> \<not> sp_active (switch_plan s) \<and> \<not> sp_pending (switch_plan s),
        s\<lparr>switch_plan := p, runtime_counters := rc\<rparr>)" "plan_proposed c (head_ready cfg s) (switch_plan s) p"
    using prepare_switch_law [OF links tasks plan c(1) H(2)] by metis
  have "plan_inv cfg (s\<lparr>switch_plan := p, runtime_counters := rc\<rparr>)"
    by (rule plan_inv_proposed [OF tasks plan c(1) p(2)]) simp_all
  moreover have "\<not> sp_active (switch_plan s) \<Longrightarrow> \<not> sp_active p" using p(2) by (simp add: plan_proposed_def)
  moreover have "\<exists>notify. rts_scheduler_reselect_after_switch cfg s =
      Inr (notify, s\<lparr>switch_plan := p, runtime_counters := rc\<rparr>)"
    using True c p(1) select_head [OF links tasks lc]
    by (cases "head_ready cfg s = c")
      (auto simp: rts_scheduler_reselect_after_switch_def rts_scheduler_current_get_def Let_def)
  ultimately show ?thesis using that by blast
qed

end
