(* ===== verification/Owned_Mutexes.thy ===== *)
theory Owned_Mutexes
  imports Task_Moves
begin

text \<open>
  The list of mutexes a task owns (\<open>rts_mutex_owner_link\<close>, \<open>rts_mutex_owner_unlink\<close>), the priority
  it requires of its owner, and the remaining laws of the linked structures: re-queueing a waiter
  and the queue of active timers.
\<close>

section \<open>Linking and unlinking\<close>

abbreviation owned :: "rts_kernel_state \<Rightarrow> task_ref \<Rightarrow> nat list" where
  "owned s t \<equiv> nodes_of (omem s) t"

lemma mutex_owner_iff: "links_inv cfg s \<Longrightarrow> mutex_owner m s = Some t \<longleftrightarrow> m \<in> set (owned s t)"
  by (simp add: links_inv_def mem_okD(3))

lemma links_owned_memory: "links_inv cfg s \<Longrightarrow> mem_ok om \<Longrightarrow> links_inv cfg (s\<lparr>omem := om\<rparr>)"
  using policy_inv_cong [of cfg s "s\<lparr>omem := om\<rparr>"] by (simp add: links_inv_def delay_wf_def timer_wf_def)

lemma owner_link_law:
  assumes inv: "links_inv cfg s" and free: "mutex_owner m s = None" and room: "length (owned s t) < RTS_MAX_MUTEXES_PER_TASK cfg"
  obtains om where "rts_mutex_owner_link cfg m t s = Inr (s\<lparr>omem := om\<rparr>)" and "links_inv cfg (s\<lparr>omem := om\<rparr>)"
    and "nodes_of om = (nodes_of (omem s))(t := owned s t @ [m])"
    and "\<And>k. nd_owner (node_at om k) = (if k = m then Some t else mutex_owner k s)"
proof -
  have ok: "mem_ok (omem s)" using inv by (simp add: links_inv_def)
  then have abs: "mem_abs (omem s) (nodes_of (omem s))" by (simp add: mem_ok_def)
  let ?xs = "owned s t"
  let ?om1 = "write_node m (\<lambda>x. x\<lparr>nd_owner := Some t, nd_previous := last_or None ?xs, nd_next := None\<rparr>) (omem s)"
  let ?om2 = "case last_or None ?xs of None \<Rightarrow> write_list t (\<lambda>x. x\<lparr>ls_head := Some m\<rparr>) ?om1
      | Some k \<Rightarrow> write_node k (\<lambda>x. x\<lparr>nd_next := Some m\<rparr>) ?om1"
  let ?om = "write_list t (\<lambda>x. x\<lparr>ls_tail := Some m, ls_count := ls_count x + 1\<rparr>) ?om2"
  have ls: "list_at (omem s) t = list_of_nodes ?xs" by (rule mem_okD(2) [OF ok])
  have ne: "k \<noteq> m" if "last_or None ?xs = Some k" for k
    using last_or_SomeD [OF that] mem_okD(4) [OF ok, of m] free by auto
  have "mem_abs ?om ((nodes_of (omem s))(t := ?xs @ [m]))"
    using ne ls free
    by (intro mem_abs_link [OF abs, of t ?xs "[]", simplified]) (auto simp: write_simps upd_opt_def list_of_nodes_def
        hd_or_append last_or_append hd_or_last split: option.splits)
  then have om: "mem_ok ?om" "nodes_of ?om = (nodes_of (omem s))(t := ?xs @ [m])" unfolding mem_abs_iff by simp_all
  have own: "nd_owner (node_at ?om k) = (if k = m then Some t else mutex_owner k s)" for k
    by (auto simp: write_simps split: option.splits)
  have "rts_mutex_owner_link cfg m t s = Inr (s\<lparr>omem := ?om\<rparr>)"
    using free mem_okD(5,6) [OF ok, of m] room ls by (simp add: rts_mutex_owner_link_def Let_def)
  with om own links_owned_memory [OF inv] show ?thesis by (intro that [of ?om])
qed

lemma owner_unlink_law:
  assumes inv: "links_inv cfg s" and m: "mutex_owner m s = Some t"
  obtains om where "rts_mutex_owner_unlink cfg m s = Inr (s\<lparr>omem := om\<rparr>)" and "links_inv cfg (s\<lparr>omem := om\<rparr>)"
    and "nodes_of om = (nodes_of (omem s))(t := remove1 m (owned s t))"
    and "\<And>k. nd_owner (node_at om k) = (if k = m then None else mutex_owner k s)"
proof -
  have ok: "mem_ok (omem s)" using inv by (simp add: links_inv_def)
  then have abs: "mem_abs (omem s) (nodes_of (omem s))" by (simp add: mem_ok_def)
  obtain xs ys where split: "owned s t = xs @ m # ys"
    using m mem_okD(3) [OF ok, of m t] by (meson split_list)
  have d: "distinct (xs @ m # ys)" using mem_okD(1) [OF ok, of t] split by simp
  have rem: "remove1 m (owned s t) = xs @ ys" using d by (simp add: split remove1_append)
  have ls: "list_at (omem s) t = list_of_nodes (xs @ m # ys)" using mem_okD(2) [OF ok, of t] split by simp
  note nb = mem_ok_split [OF ok split]
  let ?p = "last_or None xs" and ?q = "hd_or ys None"
  let ?om1 = "case ?p of None \<Rightarrow> write_list t (\<lambda>x. x\<lparr>ls_head := ?q\<rparr>) (omem s)
      | Some p \<Rightarrow> write_node p (\<lambda>x. x\<lparr>nd_next := ?q\<rparr>) (omem s)"
  let ?om2 = "case ?q of None \<Rightarrow> write_list t (\<lambda>x. x\<lparr>ls_tail := ?p\<rparr>) ?om1
      | Some n \<Rightarrow> write_node n (\<lambda>x. x\<lparr>nd_previous := ?p\<rparr>) ?om1"
  let ?om3 = "write_node m (\<lambda>x. x\<lparr>nd_owner := None, nd_previous := None, nd_next := None\<rparr>) ?om2"
  let ?om = "write_list t (\<lambda>x. x\<lparr>ls_count := ls_count x - 1\<rparr>) ?om3"
  have ne: "?p = Some k \<Longrightarrow> k \<noteq> m" "?q = Some k \<Longrightarrow> k \<noteq> m" "?p = Some j \<Longrightarrow> ?q = Some k \<Longrightarrow> j \<noteq> k" for j k
    using d by (auto dest!: last_or_SomeD hd_or_SomeD)
  have "mem_abs ?om ((nodes_of (omem s))(t := xs @ ys))"
    using ne ls
    by (intro mem_abs_unlink [OF abs split]) (auto simp: write_simps upd_opt_def list_of_nodes_def
        hd_or_append last_or_append hd_or_last last_or_hd split: option.splits)
  then have om: "mem_ok ?om" "nodes_of ?om = (nodes_of (omem s))(t := xs @ ys)" unfolding mem_abs_iff by simp_all
  have own: "nd_owner (node_at ?om k) = (if k = m then None else mutex_owner k s)" for k
    by (auto simp: write_simps split: option.splits)
  have head: "ls_head (list_at (omem s) t) = Some m" if "?p = None" using ls that by simp
  have tail: "ls_tail (list_at ?om1 t) = Some m" if "?q = None"
    using ls that by (simp add: write_simps split: option.splits)
  have count: "0 < ls_count (list_at ?om3 t)" using ls by (simp add: write_simps split: option.splits)
  have "rts_mutex_owner_unlink cfg m s = Inr (s\<lparr>omem := ?om\<rparr>)"
    using m head tail count unfolding rts_mutex_owner_unlink_def Let_def nb option.sel
    by (cases ?p; cases ?q) (simp_all del: hd_or_None last_or_None)
  with om own rem links_owned_memory [OF inv] show ?thesis by (intro that [of ?om]) simp_all
qed

section \<open>Re-queueing a waiter\<close>

lemma links_wait_reprioritize:
  assumes inv: "links_inv cfg s" and t: "t \<in> set (waiting s w)"
    and ord: "ordered_by (fp_before s) (remove1 t (waiting s w))"
  obtains m where "rts_wait_object_reprioritize cfg (Some w) (Some t) s = Inr (s\<lparr>wmem := m\<rparr>)"
    and "links_inv cfg (s\<lparr>wmem := m\<rparr>)" and "ordered_by (fp_before s) (nodes_of m w)"
    and "nodes_of m = (nodes_of (wmem s))(w := stable_insert (fp_before s) t (remove1 t (waiting s w)))"
    and "\<And>u. nd_owner (node_at m u) = wait_owner u s"
proof -
  have app: "\<forall>u \<in> set (waiting s w). \<exists>i < RTS_MAX_TASKS cfg. u = App i" using links_invD(8) [OF inv] by blast
  obtain i where i: "t = App i" using app t by blast
  obtain m where m: "rts_wait_object_reprioritize cfg (Some w) (Some t) s = Inr (s\<lparr>wmem := m\<rparr>)" "mem_ok m"
    "waiters_ok cfg (s\<lparr>wmem := m\<rparr>) w"
    "nodes_of m = (nodes_of (wmem s))(w := stable_insert (fp_before s) t (remove1 t (waiting s w)))"
    using wait_reprioritize_ok [OF links_invD(5) [OF inv], of i w cfg] t ord app unfolding i by metis
  have fb: "fp_before (s\<lparr>wmem := m\<rparr>) = fp_before s" by (simp add: fp_before_def fun_eq_iff)
  have "distinct (waiting s w)" using mem_okD(1) [OF links_invD(5) [OF inv]] by simp
  then have st: "set (stable_insert (fp_before s) t (remove1 t (waiting s w))) = set (waiting s w)" using t by auto
  then have st': "set (stable_insert (fp_before s) t (remove1 t (waiting s w))) - {t} = set (waiting s w) - {t}"
    by (rule arg_cong)
  have app': "\<exists>j < RTS_MAX_TASKS cfg. u = App j" if "u \<in> set (stable_insert (fp_before s) t (remove1 t (waiting s w)))" for u
    using app that unfolding st by blast
  have rest: "nd_owner (node_at m u) = wait_owner u s" if "u \<noteq> t" for u
    using links_wait_memory(2) [OF inv m(2,4) app' st' that] .
  have "nd_owner (node_at m t) = Some w" "wait_owner t s = Some w"
    using mem_okD(3) [OF m(2), of t w] m(4) links_wait_owner [OF inv, of t w] t by simp_all
  with rest have "nd_owner (node_at m u) = wait_owner u s" for u by (cases "u = t") simp_all
  moreover have "links_inv cfg (s\<lparr>wmem := m\<rparr>)" using links_wait_memory(1) [OF inv m(2,4) app' st'] .
  ultimately show ?thesis using m fb by (intro that [of m]) (simp_all add: waiters_ok_def)
qed

section \<open>The queue of active timers\<close>

definition timers_ordered :: "rts_tick \<Rightarrow> rts_kernel_state \<Rightarrow> bool" where
  "timers_ordered base s \<longleftrightarrow> ordered_by (expires_before s) (timer_q (lmem s)) \<and>
     (\<forall>i \<in> set (timer_q (lmem s)). tm_expiration_tick (timers s i) \<in> tick_window base)"

lemma links_timer_insert:
  assumes inv: "links_inv cfg s" and i: "i < RTS_MAX_TIMERS cfg" "i \<notin> set (timer_q (lmem s))"
  obtains m where "rts_timer_queue_insert cfg (Some i) s = Inr (s\<lparr>lmem := m\<rparr>)" and "links_inv cfg (s\<lparr>lmem := m\<rparr>)"
    and "timer_q m = stable_insert (expires_before s) i (timer_q (lmem s))"
    and "ready_q cfg m = ready_q cfg (lmem s)" and "delay_q m = delay_q (lmem s)"
proof -
  note D = links_invD [OF inv]
  obtain m where m: "rts_timer_queue_insert cfg (Some i) s = Inr (s\<lparr>lmem := m\<rparr>)" "timer_wf cfg (s\<lparr>lmem := m\<rparr>)"
    "timer_q m = stable_insert (expires_before s) i (timer_q (lmem s))"
    "\<And>l. l \<noteq> Timer_List \<Longrightarrow> nodes_of m l = nodes_of (lmem s) l" "objects_but (Timer_Node i) (lmem s) m"
    using timer_queue_insert_ok [OF D(4,1) i(1)] i(2) by auto
  have "set (timer_q m) - {i} = set (timer_q (lmem s)) - {i}" by (auto simp: m(3))
  from links_timer_frame [OF inv m(2,4) this m(5)] m that show ?thesis by auto
qed

lemma links_timer_remove:
  assumes inv: "links_inv cfg s" and i: "i \<in> set (timer_q (lmem s))"
  obtains m where "rts_timer_queue_remove cfg (Some i) s = Inr (s\<lparr>lmem := m\<rparr>)" and "links_inv cfg (s\<lparr>lmem := m\<rparr>)"
    and "timer_q m = remove1 i (timer_q (lmem s))" and "ready_q cfg m = ready_q cfg (lmem s)"
    and "delay_q m = delay_q (lmem s)"
proof -
  note D = links_invD [OF inv]
  obtain m where m: "rts_timer_queue_remove cfg (Some i) s = Inr (s\<lparr>lmem := m\<rparr>)" "timer_wf cfg (s\<lparr>lmem := m\<rparr>)"
    "timer_q m = remove1 i (timer_q (lmem s))"
    "\<And>l. l \<noteq> Timer_List \<Longrightarrow> nodes_of m l = nodes_of (lmem s) l" "same_objects (lmem s) m"
    using timer_queue_remove_ok [OF D(4), of i] i by auto
  have "set (timer_q m) - {i} = set (timer_q (lmem s)) - {i}"
    using distinct_active_timers [OF D(4)] by (auto simp: m(3))
  moreover have "objects_but (Timer_Node i) (lmem s) m" using m(5) by (simp add: objects_but_def same_objects_def)
  ultimately show ?thesis using links_timer_frame [OF inv m(2,4)] m that by metis
qed

end
