(* ===== verification/Inheritance.thy ===== *)
theory Inheritance
  imports Owned_Mutexes
begin

text \<open>
  Priority inheritance under the kernel invariant. \<open>required_priority\<close> is what the mutexes a task
  owns ask of it; \<open>rts_priority_recompute_chain\<close>, started at the one task whose priority may be
  out of date, restores the equation for all tasks and stops within the bound of the code,
  because no task waits for itself.
\<close>

section \<open>The required priority\<close>

definition raise_to :: "rts_kernel_state \<Rightarrow> rts_priority \<Rightarrow> nat \<Rightarrow> rts_priority" where
  "raise_to s r m = (case waiting s (Mutex_Waiters m) of [] \<Rightarrow> r
     | h # _ \<Rightarrow> if priority (tcbs s h) > r then priority (tcbs s h) else r)"

definition required_priority :: "rts_kernel_state \<Rightarrow> task_ref \<Rightarrow> rts_priority" where
  "required_priority s t = foldl (raise_to s) (base_priority (tcbs s t)) (owned s t)"

lemma required_loop_ok:
  assumes inv: "links_inv cfg s" and "owned s t = xs @ ys" and "length ys \<le> left"
  shows "required_loop left t (hd_or ys None) r s = Inr (foldl (raise_to s) r ys)"
  using assms(2,3)
proof (induction ys arbitrary: xs left r)
  case (Cons m ys)
  obtain k where k: "left = Suc k" "length ys \<le> k" using Cons.prems(2) by (cases left) auto
  have ok: "mem_ok (omem s)" "mem_ok (wmem s)" using inv by (simp_all add: links_inv_def)
  have own: "mutex_owner m s = Some t" using mutex_owner_iff [OF inv] Cons.prems(1) by simp
  have nxt: "nd_next (node_at (omem s) m) = hd_or ys None" using mem_ok_split(2) [OF ok(1) Cons.prems(1)] .
  have "ls_head (list_at (wmem s) (Mutex_Waiters m)) = hd_or (waiting s (Mutex_Waiters m)) None"
    using mem_okD(2) [OF ok(2), of "Mutex_Waiters m"] by simp
  with own nxt k Cons.IH [of "xs @ [m]" k] Cons.prems(1) show ?case
    by (cases "waiting s (Mutex_Waiters m)") (simp_all add: raise_to_def Let_def)
qed simp

lemma required_by_owned_law:
  assumes "links_inv cfg s" and "length (owned s t) \<le> RTS_MAX_MUTEXES_PER_TASK cfg"
  shows "rts_priority_required_by_owned cfg t s = Inr (required_priority s t)"
  using required_loop_ok [OF assms(1), of t "[]" "owned s t"] assms(2) mem_okD(2) [of "omem s" t] assms(1)
  by (simp add: rts_priority_required_by_owned_def required_priority_def links_inv_def)

lemma raise_to_mono: "r \<le> raise_to s r m"
  by (auto simp: raise_to_def split: list.splits)

lemma foldl_raise_mono: "r \<le> foldl (raise_to s) r ms"
  by (induction ms arbitrary: r) (auto intro: order_trans [OF raise_to_mono])

lemma required_at_least: "base_priority (tcbs s t) \<le> required_priority s t"
  by (simp add: required_priority_def foldl_raise_mono)

lemma foldl_raise_bound:
  assumes "r \<le> p" and "\<And>m h. m \<in> set ms \<Longrightarrow> h \<in> set (waiting s (Mutex_Waiters m)) \<Longrightarrow> priority (tcbs s h) \<le> p"
  shows "foldl (raise_to s) r ms \<le> p"
  using assms
proof (induction ms arbitrary: r)
  case (Cons m ms)
  have "priority (tcbs s h) \<le> p" if "waiting s (Mutex_Waiters m) = h # hs" for h hs
    using Cons.prems(2) [of m h] that by simp
  then have "raise_to s r m \<le> p" using Cons.prems(1) by (auto simp: raise_to_def split: list.splits)
  then have "foldl (raise_to s) (raise_to s r m) ms \<le> p" by (rule Cons.IH) (rule Cons.prems(2), auto)
  then show ?case by simp
qed simp

lemma required_cong:
  assumes "owned s' t = owned s t" and "base_priority (tcbs s' t) = base_priority (tcbs s t)"
    and "\<And>m r. m \<in> set (owned s t) \<Longrightarrow> raise_to s' r m = raise_to s r m"
  shows "required_priority s' t = required_priority s t"
  unfolding required_priority_def assms(1,2) by (rule foldl_cong) (use assms(3) in auto)

text \<open>With the waiters in priority order, the heads decide: the required priority bounds all waiters.\<close>

definition wait_sorted :: "rts_kernel_state \<Rightarrow> bool" where
  "wait_sorted s \<longleftrightarrow> (\<forall>w. ordered_by (fp_before s) (waiting s w))"

lemma raise_to_ge:
  assumes "wait_sorted s" and "u \<in> set (waiting s (Mutex_Waiters m))"
  shows "priority (tcbs s u) \<le> raise_to s r m"
proof -
  obtain h hs where h: "waiting s (Mutex_Waiters m) = h # hs" using assms(2) by (cases "waiting s (Mutex_Waiters m)") auto
  have "ordered_by (fp_before s) (h # hs)" using assms(1) h unfolding wait_sorted_def by metis
  then have "priority (tcbs s u) \<le> priority (tcbs s h)" using assms(2) h by (auto simp: fp_before_iff not_less)
  then show ?thesis by (auto simp: raise_to_def h)
qed

lemma required_ge_waiter:
  assumes "wait_sorted s" and "m \<in> set (owned s t)" and "u \<in> set (waiting s (Mutex_Waiters m))"
  shows "priority (tcbs s u) \<le> required_priority s t"
proof -
  have "priority (tcbs s u) \<le> foldl (raise_to s) r ms" if "m \<in> set ms" for r ms
    using that
  proof (induction ms arbitrary: r)
    case (Cons k ms)
    show ?case
    proof (cases "k = m")
      case True
      then show ?thesis using raise_to_ge [OF assms(1,3), of r] foldl_raise_mono [of "raise_to s r m" s ms] by auto
    qed (use Cons in auto)
  qed simp
  with assms(2) show ?thesis by (simp add: required_priority_def)
qed

section \<open>Frames\<close>

text \<open>What the scheduling of tasks never touches.\<close>

definition rest_same :: "rts_kernel_state \<Rightarrow> rts_kernel_state \<Rightarrow> bool" where
  "rest_same s s' \<longleftrightarrow> lifecycle s' = lifecycle s \<and> current_task s' = current_task s \<and> idle_task s' = idle_task s \<and>
     timer_service_task s' = timer_service_task s \<and> current_tick s' = current_tick s \<and> timers s' = timers s \<and>
     callback_queue s' = callback_queue s \<and> tm_allocated_count s' = tm_allocated_count s \<and>
     tm_next_free_hint s' = tm_next_free_hint s \<and> allocated_count s' = allocated_count s \<and>
     next_free_hint s' = next_free_hint s \<and> in_isr s' = in_isr s \<and> bytes s' = bytes s"

lemma rest_same_refl [simp]: "rest_same s s"
  by (simp add: rest_same_def)

lemma rest_same_trans: "rest_same s s' \<Longrightarrow> rest_same s' s'' \<Longrightarrow> rest_same s s''"
  by (simp add: rest_same_def)

text \<open>Changing effective priorities only.\<close>

definition prio_frame :: "rts_config \<Rightarrow> rts_kernel_state \<Rightarrow> rts_kernel_state \<Rightarrow> bool" where
  "prio_frame cfg s s' \<longleftrightarrow> rest_same s s' \<and> (\<forall>t. \<exists>p. tcbs s' t = (tcbs s t)\<lparr>priority := p\<rparr>) \<and>
     set (ready_q cfg (lmem s')) = set (ready_q cfg (lmem s)) \<and> delay_q (lmem s') = delay_q (lmem s) \<and>
     timer_q (lmem s') = timer_q (lmem s) \<and> omem s' = omem s \<and>
     (\<forall>w. set (waiting s' w) = set (waiting s w)) \<and> (\<forall>t. wait_owner t s' = wait_owner t s) \<and>
     switch_plan s' = switch_plan s \<and> semaphores s' = semaphores s \<and> mutexes s' = mutexes s"

lemma same_tcb_priority [simp]: "\<exists>p. x = x\<lparr>priority := p\<rparr>" for x :: rts_tcb
  by (rule exI [of _ "priority x"]) simp

lemma prio_frame_refl [simp]: "prio_frame cfg s s"
  by (simp add: prio_frame_def)

lemma prio_frameD: "prio_frame cfg s s' \<Longrightarrow> \<exists>p. tcbs s' t = (tcbs s t)\<lparr>priority := p\<rparr>"
  by (simp add: prio_frame_def)

lemma prio_frame_trans:
  assumes "prio_frame cfg s s'" and "prio_frame cfg s' s''"
  shows "prio_frame cfg s s''"
proof -
  have "\<exists>p. tcbs s'' t = (tcbs s t)\<lparr>priority := p\<rparr>" for t
  proof -
    obtain p p' where "tcbs s' t = (tcbs s t)\<lparr>priority := p\<rparr>" "tcbs s'' t = (tcbs s' t)\<lparr>priority := p'\<rparr>"
      using prio_frameD [OF assms(1), of t] prio_frameD [OF assms(2), of t] by blast
    then show ?thesis by (intro exI [of _ p']) simp
  qed
  with assms rest_same_trans [of s s' s''] show ?thesis by (simp add: prio_frame_def)
qed

lemma prio_frame_tcb:
  assumes "prio_frame cfg s s'"
  shows "task_state (tcbs s' t) = task_state (tcbs s t)" and "wait_reason (tcbs s' t) = wait_reason (tcbs s t)"
    and "wait_object (tcbs s' t) = wait_object (tcbs s t)" and "wake_tick (tcbs s' t) = wake_tick (tcbs s t)"
    and "base_priority (tcbs s' t) = base_priority (tcbs s t)" and "slot_state (tcbs s' t) = slot_state (tcbs s t)"
    and "timeout_active (tcbs s' t) = timeout_active (tcbs s t)" and "live cfg s' t = live cfg s t"
    and "wait_result (tcbs s' t) = wait_result (tcbs s t)"
proof -
  obtain p where p: "tcbs s' t = (tcbs s t)\<lparr>priority := p\<rparr>" using prio_frameD [OF assms, of t] by blast
  then show "task_state (tcbs s' t) = task_state (tcbs s t)" "wait_reason (tcbs s' t) = wait_reason (tcbs s t)"
    "wait_object (tcbs s' t) = wait_object (tcbs s t)" "wake_tick (tcbs s' t) = wake_tick (tcbs s t)"
    "base_priority (tcbs s' t) = base_priority (tcbs s t)" "slot_state (tcbs s' t) = slot_state (tcbs s t)"
    "timeout_active (tcbs s' t) = timeout_active (tcbs s t)" "live cfg s' t = live cfg s t"
    "wait_result (tcbs s' t) = wait_result (tcbs s t)"
    by (simp_all add: live_def)
qed

section \<open>Setting one effective priority\<close>

lemma waiters_for_owner:
  assumes "tasks_inv cfg s" and "live cfg s t"
  shows "rts_priority_waiters_for t s = wait_owner t s"
  using live_member [OF assms]
  by (cases "task_state (tcbs s t)"; cases "wait_reason (tcbs s t)")
    (simp_all add: rts_priority_waiters_for_def member_ok_def not_waiting_def)

lemma member_ok_priority [simp]: "member_ok t (x\<lparr>priority := p\<rparr>) = member_ok t x"
  by (simp add: member_ok_def not_waiting_def fun_eq_iff cong: rts_task_state.case_cong rts_wait_reason.case_cong)

lemma tasks_set_priority:
  assumes tasks: "tasks_inv cfg s" and t: "live cfg s t" "t \<noteq> Idle"
    and p: "base_priority (tcbs s t) \<le> p" "unat p < RTS_PRIORITY_COUNT cfg"
    and s': "s' = (upd_tcb t (\<lambda>x. x\<lparr>priority := p\<rparr>) s)\<lparr>lmem := m, ready_bitmap := b\<rparr>"
    and q: "set (ready_q cfg m) = set (ready_q cfg (lmem s))" "delay_q m = delay_q (lmem s)"
  shows "tasks_inv cfg s'"
proof (rule tasks_close)
  show but: "tasks_but cfg t s'"
    by (rule tasks_but_cong [OF tasks_open [OF tasks t(1)]]) (simp_all add: s' upd_tcb_def q)
  have "task_static cfg t (tcbs s' t)"
    using live_static [OF tasks t(1)] p t(2) by (simp add: s' upd_tcb_def task_static_def)
  moreover have "member_ok t (tcbs s' t) (t \<in> set (ready_q cfg (lmem s'))) (t \<in> set (delay_q (lmem s'))) (wait_owner t s')
      (current_task s' = Some t)"
    using live_member [OF tasks t(1)] by (simp add: s' upd_tcb_def q)
  moreover have "live cfg s' t" using but by (simp add: tasks_but_def)
  ultimately show "task_ok cfg s' t" by (simp add: task_ok_def)
qed

lemma set_effective_law:
  assumes links: "links_inv cfg s" and tasks: "tasks_inv cfg s" and sorted: "wait_sorted s"
    and t: "live cfg s t" "t \<noteq> Idle" and p: "base_priority (tcbs s t) \<le> p" "unat p < RTS_PRIORITY_COUNT cfg"
  obtains s' where "rts_priority_set_effective cfg (Some t) p s = Inr (True, s')"
    and "links_inv cfg s'" and "tasks_inv cfg s'" and "wait_sorted s'" and "prio_frame cfg s s'"
    and "tcbs s' = (tcbs s)(t := (tcbs s t)\<lparr>priority := p\<rparr>)"
    and "\<And>w. wait_owner t s \<noteq> Some w \<Longrightarrow> waiting s' w = waiting s w"
proof (cases "priority (tcbs s t) = p")
  case True
  have "base_priority (tcbs s t) \<noteq> 0"
    using live_static [OF tasks t(1)] t(2) by (simp add: task_static_def RTS_IDLE_PRIORITY_def)
  with p True have "rts_priority_set_effective cfg (Some t) p s = Inr (True, s)"
    by (auto simp: rts_priority_set_effective_def RTS_IDLE_PRIORITY_def not_less)
  with True links tasks sorted show ?thesis by (intro that [of s]) auto
next
  case False
  have nz: "base_priority (tcbs s t) \<noteq> RTS_IDLE_PRIORITY" "p \<noteq> RTS_IDLE_PRIORITY"
    using live_static [OF tasks t(1)] t(2) p(1) by (auto simp: task_static_def RTS_IDLE_PRIORITY_def)
  let ?s1 = "upd_tcb t (\<lambda>x. x\<lparr>priority := p\<rparr>) s"
  obtain m b where m: "rts_policy_priority_changed cfg (Some t) p s = Inr (True, ?s1\<lparr>lmem := m, ready_bitmap := b\<rparr>)"
    "links_inv cfg (?s1\<lparr>lmem := m, ready_bitmap := b\<rparr>)"
    "set (ready_q cfg m) = set (ready_q cfg (lmem s))" "delay_q m = delay_q (lmem s)" "timer_q m = timer_q (lmem s)"
    using links_priority_changed [OF links live_adm [OF tasks t(1)] nz(2) p(2)] by metis
  define s2 where "s2 = ?s1\<lparr>lmem := m, ready_bitmap := b\<rparr>"
  define s3 where "s3 = (if p > priority (tcbs s t) then diag_inc cfg priority_raises s2 else diag_inc cfg priority_restorations s2)"
  define s4 where "s4 = RTS_TRACE cfg RTS_TRACE_PRIORITY (ucast (priority (tcbs s t))) (ucast p) s3"
  have s4: "s4 = s2\<lparr>runtime_counters := runtime_counters s4, trace := trace s4\<rparr>"
    by (simp add: s4_def s3_def diag_inc_def RTS_TRACE_def)
  have f4: "tcbs s4 = tcbs ?s1" "lmem s4 = m" "wmem s4 = wmem s" "omem s4 = omem s" "rest_same s s4"
      "switch_plan s4 = switch_plan s" "semaphores s4 = semaphores s" "mutexes s4 = mutexes s"
    by (subst s4, simp add: s2_def upd_tcb_def rest_same_def)+
  have "tasks_inv cfg s2" by (rule tasks_set_priority [OF tasks t p s2_def m(3,4)])
  moreover have core: "same_core cfg s2 s4" unfolding s4_def s3_def by (auto simp: same_core_def diag_inc_def RTS_TRACE_def)
  ultimately have t4: "tasks_inv cfg s4" and l4: "links_inv cfg s4"
    using same_core_tasks same_core_links m(2) unfolding s2_def by blast+
  have live4: "live cfg s4 t" using t(1) by (simp add: live_def f4(1) upd_tcb_def)
  have w4: "rts_priority_waiters_for t s4 = wait_owner t s4" by (rule waiters_for_owner [OF t4 live4])
  have fb: "fp_before s4 x y = fp_before s x y" if "x \<noteq> t" "y \<noteq> t" for x y
    using that by (simp add: fp_before_def f4(1) upd_tcb_def)
  have d: "distinct (waiting s w)" for w using mem_okD(1) [OF links_invD(5) [OF links]] .
  have ord: "ordered_by (fp_before s4) (remove1 t (waiting s4 w))" for w
  proof -
    have "ordered_by (fp_before s) (remove1 t (waiting s w))"
      using sorted by (simp add: wait_sorted_def ordered_by_remove1)
    then show ?thesis
      by (subst ordered_by_cong [of _ _ "fp_before s"]) (use d [of w] fb in \<open>auto simp: f4(3)\<close>)
  qed
  have tcb: "tcbs s4 = (tcbs s)(t := (tcbs s t)\<lparr>priority := p\<rparr>)" by (simp add: f4(1) upd_tcb_def)
  have "\<exists>q. tcbs s4 u = (tcbs s u)\<lparr>priority := q\<rparr>" for u unfolding tcb by (cases "u = t") auto
  then have frame: "prio_frame cfg s s4" unfolding prio_frame_def f4(2-8) using m(3-5) f4(5) by blast
  have eff: "rts_priority_set_effective cfg (Some t) p s =
      (if wait_owner t s4 \<noteq> None
       then fatal_unless (rts_wait_object_contains (wait_owner t s4) (Some t) s4)
         (bnd (rts_wait_object_reprioritize cfg (wait_owner t s4) (Some t) s4) (\<lambda>s. Inr (True, s)))
       else Inr (True, s4))"
    using False leD [OF p(1)] p(2) nz m(1)
    by (simp add: rts_priority_set_effective_def Let_def w4 flip: s2_def s3_def s4_def)
  show ?thesis
  proof (cases "wait_owner t s4")
    case None
    then have n: "t \<notin> set (waiting s w)" for w using links_wait_owner [OF l4, of t w] by (simp add: f4(3))
    then have "wait_sorted s4" using ord by (simp add: wait_sorted_def f4(3) remove1_idem)
    with None eff l4 t4 frame tcb show ?thesis by (intro that [of s4]) (simp_all add: f4(3))
  next
    case (Some w)
    then have tw: "t \<in> set (waiting s4 w)" using links_wait_owner [OF l4] by simp
    obtain wm where wm: "rts_wait_object_reprioritize cfg (Some w) (Some t) s4 = Inr (s4\<lparr>wmem := wm\<rparr>)"
      "links_inv cfg (s4\<lparr>wmem := wm\<rparr>)" "ordered_by (fp_before s4) (nodes_of wm w)"
      "nodes_of wm = (nodes_of (wmem s4))(w := stable_insert (fp_before s4) t (remove1 t (waiting s4 w)))"
      "\<And>u. nd_owner (node_at wm u) = wait_owner u s4"
      using links_wait_reprioritize [OF l4 tw ord] by metis
    let ?s5 = "s4\<lparr>wmem := wm\<rparr>"
    have t5: "tasks_inv cfg ?s5" using t4 wm(5) by (simp add: tasks_inv_def task_ok_def live_def)
    have other: "waiting s4 v = remove1 t (waiting s4 v)" if "v \<noteq> w" for v
      using links_wait_owner [OF l4, of t v] Some that by (simp add: remove1_idem)
    have fb5: "fp_before ?s5 = fp_before s4" by (simp add: fp_before_def fun_eq_iff)
    have "ordered_by (fp_before s4) (nodes_of wm v)" for v
      using wm(3) ord [of v] other [of v] wm(4) by (cases "v = w") auto
    then have "wait_sorted ?s5" unfolding wait_sorted_def fb5 by simp
    moreover have "set (nodes_of wm v) = set (waiting s v)" for v
      using wm(4) tw d [of w] by (auto simp: f4(3))
    then have "prio_frame cfg s ?s5" using frame wm(5) f4(3) by (simp add: prio_frame_def rest_same_def)
    moreover have "rts_priority_set_effective cfg (Some t) p s = Inr (True, ?s5)"
      using eff Some wm(1) by (simp add: rts_wait_object_contains_def)
    ultimately show ?thesis using wm(2,4) t5 tcb Some by (intro that [of ?s5]) (auto simp: f4(3))
  qed
qed

end
