(* ===== verification/Kernel_Sync.thy ===== *)
theory Kernel_Sync
  imports Inheritance
begin

text \<open>
  The synchronisation part of the kernel invariant. \<open>sync_inv\<close>: only an exhausted semaphore and an
  owned mutex have waiters, waiters are in priority order, no chain of mutex owners is cyclic, and
  the effective priority of every task is the one its mutexes require.
\<close>

section \<open>The invariant\<close>

text \<open>\<open>t\<close> waits for a mutex of \<open>u\<close>.\<close>

definition waits_for :: "rts_kernel_state \<Rightarrow> (task_ref \<times> task_ref) set" where
  "waits_for s = {(t, u). \<exists>m. t \<in> set (waiting s (Mutex_Waiters m)) \<and> mutex_owner m s = Some u}"

definition sem_exhausted :: "rts_semaphore \<Rightarrow> nat \<Rightarrow> bool" where
  "sem_exhausted x i \<longleftrightarrow> sem_identity x = Some i \<and> sem_signature x = RTS_SEMAPHORE_SIGNATURE \<and>
     0 < sem_maximum_count x \<and> sem_count x = 0"

definition mutex_named :: "rts_mutex \<Rightarrow> nat \<Rightarrow> bool" where
  "mutex_named x m \<longleftrightarrow> mx_identity x = Some m \<and> mx_signature x = RTS_MUTEX_SIGNATURE"

definition sync_struct :: "rts_config \<Rightarrow> rts_kernel_state \<Rightarrow> bool" where
  "sync_struct cfg s \<longleftrightarrow>
     (\<forall>i. waiting s (Sem_Waiters i) \<noteq> [] \<longrightarrow> sem_exhausted (semaphores s i) i) \<and>
     (\<forall>m. waiting s (Mutex_Waiters m) \<noteq> [] \<longrightarrow> mutex_owner m s \<noteq> None) \<and>
     (\<forall>m. mutex_owner m s \<noteq> None \<longrightarrow> mutex_named (mutexes s m) m) \<and>
     (\<forall>t. length (owned s t) \<le> RTS_MAX_MUTEXES_PER_TASK cfg) \<and> owned s Idle = [] \<and>
     (\<forall>m t. t \<in> set (waiting s (Mutex_Waiters m)) \<longrightarrow> length (owned s t) < RTS_MAX_MUTEXES_PER_TASK cfg) \<and>
     acyclic (waits_for s)"

lemma sync_structD:
  assumes "sync_struct cfg s"
  shows "waiting s (Sem_Waiters i) \<noteq> [] \<Longrightarrow> sem_exhausted (semaphores s i) i"
    and "waiting s (Mutex_Waiters m) \<noteq> [] \<Longrightarrow> mutex_owner m s \<noteq> None"
    and "mutex_owner m s \<noteq> None \<Longrightarrow> mutex_named (mutexes s m) m"
    and "length (owned s t) \<le> RTS_MAX_MUTEXES_PER_TASK cfg" and "owned s Idle = []"
    and "t \<in> set (waiting s (Mutex_Waiters m)) \<Longrightarrow> length (owned s t) < RTS_MAX_MUTEXES_PER_TASK cfg"
    and "acyclic (waits_for s)"
  using assms unfolding sync_struct_def by blast+

definition inherits :: "rts_kernel_state \<Rightarrow> task_ref \<Rightarrow> bool" where
  "inherits s t \<longleftrightarrow> priority (tcbs s t) = required_priority s t"

definition sync_inv :: "rts_config \<Rightarrow> rts_kernel_state \<Rightarrow> bool" where
  "sync_inv cfg s \<longleftrightarrow> sync_struct cfg s \<and> wait_sorted s \<and> (\<forall>t. live cfg s t \<longrightarrow> inherits s t)"

lemma sync_invD:
  assumes "sync_inv cfg s"
  shows "sync_struct cfg s" and "wait_sorted s" and "live cfg s t \<Longrightarrow> inherits s t"
  using assms by (simp_all add: sync_inv_def)

lemma waits_for_frame: "prio_frame cfg s s' \<Longrightarrow> waits_for s' = waits_for s"
  by (simp add: waits_for_def prio_frame_def)

lemma sync_struct_frame:
  assumes "prio_frame cfg s s'"
  shows "sync_struct cfg s' = sync_struct cfg s"
proof -
  have "waiting s' w = [] \<longleftrightarrow> waiting s w = []" for w
  proof -
    have "set (waiting s' w) = set (waiting s w)" using assms by (simp add: prio_frame_def)
    then show ?thesis by (metis set_empty)
  qed
  with assms waits_for_frame [OF assms] show ?thesis by (simp add: sync_struct_def prio_frame_def)
qed

lemma waiter_live: "links_inv cfg s \<Longrightarrow> tasks_inv cfg s \<Longrightarrow> t \<in> set (waiting s w) \<Longrightarrow> live cfg s t"
  using links_wait_owner [of cfg s t w] queued_live(3) [of cfg s t] by simp

lemma owner_live: "links_inv cfg s \<Longrightarrow> tasks_inv cfg s \<Longrightarrow> mutex_owner m s = Some t \<Longrightarrow> live cfg s t"
  using mutex_owner_iff [of cfg s m t] queued_live(5) [of cfg s t] by (cases "owned s t") auto

text \<open>The waiting state of a task and its queue of waiters.\<close>

lemma wait_owner_cases:
  assumes "tasks_inv cfg s" and "live cfg s t"
  shows "wait_owner t s = Some (Mutex_Waiters m) \<longleftrightarrow> task_state (tcbs s t) = RTS_TASK_STATE_BLOCKED \<and>
      wait_reason (tcbs s t) = RTS_WAIT_MUTEX \<and> wait_object (tcbs s t) = Some (Mutex m)"
    and "wait_owner t s = Some (Sem_Waiters i) \<longleftrightarrow> task_state (tcbs s t) = RTS_TASK_STATE_BLOCKED \<and>
      wait_reason (tcbs s t) = RTS_WAIT_SEMAPHORE \<and> wait_object (tcbs s t) = Some (Semaphore i)"
  using live_member [OF assms]
  by (cases "task_state (tcbs s t)"; cases "wait_reason (tcbs s t)";
      cases "wait_object (tcbs s t)" rule: sem_waiters_of.cases; auto simp: member_ok_def)+

section \<open>Recomputing the chain of owners\<close>

lemma foldl_raise_in:
  "foldl (raise_to s) r ms = r \<or>
   (\<exists>m \<in> set ms. \<exists>h \<in> set (waiting s (Mutex_Waiters m)). foldl (raise_to s) r ms = priority (tcbs s h))"
proof (induction ms arbitrary: r)
  case (Cons m ms)
  have "raise_to s r m = r \<or> (\<exists>h \<in> set (waiting s (Mutex_Waiters m)). raise_to s r m = priority (tcbs s h))"
    by (auto simp: raise_to_def split: list.splits)
  with Cons [of "raise_to s r m"] show ?case by auto
qed simp

lemma required_in_range:
  assumes links: "links_inv cfg s" and tasks: "tasks_inv cfg s" and t: "live cfg s t"
  shows "unat (required_priority s t) < RTS_PRIORITY_COUNT cfg"
proof -
  have "unat (priority (tcbs s h)) < RTS_PRIORITY_COUNT cfg" if "h \<in> set (waiting s w)" for h w
    using live_static [OF tasks waiter_live [OF links tasks that]] by (simp add: task_static_def)
  moreover have "unat (base_priority (tcbs s t)) < RTS_PRIORITY_COUNT cfg"
    using live_static [OF tasks t] by (auto simp: task_static_def word_le_nat_alt)
  ultimately show ?thesis
    using foldl_raise_in [of s "base_priority (tcbs s t)" "owned s t"] unfolding required_priority_def by auto
qed

text \<open>Changing the priority of \<open>t\<close> is seen only by the owner of the mutex \<open>t\<close> waits for.\<close>

lemma required_unaffected:
  assumes links: "links_inv cfg s" and frame: "prio_frame cfg s s'"
    and tcb: "tcbs s' = (tcbs s)(t := (tcbs s t)\<lparr>priority := p\<rparr>)"
    and same: "\<forall>w. wait_owner t s \<noteq> Some w \<longrightarrow> waiting s' w = waiting s w"
    and u: "\<And>m. m \<in> set (owned s u) \<Longrightarrow> wait_owner t s \<noteq> Some (Mutex_Waiters m)"
  shows "required_priority s' u = required_priority s u"
proof (rule required_cong)
  show "owned s' u = owned s u" "base_priority (tcbs s' u) = base_priority (tcbs s u)"
    using frame prio_frame_tcb(5) [OF frame] by (simp_all add: prio_frame_def)
  fix m r assume m: "m \<in> set (owned s u)"
  have w: "waiting s' (Mutex_Waiters m) = waiting s (Mutex_Waiters m)" using same u [OF m] by blast
  have "t \<notin> set (waiting s (Mutex_Waiters m))" using links_wait_owner [OF links] u [OF m] by simp
  then show "raise_to s' r m = raise_to s r m"
    by (auto simp: raise_to_def w tcb split: list.splits)
qed

lemma recompute_loop_ok:
  assumes "links_inv cfg s" and "tasks_inv cfg s" and "wait_sorted s" and "sync_struct cfg s"
    and "\<And>u. live cfg s u \<Longrightarrow> c \<noteq> Some u \<Longrightarrow> inherits s u"
    and "\<And>t. c = Some t \<Longrightarrow> live cfg s t \<and> t \<noteq> Idle \<and> (\<forall>v \<in> set visited. (v, t) \<in> (waits_for s)\<^sup>+)"
    and "distinct visited" and "set visited \<subseteq> {t. valid_task cfg t}" and "length visited + left = RTS_MAX_TASKS cfg + 2"
  shows "\<exists>s'. recompute_loop cfg left visited c s = Inr (True, s') \<and> links_inv cfg s' \<and> tasks_inv cfg s' \<and>
    sync_inv cfg s' \<and> prio_frame cfg s s'"
  using assms
proof (induction left arbitrary: visited c s)
  case 0
  show ?case
  proof (cases c)
    case None
    with "0.prems" show ?thesis by (auto simp: sync_inv_def)
  next
    case (Some t)
    then have "t \<notin> set visited" using "0.prems"(6) [of t] sync_structD(7) [OF "0.prems"(4)] by (auto simp: acyclic_def)
    moreover have "valid_task cfg t" using "0.prems"(6) [OF Some] by (simp add: live_def)
    ultimately have "length (t # visited) \<le> RTS_MAX_TASKS cfg + 2"
      using valid_task_nodes_length [of "t # visited" "\<lambda>t. t" cfg] "0.prems"(7,8) by simp
    with "0.prems"(9) show ?thesis by simp
  qed
next
  case (Suc left)
  show ?case
  proof (cases c)
    case None
    with Suc.prems show ?thesis by (auto simp: sync_inv_def)
  next
    case (Some t)
    note links = Suc.prems(1) and tasks = Suc.prems(2) and struct = Suc.prems(4)
    have path: "(v, t) \<in> (waits_for s)\<^sup>+" if "v \<in> set visited" for v
      using Suc.prems(6) [OF Some] that by auto
    have t: "live cfg s t" "t \<noteq> Idle" using Suc.prems(6) [OF Some] by auto
    have fresh: "t \<notin> set visited" using path [of t] sync_structD(7) [OF struct] by (auto simp: acyclic_def)
    let ?p = "required_priority s t"
    have req: "rts_priority_required_by_owned cfg t s = Inr ?p"
      by (rule required_by_owned_law [OF links sync_structD(4) [OF struct]])
    obtain s1 where s1: "rts_priority_set_effective cfg (Some t) ?p s = Inr (True, s1)"
      "links_inv cfg s1" "tasks_inv cfg s1" "wait_sorted s1" "prio_frame cfg s s1"
      "tcbs s1 = (tcbs s)(t := (tcbs s t)\<lparr>priority := ?p\<rparr>)"
      "\<forall>w. wait_owner t s \<noteq> Some w \<longrightarrow> waiting s1 w = waiting s w"
      using set_effective_law [OF links tasks Suc.prems(3) t required_at_least required_in_range [OF links tasks t(1)]]
      by metis
    note unaffected = required_unaffected [OF links s1(5,6,7)]
    have st1: "sync_struct cfg s1" using sync_struct_frame [OF s1(5)] struct by simp
    have inh: "inherits s1 u" if "live cfg s u" "\<And>m. m \<in> set (owned s u) \<Longrightarrow> wait_owner t s \<noteq> Some (Mutex_Waiters m)" for u
      using Suc.prems(5) [OF that(1)] unaffected [OF that(2)] Some s1(6) by (cases "u = t") (auto simp: inherits_def)
    have state: "task_state (tcbs s1 t) = task_state (tcbs s t)" "wait_reason (tcbs s1 t) = wait_reason (tcbs s t)"
      "wait_object (tcbs s1 t) = wait_object (tcbs s t)"
      using prio_frame_tcb(1-3) [OF s1(5)] by simp_all
    have unfold: "recompute_loop cfg (Suc left) visited c s =
        (if task_state (tcbs s t) \<noteq> RTS_TASK_STATE_BLOCKED \<or> wait_reason (tcbs s t) \<noteq> RTS_WAIT_MUTEX then Inr (True, s1)
         else recompute_loop cfg left (visited @ [t]) (sync_owner (wait_object (tcbs s t)) s1) s1)"
      using fresh req s1(1) by (simp add: Some state)
    show ?thesis
    proof (cases "task_state (tcbs s t) = RTS_TASK_STATE_BLOCKED \<and> wait_reason (tcbs s t) = RTS_WAIT_MUTEX")
      case False
      then have "wait_owner t s \<noteq> Some (Mutex_Waiters m)" for m using wait_owner_cases(1) [OF tasks t(1)] by blast
      then have "inherits s1 u" if "live cfg s1 u" for u using inh prio_frame_tcb(8) [OF s1(5)] that by simp
      with False s1 st1 unfold show ?thesis by (auto simp: sync_inv_def)
    next
      case True
      then obtain m where m: "wait_owner t s = Some (Mutex_Waiters m)" "wait_object (tcbs s t) = Some (Mutex m)"
        using live_member [OF tasks t(1)]
        by (cases "wait_object (tcbs s t)" rule: mutex_waiters_of.cases) (auto simp: member_ok_def)
      have tw: "t \<in> set (waiting s (Mutex_Waiters m))" using links_wait_owner [OF links] m(1) by simp
      then have "waiting s (Mutex_Waiters m) \<noteq> []" by auto
      then obtain o' where o': "mutex_owner m s = Some o'" using sync_structD(2) [OF struct, of m] by auto
      have edge: "(t, o') \<in> waits_for s" using tw o' by (auto simp: waits_for_def)
      have lo: "live cfg s o'" by (rule owner_live [OF links tasks o'])
      have om: "omem s1 = omem s" and wf: "waits_for s1 = waits_for s"
        using s1(5) waits_for_frame [OF s1(5)] by (simp_all add: prio_frame_def)
      have no: "o' \<noteq> Idle" using mutex_owner_iff [OF links, of m o'] o' sync_structD(5) [OF struct] by auto
      have "\<exists>s'. recompute_loop cfg left (visited @ [t]) (Some o') s1 = Inr (True, s') \<and> links_inv cfg s' \<and>
          tasks_inv cfg s' \<and> sync_inv cfg s' \<and> prio_frame cfg s1 s'"
      proof (rule Suc.IH [OF s1(2,3,4) st1])
        fix u assume u: "live cfg s1 u" "Some o' \<noteq> Some u"
        have "wait_owner t s \<noteq> Some (Mutex_Waiters k)" if "k \<in> set (owned s u)" for k
          using mutex_owner_iff [OF links, of k u] m(1) o' u(2) that by auto
        moreover have "live cfg s u" using prio_frame_tcb(8) [OF s1(5), of u] u(1) by simp
        ultimately show "inherits s1 u" using inh by blast
      next
        fix v assume "Some o' = Some v"
        then show "live cfg s1 v \<and> v \<noteq> Idle \<and> (\<forall>x \<in> set (visited @ [t]). (x, v) \<in> (waits_for s1)\<^sup>+)"
          using lo no prio_frame_tcb(8) [OF s1(5), of v] path edge wf by (auto intro: trancl_into_trancl)
      qed (use Suc.prems(7-9) fresh t(1) in \<open>auto simp: live_def\<close>)
      then show ?thesis using unfold True m(2) o' om prio_frame_trans [OF s1(5)] by auto
    qed
  qed
qed

text \<open>
  The law of the whole operation: \<open>c\<close> is the only task whose priority may be out of date.
\<close>

lemma recompute_chain_law:
  assumes "links_inv cfg s" and "tasks_inv cfg s" and "wait_sorted s" and "sync_struct cfg s"
    and "\<And>u. live cfg s u \<Longrightarrow> c \<noteq> Some u \<Longrightarrow> inherits s u" and "\<And>t. c = Some t \<Longrightarrow> live cfg s t \<and> t \<noteq> Idle"
  obtains s' where "rts_priority_recompute_chain cfg c s = Inr (True, s')" and "links_inv cfg s'" and "tasks_inv cfg s'"
    and "sync_inv cfg s'" and "prio_frame cfg s s'"
  using recompute_loop_ok [OF assms(1-5), where visited = "[]" and left = "RTS_SCHEDULABLE_TASK_CAPACITY cfg"] assms(6)
  by (auto simp: rts_priority_recompute_chain_def RTS_SCHEDULABLE_TASK_CAPACITY_def)

text \<open>
  The specification of priority inheritance: the effective priority is the maximum of the base
  priority and the priorities of all tasks that wait for a mutex of the task.
\<close>

definition donors :: "rts_kernel_state \<Rightarrow> task_ref \<Rightarrow> task_ref set" where
  "donors s t = {u. (u, t) \<in> waits_for s}"

lemma inherits_Max:
  assumes links: "links_inv cfg s" and sorted: "wait_sorted s"
  shows "required_priority s t = Max (insert (base_priority (tcbs s t)) ((\<lambda>u. priority (tcbs s u)) ` donors s t))"
    and "finite (donors s t)"
proof -
  have eq: "donors s t = (\<Union>m \<in> set (owned s t). set (waiting s (Mutex_Waiters m)))"
    using mutex_owner_iff [OF links] by (auto simp: donors_def waits_for_def)
  then show fin: "finite (donors s t)" by simp
  show "required_priority s t = Max (insert (base_priority (tcbs s t)) ((\<lambda>u. priority (tcbs s u)) ` donors s t))"
  proof (rule Max_eqI [symmetric])
    show "finite (insert (base_priority (tcbs s t)) ((\<lambda>u. priority (tcbs s u)) ` donors s t))" using fin by simp
    show "p \<le> required_priority s t" if "p \<in> insert (base_priority (tcbs s t)) ((\<lambda>u. priority (tcbs s u)) ` donors s t)" for p
      using that required_at_least required_ge_waiter [OF sorted] by (auto simp: eq)
    show "required_priority s t \<in> insert (base_priority (tcbs s t)) ((\<lambda>u. priority (tcbs s u)) ` donors s t)"
      using foldl_raise_in [of s "base_priority (tcbs s t)" "owned s t"] unfolding required_priority_def eq by auto
  qed
qed

end
