(* ===== verification/Kernel_Inv.thy ===== *)
theory Kernel_Inv
  imports Kernel_Sync
begin

text \<open>
  The scheduling invariant of a running kernel, \<open>sched_inv\<close>: the linked structures, the tasks, the
  synchronisation objects, the delay queue and the switch plan are consistent with one another.
  This theory collects what the laws of the operations share: bookkeeping (counters, trace,
  accounting) that no invariant reads, and the step from a changed ready structure to a new plan.
\<close>

definition sched_inv :: "rts_config \<Rightarrow> rts_tick \<Rightarrow> rts_kernel_state \<Rightarrow> bool" where
  "sched_inv cfg base s \<longleftrightarrow> links_inv cfg s \<and> tasks_inv cfg s \<and> sync_inv cfg s \<and> delay_ordered base s \<and> plan_wf cfg s"

lemma sched_invD:
  assumes "sched_inv cfg base s"
  shows "links_inv cfg s" and "tasks_inv cfg s" and "sync_inv cfg s" and "delay_ordered base s" and "plan_wf cfg s"
  using assms by (simp_all add: sched_inv_def)

lemma sched_running: "sched_inv cfg base s \<Longrightarrow> lifecycle s = RTS_KERNEL_RUNNING"
  by (simp add: sched_inv_def plan_wf_def)

section \<open>Bookkeeping\<close>

definition book :: "rts_config \<Rightarrow> rts_kernel_state \<Rightarrow> rts_kernel_state \<Rightarrow> bool" where
  "book cfg s s' \<longleftrightarrow> same_core cfg s s' \<and> rest_same s s' \<and> (\<forall>t. wake_tick (tcbs s' t) = wake_tick (tcbs s t)) \<and>
     switch_plan s' = switch_plan s \<and> semaphores s' = semaphores s \<and> mutexes s' = mutexes s"

lemma book_refl [simp]: "book cfg s s"
  by (simp add: book_def)

lemma book_trans: "book cfg s s' \<Longrightarrow> book cfg s' s'' \<Longrightarrow> book cfg s s''"
  using same_core_trans [of cfg s s' s''] rest_same_trans [of s s' s''] by (simp add: book_def)

lemma book_core: "book cfg s s' \<Longrightarrow> same_core cfg s s'"
  by (simp add: book_def)

lemma book_steps [simp]:
  "book cfg s (diag_inc cfg c s)" "book cfg s (diag_add cfg c n s)" "book cfg s (RTS_TRACE cfg e a b s)"
  "book cfg s (rts_port_request_reschedule s)" "book cfg s (task_diag_block cfg t s)" "book cfg s (task_diag_wake cfg t s)"
  "book cfg s (rts_runtime_task_started cfg tp now s)" "book cfg s (rts_runtime_task_stopped cfg tp now s)"
  unfolding book_def
  by (simp_all add: rest_same_def diag_inc_def diag_add_def RTS_TRACE_def rts_port_request_reschedule_def
      task_diag_block_def task_diag_wake_def rts_runtime_task_started_def rts_runtime_task_stopped_def upd_tcb_def
      same_core_def split: option.splits)

lemma book_release [simp]: "book cfg s (rts_policy_record_release t s)"
proof -
  have "tcb_core (x\<lparr>release_tick := a, release_sequence := b, absolute_deadline := c\<rparr>) = tcb_core x" for x a b c
    by (cases x) (simp add: tcb_core_def)
  then show ?thesis
    by (simp add: book_def same_core_def rest_same_def rts_policy_record_release_def Let_def upd_tcb_def tcb_core_def)
qed

lemma book_slice [simp]: "book cfg s (upd_tcb t (\<lambda>x. x\<lparr>slice_remaining := n\<rparr>) s)"
  by (simp add: book_def same_core_def rest_same_def upd_tcb_def tcb_core_upd)

lemma book_tick_on [simp]: "book cfg s (s\<lparr>tick_on := b\<rparr>)"
  by (simp add: book_def rest_same_def)

lemma book_tcb:
  assumes "book cfg s s'"
  shows "task_state (tcbs s' t) = task_state (tcbs s t)" and "wait_reason (tcbs s' t) = wait_reason (tcbs s t)"
    and "wait_result (tcbs s' t) = wait_result (tcbs s t)" and "wait_object (tcbs s' t) = wait_object (tcbs s t)"
    and "timeout_active (tcbs s' t) = timeout_active (tcbs s t)" and "priority (tcbs s' t) = priority (tcbs s t)"
    and "base_priority (tcbs s' t) = base_priority (tcbs s t)" and "slot_state (tcbs s' t) = slot_state (tcbs s t)"
    and "wake_tick (tcbs s' t) = wake_tick (tcbs s t)" and "live cfg s' t = live cfg s t"
  using assms tcb_core_fields [of "tcbs s' t" "tcbs s t"] by (simp_all add: book_def same_core_def live_def)

lemma book_fields:
  assumes "book cfg s s'"
  shows "lmem s' = lmem s" and "wmem s' = wmem s" and "omem s' = omem s" and "current_task s' = current_task s"
    and "lifecycle s' = lifecycle s" and "switch_plan s' = switch_plan s" and "idle_task s' = idle_task s"
    and "timer_service_task s' = timer_service_task s" and "current_tick s' = current_tick s"
    and "semaphores s' = semaphores s" and "mutexes s' = mutexes s" and "rest_same s s'" and "timers s' = timers s"
    and "callback_queue s' = callback_queue s" and "in_isr s' = in_isr s"
  using assms by (simp_all add: book_def same_core_def rest_same_def)

section \<open>Congruence of the parts\<close>

lemma raise_to_cong:
  "wmem s' = wmem s \<Longrightarrow> (\<And>t. priority (tcbs s' t) = priority (tcbs s t)) \<Longrightarrow> raise_to s' = raise_to s"
  by (auto simp: raise_to_def fun_eq_iff split: list.splits)

lemma fp_before_cong: "(\<And>t. priority (tcbs s' t) = priority (tcbs s t)) \<Longrightarrow> fp_before s' = fp_before s"
  by (simp add: fp_before_def fun_eq_iff)

lemma sync_cong:
  assumes "wmem s' = wmem s" and "omem s' = omem s" and "semaphores s' = semaphores s" and "mutexes s' = mutexes s"
    and "\<And>t. priority (tcbs s' t) = priority (tcbs s t)" and "\<And>t. base_priority (tcbs s' t) = base_priority (tcbs s t)"
    and "\<And>t. slot_state (tcbs s' t) = slot_state (tcbs s t)"
  shows "sync_inv cfg s' = sync_inv cfg s"
proof -
  have "live cfg s' t = live cfg s t" for t by (simp add: live_def assms(7))
  moreover have "required_priority s' t = required_priority s t" for t
    by (simp add: required_priority_def raise_to_cong [OF assms(1,5)] assms(2,6))
  ultimately show ?thesis
    by (simp add: sync_inv_def sync_struct_def wait_sorted_def waits_for_def inherits_def fp_before_cong [OF assms(5)]
        assms(1-5))
qed

lemma delay_ordered_cong:
  assumes "delay_q (lmem s') = delay_q (lmem s)" and "\<And>t. t \<in> set (delay_q (lmem s)) \<Longrightarrow> wake_tick (tcbs s' t) = wake_tick (tcbs s t)"
  shows "delay_ordered base s' = delay_ordered base s"
proof -
  have "ordered_by (wake_before s') (delay_q (lmem s)) = ordered_by (wake_before s) (delay_q (lmem s))"
    by (rule ordered_by_cong) (simp add: wake_before_def assms(2))
  then show ?thesis using assms by (simp add: delay_ordered_def)
qed

lemma plan_wf_cong:
  assumes "plan_wf cfg s" and "lifecycle s' = lifecycle s" and "current_task s' = current_task s"
    and "switch_plan s' = switch_plan s"
    and "\<And>u. live cfg s u \<Longrightarrow> task_state (tcbs s u) = RTS_TASK_STATE_READY \<Longrightarrow>
      live cfg s' u \<and> task_state (tcbs s' u) = RTS_TASK_STATE_READY"
  shows "plan_wf cfg s'"
  using assms unfolding plan_wf_def by metis

lemma book_links: "book cfg s s' \<Longrightarrow> links_inv cfg s \<Longrightarrow> links_inv cfg s'"
  using same_core_links book_core by blast

lemma book_tasks: "book cfg s s' \<Longrightarrow> tasks_inv cfg s \<Longrightarrow> tasks_inv cfg s'"
  using same_core_tasks book_core by blast

lemma book_tasks_but: "book cfg s s' \<Longrightarrow> tasks_but cfg t s \<Longrightarrow> tasks_but cfg t s'"
  using tasks_but_same_core book_core by blast

lemma book_sync: "book cfg s s' \<Longrightarrow> sync_inv cfg s' = sync_inv cfg s"
  by (rule sync_cong) (simp_all add: book_fields [of cfg] book_tcb [of cfg])

lemma book_delay: "book cfg s s' \<Longrightarrow> delay_ordered base s' = delay_ordered base s"
  by (rule delay_ordered_cong) (simp_all add: book_fields(1) [of cfg] book_tcb(9) [of cfg])

lemma book_plan_wf: "book cfg s s' \<Longrightarrow> plan_wf cfg s \<Longrightarrow> plan_wf cfg s'"
  by (rule plan_wf_cong [of cfg s]) (simp_all add: book_fields [of cfg] book_tcb [of cfg])

lemma book_plan_inv: "book cfg s s' \<Longrightarrow> plan_inv cfg s \<Longrightarrow> plan_inv cfg s'"
  using book_plan_wf [of cfg s s']
  by (auto simp: plan_inv_def plan_target_def head_ready_def book_fields [of cfg s s'] book_tcb [of cfg s s'] split: if_splits)

lemma book_sched: "book cfg s s' \<Longrightarrow> sched_inv cfg base s \<Longrightarrow> sched_inv cfg base s'"
  using book_links book_tasks book_sync book_delay book_plan_wf by (metis sched_inv_def)

section \<open>A new plan\<close>

text \<open>The frame of a scheduling operation on application tasks.\<close>

definition sched_frame :: "rts_kernel_state \<Rightarrow> rts_kernel_state \<Rightarrow> bool" where
  "sched_frame s s' \<longleftrightarrow> rest_same s s' \<and> timer_q (lmem s') = timer_q (lmem s) \<and>
     task_state (tcbs s' Service) = task_state (tcbs s Service) \<and> (\<forall>t. slot_state (tcbs s' t) = slot_state (tcbs s t))"

lemma sched_frame_refl [simp]: "sched_frame s s"
  by (simp add: sched_frame_def)

lemma sched_frame_trans: "sched_frame s s' \<Longrightarrow> sched_frame s' s'' \<Longrightarrow> sched_frame s s''"
  using rest_same_trans [of s s' s''] by (simp add: sched_frame_def)

lemma book_frame: "book cfg s s' \<Longrightarrow> sched_frame s s'"
  by (simp add: sched_frame_def book_fields [of cfg s s'] book_tcb [of cfg s s'])

lemma prio_frame_sched: "prio_frame cfg s s' \<Longrightarrow> sched_frame s s'"
  by (simp add: sched_frame_def prio_frame_tcb(1,6)) (simp add: prio_frame_def)

lemma sched_inv_prio:
  assumes "links_inv cfg s'" and "tasks_inv cfg s'" and "sync_inv cfg s'" and "prio_frame cfg s s'"
    and "delay_ordered base s" and "plan_wf cfg s"
  shows "sched_inv cfg base s'"
proof -
  note T = prio_frame_tcb [OF assms(4)]
  have "delay_ordered base s'"
    using assms(5) delay_ordered_cong [of s' s base] T(4) assms(4) by (simp add: prio_frame_def)
  moreover have "plan_wf cfg s'"
    by (rule plan_wf_cong [OF assms(6)]) (use assms(4) T in \<open>simp_all add: prio_frame_def rest_same_def\<close>)
  ultimately show ?thesis using assms(1-3) by (simp add: sched_inv_def)
qed

text \<open>Writing the plan and the counters only.\<close>

lemma sched_inv_replanned:
  assumes "sched_inv cfg base s" and "plan_wf cfg (s\<lparr>switch_plan := p, runtime_counters := rc\<rparr>)"
  shows "sched_inv cfg base (s\<lparr>switch_plan := p, runtime_counters := rc\<rparr>)"
    and "sched_frame s (s\<lparr>switch_plan := p, runtime_counters := rc\<rparr>)"
proof -
  let ?s = "s\<lparr>switch_plan := p, runtime_counters := rc\<rparr>"
  note D = sched_invD [OF assms(1)]
  have core: "same_core cfg s ?s" by (simp add: same_core_def)
  have "sync_inv cfg ?s" using D(3) sync_cong [of ?s s cfg] by simp
  moreover have "delay_ordered base ?s" using D(4) delay_ordered_cong [of ?s s base] by simp
  ultimately show "sched_inv cfg base ?s"
    using same_core_links [OF D(1) core] same_core_tasks [OF D(2) core] assms(2) by (simp add: sched_inv_def)
  show "sched_frame s ?s" by (simp add: sched_frame_def rest_same_def)
qed

text \<open>Proposing the first task of the service order.\<close>

lemma propose_head:
  assumes inv: "sched_inv cfg base s" and c: "current_task s = Some c"
  obtains notify s' where "rts_scheduler_prepare_switch cfg (Some (head_ready cfg s)) s = Inr (notify, s')"
    and "sched_inv cfg base s'" and "plan_inv cfg s'" and "sched_frame s s'"
    and "plan_proposed c (head_ready cfg s) (switch_plan s) (switch_plan s')"
    and "tcbs s' = tcbs s" and "lmem s' = lmem s" and "wmem s' = wmem s" and "omem s' = omem s"
    and "semaphores s' = semaphores s" and "mutexes s' = mutexes s"
proof -
  note D = sched_invD [OF inv]
  obtain p rc where p: "rts_scheduler_prepare_switch cfg (Some (head_ready cfg s)) s =
      Inr (head_ready cfg s \<noteq> c \<and> \<not> sp_active (switch_plan s) \<and> \<not> sp_pending (switch_plan s),
        s\<lparr>switch_plan := p, runtime_counters := rc\<rparr>)" "plan_proposed c (head_ready cfg s) (switch_plan s) p"
    using prepare_switch_law [OF D(1,2,5) c head_ready_props(2) [OF D(2)]] by metis
  have inv': "plan_inv cfg (s\<lparr>switch_plan := p, runtime_counters := rc\<rparr>)"
    by (rule plan_inv_proposed [OF D(2,5) c p(2)]) simp_all
  then have "plan_wf cfg (s\<lparr>switch_plan := p, runtime_counters := rc\<rparr>)" by (simp add: plan_inv_def)
  from sched_inv_replanned [OF inv this] inv' p show ?thesis
    by (intro that [of _ "s\<lparr>switch_plan := p, runtime_counters := rc\<rparr>"]) simp_all
qed

lemma select_sched: "sched_inv cfg base s \<Longrightarrow> rts_scheduler_select_highest_ready cfg s = Inr (Some (head_ready cfg s))"
  using select_head [of cfg s] sched_running [of cfg base s] by (simp add: sched_inv_def)

text \<open>The two copies of the decision behind a wake-up or a hand-over, and the one of the tick.\<close>

lemma replan_law:
  assumes inv: "sched_inv cfg base s"
  obtains notify s' where "rts_semaphore_plan_after_wake cfg s = Inr (notify, s')" and "rts_mutex_plan_final cfg s = Inr (notify, s')"
    and "sched_inv cfg base s'" and "plan_inv cfg s'" and "sched_frame s s'" and "tcbs s' = tcbs s" and "lmem s' = lmem s"
    and "wmem s' = wmem s" and "omem s' = omem s" and "semaphores s' = semaphores s" and "mutexes s' = mutexes s"
proof -
  note D = sched_invD [OF inv]
  obtain c where c: "current_task s = Some c" using D(5) by (auto simp: plan_wf_def)
  obtain notify s' where s': "rts_scheduler_prepare_switch cfg (Some (head_ready cfg s)) s = Inr (notify, s')"
    "sched_inv cfg base s'" "plan_inv cfg s'" "sched_frame s s'" "tcbs s' = tcbs s" "lmem s' = lmem s"
    "wmem s' = wmem s" "omem s' = omem s" "semaphores s' = semaphores s" "mutexes s' = mutexes s"
    by (rule propose_head [OF inv c])
  have "rts_semaphore_plan_after_wake cfg s = Inr (notify \<and> head_ready cfg s \<noteq> c, s')"
    "rts_mutex_plan_final cfg s = Inr (notify \<and> head_ready cfg s \<noteq> c, s')"
    using s'(1) c by (auto simp: rts_semaphore_plan_after_wake_def rts_mutex_plan_final_def select_sched [OF inv]
        rts_scheduler_current_get_def Let_def)
  from that [OF this s'(2-)] show ?thesis .
qed

end
