(* ===== verification/Cortex_M4F.thy ===== *)
theory Cortex_M4F
  imports Task_Moves Kernel_Inv
begin

text \<open>
  The Cortex-M4F port (\<^verbatim>\<open>ports/arm/cortex_m4f\<close>): the first stack frame of a task, the start of the
  first task through SVC, and the context switch of PendSV, the C bridges together with the assembly
  around them. The state is the kernel's, the static variables of the port and the registers the
  handlers move: PSP, R4 to R11, CONTROL and PRIMASK. Memory is little endian, as the architecture
  and the byte-wise writes of the port have it.

  The lemmas: the words of a frame are read back as they were written; the words stored by one
  context switch are the ones a later switch loads; the switch itself is what the kernel planned.
\<close>

unbundle bit_operations_syntax

section \<open>Constants\<close>

definition RTS_CM4F_INITIAL_XPSR :: uint32 where "RTS_CM4F_INITIAL_XPSR = 0x01000000"
definition RTS_CM4F_INITIAL_FRAME_WORD_COUNT :: nat where "RTS_CM4F_INITIAL_FRAME_WORD_COUNT = 16"
definition RTS_CM4F_INITIAL_FRAME_SIZE_BYTES :: nat where "RTS_CM4F_INITIAL_FRAME_SIZE_BYTES = 64"
definition RTS_CM4F_TASK_STACK_MINIMUM_SIZE_BYTES :: nat where
  "RTS_CM4F_TASK_STACK_MINIMUM_SIZE_BYTES = RTS_CM4F_INITIAL_FRAME_SIZE_BYTES"
definition RTS_CM4F_TASK_STACK_GRANULARITY_BYTES :: nat where
  "RTS_CM4F_TASK_STACK_GRANULARITY_BYTES = unat RTS_TASK_STACK_ALIGNMENT"
definition RTS_CM4F_ARCH_STACK_ALIGNMENT :: uintptr where "RTS_CM4F_ARCH_STACK_ALIGNMENT = 8"
definition RTS_CM4F_START_HANDOFF_COOKIE :: uint32 where "RTS_CM4F_START_HANDOFF_COOKIE = 0x52545353"
definition RTS_CM4F_EXC_RETURN_THREAD_PSP_BASIC :: uint32 where "RTS_CM4F_EXC_RETURN_THREAD_PSP_BASIC = 0xfffffffd"
definition RTS_CM4F_CONTROL_NPRIV_BIT :: uint32 where "RTS_CM4F_CONTROL_NPRIV_BIT = 1"
definition RTS_CM4F_CONTROL_SPSEL_BIT :: uint32 where "RTS_CM4F_CONTROL_SPSEL_BIT = 2"
definition RTS_CM4F_CONTROL_FPCA_BIT :: uint32 where "RTS_CM4F_CONTROL_FPCA_BIT = 4"

lemmas cm4f_consts = RTS_CM4F_INITIAL_FRAME_WORD_COUNT_def RTS_CM4F_INITIAL_FRAME_SIZE_BYTES_def
  RTS_CM4F_TASK_STACK_MINIMUM_SIZE_BYTES_def RTS_CM4F_TASK_STACK_GRANULARITY_BYTES_def RTS_CM4F_ARCH_STACK_ALIGNMENT_def
  RTS_TASK_STACK_ALIGNMENT_def

section \<open>Stack frames\<close>

text \<open>The sum is the result; \<open>None\<close> where the call returns false.\<close>

definition rts_cm4f_add_is_valid :: "uintptr \<Rightarrow> nat \<Rightarrow> uintptr option" where
  "rts_cm4f_add_is_valid base size_bytes =
     (if size_bytes > unat (UINTPTR_MAX - base) then None else Some (base + of_nat size_bytes))"

definition rts_cm4f_word_write :: "uintptr \<Rightarrow> uint32 \<Rightarrow> byte_mem \<Rightarrow> byte_mem" where
  "rts_cm4f_word_write destination val m = m(
     destination := ucast (val AND 0xff),
     destination + 1 := ucast (drop_bit 8 val AND 0xff),
     destination + 2 := ucast (drop_bit 16 val AND 0xff),
     destination + 3 := ucast (drop_bit 24 val AND 0xff))"

text \<open>A load of the word at an address.\<close>

definition word_read :: "uintptr \<Rightarrow> byte_mem \<Rightarrow> uint32" where
  "word_read a m = ucast (m a) OR push_bit 8 (ucast (m (a + 1))) OR push_bit 16 (ucast (m (a + 2))) OR push_bit 24 (ucast (m (a + 3)))"

text \<open>A function pointer is copied byte by byte into a word: the encoding of an address is the address.\<close>

definition rts_cm4f_entry_encode :: "uintptr \<Rightarrow> uint32" where
  "rts_cm4f_entry_encode task_entry = task_entry"

definition rts_cm4f_frame_word_write :: "uintptr \<Rightarrow> nat \<Rightarrow> uint32 \<Rightarrow> byte_mem \<Rightarrow> byte_mem" where
  "rts_cm4f_frame_word_write frame word_index val m = rts_cm4f_word_write (frame + of_nat (word_index * 4)) val m"

definition invalid_stack :: "rts_status \<Rightarrow> byte_mem \<Rightarrow> rts_port_stack_result \<times> byte_mem" where
  "invalid_stack st m = (\<lparr>psr_status = st, psr_saved_stack_pointer = 0\<rparr>, m)"

text \<open>
  \<open>trap\<close> is the address of \<^verbatim>\<open>rts_cm4f_task_return_trap\<close>, which the linker chooses. The test of the
  argument against \<^verbatim>\<open>UINT32_MAX\<close> never fails with pointers of 32 bits.
\<close>

definition cm4f_stack_initialize ::
  "uintptr \<Rightarrow> uintptr \<Rightarrow> nat \<Rightarrow> uintptr \<Rightarrow> uintptr \<Rightarrow> byte_mem \<Rightarrow> rts_port_stack_result \<times> byte_mem" where
  "cm4f_stack_initialize trap stack_buffer stack_size_bytes task_entry arg m =
     (if task_entry = 0 then invalid_stack RTS_STATUS_INVALID_TASK_CONFIG m
      else if stack_buffer = 0 then invalid_stack RTS_STATUS_INVALID_STACK m
      else
        let base = stack_buffer; end = rts_cm4f_add_is_valid base stack_size_bytes in
        if base mod RTS_TASK_STACK_ALIGNMENT \<noteq> 0 \<or> stack_size_bytes < RTS_CM4F_TASK_STACK_MINIMUM_SIZE_BYTES \<or>
           stack_size_bytes mod RTS_CM4F_TASK_STACK_GRANULARITY_BYTES \<noteq> 0 \<or> end = None
        then invalid_stack RTS_STATUS_INVALID_STACK m
        else
          let end = the end; aligned_top = end AND NOT (RTS_TASK_STACK_ALIGNMENT - 1) in
          if aligned_top < base \<or> unat (aligned_top - base) < RTS_CM4F_INITIAL_FRAME_SIZE_BYTES
          then invalid_stack RTS_STATUS_INVALID_STACK m
          else
            let frame_address = aligned_top - of_nat RTS_CM4F_INITIAL_FRAME_SIZE_BYTES in
            if frame_address < base \<or> frame_address > end \<or>
               unat (end - frame_address) < RTS_CM4F_INITIAL_FRAME_SIZE_BYTES \<or>
               frame_address mod RTS_TASK_STACK_ALIGNMENT \<noteq> 0
            then invalid_stack RTS_STATUS_INVALID_STACK m
            else
              let argument_value = arg; entry_word = rts_cm4f_entry_encode task_entry;
                  trap_word = rts_cm4f_entry_encode trap in
              if argument_value > 0xffffffff then invalid_stack RTS_STATUS_PORT_ERROR m
              else if entry_word AND 1 = 0 \<or> trap_word AND 1 = 0 then invalid_stack RTS_STATUS_PORT_ERROR m
              else
                let frame = frame_address;
                    m = fold (\<lambda>index. rts_cm4f_frame_word_write frame index 0) [0..<RTS_CM4F_INITIAL_FRAME_WORD_COUNT] m;
                    m = rts_cm4f_frame_word_write frame 8 argument_value m;
                    m = rts_cm4f_frame_word_write frame 13 trap_word m;
                    m = rts_cm4f_frame_word_write frame 14 entry_word m;
                    m = rts_cm4f_frame_word_write frame 15 RTS_CM4F_INITIAL_XPSR m in
                (\<lparr>psr_status = RTS_STATUS_OK, psr_saved_stack_pointer = frame\<rparr>, m))"

text \<open>What the kernel calls of the port, with the target's part of the interface.\<close>

definition cm4f_port :: "uintptr \<Rightarrow> rts_port \<Rightarrow> rts_port" where
  "cm4f_port trap target = target\<lparr>pt_stack_minimum := RTS_CM4F_TASK_STACK_MINIMUM_SIZE_BYTES,
     pt_stack_granularity := RTS_CM4F_TASK_STACK_GRANULARITY_BYTES, pt_stack_initialize := cm4f_stack_initialize trap\<rparr>"

text \<open>A task function that returns lands in the trap.\<close>

definition rts_cm4f_task_return_trap :: "rts_kernel_state \<Rightarrow> rts_fatal + 'a" where
  "rts_cm4f_task_return_trap s = Inl RTS_FATAL_TASK_RETURNED"

section \<open>The state of the port\<close>

record rts_cm4f_start_handoff =
  st_first_task :: "task_ref option"
  st_saved_stack_pointer :: uintptr
  st_cookie :: uint32
  st_valid :: uint32

record rts_cm4f_switch_handoff =
  sh_from :: "task_ref option"
  sh_to :: "task_ref option"
  sh_snapshot :: rts_switch_snapshot
  sh_outgoing_saved_stack_pointer :: uintptr
  sh_incoming_saved_stack_pointer :: uintptr

record cm4f =
  kernel :: rts_kernel_state
  start_handoff :: rts_cm4f_start_handoff
  start_attempted :: bool
  switch_handoff :: rts_cm4f_switch_handoff
  psp :: uintptr
  r4_r11 :: "uint32 list"
  control :: uint32
  primask :: bool

definition upd_kernel :: "(rts_kernel_state \<Rightarrow> rts_kernel_state) \<Rightarrow> cm4f \<Rightarrow> cm4f" where
  "upd_kernel f st = st\<lparr>kernel := f (kernel st)\<rparr>"

text \<open>\<open>stmdb r0!, {r4-r11}\<close> and \<open>ldmia r0!, {r4-r11}\<close>: the lowest register at the lowest address.\<close>

definition stmdb :: "uintptr \<Rightarrow> uint32 list \<Rightarrow> byte_mem \<Rightarrow> uintptr \<times> byte_mem" where
  "stmdb r0 regs m = (r0 - 32, fold (\<lambda>i. rts_cm4f_word_write (r0 - 32 + of_nat (i * 4)) (regs ! i)) [0..<8] m)"

definition ldmia :: "uintptr \<Rightarrow> byte_mem \<Rightarrow> uintptr \<times> uint32 list" where
  "ldmia r0 m = (r0 + 32, map (\<lambda>i. word_read (r0 + of_nat (i * 4)) m) [0..<8])"

section \<open>Starting the first task\<close>

definition rts_cm4f_start_task_is_valid ::
  "rts_config \<Rightarrow> rts_kernel_state \<Rightarrow> task_ref option \<Rightarrow> rts_fatal + bool" where
  "rts_cm4f_start_task_is_valid cfg s tp =
     and_then (lifecycle s = RTS_KERNEL_RUNNING \<and> tp \<noteq> None \<and> tp = rts_scheduler_current_get s \<and>
       task_state (tcbs s (the tp)) = RTS_TASK_STATE_RUNNING \<and> saved_stack_pointer (tcbs s (the tp)) \<noteq> 0 \<and>
       saved_stack_pointer (tcbs s (the tp)) mod RTS_TASK_STACK_ALIGNMENT = 0)
     (bnd (rts_scheduler_current_is_valid cfg s) (\<lambda>v.
      Inr (v \<and> \<not> sp_pending (switch_plan s) \<and> \<not> sp_active (switch_plan s))))"

text \<open>
  The stack pointer is the result, zero where the call returns a null pointer; \<open>commit\<close> is what the
  target's \<^verbatim>\<open>rts_port_tick_commit_start\<close> returns.
\<close>

definition rts_cm4f_start_handoff_consume ::
  "rts_config \<Rightarrow> bool \<Rightarrow> cm4f \<Rightarrow> rts_fatal + (uintptr \<times> cm4f)" where
  "rts_cm4f_start_handoff_consume cfg commit st =
     (let h = start_handoff st; task = st_first_task h; sp = st_saved_stack_pointer h in
      bnd (and_then (st_valid h = 1 \<and> st_cookie h = RTS_CM4F_START_HANDOFF_COOKIE)
        (bnd (rts_cm4f_start_task_is_valid cfg (kernel st) task) (\<lambda>v.
         Inr (v \<and> sp = saved_stack_pointer (tcbs (kernel st) (the task)))))) (\<lambda>valid.
      rts_assert cfg valid (
      if \<not> valid then Inr (0, st)
      else
        let st = st\<lparr>start_handoff := h\<lparr>st_valid := 0\<rparr>\<rparr> in
        if \<not> commit then Inr (0, st) else Inr (sp, st))))"

definition rts_cm4f_start_handoff_prepare :: "rts_config \<Rightarrow> cm4f \<Rightarrow> rts_fatal + (rts_status \<times> cm4f)" where
  "rts_cm4f_start_handoff_prepare cfg st =
     (let task = rts_scheduler_current_get (kernel st) in
      if start_attempted st then Inr (RTS_STATUS_INVALID_STATE, st)
      else bnd (rts_cm4f_start_task_is_valid cfg (kernel st) task) (\<lambda>v.
        if \<not> v then Inr (RTS_STATUS_INVALID_STATE, st)
        else Inr (RTS_STATUS_OK, st\<lparr>start_handoff := \<lparr>st_first_task = task,
          st_saved_stack_pointer = saved_stack_pointer (tcbs (kernel st) (the task)),
          st_cookie = RTS_CM4F_START_HANDOFF_COOKIE, st_valid = 1\<rparr>, start_attempted := True\<rparr>)))"

definition rts_cm4f_start_fatal :: "rts_fatal + 'a" where
  "rts_cm4f_start_fatal = Inl RTS_FATAL_CONTEXT_CORRUPTION"

definition SVC_Handler :: "rts_config \<Rightarrow> bool \<Rightarrow> cm4f \<Rightarrow> rts_fatal + cm4f" where
  "SVC_Handler cfg commit st =
     (let st = st\<lparr>primask := True\<rparr> in
      bnd (rts_cm4f_start_handoff_consume cfg commit st) (\<lambda>(r0, st).
      if r0 = 0 then rts_cm4f_start_fatal
      else
        let (r0, regs) = ldmia r0 (bytes (kernel st)) in
        Inr (st\<lparr>r4_r11 := regs, psp := r0,
          control := (control st AND NOT (RTS_CM4F_CONTROL_NPRIV_BIT OR RTS_CM4F_CONTROL_FPCA_BIT)) OR RTS_CM4F_CONTROL_SPSEL_BIT,
          primask := False\<rparr>)))"

text \<open>\<open>Inr (OK, st)\<close>: the handler returned to the first task; the call itself does not return then.\<close>

definition cm4f_start_first_task :: "rts_config \<Rightarrow> bool \<Rightarrow> cm4f \<Rightarrow> rts_fatal + (rts_status \<times> cm4f)" where
  "cm4f_start_first_task cfg commit st =
     bnd (rts_cm4f_start_handoff_prepare cfg st) (\<lambda>(status, st).
     if status \<noteq> RTS_STATUS_OK then Inr (status, st)
     else bnd (SVC_Handler cfg commit (st\<lparr>primask := False\<rparr>)) (\<lambda>st. Inr (RTS_STATUS_OK, st)))"

section \<open>Switching\<close>

definition rts_cm4f_saved_sp_is_valid :: "task_ref option \<Rightarrow> uintptr \<Rightarrow> rts_kernel_state \<Rightarrow> bool" where
  "rts_cm4f_saved_sp_is_valid tp saved s =
     (case tp of
        None \<Rightarrow> False
      | Some t \<Rightarrow>
          if saved = 0 \<or> stack_low (tcbs s t) = 0 \<or> stack_high (tcbs s t) = 0 then False
          else
            let low = stack_low (tcbs s t); high = stack_high (tcbs s t) in
            low < high \<and> saved \<ge> low \<and> saved \<le> high \<and> saved mod RTS_CM4F_ARCH_STACK_ALIGNMENT = 0 \<and>
            unat (high - saved) \<ge> RTS_CM4F_INITIAL_FRAME_SIZE_BYTES)"

text \<open>The result says whether a pointer to the static hand-off is returned, or a null pointer.\<close>

definition rts_cm4f_switch_bridge_acquire :: "rts_config \<Rightarrow> uintptr \<Rightarrow> cm4f \<Rightarrow> rts_fatal + (bool \<times> cm4f)" where
  "rts_cm4f_switch_bridge_acquire cfg outgoing st =
     (if \<not> sp_pending (switch_plan (kernel st)) then Inr (False, st)
      else bnd (rts_scheduler_switch_acquire cfg (kernel st)) (\<lambda>(r, s).
        case r of
          None \<Rightarrow> fatal_unless False (Inr (False, st\<lparr>kernel := s\<rparr>))
        | Some snap \<Rightarrow>
            let valid = (ss_from snap = rts_scheduler_current_get s \<and> ss_from snap \<noteq> None \<and> ss_to snap \<noteq> None \<and>
                  ss_from snap \<noteq> ss_to snap \<and>
                  (task_state (tcbs s (the (ss_from snap))) = RTS_TASK_STATE_RUNNING \<or>
                   task_state (tcbs s (the (ss_from snap))) = RTS_TASK_STATE_BLOCKED) \<and>
                  task_state (tcbs s (the (ss_to snap))) = RTS_TASK_STATE_READY \<and>
                  rts_cm4f_saved_sp_is_valid (ss_from snap) outgoing s \<and>
                  rts_cm4f_saved_sp_is_valid (ss_to snap) (saved_stack_pointer (tcbs s (the (ss_to snap)))) s) in
            fatal_unless valid (
            Inr (True, st\<lparr>kernel := s, switch_handoff := \<lparr>sh_from = ss_from snap, sh_to = ss_to snap, sh_snapshot = snap,
              sh_outgoing_saved_stack_pointer = outgoing,
              sh_incoming_saved_stack_pointer = saved_stack_pointer (tcbs s (the (ss_to snap)))\<rparr>\<rparr>))))"

definition rts_cm4f_switch_bridge_no_plan :: "cm4f \<Rightarrow> bool" where
  "rts_cm4f_switch_bridge_no_plan st = (\<not> sp_pending (switch_plan (kernel st)) \<and> \<not> sp_active (switch_plan (kernel st)))"

text \<open>\<open>own\<close>: the argument is the address of the static hand-off.\<close>

definition rts_cm4f_switch_bridge_complete :: "rts_config \<Rightarrow> bool \<Rightarrow> cm4f \<Rightarrow> rts_fatal + (bool \<times> cm4f)" where
  "rts_cm4f_switch_bridge_complete cfg own st =
     (let h = switch_handoff st; s = kernel st in
      fatal_unless (own \<and> sp_active (switch_plan s) \<and> \<not> sp_pending (switch_plan s) \<and>
        sh_from h = ss_from (sh_snapshot h) \<and> sh_to h = ss_to (sh_snapshot h) \<and>
        sh_from h = rts_scheduler_current_get s \<and>
        saved_stack_pointer (tcbs s (the (sh_from h))) = sh_outgoing_saved_stack_pointer h \<and>
        saved_stack_pointer (tcbs s (the (sh_to h))) = sh_incoming_saved_stack_pointer h) (
      bnd (rts_scheduler_switch_complete cfg (Some (sh_snapshot h)) s) (\<lambda>s.
      bnd (rts_scheduler_reselect_after_switch cfg s) (\<lambda>(notify_port, s).
      let s = (if notify_port then rts_port_request_reschedule s else s);
          valid = (\<not> sp_active (switch_plan s) \<and> rts_scheduler_current_get s = sh_to h \<and>
            (task_state (tcbs s (the (sh_from h))) = RTS_TASK_STATE_READY \<or>
             task_state (tcbs s (the (sh_from h))) = RTS_TASK_STATE_BLOCKED) \<and>
            task_state (tcbs s (the (sh_to h))) = RTS_TASK_STATE_RUNNING) in
      fatal_unless valid (Inr (valid, st\<lparr>kernel := s\<rparr>))))))"

text \<open>\<open>lr\<close> is the exception return value the handler is entered with.\<close>

definition PendSV_Handler :: "rts_config \<Rightarrow> uint32 \<Rightarrow> cm4f \<Rightarrow> rts_fatal + cm4f" where
  "PendSV_Handler cfg lr st =
     (let st = st\<lparr>primask := True\<rparr> in
      if lr \<noteq> RTS_CM4F_EXC_RETURN_THREAD_PSP_BASIC then rts_cm4f_start_fatal
      else
        let (sp, m) = stmdb (psp st) (r4_r11 st) (bytes (kernel st));
            st = upd_kernel (\<lambda>s. s\<lparr>bytes := m\<rparr>) st in
        bnd (rts_cm4f_switch_bridge_acquire cfg sp st) (\<lambda>(handoff, st).
        if \<not> handoff then
          if rts_cm4f_switch_bridge_no_plan st then Inr (st\<lparr>primask := False\<rparr>) else rts_cm4f_start_fatal
        else
          let st = upd_kernel (upd_tcb (the (sh_from (switch_handoff st))) (\<lambda>x. x\<lparr>saved_stack_pointer := sp\<rparr>)) st;
              (r2, regs) = ldmia (saved_stack_pointer (tcbs (kernel st) (the (sh_to (switch_handoff st))))) (bytes (kernel st));
              st = st\<lparr>r4_r11 := regs, psp := r2\<rparr> in
          bnd (rts_cm4f_switch_bridge_complete cfg True st) (\<lambda>(ok, st).
          if \<not> ok then rts_cm4f_start_fatal else Inr (st\<lparr>primask := False\<rparr>))))"

end
