(* ===== verification/S32K148.thy ===== *)
theory S32K148
  imports Cortex_M4F Kernel_Time Power_Manager Fatal_Record
begin

text \<open>
  The S32K148 target (\<^verbatim>\<open>targets/nxp/s32k148\<close>): critical sections, the SysTick tick source, sleeping on
  the low-power timer, the port initialization, fault capture and the C runtime. The state adds the
  target's static variables and the device registers it touches to the state of the Cortex-M4F port.

  The device is a parameter: \<open>dev r v rs\<close> is the register file after the value \<open>v\<close> was written to the
  register \<open>r\<close>. The barrier instructions order accesses of one processor that the model already
  performs in order.
\<close>

unbundle bit_operations_syntax

section \<open>Constants\<close>

definition RTS_S32K148_NVIC_PRIORITY_BITS :: nat where "RTS_S32K148_NVIC_PRIORITY_BITS = 4"
definition RTS_S32K148_CORE_CLOCK_HZ :: uint32 where "RTS_S32K148_CORE_CLOCK_HZ = 48000000"
definition RTS_S32K148_SVC_LOGICAL_PRIORITY :: uint32 where "RTS_S32K148_SVC_LOGICAL_PRIORITY = 13"
definition RTS_S32K148_SYSTICK_LOGICAL_PRIORITY :: uint32 where "RTS_S32K148_SYSTICK_LOGICAL_PRIORITY = 14"
definition RTS_S32K148_PENDSV_LOGICAL_PRIORITY :: uint32 where "RTS_S32K148_PENDSV_LOGICAL_PRIORITY = 15"
definition RTS_SYSTICK_COUNTER_CAPACITY :: uint32 where "RTS_SYSTICK_COUNTER_CAPACITY = 0x01000000"

text \<open>Masks of the device headers.\<close>

definition SysTick_CTRL_ALL :: uint32 where "SysTick_CTRL_ALL = 7"
definition SCB_CCR_STKALIGN_Msk :: uint32 where "SCB_CCR_STKALIGN_Msk = 0x200"
definition SCB_CPACR_CP10_CP11 :: uint32 where "SCB_CPACR_CP10_CP11 = 0x00f00000"
definition FPU_FPCCR_ASPEN_LSPEN :: uint32 where "FPU_FPCCR_ASPEN_LSPEN = 0xc0000000"
definition SCB_ICSR_PENDSVCLR_Msk :: uint32 where "SCB_ICSR_PENDSVCLR_Msk = 0x08000000"
definition SCB_ICSR_NMIPENDSET_Msk :: uint32 where "SCB_ICSR_NMIPENDSET_Msk = 0x80000000"
definition PCC_PCCn_CGC_MASK :: uint32 where "PCC_PCCn_CGC_MASK = 0x40000000"
definition LPTMR_PSR_PBYP_MASK :: uint32 where "LPTMR_PSR_PBYP_MASK = 4"
definition LPTMR_CSR_TCF_MASK :: uint32 where "LPTMR_CSR_TCF_MASK = 0x80"
definition LPTMR_CSR_TIE_MASK :: uint32 where "LPTMR_CSR_TIE_MASK = 0x40"
definition LPTMR_CSR_TEN_MASK :: uint32 where "LPTMR_CSR_TEN_MASK = 1"
definition CoreDebug_DEMCR_TRCENA_Msk :: uint32 where "CoreDebug_DEMCR_TRCENA_Msk = 0x01000000"
definition DWT_CTRL_CYCCNTENA_Msk :: uint32 where "DWT_CTRL_CYCCNTENA_Msk = 1"
definition RTS_PORT_MUX_GPIO :: uint32 where "RTS_PORT_MUX_GPIO = 0x100"
definition RTS_RED_LED_MASK :: uint32 where "RTS_RED_LED_MASK = 0x200000"
definition RTS_PORT_WAKE_EXTERNAL :: "8 word" where "RTS_PORT_WAKE_EXTERNAL = 1"

section \<open>State\<close>

datatype s32k_reg =
    SysTick_CTRL | SysTick_LOAD | SysTick_VAL
  | SCB_SHP nat | SCB_CCR | SCB_CPACR | SCB_ICSR | SCB_VTOR | FPU_FPCCR
  | SCB_CFSR | SCB_HFSR | SCB_DFSR | SCB_SHCSR | SCB_MMFAR | SCB_BFAR
  | PCC_LPTMR0 | LPTMR0_CSR | LPTMR0_PSR | LPTMR0_CMR | LPTMR0_CNR
  | NVIC_Clear_LPTMR0 | NVIC_Priority_LPTMR0 | NVIC_Enable_LPTMR0
  | CoreDebug_DEMCR | DWT_CTRL | DWT_CYCCNT
  | RTS_PCC_PORTE | RTS_PORTE_PCR21 | RTS_GPIOE_PSOR | RTS_GPIOE_PCOR | RTS_GPIOE_PTOR | RTS_GPIOE_PDDR

type_synonym s32k_regs = "s32k_reg \<Rightarrow> uint32"
type_synonym s32k_device = "s32k_reg \<Rightarrow> uint32 \<Rightarrow> s32k_regs \<Rightarrow> s32k_regs"

datatype rts_s32k148_tick_state =
    RTS_S32K148_TICK_UNINITIALIZED
  | RTS_S32K148_TICK_READY
  | RTS_S32K148_TICK_ARMED
  | RTS_S32K148_TICK_RUNNING

record rts_s32k148_timing_record =
  cycle_counter_available :: uint32
  critical_start_cycle :: uint32
  maximum_critical_cycles :: uint32

record rts_s32k148_fault_record =
  flt_assertion_failed :: uint32
  flt_hardfault_seen :: uint32
  flt_stacked :: "uint32 list"
  flt_cfsr :: uint32
  flt_hfsr :: uint32
  flt_dfsr :: uint32
  flt_shcsr :: uint32
  flt_mmfar :: uint32
  flt_bfar :: uint32
  flt_active_msp :: uint32
  flt_active_psp :: uint32
  flt_exc_return :: uint32
  flt_handler_probe_msp :: uint32
  flt_handler_probe_ipsr :: uint32
  flt_fatal_reason :: "rts_fatal option"
  flt_fatal_tick :: rts_tick
  flt_fatal_current_task :: "task_ref option"

record s32k148 =
  cpu :: cm4f
  ipsr :: uint32
  msp :: uint32
  regs :: s32k_regs
  tick_state :: rts_s32k148_tick_state
  tick_reload :: uint32
  critical_depth :: uint32
  lptmr_woke :: bool
  power_ready :: bool
  timing :: rts_s32k148_timing_record
  fault_record :: rts_s32k148_fault_record

definition reg_write :: "s32k_device \<Rightarrow> s32k_reg \<Rightarrow> uint32 \<Rightarrow> s32k148 \<Rightarrow> s32k148" where
  "reg_write dev r v st = st\<lparr>regs := dev r v (regs st)\<rparr>"

definition set_primask :: "bool \<Rightarrow> s32k148 \<Rightarrow> s32k148" where
  "set_primask b st = st\<lparr>cpu := (cpu st)\<lparr>primask := b\<rparr>\<rparr>"

abbreviation irq_masked :: "s32k148 \<Rightarrow> bool" where
  "irq_masked st \<equiv> primask (cpu st)"

section \<open>Cycle measurements\<close>

definition rts_s32k148_timing_initialize :: "rts_config \<Rightarrow> s32k_device \<Rightarrow> s32k148 \<Rightarrow> s32k148" where
  "rts_s32k148_timing_initialize cfg dev st =
     (if \<not> RTS_ENABLE_DIAGNOSTICS cfg then st
      else
        let st = reg_write dev CoreDebug_DEMCR (regs st CoreDebug_DEMCR OR CoreDebug_DEMCR_TRCENA_Msk) st;
            st = reg_write dev DWT_CYCCNT 0 st;
            st = reg_write dev DWT_CTRL (regs st DWT_CTRL OR DWT_CTRL_CYCCNTENA_Msk) st in
        st\<lparr>timing := (timing st)\<lparr>cycle_counter_available :=
          (if regs st DWT_CTRL AND DWT_CTRL_CYCCNTENA_Msk \<noteq> 0 then 1 else 0)\<rparr>\<rparr>)"

definition rts_s32k148_cycle_now :: "rts_config \<Rightarrow> s32k148 \<Rightarrow> uint32" where
  "rts_s32k148_cycle_now cfg st = (if RTS_ENABLE_DIAGNOSTICS cfg then regs st DWT_CYCCNT else 0)"

definition rts_s32k148_timing_critical_begin :: "rts_config \<Rightarrow> s32k148 \<Rightarrow> s32k148" where
  "rts_s32k148_timing_critical_begin cfg st =
     (if RTS_ENABLE_DIAGNOSTICS cfg \<and> cycle_counter_available (timing st) \<noteq> 0
      then st\<lparr>timing := (timing st)\<lparr>critical_start_cycle := regs st DWT_CYCCNT\<rparr>\<rparr> else st)"

definition rts_s32k148_timing_critical_end :: "rts_config \<Rightarrow> s32k148 \<Rightarrow> s32k148" where
  "rts_s32k148_timing_critical_end cfg st =
     (if RTS_ENABLE_DIAGNOSTICS cfg \<and> cycle_counter_available (timing st) \<noteq> 0
      then
        let elapsed = regs st DWT_CYCCNT - critical_start_cycle (timing st) in
        if elapsed > maximum_critical_cycles (timing st)
        then st\<lparr>timing := (timing st)\<lparr>maximum_critical_cycles := elapsed\<rparr>\<rparr> else st
      else st)"

section \<open>Critical sections\<close>

definition rts_s32k148_priority_encode :: "uint32 \<Rightarrow> uint32" where
  "rts_s32k148_priority_encode logical_priority = push_bit (8 - RTS_S32K148_NVIC_PRIORITY_BITS) logical_priority"

definition s32k148_critical_enter :: "rts_config \<Rightarrow> s32k148 \<Rightarrow> rts_fatal + (uintptr \<times> s32k148)" where
  "s32k148_critical_enter cfg st =
     (let previous = of_bool (irq_masked st);
          st = set_primask True st;
          st = (if critical_depth st = 0 then rts_s32k148_timing_critical_begin cfg st else st);
          next_depth = critical_depth st + 1 in
      fatal_unless (next_depth \<noteq> 0) (
      Inr (push_bit 1 next_depth OR previous, st\<lparr>critical_depth := next_depth\<rparr>)))"

definition s32k148_critical_exit :: "rts_config \<Rightarrow> uintptr \<Rightarrow> s32k148 \<Rightarrow> rts_fatal + s32k148" where
  "s32k148_critical_exit cfg token st =
     (let token_depth = drop_bit 1 token; previous = token AND 1 in
      fatal_unless (token_depth \<noteq> 0 \<and> token_depth = critical_depth st \<and> irq_masked st) (
      let st = st\<lparr>critical_depth := token_depth - 1\<rparr>;
          st = (if critical_depth st = 0 then rts_s32k148_timing_critical_end cfg st else st) in
      Inr (set_primask (previous \<noteq> 0) st)))"

definition s32k148_is_in_isr :: "s32k148 \<Rightarrow> bool" where
  "s32k148_is_in_isr st = (ipsr st \<noteq> 0)"

definition s32k148_exception_number :: "s32k148 \<Rightarrow> uint32" where
  "s32k148_exception_number st = ipsr st"

definition s32k148_fatal_disable :: "s32k148 \<Rightarrow> s32k148" where
  "s32k148_fatal_disable st = set_primask True st"

section \<open>The tick source\<close>

definition rts_s32k148_tick_reload_calculate :: "uint32 \<Rightarrow> uint32 \<Rightarrow> uint32 option" where
  "rts_s32k148_tick_reload_calculate core_clock_hz tick_rate_hz =
     (if core_clock_hz = 0 \<or> tick_rate_hz = 0 \<or> tick_rate_hz > core_clock_hz \<or> core_clock_hz mod tick_rate_hz \<noteq> 0
      then None
      else
        let cycles = core_clock_hz div tick_rate_hz in
        if cycles = 0 \<or> cycles > RTS_SYSTICK_COUNTER_CAPACITY then None else Some (cycles - 1))"

definition rts_s32k148_tick_priority_encode :: uint32 where
  "rts_s32k148_tick_priority_encode =
     push_bit (8 - RTS_S32K148_NVIC_PRIORITY_BITS) RTS_S32K148_SYSTICK_LOGICAL_PRIORITY AND 0xff"

definition rts_s32k148_tick_initialize ::
  "s32k_device \<Rightarrow> uint32 \<Rightarrow> uint32 \<Rightarrow> s32k148 \<Rightarrow> rts_status \<times> s32k148" where
  "rts_s32k148_tick_initialize dev core_clock_hz tick_rate_hz st =
     (let st = reg_write dev SysTick_CTRL 0 st;
          st = st\<lparr>tick_state := RTS_S32K148_TICK_UNINITIALIZED, tick_reload := 0\<rparr> in
      case rts_s32k148_tick_reload_calculate core_clock_hz tick_rate_hz of
        None \<Rightarrow> (RTS_STATUS_PORT_ERROR, st)
      | Some reload \<Rightarrow>
          let st = reg_write dev SysTick_LOAD reload st;
              st = reg_write dev SysTick_VAL 0 st;
              st = reg_write dev (SCB_SHP 11) rts_s32k148_tick_priority_encode st in
          if regs st SysTick_LOAD \<noteq> reload \<or> regs st (SCB_SHP 11) \<noteq> rts_s32k148_tick_priority_encode
          then (RTS_STATUS_PORT_ERROR, reg_write dev SysTick_CTRL 0 st)
          else (RTS_STATUS_OK, st\<lparr>tick_reload := reload, tick_state := RTS_S32K148_TICK_READY\<rparr>))"

definition rts_port_tick_start :: "rts_config \<Rightarrow> s32k_device \<Rightarrow> s32k148 \<Rightarrow> rts_fatal + (rts_status \<times> s32k148)" where
  "rts_port_tick_start cfg dev st =
     bnd (and_then (tick_state st = RTS_S32K148_TICK_READY \<and> lifecycle (kernel (cpu st)) = RTS_KERNEL_RUNNING)
       (bnd (rts_scheduler_current_is_valid cfg (kernel (cpu st))) (\<lambda>v. Inr (v \<and> irq_masked st \<and> ipsr st = 0)))) (\<lambda>valid.
     rts_assert cfg valid (
     if \<not> valid then Inr (RTS_STATUS_PORT_ERROR, st)
     else Inr (RTS_STATUS_OK, (reg_write dev SysTick_VAL 0 st)\<lparr>tick_state := RTS_S32K148_TICK_ARMED\<rparr>)))"

definition rts_port_tick_commit_start :: "s32k_device \<Rightarrow> s32k148 \<Rightarrow> rts_fatal + (bool \<times> s32k148)" where
  "rts_port_tick_commit_start dev st =
     fatal_unless (tick_state st = RTS_S32K148_TICK_ARMED \<and> irq_masked st \<and> ipsr st = 11) (
     let st = reg_write dev SysTick_CTRL SysTick_CTRL_ALL st;
         valid = (regs st SysTick_CTRL AND SysTick_CTRL_ALL = SysTick_CTRL_ALL) in
     fatal_unless valid (Inr (valid, st\<lparr>tick_state := RTS_S32K148_TICK_RUNNING\<rparr>)))"

definition rts_port_tick_stop :: "s32k_device \<Rightarrow> s32k148 \<Rightarrow> s32k148" where
  "rts_port_tick_stop dev st =
     (let st = reg_write dev SysTick_VAL 0 (reg_write dev SysTick_CTRL 0 st) in
      if tick_state st \<noteq> RTS_S32K148_TICK_UNINITIALIZED then st\<lparr>tick_state := RTS_S32K148_TICK_READY\<rparr> else st)"

definition rts_s32k148_tick_is_ready :: "s32k148 \<Rightarrow> bool" where
  "rts_s32k148_tick_is_ready st = (tick_state st = RTS_S32K148_TICK_READY)"

definition rts_s32k148_tick_is_running :: "s32k148 \<Rightarrow> bool" where
  "rts_s32k148_tick_is_running st = (tick_state st = RTS_S32K148_TICK_RUNNING)"

definition rts_s32k148_tick_reload_get :: "s32k148 \<Rightarrow> uint32" where
  "rts_s32k148_tick_reload_get st = tick_reload st"

text \<open>The handler with the empty default hook, which returns false.\<close>

definition SysTick_Handler :: "rts_config \<Rightarrow> s32k148 \<Rightarrow> rts_fatal + s32k148" where
  "SysTick_Handler cfg st =
     fatal_unless (tick_state st = RTS_S32K148_TICK_RUNNING) (
     bnd (rts_kernel_tick_advance cfg 1 (kernel (cpu st))) (\<lambda>(notify_port, s).
     let notify_port = (False \<or> notify_port);
         s = (if notify_port then rts_port_request_reschedule s else s) in
     Inr (st\<lparr>cpu := (cpu st)\<lparr>kernel := s\<rparr>\<rparr>)))"

section \<open>Sleeping\<close>

definition rts_s32k148_lptmr_count_read :: "s32k_device \<Rightarrow> s32k148 \<Rightarrow> uint32 \<times> s32k148" where
  "rts_s32k148_lptmr_count_read dev st = (let st = reg_write dev LPTMR0_CNR 0 st in (regs st LPTMR0_CNR, st))"

definition rts_s32k148_power_initialize :: "s32k_device \<Rightarrow> s32k148 \<Rightarrow> rts_status \<times> s32k148" where
  "rts_s32k148_power_initialize dev st =
     (let st = reg_write dev PCC_LPTMR0 PCC_PCCn_CGC_MASK st;
          st = reg_write dev LPTMR0_CSR 0 st;
          st = reg_write dev LPTMR0_PSR (1 OR LPTMR_PSR_PBYP_MASK) st;
          st = reg_write dev LPTMR0_CMR 0 st;
          st = reg_write dev LPTMR0_CSR LPTMR_CSR_TCF_MASK st;
          st = reg_write dev NVIC_Clear_LPTMR0 1 st;
          st = reg_write dev NVIC_Priority_LPTMR0 RTS_S32K148_SYSTICK_LOGICAL_PRIORITY st;
          st = reg_write dev NVIC_Enable_LPTMR0 1 st;
          ready = (regs st PCC_LPTMR0 AND PCC_PCCn_CGC_MASK \<noteq> 0 \<and> regs st LPTMR0_PSR AND LPTMR_PSR_PBYP_MASK \<noteq> 0);
          st = st\<lparr>lptmr_woke := False, power_ready := ready\<rparr> in
      (if ready then RTS_STATUS_OK else RTS_STATUS_PORT_ERROR, st))"

text \<open>\<open>wfi\<close> is the environment: the state when the processor wakes again and the pending handlers have run.\<close>

definition s32k148_power_sleep ::
  "rts_config \<Rightarrow> s32k_device \<Rightarrow> (s32k148 \<Rightarrow> s32k148) \<Rightarrow> rts_tick \<Rightarrow> s32k148 \<Rightarrow> rts_fatal + (rts_port_sleep_result \<times> s32k148)" where
  "s32k148_power_sleep cfg dev wfi maximum_ticks st =
     (let valid = (power_ready st \<and> maximum_ticks \<noteq> 0 \<and> maximum_ticks \<le> 0xffff \<and> ipsr st = 0 \<and> irq_masked st) in
      rts_assert cfg valid (
      if \<not> valid
      then Inr (\<lparr>slr_status = RTS_STATUS_PORT_ERROR, slr_elapsed_ticks = 0, slr_wake_source = RTS_PORT_WAKE_OTHER\<rparr>, st)
      else
        let systick_control = regs st SysTick_CTRL;
            st = reg_write dev SysTick_CTRL 0 st;
            st = st\<lparr>lptmr_woke := False\<rparr>;
            st = reg_write dev LPTMR0_CSR 0 st;
            st = reg_write dev LPTMR0_CMR (maximum_ticks - 1) st;
            st = reg_write dev LPTMR0_CSR LPTMR_CSR_TCF_MASK st;
            st = reg_write dev NVIC_Clear_LPTMR0 1 st;
            st = reg_write dev LPTMR0_CSR (LPTMR_CSR_TIE_MASK OR LPTMR_CSR_TEN_MASK) st;
            st = rts_s32k148_timing_critical_end cfg st;
            st = set_primask False st;
            st = wfi st;
            st = set_primask True st;
            st = rts_s32k148_timing_critical_begin cfg st;
            (elapsed, st) = (if lptmr_woke st then (maximum_ticks, st) else rts_s32k148_lptmr_count_read dev st);
            elapsed = (if elapsed > maximum_ticks then maximum_ticks else elapsed);
            st = reg_write dev LPTMR0_CSR 0 st;
            st = reg_write dev LPTMR0_CSR LPTMR_CSR_TCF_MASK st;
            st = reg_write dev NVIC_Clear_LPTMR0 1 st;
            st = reg_write dev SysTick_VAL 0 st;
            st = reg_write dev SysTick_CTRL systick_control st in
        Inr (\<lparr>slr_status = RTS_STATUS_OK, slr_elapsed_ticks = elapsed,
          slr_wake_source = (if lptmr_woke st then RTS_PORT_WAKE_TIMER else RTS_PORT_WAKE_EXTERNAL)\<rparr>, st)))"

definition LPTMR0_IRQHandler :: "s32k_device \<Rightarrow> s32k148 \<Rightarrow> s32k148" where
  "LPTMR0_IRQHandler dev st =
     (if regs st LPTMR0_CSR AND LPTMR_CSR_TCF_MASK \<noteq> 0
      then (reg_write dev LPTMR0_CSR (regs st LPTMR0_CSR OR LPTMR_CSR_TCF_MASK) st)\<lparr>lptmr_woke := True\<rparr>
      else st)"

end
