(* ===== verification/S32K148_Port.thy ===== *)
theory S32K148_Port
  imports S32K148
begin

text \<open>
  The S32K148 target, continued: the port initialization with its checks of the processor state and of
  the vector table, fault capture and the handler probe (\<^verbatim>\<open>target.c\<close>, \<^verbatim>\<open>startup/target_handlers.S\<close>), the LED
  and the memory routines of the C runtime (\<^verbatim>\<open>target_runtime.c\<close>).
\<close>

unbundle bit_operations_syntax

section \<open>Port initialization\<close>

text \<open>
  The vector table and the addresses of the handlers are chosen by the linker; the number of the
  low-power timer's interrupt is the device header's.
\<close>

record s32k_image =
  vector_address :: uint32
  g_pfnVectors :: "nat \<Rightarrow> uintptr"
  SVC_Handler_address :: uintptr
  PendSV_Handler_address :: uintptr
  SysTick_Handler_address :: uintptr
  LPTMR0_IRQHandler_address :: uintptr
  LPTMR0_IRQn :: nat

definition port_preconditions :: "s32k_image \<Rightarrow> s32k148 \<Rightarrow> bool" where
  "port_preconditions vt st \<longleftrightarrow> \<not> (ipsr st \<noteq> 0 \<or> \<not> irq_masked st \<or>
     control (cpu st) AND (RTS_CM4F_CONTROL_SPSEL_BIT OR RTS_CM4F_CONTROL_FPCA_BIT) \<noteq> 0 \<or>
     msp st AND 7 \<noteq> 0 \<or> regs st SCB_VTOR \<noteq> vector_address vt \<or>
     g_pfnVectors vt 11 \<noteq> SVC_Handler_address vt \<or> g_pfnVectors vt 14 \<noteq> PendSV_Handler_address vt \<or>
     g_pfnVectors vt 15 \<noteq> SysTick_Handler_address vt \<or>
     g_pfnVectors vt (16 + LPTMR0_IRQn vt) \<noteq> LPTMR0_IRQHandler_address vt \<or>
     st_valid (start_handoff (cpu st)) \<noteq> 0 \<or> sp_pending (switch_plan (kernel (cpu st))) \<or>
     sp_active (switch_plan (kernel (cpu st))))"

definition s32k148_port_initialize :: "rts_config \<Rightarrow> s32k_device \<Rightarrow> s32k_image \<Rightarrow> s32k148 \<Rightarrow> rts_status \<times> s32k148" where
  "s32k148_port_initialize cfg dev vt st =
     (let svc_encoded = rts_s32k148_priority_encode RTS_S32K148_SVC_LOGICAL_PRIORITY;
          pendsv_encoded = rts_s32k148_priority_encode RTS_S32K148_PENDSV_LOGICAL_PRIORITY in
      if \<not> port_preconditions vt st then (RTS_STATUS_PORT_ERROR, st)
      else
        let st = reg_write dev SCB_CCR (regs st SCB_CCR OR SCB_CCR_STKALIGN_Msk) st;
            st = reg_write dev SCB_CPACR (regs st SCB_CPACR AND NOT SCB_CPACR_CP10_CP11) st;
            st = reg_write dev FPU_FPCCR (regs st FPU_FPCCR AND NOT FPU_FPCCR_ASPEN_LSPEN) st;
            st = reg_write dev SCB_ICSR SCB_ICSR_PENDSVCLR_Msk st;
            st = reg_write dev (SCB_SHP 7) (svc_encoded AND 0xff) st;
            st = reg_write dev (SCB_SHP 10) (pendsv_encoded AND 0xff) st in
        if regs st SCB_CCR AND SCB_CCR_STKALIGN_Msk = 0 \<or> regs st SCB_CPACR AND SCB_CPACR_CP10_CP11 \<noteq> 0 \<or>
           regs st FPU_FPCCR AND FPU_FPCCR_ASPEN_LSPEN \<noteq> 0 \<or> regs st (SCB_SHP 7) \<noteq> svc_encoded AND 0xff \<or>
           regs st (SCB_SHP 10) \<noteq> pendsv_encoded AND 0xff
        then (RTS_STATUS_PORT_ERROR, st)
        else case rts_s32k148_tick_initialize dev RTS_S32K148_CORE_CLOCK_HZ (of_nat (RTS_TICK_RATE_HZ cfg)) st of
          (status, st) \<Rightarrow>
            if status \<noteq> RTS_STATUS_OK then (RTS_STATUS_PORT_ERROR, st)
            else case rts_s32k148_power_initialize dev st of
              (status, st) \<Rightarrow> if status \<noteq> RTS_STATUS_OK then (RTS_STATUS_PORT_ERROR, st) else (RTS_STATUS_OK, st))"

section \<open>Faults\<close>

definition upd_fault :: "(rts_s32k148_fault_record \<Rightarrow> rts_s32k148_fault_record) \<Rightarrow> s32k148 \<Rightarrow> s32k148" where
  "upd_fault f st = st\<lparr>fault_record := f (fault_record st)\<rparr>"

definition rts_s32k148_record_handler_probe :: "uint32 \<Rightarrow> uint32 \<Rightarrow> s32k148 \<Rightarrow> s32k148" where
  "rts_s32k148_record_handler_probe probe_msp probe_ipsr st =
     upd_fault (\<lambda>r. r\<lparr>flt_handler_probe_msp := probe_msp, flt_handler_probe_ipsr := probe_ipsr\<rparr>) st"

definition rts_s32k148_request_handler_probe :: "s32k_device \<Rightarrow> s32k148 \<Rightarrow> s32k148" where
  "rts_s32k148_request_handler_probe dev st =
     reg_write dev SCB_ICSR SCB_ICSR_NMIPENDSET_Msk
       (upd_fault (\<lambda>r. r\<lparr>flt_handler_probe_msp := 0, flt_handler_probe_ipsr := 0\<rparr>) st)"

definition rts_s32k148_handler_probe_passed :: "s32k148 \<Rightarrow> bool" where
  "rts_s32k148_handler_probe_passed st \<longleftrightarrow> flt_handler_probe_msp (fault_record st) \<noteq> 0 \<and>
     flt_handler_probe_msp (fault_record st) AND 7 = 0 \<and> flt_handler_probe_ipsr (fault_record st) = 2"

definition NMI_Handler :: "s32k148 \<Rightarrow> s32k148" where
  "NMI_Handler st = rts_s32k148_record_handler_probe (msp st) (ipsr st) st"

definition rts_target_fatal_hook :: "rts_fatal_record \<Rightarrow> s32k148 \<Rightarrow> s32k148" where
  "rts_target_fatal_hook record st =
     upd_fault (\<lambda>r. r\<lparr>flt_assertion_failed := (if fr_reason record = Some RTS_FATAL_ASSERTION then 1 else 0),
       flt_fatal_reason := fr_reason record, flt_fatal_tick := fr_tick record,
       flt_fatal_current_task := fr_current_task record\<rparr>) (set_primask True st)"

text \<open>What the capture writes before it stops in \<^verbatim>\<open>RTS_KERNEL_FATAL(RTS_FATAL_HARDFAULT, ...)\<close>; a null frame is \<open>0\<close>.\<close>

definition rts_s32k148_hardfault_capture :: "uintptr \<Rightarrow> uint32 \<Rightarrow> uint32 \<Rightarrow> uint32 \<Rightarrow> s32k148 \<Rightarrow> s32k148" where
  "rts_s32k148_hardfault_capture stacked_frame exc_return active_msp active_psp st =
     (let st = set_primask True st;
          st = upd_fault (\<lambda>r. r\<lparr>flt_hardfault_seen := 1, flt_exc_return := exc_return,
            flt_active_msp := active_msp, flt_active_psp := active_psp\<rparr>) st;
          st = (if stacked_frame \<noteq> 0
                then upd_fault (\<lambda>r. r\<lparr>flt_stacked :=
                  map (\<lambda>i. word_read (stacked_frame + of_nat (i * 4)) (bytes (kernel (cpu st)))) [0..<8]\<rparr>) st else st) in
      upd_fault (\<lambda>r. r\<lparr>flt_cfsr := regs st SCB_CFSR, flt_hfsr := regs st SCB_HFSR, flt_dfsr := regs st SCB_DFSR,
        flt_shcsr := regs st SCB_SHCSR, flt_mmfar := regs st SCB_MMFAR, flt_bfar := regs st SCB_BFAR\<rparr>) st)"

definition HardFault_Handler :: "uint32 \<Rightarrow> s32k148 \<Rightarrow> s32k148" where
  "HardFault_Handler lr st =
     rts_s32k148_hardfault_capture (if lr AND 4 = 0 then msp st else psp (cpu st)) lr (msp st) (psp (cpu st)) st"

section \<open>The LED and the C runtime\<close>

definition rts_s32k148_led_initialize :: "s32k_device \<Rightarrow> s32k148 \<Rightarrow> s32k148" where
  "rts_s32k148_led_initialize dev st =
     (let st = reg_write dev RTS_PCC_PORTE (regs st RTS_PCC_PORTE OR PCC_PCCn_CGC_MASK) st;
          st = reg_write dev RTS_PORTE_PCR21 RTS_PORT_MUX_GPIO st;
          st = reg_write dev RTS_GPIOE_PDDR (regs st RTS_GPIOE_PDDR OR RTS_RED_LED_MASK) st in
      reg_write dev RTS_GPIOE_PSOR RTS_RED_LED_MASK st)"

definition rts_s32k148_red_led_set :: "s32k_device \<Rightarrow> bool \<Rightarrow> s32k148 \<Rightarrow> s32k148" where
  "rts_s32k148_red_led_set dev on st =
     (if on then reg_write dev RTS_GPIOE_PCOR RTS_RED_LED_MASK st else reg_write dev RTS_GPIOE_PSOR RTS_RED_LED_MASK st)"

definition rts_s32k148_red_led_toggle :: "s32k_device \<Rightarrow> s32k148 \<Rightarrow> s32k148" where
  "rts_s32k148_red_led_toggle dev st = reg_write dev RTS_GPIOE_PTOR RTS_RED_LED_MASK st"

text \<open>\<^verbatim>\<open>memset\<close> writes the value converted to \<^verbatim>\<open>unsigned char\<close>; \<^verbatim>\<open>memcpy\<close> reads each byte when it copies it.\<close>

definition memset :: "uintptr \<Rightarrow> 32 word \<Rightarrow> nat \<Rightarrow> byte_mem \<Rightarrow> byte_mem" where
  "memset destination val count m = fill_loop count destination (ucast val) m"

fun memcpy_loop :: "nat \<Rightarrow> uintptr \<Rightarrow> uintptr \<Rightarrow> byte_mem \<Rightarrow> byte_mem" where
  "memcpy_loop 0 to from m = m"
| "memcpy_loop (Suc n) to from m = memcpy_loop n (to + 1) (from + 1) (m(to := m from))"

definition memcpy :: "uintptr \<Rightarrow> uintptr \<Rightarrow> nat \<Rightarrow> byte_mem \<Rightarrow> byte_mem" where
  "memcpy destination source count m = memcpy_loop count destination source m"

definition aeabi_memclr :: "uintptr \<Rightarrow> nat \<Rightarrow> byte_mem \<Rightarrow> byte_mem" where
  "aeabi_memclr destination count m = memset destination 0 count m"

end
