(* ===== verification/Context_Frames.thy ===== *)
theory Context_Frames
  imports Cortex_M4F
begin

text \<open>
  Words in the byte memory, and what the stack frames of the Cortex-M4F port hold: the frame a task
  starts with, and the frame a context switch saves and restores.
\<close>

unbundle bit_operations_syntax

section \<open>Words\<close>

lemma byte_of_word: "(ucast (w AND 0xff) :: 8 word) = ucast (w :: 32 word)"
proof -
  have m: "(0xff :: 32 word) = mask 8" by (simp add: mask_eq_exp_minus_1)
  show ?thesis unfolding m by (rule bit_eqI) (simp add: bit_ucast_iff bit_and_iff bit_mask_iff)
qed

lemma word_read_write [simp]: "word_read a (rts_cm4f_word_write a v m) = v"
proof (rule bit_eqI)
  fix n
  assume "possible_bit TYPE(32 word) n"
  then have "n < 32" by simp
  then consider "n < 8" | "8 \<le> n" "n < 16" | "16 \<le> n" "n < 24" | "24 \<le> n" "n < 32" by linarith
  then show "bit (word_read a (rts_cm4f_word_write a v m)) n \<longleftrightarrow> bit v n"
    unfolding word_read_def rts_cm4f_word_write_def byte_of_word
    by cases (simp_all add: bit_simps, auto)
qed

lemma word_write_other:
  assumes "unat a + 4 \<le> 2 ^ 32" and "unat x < unat a \<or> unat a + 4 \<le> unat x"
  shows "rts_cm4f_word_write a v m x = m x"
proof -
  have "unat (a + 1) = unat a + 1" "unat (a + 2) = unat a + 2" "unat (a + 3) = unat a + 3"
    using assms(1) unat_offset [of a 1] unat_offset [of a 2] unat_offset [of a 3] by simp_all
  then have "x \<noteq> a" "x \<noteq> a + 1" "x \<noteq> a + 2" "x \<noteq> a + 3" using assms(2) by auto
  then show ?thesis by (simp add: rts_cm4f_word_write_def)
qed

lemma word_read_cong:
  assumes "unat a + 4 \<le> 2 ^ 32" and "\<And>x. unat a \<le> unat x \<Longrightarrow> unat x < unat a + 4 \<Longrightarrow> m' x = m x"
  shows "word_read a m' = word_read a m"
proof -
  have "unat (a + 1) = unat a + 1" "unat (a + 2) = unat a + 2" "unat (a + 3) = unat a + 3"
    using assms(1) unat_offset [of a 1] unat_offset [of a 2] unat_offset [of a 3] by simp_all
  then have "m' a = m a" "m' (a + 1) = m (a + 1)" "m' (a + 2) = m (a + 2)" "m' (a + 3) = m (a + 3)" by (simp_all add: assms(2))
  then show ?thesis by (simp add: word_read_def)
qed

text \<open>The word of a frame at an index.\<close>

definition frame_word :: "uintptr \<Rightarrow> byte_mem \<Rightarrow> nat \<Rightarrow> uint32" where
  "frame_word frame m i = word_read (frame + of_nat (i * 4)) m"

lemma frame_address:
  assumes "unat frame + 4 * n \<le> 2 ^ 32" and "i < n"
  shows "unat (frame + of_nat (i * 4) :: uintptr) = unat frame + 4 * i"
  using unat_offset [of frame "i * 4"] assms by simp

lemma frame_word_write:
  assumes fits: "unat frame + 4 * n \<le> 2 ^ 32" and "i < n" and "j < n"
  shows "frame_word frame (rts_cm4f_frame_word_write frame i v m) j = (if i = j then v else frame_word frame m j)"
proof (cases "i = j")
  case False
  note A = frame_address [OF fits assms(2)] frame_address [OF fits assms(3)]
  have "frame_word frame (rts_cm4f_frame_word_write frame i v m) j = frame_word frame m j"
    unfolding frame_word_def rts_cm4f_frame_word_write_def
  proof (rule word_read_cong)
    show "unat (frame + of_nat (j * 4)) + 4 \<le> 2 ^ 32" using A fits assms(3) by linarith
    fix x :: uintptr
    assume "unat (frame + of_nat (j * 4)) \<le> unat x" "unat x < unat (frame + of_nat (j * 4)) + 4"
    then show "rts_cm4f_word_write (frame + of_nat (i * 4)) v m x = m x"
      using A fits assms(2,3) False by (intro word_write_other) linarith+
  qed
  with False show ?thesis by simp
qed (simp add: frame_word_def rts_cm4f_frame_word_write_def)

lemma frame_write_outside:
  assumes fits: "unat frame + 4 * n \<le> 2 ^ 32" and "i < n" and "unat x < unat frame \<or> unat frame + 4 * n \<le> unat x"
  shows "rts_cm4f_frame_word_write frame i v m x = m x"
  unfolding rts_cm4f_frame_word_write_def
  using frame_address [OF fits assms(2)] assms by (intro word_write_other) linarith+

lemma frame_fold:
  assumes fits: "unat frame + 4 * n \<le> 2 ^ 32" and "k \<le> n"
    and m': "m' = fold (\<lambda>i. rts_cm4f_frame_word_write frame i (f i)) [0..<k] m"
  shows "j < n \<Longrightarrow> frame_word frame m' j = (if j < k then f j else frame_word frame m j)"
    and "unat x < unat frame \<or> unat frame + 4 * n \<le> unat x \<Longrightarrow> m' x = m x"
proof -
  show "frame_word frame m' j = (if j < k then f j else frame_word frame m j)" if "j < n"
    unfolding m' using assms(2)
    by (induction k) (use that in \<open>auto simp: frame_word_write [OF fits] less_Suc_eq\<close>)
  show "m' x = m x" if "unat x < unat frame \<or> unat frame + 4 * n \<le> unat x"
    unfolding m' using assms(2)
    by (induction k) (use that in \<open>simp_all add: frame_write_outside [OF fits]\<close>)
qed

lemma frame_word_cong:
  assumes fits: "unat frame + 4 * n \<le> 2 ^ 32" and "i < n"
    and "\<And>x. unat frame \<le> unat x \<Longrightarrow> unat x < unat frame + 4 * n \<Longrightarrow> m' x = m x"
  shows "frame_word frame m' i = frame_word frame m i"
  unfolding frame_word_def
  by (rule word_read_cong) (use frame_address [OF fits assms(2)] assms in \<open>auto\<close>)

section \<open>Saving and restoring\<close>

lemma stmdb_frame:
  assumes "32 \<le> unat r0" and "stmdb r0 rs m = (sp, m')" and "length rs = 8"
  shows "sp = r0 - 32" and "unat sp + 32 = unat r0" and "map (frame_word sp m') [0..<8] = rs"
    and "unat x < unat sp \<or> unat r0 \<le> unat x \<Longrightarrow> m' x = m x"
proof -
  show sp: "sp = r0 - 32" using assms(2) by (simp add: stmdb_def)
  have "(32 :: uintptr) \<le> r0" using assms(1) by (simp add: word_le_nat_alt)
  then show u: "unat sp + 32 = unat r0" using assms(1) sp by (simp add: unat_sub)
  have m': "m' = fold (\<lambda>i. rts_cm4f_frame_word_write sp i (rs ! i)) [0..<8] m"
    using assms(2) by (simp add: stmdb_def sp rts_cm4f_frame_word_write_def [abs_def])
  have fits: "unat sp + 4 * 8 \<le> 2 ^ 32" using u unat_u32 [of r0] by simp
  note F = frame_fold [OF fits order_refl m']
  show "map (frame_word sp m') [0..<8] = rs" using F(1) assms(3) by (auto intro: nth_equalityI)
  show "unat x < unat sp \<or> unat r0 \<le> unat x \<Longrightarrow> m' x = m x" using F(2) u by simp
qed

lemma ldmia_frame: "ldmia sp m = (sp + 32, map (frame_word sp m) [0..<8])"
  by (simp add: ldmia_def frame_word_def)

section \<open>The first frame\<close>

definition initial_frame :: "uintptr \<Rightarrow> uintptr \<Rightarrow> uintptr \<Rightarrow> uint32 list" where
  "initial_frame trap task_entry arg = replicate 8 0 @ [arg, 0, 0, 0, 0, trap, task_entry, RTS_CM4F_INITIAL_XPSR]"

text \<open>When a stack is accepted: both ends are aligned, the frame fits and the code addresses are Thumb addresses.\<close>

definition cm4f_stack_ok :: "uintptr \<Rightarrow> uintptr \<Rightarrow> nat \<Rightarrow> uintptr \<Rightarrow> bool" where
  "cm4f_stack_ok trap low n task_entry \<longleftrightarrow> low \<noteq> 0 \<and> low mod 16 = 0 \<and> 64 \<le> n \<and> n mod 16 = 0 \<and> unat low + n < 2 ^ 32 \<and>
     odd task_entry \<and> odd trap"

lemma aligned_top:
  assumes "(w :: uintptr) mod 16 = 0"
  shows "w AND NOT (16 - 1) = w"
proof -
  have m: "16 - 1 = (mask 4 :: uintptr)" by (simp add: mask_eq_exp_minus_1)
  have "take_bit 4 w = 0" using assms by (simp add: take_bit_eq_mod)
  then have low: "\<not> bit w k" if "k < 4" for k using that by (metis bit_0_eq bit_take_bit_iff bot_apply bot_bool_def)
  show ?thesis
    unfolding m by (rule bit_eqI) (use low in \<open>auto simp: bit_and_iff bit_not_iff bit_mask_iff bit_imp_le_length\<close>)
qed

lemma odd_and_1: "(w :: uint32) AND 1 = 0 \<longleftrightarrow> even w"
  by (simp add: and_one_eq even_iff_mod_2_eq_zero)

lemma cm4f_stack_cases:
  "psr_status (fst (cm4f_stack_initialize trap low n task_entry arg m)) = RTS_STATUS_OK \<or>
   (\<exists>st. cm4f_stack_initialize trap low n task_entry arg m = invalid_stack st m)"
proof -
  define P where "P r \<longleftrightarrow> psr_status (fst r) = RTS_STATUS_OK \<or> (\<exists>st. r = invalid_stack st m)" for r
  have "P (invalid_stack st m)" "P (\<lparr>psr_status = RTS_STATUS_OK, psr_saved_stack_pointer = sp\<rparr>, m')"
    "P x \<Longrightarrow> P y \<Longrightarrow> P (if b then x else y)" for st sp m' x y b
    by (auto simp: P_def)
  then have "P (cm4f_stack_initialize trap low n task_entry arg m)" unfolding cm4f_stack_initialize_def Let_def by metis
  then show ?thesis by (simp add: P_def)
qed

text \<open>The end of an aligned stack is aligned, and the frame lies right below it.\<close>

lemma stack_top:
  assumes "cm4f_stack_ok trap low n task_entry"
  defines "high \<equiv> low + of_nat n"
  shows "unat high = unat low + n" and "high mod 16 = 0" and "unat (high - 64) = unat low + n - 64" and "(high - 64) mod 16 = 0"
    and "rts_cm4f_add_is_valid low n = Some high"
proof -
  have "unat (low mod 16) = 0" using assms(1) by (simp add: cm4f_stack_ok_def)
  then have n: "64 \<le> n" "unat low + n < 2 ^ 32" "n mod 16 = 0" "unat low mod 16 = 0"
    using assms(1) by (simp_all add: cm4f_stack_ok_def unat_mod)
  show u: "unat high = unat low + n" unfolding high_def by (rule unat_offset [OF n(2)])
  then have "unat (high mod 16) = 0" using n by (simp add: unat_mod mod_add_left_eq [symmetric])
  then show "high mod 16 = 0" by (simp add: unat_eq_0)
  have le: "(64 :: uintptr) \<le> high" using u n by (simp add: word_le_nat_alt)
  then show u': "unat (high - 64) = unat low + n - 64" using u by (simp add: unat_sub)
  have "(unat low + n - 64) mod 16 = 0" using n by presburger
  then have "unat ((high - 64) mod 16) = 0" by (simp add: unat_mod u')
  then show "(high - 64) mod 16 = 0" by (simp add: unat_eq_0)
  show "rts_cm4f_add_is_valid low n = Some high"
    using n(2) by (simp add: rts_cm4f_add_is_valid_def high_def UINTPTR_MAX_def unat_sub word_le_nat_alt)
qed

lemma cm4f_stack_accepted:
  assumes ok: "cm4f_stack_ok trap low n task_entry"
  obtains m' where "cm4f_stack_initialize trap low n task_entry arg m =
      (\<lparr>psr_status = RTS_STATUS_OK, psr_saved_stack_pointer = low + of_nat n - 64\<rparr>, m')"
    and "map (frame_word (low + of_nat n - 64) m') [0..<16] = initial_frame trap task_entry arg"
    and "\<And>x. unat x < unat low + n - 64 \<or> unat low + n \<le> unat x \<Longrightarrow> m' x = m x"
proof -
  define high where "high = low + of_nat n"
  note T = stack_top [OF ok, folded high_def]
  define f where "f = high - 64"
  define m0 where "m0 = fold (\<lambda>i. rts_cm4f_frame_word_write f i 0) [0..<16] m"
  define m' where "m' = rts_cm4f_frame_word_write f 15 RTS_CM4F_INITIAL_XPSR (rts_cm4f_frame_word_write f 14 task_entry
     (rts_cm4f_frame_word_write f 13 trap (rts_cm4f_frame_word_write f 8 arg m0)))"
  have n: "64 \<le> n" "unat low + n < 2 ^ 32" using ok by (simp_all add: cm4f_stack_ok_def)
  have uf: "unat f = unat low + n - 64" by (simp add: f_def T(3))
  have fits: "unat f + 4 * 16 \<le> 2 ^ 32" using uf n by simp
  note F = frame_fold [OF fits order_refl m0_def] and W = frame_word_write [OF fits] and O = frame_write_outside [OF fits]
  have le: "\<not> high < low" "\<not> f < low" "\<not> high < f" using T(1) uf n by (simp_all add: word_less_nat_alt)
  have "low \<le> high" using T(1) by (simp add: word_le_nat_alt)
  then have d: "unat (high - low) = n" "high - f = 64" using T(1) by (simp_all add: unat_sub f_def)
  have e: "task_entry \<noteq> 0" "low mod 16 = 0" "low \<noteq> 0" "n mod 16 = 0" "odd task_entry" "odd trap" using ok by (auto simp: cm4f_stack_ok_def)
  have a: "\<not> arg > 0xffffffff" using unat_u32 [of arg] by (simp add: word_less_nat_alt not_less)
  have "cm4f_stack_initialize trap low n task_entry arg m = (\<lparr>psr_status = RTS_STATUS_OK, psr_saved_stack_pointer = f\<rparr>, m')"
    using e T(4) le d n a aligned_top [OF T(2)]
    by (simp add: cm4f_stack_initialize_def cm4f_consts T(5) rts_cm4f_entry_encode_def odd_and_1
        f_def [symmetric] m0_def [symmetric] m'_def [symmetric] Let_def)
  moreover have "frame_word f m' j = initial_frame trap task_entry arg ! j" if "j < 16" for j
  proof -
    have "j \<in> set [0..<16]" using that by simp
    also have "[0..<16] = [0, 1, 2, 3, 4, 5, 6, 7, 8, 9, 10, 11, 12, 13, 14, 15]" by (simp add: upt_rec)
    finally have "j \<in> set [0, 1, 2, 3, 4, 5, 6, 7, 8, 9, 10, 11, 12, 13, 14, 15]" .
    then show ?thesis
      by (auto simp: m'_def W F(1) initial_frame_def nth_append)
  qed
  then have "map (frame_word f m') [0..<16] = initial_frame trap task_entry arg"
    by (intro nth_equalityI) (simp_all add: initial_frame_def)
  moreover have "m' x = m x" if "unat x < unat low + n - 64 \<or> unat low + n \<le> unat x" for x
    using that uf n by (simp add: m'_def O F(2))
  ultimately show ?thesis by (intro that [of m']) (simp_all add: f_def high_def)
qed

end
