(* ===== verification/Host_Port.thy ===== *)
theory Host_Port
  imports Context_Frames Kernel_Boot Power_Manager
begin

text \<open>
  The host port (\<^verbatim>\<open>ports/host\<close>), the deterministic simulation the kernel's tests run on: critical sections as a
  stack of tokens, the simulated tick source, sleep and context switch, the frames of tasks as
  records in their stacks, and the hooks of the tests. Pointers have 32 bits as in the rest of the
  model and the host is little endian: the frame has 24 bytes and takes 32 in a stack.
\<close>

unbundle bit_operations_syntax

section \<open>State\<close>

record rts_host_initial_frame =
  fr_magic :: uint32
  fr_version :: uint32
  fr_entry :: uintptr
  fr_argument :: uintptr
  fr_return_trap :: uintptr
  fr_reserved :: uintptr

definition RTS_HOST_INITIAL_FRAME_MAGIC :: uint32 where "RTS_HOST_INITIAL_FRAME_MAGIC = 0x48535446"
definition RTS_HOST_INITIAL_FRAME_VERSION :: uint32 where "RTS_HOST_INITIAL_FRAME_VERSION = 1"
definition RTS_HOST_FRAME_STORAGE_BYTES :: nat where
  "RTS_HOST_FRAME_STORAGE_BYTES = ((24 + unat RTS_TASK_STACK_ALIGNMENT - 1) div unat RTS_TASK_STACK_ALIGNMENT) * unat RTS_TASK_STACK_ALIGNMENT"
definition RTS_HOST_CRITICAL_NESTING_MAX :: nat where "RTS_HOST_CRITICAL_NESTING_MAX = 16"

record rts_host =
  host_in_isr :: bool
  host_interrupts_masked :: bool
  host_fail_next_stack_initialize :: bool
  host_fail_next_initialize :: bool
  host_initialized :: bool
  host_tick_ready :: bool
  host_tick_running :: bool
  host_fail_next_tick_start :: bool
  host_critical_depth :: nat
  host_switch_request_count :: nat
  host_last_switch_request_critical_depth :: nat
  host_switch_request_pending :: bool
  host_sleep_wake_configured :: bool
  host_fail_next_sleep :: bool
  host_next_sleep_elapsed :: rts_tick
  host_last_sleep_limit :: rts_tick
  host_next_wake_source :: "8 word"
  host_sleep_count :: nat
  host_critical_tokens :: "uintptr list"
  host_start_request_count :: nat
  host_start_task :: "task_ref option"
  host_start_saved_stack_pointer :: uintptr
  host_start_consumed :: bool
  host_fail_next_start :: bool

section \<open>Stacks\<close>

fun rts_host_bytes_copy :: "uintptr \<Rightarrow> 8 word list \<Rightarrow> byte_mem \<Rightarrow> byte_mem" where
  "rts_host_bytes_copy destination [] m = m"
| "rts_host_bytes_copy destination (b # bs) m = rts_host_bytes_copy (destination + 1) bs (m(destination := b))"

text \<open>The representation of a 32-bit value in memory.\<close>

definition word_bytes :: "uint32 \<Rightarrow> 8 word list" where
  "word_bytes v = [ucast v, ucast (drop_bit 8 v), ucast (drop_bit 16 v), ucast (drop_bit 24 v)]"

definition rts_host_stack_region_is_valid :: "uintptr \<Rightarrow> nat \<Rightarrow> uintptr \<Rightarrow> bool" where
  "rts_host_stack_region_is_valid stack_buffer stack_size_bytes task_entry =
     (let stack_start = stack_buffer in
      if stack_buffer = 0 \<or> task_entry = 0 \<or> stack_size_bytes = 0 \<or> stack_size_bytes < RTS_HOST_FRAME_STORAGE_BYTES \<or>
         stack_size_bytes mod unat RTS_TASK_STACK_ALIGNMENT \<noteq> 0 \<or> stack_start mod RTS_TASK_STACK_ALIGNMENT \<noteq> 0 \<or>
         stack_size_bytes > unat UINTPTR_MAX
      then False
      else if stack_start > UINTPTR_MAX - of_nat stack_size_bytes then False
      else (stack_start + of_nat stack_size_bytes) mod RTS_TASK_STACK_ALIGNMENT = 0)"

definition host_stack_minimum_size_bytes :: nat where
  "host_stack_minimum_size_bytes = RTS_HOST_FRAME_STORAGE_BYTES"

definition host_stack_size_granularity_bytes :: nat where
  "host_stack_size_granularity_bytes = unat RTS_TASK_STACK_ALIGNMENT"

definition host_initialize :: "rts_host \<Rightarrow> rts_status \<times> rts_host" where
  "host_initialize h =
     (if host_fail_next_initialize h then (RTS_STATUS_PORT_ERROR, h\<lparr>host_fail_next_initialize := False\<rparr>)
      else (RTS_STATUS_OK, h\<lparr>host_initialized := True, host_tick_ready := True\<rparr>))"

text \<open>\<open>trap\<close> is the address of \<^verbatim>\<open>rts_host_port_task_return_trap\<close>.\<close>

definition host_stack_initialize ::
  "uintptr \<Rightarrow> uintptr \<Rightarrow> nat \<Rightarrow> uintptr \<Rightarrow> uintptr \<Rightarrow> rts_host \<Rightarrow> byte_mem \<Rightarrow> rts_port_stack_result \<times> rts_host \<times> byte_mem" where
  "host_stack_initialize trap stack_buffer stack_size_bytes task_entry arg h m =
     (let frame = \<lparr>fr_magic = RTS_HOST_INITIAL_FRAME_MAGIC, fr_version = RTS_HOST_INITIAL_FRAME_VERSION,
            fr_entry = task_entry, fr_argument = arg, fr_return_trap = trap, fr_reserved = 0\<rparr> in
      if task_entry = 0 then (\<lparr>psr_status = RTS_STATUS_INVALID_TASK_CONFIG, psr_saved_stack_pointer = 0\<rparr>, h, m)
      else if host_fail_next_stack_initialize h
      then (\<lparr>psr_status = RTS_STATUS_PORT_ERROR, psr_saved_stack_pointer = 0\<rparr>, h\<lparr>host_fail_next_stack_initialize := False\<rparr>, m)
      else if \<not> rts_host_stack_region_is_valid stack_buffer stack_size_bytes task_entry
      then (\<lparr>psr_status = RTS_STATUS_INVALID_STACK, psr_saved_stack_pointer = 0\<rparr>, h, m)
      else
        let frame_start = stack_buffer + of_nat stack_size_bytes - of_nat RTS_HOST_FRAME_STORAGE_BYTES;
            m = fill_loop RTS_HOST_FRAME_STORAGE_BYTES frame_start 0 m;
            m = rts_host_bytes_copy (frame_start + 0) (word_bytes (fr_magic frame)) m;
            m = rts_host_bytes_copy (frame_start + 4) (word_bytes (fr_version frame)) m;
            m = rts_host_bytes_copy (frame_start + 8) (word_bytes (fr_entry frame)) m;
            m = rts_host_bytes_copy (frame_start + 12) (word_bytes (fr_argument frame)) m;
            m = rts_host_bytes_copy (frame_start + 16) (word_bytes (fr_return_trap frame)) m;
            m = rts_host_bytes_copy (frame_start + 20) (word_bytes (fr_reserved frame)) m in
        (\<lparr>psr_status = RTS_STATUS_OK, psr_saved_stack_pointer = frame_start\<rparr>, h, m))"

text \<open>The frame copied out and whether it is one; \<open>None\<close> for a null pointer.\<close>

definition rts_host_port_initial_frame_read :: "uintptr \<Rightarrow> byte_mem \<Rightarrow> (bool \<times> rts_host_initial_frame) option" where
  "rts_host_port_initial_frame_read sp m =
     (if sp = 0 then None
      else
        let frame = \<lparr>fr_magic = word_read sp m, fr_version = word_read (sp + 4) m,
              fr_entry = word_read (sp + 8) m, fr_argument = word_read (sp + 12) m,
              fr_return_trap = word_read (sp + 16) m, fr_reserved = word_read (sp + 20) m\<rparr> in
        Some (fr_magic frame = RTS_HOST_INITIAL_FRAME_MAGIC \<and> fr_version frame = RTS_HOST_INITIAL_FRAME_VERSION, frame))"

definition rts_host_port_task_return_trap :: "rts_kernel_state \<Rightarrow> rts_fatal + 'a" where
  "rts_host_port_task_return_trap s = Inl RTS_FATAL_TASK_RETURNED"

section \<open>Critical sections and interrupts\<close>

definition host_critical_enter :: "rts_config \<Rightarrow> rts_host \<Rightarrow> rts_fatal + (uintptr \<times> rts_host)" where
  "host_critical_enter cfg h =
     rts_assert cfg (host_critical_depth h < RTS_HOST_CRITICAL_NESTING_MAX) (
     if host_critical_depth h \<ge> RTS_HOST_CRITICAL_NESTING_MAX then Inr (0, h)
     else
       let token = push_bit 1 (of_nat (host_critical_depth h) + 1) OR (if host_interrupts_masked h then 1 else 0);
           h = h\<lparr>host_critical_tokens := (host_critical_tokens h)[host_critical_depth h := token]\<rparr>;
           h = h\<lparr>host_critical_depth := host_critical_depth h + 1\<rparr> in
       Inr (token, h\<lparr>host_interrupts_masked := True\<rparr>))"

definition host_critical_exit :: "rts_config \<Rightarrow> uintptr \<Rightarrow> rts_host \<Rightarrow> rts_fatal + rts_host" where
  "host_critical_exit cfg token h =
     rts_assert cfg (host_critical_depth h > 0) (
     if host_critical_depth h = 0 then Inr h
     else
       rts_assert cfg (host_critical_tokens h ! (host_critical_depth h - 1) = token) (
       if host_critical_tokens h ! (host_critical_depth h - 1) \<noteq> token then Inr h
       else Inr (h\<lparr>host_critical_depth := host_critical_depth h - 1, host_interrupts_masked := (token AND 1 \<noteq> 0)\<rparr>)))"

definition host_is_in_isr :: "rts_host \<Rightarrow> bool" where
  "host_is_in_isr h = host_in_isr h"

definition host_exception_number :: "rts_host \<Rightarrow> uint32" where
  "host_exception_number h = (if host_in_isr h then 1 else 0)"

definition host_fatal_disable :: "rts_host \<Rightarrow> rts_host" where
  "host_fatal_disable h = h\<lparr>host_interrupts_masked := True\<rparr>"

definition host_request_reschedule :: "rts_config \<Rightarrow> uint32 \<Rightarrow> rts_host \<Rightarrow> rts_fatal + rts_host" where
  "host_request_reschedule cfg c h =
     rts_assert cfg (rts_cpu_id_is_valid c) (
     if \<not> rts_cpu_id_is_valid c then Inr h
     else
       rts_assert cfg (host_switch_request_count h < SIZE_MAX) (
       if host_switch_request_count h = SIZE_MAX then Inr h
       else Inr (h\<lparr>host_switch_request_count := host_switch_request_count h + 1,
         host_last_switch_request_critical_depth := host_critical_depth h, host_switch_request_pending := True\<rparr>)))"

section \<open>Ticks and sleep\<close>

definition host_tick_start :: "rts_host \<Rightarrow> rts_status \<times> rts_host" where
  "host_tick_start h =
     (if host_fail_next_tick_start h then (RTS_STATUS_PORT_ERROR, h\<lparr>host_fail_next_tick_start := False\<rparr>)
      else if \<not> host_tick_ready h \<or> host_tick_running h then (RTS_STATUS_INVALID_STATE, h)
      else (RTS_STATUS_OK, h\<lparr>host_tick_running := True\<rparr>))"

definition host_tick_stop :: "rts_host \<Rightarrow> rts_host" where
  "host_tick_stop h = h\<lparr>host_tick_running := False\<rparr>"

definition host_tick_commit_start :: "rts_host \<Rightarrow> bool" where
  "host_tick_commit_start h = host_tick_running h"

definition host_power_sleep :: "rts_config \<Rightarrow> rts_tick \<Rightarrow> rts_host \<Rightarrow> rts_fatal + (rts_port_sleep_result \<times> rts_host)" where
  "host_power_sleep cfg maximum_ticks h =
     (let failed = \<lparr>slr_status = RTS_STATUS_PORT_ERROR, slr_elapsed_ticks = 0, slr_wake_source = RTS_PORT_WAKE_OTHER\<rparr> in
      rts_assert cfg (maximum_ticks \<noteq> 0) (
      rts_assert cfg (host_tick_running h) (
      rts_assert cfg (host_critical_depth h > 0) (
      if maximum_ticks = 0 \<or> \<not> host_tick_running h \<or> host_critical_depth h = 0 then Inr (failed, h)
      else
        let h = h\<lparr>host_last_sleep_limit := maximum_ticks\<rparr> in
        if host_fail_next_sleep h then Inr (failed, h\<lparr>host_fail_next_sleep := False\<rparr>)
        else
          let elapsed = (if host_sleep_wake_configured h then host_next_sleep_elapsed h else maximum_ticks);
              source = (if host_sleep_wake_configured h then host_next_wake_source h else RTS_PORT_WAKE_TIMER);
              result = failed\<lparr>slr_elapsed_ticks := elapsed, slr_wake_source := source\<rparr>;
              h = h\<lparr>host_sleep_wake_configured := False\<rparr> in
          if slr_elapsed_ticks result > maximum_ticks then Inr (result, h)
          else Inr (result\<lparr>slr_status := RTS_STATUS_OK\<rparr>, h\<lparr>host_sleep_count := host_sleep_count h + 1\<rparr>)))))"

section \<open>Starting the first task\<close>

definition host_start_first_task ::
  "rts_config \<Rightarrow> rts_kernel_state \<Rightarrow> rts_host \<Rightarrow> rts_fatal + (rts_status \<times> rts_host)" where
  "host_start_first_task cfg s h =
     (let tp = rts_scheduler_current_get s in
      if host_start_request_count h \<noteq> 0 \<or> lifecycle s \<noteq> RTS_KERNEL_RUNNING \<or> tp = None \<or>
         task_state (tcbs s (the tp)) \<noteq> RTS_TASK_STATE_RUNNING \<or> saved_stack_pointer (tcbs s (the tp)) = 0 \<or>
         saved_stack_pointer (tcbs s (the tp)) mod RTS_TASK_STACK_ALIGNMENT \<noteq> 0
      then Inr (RTS_STATUS_INVALID_STATE, h)
      else bnd (rts_scheduler_current_is_valid cfg s) (\<lambda>v.
        if \<not> v \<or> sp_pending (switch_plan s) \<or> sp_active (switch_plan s) then Inr (RTS_STATUS_INVALID_STATE, h)
        else if host_fail_next_start h then Inr (RTS_STATUS_PORT_ERROR, h\<lparr>host_fail_next_start := False\<rparr>)
        else Inr (RTS_STATUS_OK, h\<lparr>host_start_request_count := 1, host_start_task := tp,
          host_start_saved_stack_pointer := saved_stack_pointer (tcbs s (the tp)), host_start_consumed := True\<rparr>)))"

section \<open>Hooks of the tests\<close>

definition rts_host_port_test_reset :: "rts_host \<Rightarrow> rts_host" where
  "rts_host_port_test_reset h = h\<lparr>host_in_isr := False, host_interrupts_masked := False,
     host_fail_next_stack_initialize := False, host_fail_next_initialize := False, host_initialized := False,
     host_tick_ready := False, host_tick_running := False, host_fail_next_tick_start := False,
     host_critical_depth := 0, host_switch_request_count := 0, host_last_switch_request_critical_depth := 0,
     host_switch_request_pending := False, host_sleep_wake_configured := False, host_fail_next_sleep := False,
     host_next_sleep_elapsed := 0, host_last_sleep_limit := 0, host_next_wake_source := RTS_PORT_WAKE_TIMER,
     host_sleep_count := 0, host_critical_tokens := replicate RTS_HOST_CRITICAL_NESTING_MAX 0\<rparr>"

definition rts_host_port_test_start_reset :: "rts_host \<Rightarrow> rts_host" where
  "rts_host_port_test_start_reset h = h\<lparr>host_start_request_count := 0, host_start_task := None,
     host_start_saved_stack_pointer := 0, host_start_consumed := False, host_fail_next_start := False\<rparr>"

definition rts_host_port_test_set_isr :: "bool \<Rightarrow> rts_host \<Rightarrow> rts_host" where
  "rts_host_port_test_set_isr isr h = h\<lparr>host_in_isr := isr\<rparr>"

definition rts_host_port_test_consume_switch_request :: "rts_host \<Rightarrow> rts_host" where
  "rts_host_port_test_consume_switch_request h = h\<lparr>host_switch_request_pending := False\<rparr>"

definition rts_host_port_test_set_next_wake :: "rts_tick \<Rightarrow> 8 word \<Rightarrow> rts_host \<Rightarrow> rts_host" where
  "rts_host_port_test_set_next_wake elapsed_ticks source h = h\<lparr>host_sleep_wake_configured := True,
     host_next_sleep_elapsed := elapsed_ticks, host_next_wake_source := source\<rparr>"

definition rts_host_port_test_fail_next_sleep :: "bool \<Rightarrow> rts_host \<Rightarrow> rts_host" where
  "rts_host_port_test_fail_next_sleep fail h = h\<lparr>host_fail_next_sleep := fail\<rparr>"

definition rts_host_port_test_fail_next_stack_initialize :: "bool \<Rightarrow> rts_host \<Rightarrow> rts_host" where
  "rts_host_port_test_fail_next_stack_initialize fail h = h\<lparr>host_fail_next_stack_initialize := fail\<rparr>"

definition rts_host_port_test_fail_next_initialize :: "bool \<Rightarrow> rts_host \<Rightarrow> rts_host" where
  "rts_host_port_test_fail_next_initialize fail h = h\<lparr>host_fail_next_initialize := fail\<rparr>"

definition rts_host_port_test_fail_next_tick_start :: "bool \<Rightarrow> rts_host \<Rightarrow> rts_host" where
  "rts_host_port_test_fail_next_tick_start fail h = h\<lparr>host_fail_next_tick_start := fail\<rparr>"

definition rts_host_port_test_fail_next_start :: "bool \<Rightarrow> rts_host \<Rightarrow> rts_host" where
  "rts_host_port_test_fail_next_start fail h = h\<lparr>host_fail_next_start := fail\<rparr>"

end
