(* ===== verification/Task_Blocking.thy ===== *)
theory Task_Blocking
  imports Kernel_Inv
begin

text \<open>
  Taking one task through a blocking or waking operation. Between taking \<open>t\<close> out of one set of
  queues and putting it into another, \<open>opened\<close> holds: everything is consistent but the membership
  of \<open>t\<close>. The laws below are the single steps; the operations are sequences of them.
\<close>

definition opened :: "rts_config \<Rightarrow> rts_tick \<Rightarrow> task_ref \<Rightarrow> rts_kernel_state \<Rightarrow> bool" where
  "opened cfg base t s \<longleftrightarrow> links_inv cfg s \<and> tasks_but cfg t s \<and> delay_ordered base s \<and> plan_wf cfg s \<and>
     task_static cfg t (tcbs s t) \<and> t \<notin> set (ready_q cfg (lmem s))"

lemma openedD:
  assumes "opened cfg base t s"
  shows "links_inv cfg s" and "tasks_but cfg t s" and "delay_ordered base s" and "plan_wf cfg s"
    and "task_static cfg t (tcbs s t)" and "t \<notin> set (ready_q cfg (lmem s))" and "live cfg s t"
  using assms by (simp_all add: opened_def tasks_but_def)

lemma opened_book:
  assumes "book cfg s s'" and "opened cfg base t s"
  shows "opened cfg base t s'"
proof -
  note D = openedD [OF assms(2)]
  have "tcb_core (tcbs s' t) = tcb_core (tcbs s t)" using book_core [OF assms(1)] by (simp add: same_core_def)
  then have "task_static cfg t (tcbs s' t)" using D(5) task_static_core by blast
  then show ?thesis
    using book_links [OF assms(1) D(1)] book_tasks_but [OF assms(1) D(2)] book_delay [OF assms(1)]
      book_plan_wf [OF assms(1) D(4)] book_fields(1) [OF assms(1)] D(3,6)
    unfolding opened_def by metis
qed

text \<open>A blocked task can be opened as it is.\<close>

lemma open_blocked:
  assumes "sched_inv cfg base s" and "live cfg s t" and "task_state (tcbs s t) = RTS_TASK_STATE_BLOCKED"
  shows "opened cfg base t s"
  using sched_invD [OF assms(1)] tasks_open [of cfg s t] live_static [of cfg s t] ready_iff_state [of cfg s t] assms(2,3)
  by (simp add: opened_def)

text \<open>Writes to the TCB of \<open>t\<close>.\<close>

lemma opened_upd:
  assumes o: "opened cfg base t s" and nr: "task_state (tcbs s t) \<noteq> RTS_TASK_STATE_READY"
    and f: "\<And>x. priority (f x) = priority x" "\<And>x. slot_state (f x) = slot_state x" "\<And>x. task_static cfg t (f x) = task_static cfg t x"
    and w: "t \<in> set (delay_q (lmem s)) \<Longrightarrow> wake_tick (f (tcbs s t)) = wake_tick (tcbs s t)"
  shows "opened cfg base t (upd_tcb t f s)"
proof -
  note D = openedD [OF o]
  have "delay_ordered base (upd_tcb t f s)"
    by (subst delay_ordered_cong [of _ s]) (use D(3) w in \<open>auto simp: upd_tcb_def\<close>)
  moreover have "plan_wf cfg (upd_tcb t f s)"
    by (rule plan_wf_cong [OF D(4)]) (use nr f(2) in \<open>auto simp: upd_tcb_def live_def\<close>)
  ultimately show ?thesis
    using D links_upd_tcb [OF D(1), of f t] tasks_but_upd_tcb [OF D(2), of f] f
    by (simp add: opened_def) (simp add: upd_tcb_def)
qed

lemma sync_upd_tcb:
  assumes "\<And>x. priority (f x) = priority x" and "\<And>x. base_priority (f x) = base_priority x" and "\<And>x. slot_state (f x) = slot_state x"
  shows "sync_inv cfg (upd_tcb t f s) = sync_inv cfg s"
  by (rule sync_cong) (use assms in \<open>auto simp: upd_tcb_def\<close>)

text \<open>Taking the current task out of the ready structure.\<close>

lemma open_current:
  assumes inv: "sched_inv cfg base s" and cur: "current_task s = Some t" and run: "task_state (tcbs s t) = RTS_TASK_STATE_RUNNING"
  obtains m b where "rts_policy_task_block cfg (Some t) s = Inr (True, s\<lparr>lmem := m, ready_bitmap := b\<rparr>)"
    and "opened cfg base t (s\<lparr>lmem := m, ready_bitmap := b\<rparr>)" and "sync_inv cfg (s\<lparr>lmem := m, ready_bitmap := b\<rparr>)"
    and "sched_frame s (s\<lparr>lmem := m, ready_bitmap := b\<rparr>)"
    and "t \<notin> set (delay_q m)" and "delay_q m = delay_q (lmem s)" and "ready_q cfg m = remove1 t (ready_q cfg (lmem s))"
proof -
  note D = sched_invD [OF inv]
  have l: "live cfg s t" by (rule queued_live(4) [OF D(2) cur])
  have r: "t \<in> set (ready_q cfg (lmem s))" using ready_iff_state [OF D(2) l] run by simp
  obtain m b where m: "rts_policy_task_block cfg (Some t) s = Inr (True, s\<lparr>lmem := m, ready_bitmap := b\<rparr>)"
    "links_inv cfg (s\<lparr>lmem := m, ready_bitmap := b\<rparr>)" "tasks_but cfg t (s\<lparr>lmem := m, ready_bitmap := b\<rparr>)"
    "ready_q cfg m = remove1 t (ready_q cfg (lmem s))" "t \<notin> set (ready_q cfg m)"
    "delay_q m = delay_q (lmem s)" "timer_q m = timer_q (lmem s)"
    by (rule block_law [OF D(1,2) r])
  let ?s = "s\<lparr>lmem := m, ready_bitmap := b\<rparr>"
  have "plan_wf cfg ?s" by (rule plan_wf_cong [OF D(5)]) (simp_all add: live_def)
  moreover have "delay_ordered base ?s" using D(4) delay_ordered_cong [of ?s s base] m(6) by simp
  ultimately have "opened cfg base t ?s" using m live_static [OF D(2) l] by (simp add: opened_def)
  moreover have "sync_inv cfg ?s" using D(3) sync_cong [of ?s s cfg] by simp
  moreover have "sched_frame s ?s" using m(7) by (simp add: sched_frame_def rest_same_def)
  moreover have "t \<notin> set (delay_q m)" using live_member [OF D(2) l] run m(6) by (simp add: member_ok_def)
  ultimately show ?thesis using m by (intro that [of b m])
qed

text \<open>Into and out of a queue of waiters.\<close>

lemma opened_wmem:
  assumes o: "opened cfg base t s" and l: "links_inv cfg (s\<lparr>wmem := m\<rparr>)"
    and own: "\<And>u. u \<noteq> t \<Longrightarrow> nd_owner (node_at m u) = wait_owner u s"
  shows "opened cfg base t (s\<lparr>wmem := m\<rparr>)"
proof -
  note D = openedD [OF o]
  have "tasks_but cfg t (s\<lparr>wmem := m\<rparr>)" by (rule tasks_but_cong [OF D(2)]) (simp_all add: own)
  moreover have "plan_wf cfg (s\<lparr>wmem := m\<rparr>)" by (rule plan_wf_cong [OF D(4)]) (simp_all add: live_def)
  moreover have "delay_ordered base (s\<lparr>wmem := m\<rparr>)" using D(3) delay_ordered_cong [of "s\<lparr>wmem := m\<rparr>" s base] by simp
  ultimately show ?thesis using D l by (simp add: opened_def)
qed

lemma opened_wait_insert:
  assumes o: "opened cfg base (App i) s" and sorted: "wait_sorted s" and own: "wait_owner (App i) s = None"
  obtains m where "rts_wait_object_insert cfg (Some w) (Some (App i)) s = Inr (s\<lparr>wmem := m\<rparr>)"
    and "opened cfg base (App i) (s\<lparr>wmem := m\<rparr>)" and "wait_sorted (s\<lparr>wmem := m\<rparr>)"
    and "nodes_of m = (nodes_of (wmem s))(w := stable_insert (fp_before s) (App i) (waiting s w))"
    and "nd_owner (node_at m (App i)) = Some w"
proof -
  note D = openedD [OF o]
  have i: "i < RTS_MAX_TASKS cfg" using D(7) by (simp add: live_def)
  obtain m where m: "rts_wait_object_insert cfg (Some w) (Some (App i)) s = Inr (s\<lparr>wmem := m\<rparr>)"
    "links_inv cfg (s\<lparr>wmem := m\<rparr>)" "nodes_of m = (nodes_of (wmem s))(w := stable_insert (fp_before s) (App i) (waiting s w))"
    "ordered_by (fp_before s) (nodes_of m w)" "nd_owner (node_at m (App i)) = Some w"
    "\<And>u. u \<noteq> App i \<Longrightarrow> nd_owner (node_at m u) = wait_owner u s"
    using links_wait_insert [OF D(1) _ i own, of w] sorted by (metis wait_sorted_def)
  have "fp_before (s\<lparr>wmem := m\<rparr>) = fp_before s" by (rule fp_before_cong) simp
  moreover have "ordered_by (fp_before s) (nodes_of m v)" for v
    using m(3,4) sorted by (cases "v = w") (simp_all add: wait_sorted_def)
  ultimately have "wait_sorted (s\<lparr>wmem := m\<rparr>)" unfolding wait_sorted_def by simp
  with m opened_wmem [OF o m(2,6)] show ?thesis by (intro that [of m])
qed

lemma opened_wait_remove:
  assumes o: "opened cfg base t s" and sorted: "wait_sorted s" and own: "wait_owner t s = Some w"
  obtains m where "rts_wait_object_remove cfg (Some w) (Some t) s = Inr (s\<lparr>wmem := m\<rparr>)"
    and "opened cfg base t (s\<lparr>wmem := m\<rparr>)" and "wait_sorted (s\<lparr>wmem := m\<rparr>)"
    and "nodes_of m = (nodes_of (wmem s))(w := remove1 t (waiting s w))"
    and "nd_owner (node_at m t) = None" and "\<And>u. u \<noteq> t \<Longrightarrow> nd_owner (node_at m u) = wait_owner u s"
proof -
  note D = openedD [OF o]
  have t: "t \<in> set (waiting s w)" using links_wait_owner [OF D(1)] own by simp
  have ord: "ordered_by (fp_before s) (remove1 t (waiting s v))" for v
    using sorted by (simp add: wait_sorted_def ordered_by_remove1)
  obtain m where m: "rts_wait_object_remove cfg (Some w) (Some t) s = Inr (s\<lparr>wmem := m\<rparr>)"
    "links_inv cfg (s\<lparr>wmem := m\<rparr>)" "nodes_of m = (nodes_of (wmem s))(w := remove1 t (waiting s w))"
    "nd_owner (node_at m t) = None" "\<And>u. u \<noteq> t \<Longrightarrow> nd_owner (node_at m u) = wait_owner u s"
    using links_wait_remove [OF D(1) ord t] by metis
  have "fp_before (s\<lparr>wmem := m\<rparr>) = fp_before s" by (rule fp_before_cong) simp
  then have "wait_sorted (s\<lparr>wmem := m\<rparr>)" using sorted ord [of w] unfolding wait_sorted_def by (simp add: m(3))
  with m opened_wmem [OF o m(2,5)] show ?thesis by (intro that [of m])
qed

text \<open>Into and out of the delay queue.\<close>

lemma opened_lmem:
  assumes o: "opened cfg base t s" and l: "links_inv cfg (s\<lparr>lmem := m\<rparr>)" and q: "ready_q cfg m = ready_q cfg (lmem s)"
    and d: "\<And>u. u \<noteq> t \<Longrightarrow> u \<in> set (delay_q m) \<longleftrightarrow> u \<in> set (delay_q (lmem s))" "delay_ordered base (s\<lparr>lmem := m\<rparr>)"
  shows "opened cfg base t (s\<lparr>lmem := m\<rparr>)" and "sync_inv cfg (s\<lparr>lmem := m\<rparr>) = sync_inv cfg s"
proof -
  note D = openedD [OF o]
  have "tasks_but cfg t (s\<lparr>lmem := m\<rparr>)" by (rule tasks_but_cong [OF D(2)]) (simp_all add: q d(1))
  moreover have "plan_wf cfg (s\<lparr>lmem := m\<rparr>)" by (rule plan_wf_cong [OF D(4)]) (simp_all add: live_def)
  ultimately show "opened cfg base t (s\<lparr>lmem := m\<rparr>)" using D l d(2) q by (simp add: opened_def)
  show "sync_inv cfg (s\<lparr>lmem := m\<rparr>) = sync_inv cfg s" by (rule sync_cong) simp_all
qed

lemma opened_delay_insert:
  assumes o: "opened cfg base t s" and t: "t \<notin> set (delay_q (lmem s))" and w: "wake_tick (tcbs s t) \<in> tick_window base"
  obtains m where "rts_delay_insert cfg (Some t) s = Inr (s\<lparr>lmem := m\<rparr>)" and "opened cfg base t (s\<lparr>lmem := m\<rparr>)"
    and "sync_inv cfg (s\<lparr>lmem := m\<rparr>) = sync_inv cfg s" and "t \<in> set (delay_q m)" and "timer_q m = timer_q (lmem s)"
    and "delay_q m = stable_insert (wake_before s) t (delay_q (lmem s))" and "ready_q cfg m = ready_q cfg (lmem s)"
proof -
  note D = openedD [OF o]
  have v: "valid_task cfg t" using D(7) by (simp add: live_def)
  obtain m where m: "rts_delay_insert cfg (Some t) s = Inr (s\<lparr>lmem := m\<rparr>)" "links_inv cfg (s\<lparr>lmem := m\<rparr>)"
    "delay_q m = stable_insert (wake_before s) t (delay_q (lmem s))" "delay_ordered base (s\<lparr>lmem := m\<rparr>)"
    "ready_q cfg m = ready_q cfg (lmem s)" "timer_q m = timer_q (lmem s)"
    by (rule links_delay_insert [OF D(1,3) v t w])
  note L = opened_lmem [OF o m(2,5) _ m(4)]
  from m L show ?thesis by (intro that [of m]) simp_all
qed

lemma opened_delay_remove:
  assumes o: "opened cfg base t s" and t: "t \<in> set (delay_q (lmem s))"
  obtains m where "rts_delay_remove cfg (Some t) s = Inr (s\<lparr>lmem := m\<rparr>)" and "opened cfg base t (s\<lparr>lmem := m\<rparr>)"
    and "sync_inv cfg (s\<lparr>lmem := m\<rparr>) = sync_inv cfg s" and "t \<notin> set (delay_q m)" and "timer_q m = timer_q (lmem s)"
    and "delay_q m = remove1 t (delay_q (lmem s))" and "nd_owner (node_at m (Delay_Node t)) = None"
    and "ready_q cfg m = ready_q cfg (lmem s)"
proof -
  note D = openedD [OF o]
  obtain m where m: "rts_delay_remove cfg (Some t) s = Inr (s\<lparr>lmem := m\<rparr>)" "links_inv cfg (s\<lparr>lmem := m\<rparr>)"
    "delay_q m = remove1 t (delay_q (lmem s))" "ready_q cfg m = ready_q cfg (lmem s)"
    "timer_q m = timer_q (lmem s)" "nd_owner (node_at m (Delay_Node t)) = None"
    by (rule links_delay_remove [OF D(1) t])
  have d: "distinct (delay_q (lmem s))" by (rule distinct_delay_q [OF D(1)])
  have wb: "wake_before (s\<lparr>lmem := m\<rparr>) = wake_before s" by (simp add: wake_before_def fun_eq_iff)
  have "delay_ordered base (s\<lparr>lmem := m\<rparr>)"
    using D(3) set_remove1_subset [of t "delay_q (lmem s)"] by (auto simp: delay_ordered_def m(3) wb ordered_by_remove1)
  with opened_lmem [OF o m(2,4)] d m show ?thesis by (intro that [of m]) simp_all
qed

section \<open>Closing\<close>

lemma close_blocked:
  assumes o: "opened cfg base t s" and b: "task_state (tcbs s t) = RTS_TASK_STATE_BLOCKED"
    and m: "member_ok t (tcbs s t) False (t \<in> set (delay_q (lmem s))) (wait_owner t s) True"
  shows "tasks_inv cfg s"
proof (rule tasks_close [OF openedD(2) [OF o]])
  have "member_ok t (tcbs s t) False (t \<in> set (delay_q (lmem s))) (wait_owner t s) c" for c
    using m b by (simp add: member_ok_def)
  then show "task_ok cfg s t" using openedD [OF o] by (simp add: task_ok_def)
qed

text \<open>The TCB of a task that is made ready, with its result.\<close>

definition woken :: "rts_config \<Rightarrow> bool \<Rightarrow> rts_wait_result \<Rightarrow> rts_tcb \<Rightarrow> rts_tcb" where
  "woken cfg executing r x = x\<lparr>wait_reason := RTS_WAIT_NONE, wait_result := r, wake_tick := 0, wait_object := None,
     timeout_active := False, slice_remaining := RTS_TIME_SLICE_TICKS cfg,
     task_state := (if executing then RTS_TASK_STATE_RUNNING else RTS_TASK_STATE_READY)\<rparr>"

lemma woken_fields [simp]:
  "priority (woken cfg e r x) = priority x" "base_priority (woken cfg e r x) = base_priority x"
  "slot_state (woken cfg e r x) = slot_state x" "task_static cfg t (woken cfg e r x) = task_static cfg t x"
  "task_state (woken cfg e r x) = (if e then RTS_TASK_STATE_RUNNING else RTS_TASK_STATE_READY)"
  "not_waiting (woken cfg e r x)" "wait_result (woken cfg e r x) = r"
  by (simp_all add: woken_def task_static_def not_waiting_def)

lemma wake_up_law:
  assumes o: "opened cfg base t s" and b: "task_state (tcbs s t) = RTS_TASK_STATE_BLOCKED" and sync: "sync_inv cfg s"
    and q: "t \<notin> set (delay_q (lmem s))" "wait_owner t s = None" and e: "e = (current_task s = Some t)"
  obtains s' where "rts_policy_task_unblock cfg (Some t) (upd_tcb t (woken cfg e r) s) = Inr (True, s')"
    and "sched_inv cfg base s'" and "rest_same s s'" and "timer_q (lmem s') = timer_q (lmem s)"
    and "t \<in> set (ready_q cfg (lmem s'))" and "delay_q (lmem s') = delay_q (lmem s)"
    and "wmem s' = wmem s" and "omem s' = omem s" and "switch_plan s' = switch_plan s" and "semaphores s' = semaphores s"
    and "mutexes s' = mutexes s" and "\<And>u. tcb_core (tcbs s' u) = tcb_core (tcbs (upd_tcb t (woken cfg e r) s) u)"
    and "set (ready_q cfg (lmem s')) = insert t (set (ready_q cfg (lmem s)))"
    and "\<And>u. u \<noteq> t \<Longrightarrow> wake_tick (tcbs s' u) = wake_tick (tcbs s u)"
proof -
  let ?s = "upd_tcb t (woken cfg e r) s"
  have o': "opened cfg base t ?s" by (rule opened_upd [OF o]) (use b q(1) in simp_all)
  note D = openedD [OF o']
  have x: "tcbs ?s t = woken cfg e r (tcbs s t)" "delay_q (lmem ?s) = delay_q (lmem s)" "wmem ?s = wmem s" "lmem ?s = lmem s"
    "current_task ?s = current_task s"
    by (simp_all add: upd_tcb_def)
  let ?s1 = "rts_policy_record_release t ?s"
  obtain m b' where m: "rts_policy_task_unblock cfg (Some t) ?s = Inr (True, ?s1\<lparr>lmem := m, ready_bitmap := b'\<rparr>)"
    "links_inv cfg (?s1\<lparr>lmem := m, ready_bitmap := b'\<rparr>)" "tasks_inv cfg (?s1\<lparr>lmem := m, ready_bitmap := b'\<rparr>)"
    "ready_q cfg m = stable_insert (policy_before cfg ?s1) t (ready_q cfg (lmem ?s))"
    "delay_q m = delay_q (lmem ?s)" "timer_q m = timer_q (lmem ?s)"
    by (rule wake_law [OF D(1,2,5,6)]) (use q x e in simp_all)
  let ?s2 = "?s1\<lparr>lmem := m, ready_bitmap := b'\<rparr>"
  have bk: "book cfg ?s ?s1" by simp
  note F = book_fields [OF bk] and T = book_tcb [OF bk]
  have "plan_wf cfg ?s2" by (rule plan_wf_cong [OF D(4)]) (use F T in \<open>simp_all add: live_def\<close>)
  moreover have "delay_ordered base ?s2" using D(3) delay_ordered_cong [of ?s2 ?s base] m(5) T(9) by simp
  moreover have "sync_inv cfg ?s2"
    using sync sync_upd_tcb [of "woken cfg e r" cfg t s] sync_cong [of ?s2 ?s cfg] F T by simp
  ultimately have "sched_inv cfg base ?s2" using m(2,3) by (simp add: sched_inv_def)
  moreover have "rest_same s ?s2" using F(12) by (simp add: rest_same_def upd_tcb_def)
  moreover have "omem ?s = omem s" "switch_plan ?s = switch_plan s" "semaphores ?s = semaphores s" "mutexes ?s = mutexes s"
    "u \<noteq> t \<Longrightarrow> tcbs ?s u = tcbs s u" for u
    by (simp_all add: upd_tcb_def)
  ultimately show ?thesis
    using m F T x bk by (intro that [of ?s2]) (simp_all add: book_def same_core_def)
qed

section \<open>Blocking the current task\<close>

lemma opened_adm:
  assumes "opened cfg base t s" and "task_state (tcbs s t) \<noteq> RTS_TASK_STATE_DORMANT"
  shows "policy_adm cfg t s"
  using openedD [OF assms(1)] assms(2)
  by (cases t) (auto simp: policy_adm_def task_static_def live_def tasks_but_def)

text \<open>The first half: out of the ready structure, with the wait written to the TCB by \<open>f\<close>.\<close>

lemma block_into:
  assumes inv: "sched_inv cfg base s" and cur: "current_task s = Some t" and run: "task_state (tcbs s t) = RTS_TASK_STATE_RUNNING"
    and t: "t \<noteq> Service"
    and f: "\<And>x. priority (f x) = priority x" "\<And>x. base_priority (f x) = base_priority x" "\<And>x. slot_state (f x) = slot_state x"
      "\<And>x. task_static cfg t (f x) = task_static cfg t x"
  obtains s1 where "rts_policy_task_block cfg (Some t) s = Inr (True, s1)"
    and "rts_policy_validate cfg (Some t) False s1 = Inr True" and "opened cfg base t (upd_tcb t f s1)"
    and "sync_inv cfg (upd_tcb t f s1)" and "sched_frame s (upd_tcb t f s1)" and "t \<notin> set (delay_q (lmem s1))"
    and "delay_q (lmem s1) = delay_q (lmem s)" and "s1 = s\<lparr>lmem := lmem s1, ready_bitmap := ready_bitmap s1\<rparr>"
proof -
  obtain m b where m: "rts_policy_task_block cfg (Some t) s = Inr (True, s\<lparr>lmem := m, ready_bitmap := b\<rparr>)"
    "opened cfg base t (s\<lparr>lmem := m, ready_bitmap := b\<rparr>)" "sync_inv cfg (s\<lparr>lmem := m, ready_bitmap := b\<rparr>)"
    "sched_frame s (s\<lparr>lmem := m, ready_bitmap := b\<rparr>)" "t \<notin> set (delay_q m)" "delay_q m = delay_q (lmem s)"
    "ready_q cfg m = remove1 t (ready_q cfg (lmem s))"
    by (rule open_current [OF inv cur run])
  let ?s1 = "s\<lparr>lmem := m, ready_bitmap := b\<rparr>"
  have "rts_policy_validate cfg (Some t) False ?s1 = Inr True"
    using links_validate [OF openedD(1) [OF m(2)] opened_adm [OF m(2)], of False] run openedD(6) [OF m(2)] by simp
  moreover have "opened cfg base t (upd_tcb t f ?s1)" by (rule opened_upd [OF m(2)]) (use m(5) run f in simp_all)
  moreover have "sync_inv cfg (upd_tcb t f ?s1)" using sync_upd_tcb [of f cfg t ?s1] m(3) f by simp
  moreover have "sched_frame ?s1 (upd_tcb t f ?s1)" using t f(3) by (simp add: sched_frame_def rest_same_def upd_tcb_def)
  ultimately show ?thesis
    using m(1,5,6) sched_frame_trans [OF m(4)] by (intro that [of ?s1]) simp_all
qed

text \<open>The delay queue takes part when the wait has a timeout.\<close>

lemma opened_delay_if:
  assumes o: "opened cfg base t s" and sync: "sync_inv cfg s" and t: "t \<notin> set (delay_q (lmem s))"
    and w: "timed \<Longrightarrow> wake_tick (tcbs s t) \<in> tick_window base"
  obtains s' where "(if timed then rts_delay_insert cfg (Some t) s else Inr s) = Inr s'" and "opened cfg base t s'"
    and "sync_inv cfg s'" and "t \<in> set (delay_q (lmem s')) \<longleftrightarrow> timed" and "sched_frame s s'"
    and "s' = s\<lparr>lmem := lmem s'\<rparr>"
    and "delay_q (lmem s') = (if timed then stable_insert (wake_before s) t (delay_q (lmem s)) else delay_q (lmem s))"
proof (cases timed)
  case True
  obtain m where m: "rts_delay_insert cfg (Some t) s = Inr (s\<lparr>lmem := m\<rparr>)" "opened cfg base t (s\<lparr>lmem := m\<rparr>)"
    "sync_inv cfg (s\<lparr>lmem := m\<rparr>) = sync_inv cfg s" "t \<in> set (delay_q m)" "timer_q m = timer_q (lmem s)"
    "delay_q m = stable_insert (wake_before s) t (delay_q (lmem s))" "ready_q cfg m = ready_q cfg (lmem s)"
    by (rule opened_delay_insert [OF o t w [OF True]])
  have "sched_frame s (s\<lparr>lmem := m\<rparr>)" using m(5) by (simp add: sched_frame_def rest_same_def)
  with m True sync show ?thesis by (intro that [of "s\<lparr>lmem := m\<rparr>"]) simp_all
next
  case False
  with o sync t show ?thesis by - (rule that [of s], simp_all)
qed

lemma opened_delay_unless:
  assumes o: "opened cfg base t s" and t: "t \<in> set (delay_q (lmem s)) \<longleftrightarrow> timed"
  obtains s' where "(if timed then rts_delay_remove cfg (Some t) s else Inr s) = Inr s'" and "opened cfg base t s'"
    and "sync_inv cfg s' = sync_inv cfg s" and "t \<notin> set (delay_q (lmem s'))" and "sched_frame s s'"
    and "s' = s\<lparr>lmem := lmem s'\<rparr>" and "delay_q (lmem s') = remove1 t (delay_q (lmem s))"
    and "ready_q cfg (lmem s') = ready_q cfg (lmem s)"
proof (cases timed)
  case True
  then have "t \<in> set (delay_q (lmem s))" using t by simp
  then obtain m where m: "rts_delay_remove cfg (Some t) s = Inr (s\<lparr>lmem := m\<rparr>)" "opened cfg base t (s\<lparr>lmem := m\<rparr>)"
    "sync_inv cfg (s\<lparr>lmem := m\<rparr>) = sync_inv cfg s" "t \<notin> set (delay_q m)" "timer_q m = timer_q (lmem s)"
    "delay_q m = remove1 t (delay_q (lmem s))" "ready_q cfg m = ready_q cfg (lmem s)"
    by (rule opened_delay_remove [OF o])
  have "sched_frame s (s\<lparr>lmem := m\<rparr>)" using m(5) by (simp add: sched_frame_def rest_same_def)
  with m True show ?thesis by (intro that [of "s\<lparr>lmem := m\<rparr>"]) simp_all
next
  case False
  with o t show ?thesis by - (rule that [of s], simp_all add: remove1_idem)
qed

text \<open>The second half: the processor is handed to the first ready task.\<close>

lemma head_not_blocked:
  "sched_inv cfg base s \<Longrightarrow> live cfg s t \<Longrightarrow> task_state (tcbs s t) = RTS_TASK_STATE_BLOCKED \<Longrightarrow> head_ready cfg s \<noteq> t"
  using head_ready_props(2) [of cfg s] ready_iff_state [of cfg s t] by (auto simp: sched_inv_def)

lemma leave_blocked:
  assumes inv: "sched_inv cfg base s" and cur: "current_task s = Some t" and b: "task_state (tcbs s t) = RTS_TASK_STATE_BLOCKED"
    and act: "\<not> sp_active (switch_plan s)"
  obtains notify s' where "rts_scheduler_select_highest_ready cfg s = Inr (Some (head_ready cfg s))" and "head_ready cfg s \<noteq> t"
    and "rts_scheduler_prepare_switch cfg (Some (head_ready cfg s)) s = Inr (notify, s')" and "sp_pending (switch_plan s')"
    and "sched_inv cfg base (if notify then rts_port_request_reschedule s' else s')"
    and "plan_inv cfg (if notify then rts_port_request_reschedule s' else s')"
    and "sched_frame s (if notify then rts_port_request_reschedule s' else s')"
    and "tcbs (if notify then rts_port_request_reschedule s' else s') = tcbs s"
    and "lmem (if notify then rts_port_request_reschedule s' else s') = lmem s"
    and "wmem (if notify then rts_port_request_reschedule s' else s') = wmem s"
    and "omem (if notify then rts_port_request_reschedule s' else s') = omem s"
    and "switch_plan (if notify then rts_port_request_reschedule s' else s') = switch_plan s'"
proof -
  have ne: "head_ready cfg s \<noteq> t" by (rule head_not_blocked [OF inv queued_live(4) [OF sched_invD(2) [OF inv] cur] b])
  obtain notify s' where s': "rts_scheduler_prepare_switch cfg (Some (head_ready cfg s)) s = Inr (notify, s')"
    "sched_inv cfg base s'" "plan_inv cfg s'" "sched_frame s s'"
    "plan_proposed t (head_ready cfg s) (switch_plan s) (switch_plan s')" "tcbs s' = tcbs s" "lmem s' = lmem s"
    "wmem s' = wmem s" "omem s' = omem s"
    by (rule propose_head [OF inv cur])
  have bk: "book cfg s' (if notify then rts_port_request_reschedule s' else s')" by simp
  show ?thesis
    using s'(6-9) by (intro that [OF select_sched [OF inv] ne s'(1)] book_sched [OF bk s'(2)] book_plan_inv [OF bk s'(3)]
        sched_frame_trans [OF s'(4) book_frame [OF bk]])
      (use s'(5) ne act in \<open>simp_all add: plan_proposed_def rts_port_request_reschedule_def\<close>)
qed

end
