(* ===== verification/Task_Laws.thy ===== *)
theory Task_Laws
  imports Task_Blocking Task_Control
begin

text \<open>
  Delaying and yielding (\<^verbatim>\<open>task_delay.c\<close>, \<^verbatim>\<open>task_yield.c\<close>) under the scheduling invariant.
  \<open>thread_ready\<close> is the situation in which a task executes a call: it is the current task, no
  switch away from it is under way and it has fetched the result of its last blocking call.
\<close>

definition thread_ready :: "task_ref \<Rightarrow> rts_kernel_state \<Rightarrow> bool" where
  "thread_ready t s \<longleftrightarrow> current_task s = Some t \<and> task_state (tcbs s t) = RTS_TASK_STATE_RUNNING \<and>
     \<not> sp_pending (switch_plan s) \<and> \<not> sp_active (switch_plan s) \<and> \<not> in_isr s \<and>
     wait_result (tcbs s t) = RTS_WAIT_RESULT_NONE"

lemma thread_readyD:
  assumes "thread_ready t s"
  shows "current_task s = Some t" and "task_state (tcbs s t) = RTS_TASK_STATE_RUNNING" and "\<not> sp_pending (switch_plan s)"
    and "\<not> sp_active (switch_plan s)" and "\<not> in_isr s" and "wait_result (tcbs s t) = RTS_WAIT_RESULT_NONE"
  using assms by (simp_all add: thread_ready_def)

lemma running_not_queued:
  assumes "sched_inv cfg base s" and "current_task s = Some t" and "task_state (tcbs s t) = RTS_TASK_STATE_RUNNING"
  shows "t \<in> set (ready_q cfg (lmem s))" and "t \<notin> set (delay_q (lmem s))" and "wait_owner t s = None"
    and "not_waiting (tcbs s t)" and "live cfg s t"
proof -
  note D = sched_invD [OF assms(1)]
  show l: "live cfg s t" by (rule queued_live(4) [OF D(2) assms(2)])
  show "t \<in> set (ready_q cfg (lmem s))" "t \<notin> set (delay_q (lmem s))" "wait_owner t s = None" "not_waiting (tcbs s t)"
    using live_member [OF D(2) l] assms(3) by (simp_all add: member_ok_def)
qed

lemma can_block_law:
  assumes inv: "sched_inv cfg base s" and c: "current_task s = Some t" and run: "task_state (tcbs s t) = RTS_TASK_STATE_RUNNING"
  shows "current_can_block cfg s =
    Inr (t \<noteq> Idle \<and> wait_result (tcbs s t) = RTS_WAIT_RESULT_NONE \<and> \<not> sp_active (switch_plan s))"
    and "rts_delay_current_is_coherent cfg s =
    Inr (t \<noteq> Idle \<and> wait_result (tcbs s t) = RTS_WAIT_RESULT_NONE \<and> \<not> sp_active (switch_plan s))"
proof -
  note D = sched_invD [OF inv] and Q = running_not_queued [OF inv c run]
  have v: "rts_policy_validate cfg (Some t) True s = Inr True"
    using links_validate [OF D(1) live_adm [OF D(2) Q(5)], of True] Q(1) by simp
  have cv: "rts_scheduler_current_is_valid cfg s = Inr True"
    using current_valid [OF D(1,2) c] run sched_running [OF inv] by simp
  have d: "delay_owner t s = None" using delay_q_owner [OF D(1), of t] Q(2) by simp
  show "current_can_block cfg s =
    Inr (t \<noteq> Idle \<and> wait_result (tcbs s t) = RTS_WAIT_RESULT_NONE \<and> \<not> sp_active (switch_plan s))"
    "rts_delay_current_is_coherent cfg s =
    Inr (t \<noteq> Idle \<and> wait_result (tcbs s t) = RTS_WAIT_RESULT_NONE \<and> \<not> sp_active (switch_plan s))"
    using v cv d c run Q(3,4) is_idle_iff [OF D(2), of t]
    by (auto simp: current_can_block_def rts_delay_current_is_coherent_def rts_scheduler_current_get_def Let_def
        not_waiting_def and_then_def)
qed

section \<open>Delay\<close>

lemma wake_in_window:
  assumes "rts_tick_relative_is_valid d" and "d \<noteq> 0"
  shows "n + d \<in> tick_window (n + 1)"
proof -
  have "unat d < 2 ^ 31" using assms(1) by (simp add: rts_tick_relative_is_valid_def RTS_TICK_MAX_ADVANCE_def RTS_DELAY_MAX_def word_le_nat_alt)
  moreover have "unat (d - 1) = unat d - 1" using assms(2) by (simp add: unat_minus_one)
  ultimately show ?thesis by (simp add: tick_window_def algebra_simps)
qed

lemma sched_inv_wake_tick:
  assumes inv: "sched_inv cfg base s" and t: "t \<notin> set (delay_q (lmem s))"
  shows "sched_inv cfg base (upd_tcb t (\<lambda>x. x\<lparr>wake_tick := w\<rparr>) s)"
proof -
  let ?s = "upd_tcb t (\<lambda>x. x\<lparr>wake_tick := w\<rparr>) s"
  note D = sched_invD [OF inv]
  have core: "same_core cfg s ?s" by (rule same_core_upd_tcb) (simp add: tcb_core_upd)
  have "delay_ordered base ?s" by (subst delay_ordered_cong [of _ s]) (use D(4) t in \<open>auto simp: upd_tcb_def\<close>)
  moreover have "plan_wf cfg ?s" by (rule plan_wf_cong [OF D(5)]) (auto simp: upd_tcb_def live_def)
  ultimately show ?thesis
    using same_core_links [OF D(1) core] same_core_tasks [OF D(2) core] D(3) sync_upd_tcb [of "\<lambda>x. x\<lparr>wake_tick := w\<rparr>" cfg t s]
    by (simp add: sched_inv_def)
qed

lemma delay_law:
  assumes inv: "sched_inv cfg (current_tick s + 1) s" and thread: "thread_ready (App i) s"
    and d: "rts_tick_relative_is_valid d" "d \<noteq> 0"
  obtains s' where "rts_task_delay cfg d s = Inr (RTS_STATUS_OK, s')" and "sched_inv cfg (current_tick s + 1) s'"
    and "plan_inv cfg s'" and "sched_frame s s'" and "task_state (tcbs s' (App i)) = RTS_TASK_STATE_BLOCKED"
    and "wake_tick (tcbs s' (App i)) = current_tick s + d"
    and "delay_q (lmem s') = stable_insert (wake_before s') (App i) (delay_q (lmem s))" and "sp_pending (switch_plan s')"
proof -
  let ?t = "App i" and ?base = "current_tick s + 1"
  let ?f = "\<lambda>x. x\<lparr>wait_reason := RTS_WAIT_DELAY, wait_result := RTS_WAIT_RESULT_NONE, wait_object := None,
      timeout_active := False, slice_remaining := RTS_TIME_SLICE_TICKS cfg, task_state := RTS_TASK_STATE_BLOCKED\<rparr>"
  note R = thread_readyD [OF thread] and Q = running_not_queued [OF inv thread_readyD(1,2) [OF thread]]
  define s0 where "s0 = upd_tcb ?t (\<lambda>x. x\<lparr>wake_tick := current_tick s + d\<rparr>) s"
  have inv0: "sched_inv cfg ?base s0" unfolding s0_def by (rule sched_inv_wake_tick [OF inv Q(2)])
  have f0: "current_task s0 = Some ?t" "task_state (tcbs s0 ?t) = RTS_TASK_STATE_RUNNING" "lmem s0 = lmem s"
    "wake_tick (tcbs s0 ?t) = current_tick s + d" "wmem s0 = wmem s" "sched_frame s s0" "switch_plan s0 = switch_plan s"
    using R by (simp_all add: s0_def upd_tcb_def sched_frame_def rest_same_def)
  obtain s1 where s1: "rts_policy_task_block cfg (Some ?t) s0 = Inr (True, s1)"
    "rts_policy_validate cfg (Some ?t) False s1 = Inr True" "opened cfg ?base ?t (upd_tcb ?t ?f s1)"
    "sync_inv cfg (upd_tcb ?t ?f s1)" "sched_frame s0 (upd_tcb ?t ?f s1)" "?t \<notin> set (delay_q (lmem s1))"
    "delay_q (lmem s1) = delay_q (lmem s0)" "s1 = s0\<lparr>lmem := lmem s1, ready_bitmap := ready_bitmap s1\<rparr>"
    by (rule block_into [OF inv0 f0(1,2), of ?f]) simp_all
  have f1: "tcbs s1 = tcbs s0" "wmem s1 = wmem s" "current_task s1 = Some ?t" "switch_plan s1 = switch_plan s"
    by (subst s1(8), simp add: f0)+
  define s2 where "s2 = upd_tcb ?t ?f s1"
  note s1 = s1 [folded s2_def]
  define s3 where "s3 = RTS_TRACE cfg RTS_TRACE_TASK_BLOCKED (wait_reason_code RTS_WAIT_DELAY) d
      (task_diag_block cfg ?t (diag_inc cfg delay_blocks s2))"
  have bk: "book cfg s2 s3" unfolding s3_def by (meson book_steps book_trans)
  note F = book_fields [OF bk] and T = book_tcb [OF bk]
  have x3: "task_state (tcbs s3 ?t) = RTS_TASK_STATE_BLOCKED" "wait_reason (tcbs s3 ?t) = RTS_WAIT_DELAY"
    "wait_result (tcbs s3 ?t) = RTS_WAIT_RESULT_NONE" "wait_object (tcbs s3 ?t) = None" "\<not> timeout_active (tcbs s3 ?t)"
    "wake_tick (tcbs s3 ?t) = current_tick s + d" "lmem s3 = lmem s1" "wait_owner ?t s3 = None" "current_task s3 = Some ?t"
    "switch_plan s3 = switch_plan s"
    using F T f0 f1 Q(3) by (simp_all add: s2_def upd_tcb_def)
  have sync3: "sync_inv cfg s3" using book_sync [OF bk] s1(4) by simp
  obtain s4 where s4: "rts_delay_insert cfg (Some ?t) s3 = Inr s4" "opened cfg ?base ?t s4" "sync_inv cfg s4"
    "?t \<in> set (delay_q (lmem s4))" "sched_frame s3 s4" "s4 = s3\<lparr>lmem := lmem s4\<rparr>"
    "delay_q (lmem s4) = stable_insert (wake_before s3) ?t (delay_q (lmem s3))"
    using opened_delay_if [OF opened_book [OF bk s1(3)] sync3, of True] s1(6) x3(6,7) wake_in_window [OF d, of "current_tick s"]
    by (auto simp: x3)
  have x4: "tcbs s4 = tcbs s3" "wmem s4 = wmem s3" "current_task s4 = Some ?t" "switch_plan s4 = switch_plan s"
    by (subst s4(6), simp add: x3)+
  have "tasks_inv cfg s4" by (rule close_blocked [OF s4(2)]) (use x3 s4(4) in \<open>simp_all add: x4 member_ok_def\<close>)
  then have inv4: "sched_inv cfg ?base s4" using openedD [OF s4(2)] s4(3) by (simp add: sched_inv_def)
  have bd: "rts_scheduler_task_is_blocked_delay cfg (Some ?t) s4 = Inr True"
    using blocked_delay_iff [OF sched_invD(1,2) [OF inv4] openedD(7) [OF s4(2)]] x3 by (simp add: x4)
  have b4: "task_state (tcbs s4 ?t) = RTS_TASK_STATE_BLOCKED" "\<not> sp_active (switch_plan s4)" using x3 R(4) by (simp_all add: x4)
  obtain notify s' where s': "rts_scheduler_select_highest_ready cfg s4 = Inr (Some (head_ready cfg s4))" "head_ready cfg s4 \<noteq> ?t"
    "rts_scheduler_prepare_switch cfg (Some (head_ready cfg s4)) s4 = Inr (notify, s')" "sp_pending (switch_plan s')"
    and s5: "sched_inv cfg ?base (if notify then rts_port_request_reschedule s' else s')"
    "plan_inv cfg (if notify then rts_port_request_reschedule s' else s')"
    "sched_frame s4 (if notify then rts_port_request_reschedule s' else s')"
    "tcbs (if notify then rts_port_request_reschedule s' else s') = tcbs s4"
    "lmem (if notify then rts_port_request_reschedule s' else s') = lmem s4"
    by (rule leave_blocked [OF inv4 x4(3) b4])
  let ?s5 = "if notify then rts_port_request_reschedule s' else s'"
  have "rts_task_delay cfg d s = Inr (RTS_STATUS_OK, ?s5)"
    using R d s1(1,2) bd s' s4(1) can_block_law(2) [OF inv R(1,2)] is_service_iff [OF sched_invD(2) [OF inv], of ?t]
      sched_running [OF inv]
    by (simp add: rts_task_delay_def rts_scheduler_current_get_def Let_def del: wait_reason_code.simps
        flip: s0_def s2_def s3_def)
  moreover have "wake_before ?s5 = wake_before s3" unfolding wake_before_def fun_eq_iff s5(4) x4 by simp
  moreover have "sp_pending (switch_plan ?s5)" using s'(4) by (simp add: rts_port_request_reschedule_def)
  moreover have "sched_frame s ?s5"
    using f0(6) s1(5) book_frame [OF bk] s4(5) s5(3) by (meson sched_frame_trans)
  ultimately show ?thesis using s5 x3 s4(7) s1(7) f0(3) by (intro that [of ?s5]) (simp_all add: x4)
qed

section \<open>Yield\<close>

text \<open>Reordering the ready structure.\<close>

lemma sched_inv_reordered:
  assumes inv: "sched_inv cfg base s" and l: "links_inv cfg (s\<lparr>lmem := m, ready_bitmap := b\<rparr>)"
    and q: "set (ready_q cfg m) = set (ready_q cfg (lmem s))" "delay_q m = delay_q (lmem s)" "timer_q m = timer_q (lmem s)"
  shows "sched_inv cfg base (s\<lparr>lmem := m, ready_bitmap := b\<rparr>)" and "sched_frame s (s\<lparr>lmem := m, ready_bitmap := b\<rparr>)"
proof -
  let ?s = "s\<lparr>lmem := m, ready_bitmap := b\<rparr>"
  note D = sched_invD [OF inv]
  have "tasks_inv cfg ?s" using D(2) q by (simp add: tasks_inv_def task_ok_def live_def)
  moreover have "sync_inv cfg ?s" using D(3) sync_cong [of ?s s cfg] by simp
  moreover have "delay_ordered base ?s" using D(4) delay_ordered_cong [of ?s s base] q(2) by simp
  moreover have "plan_wf cfg ?s" by (rule plan_wf_cong [OF D(5)]) (simp_all add: live_def)
  ultimately show "sched_inv cfg base ?s" using l by (simp add: sched_inv_def)
  show "sched_frame s ?s" using q(3) by (simp add: sched_frame_def rest_same_def)
qed

text \<open>
  Under the deadline policy a yielding task gets the newest release sequence; the comparison of
  sequences is meaningful while no ready task holds one that is half the range older.
\<close>

definition release_fresh :: "rts_config \<Rightarrow> rts_kernel_state \<Rightarrow> bool" where
  "release_fresh cfg s \<longleftrightarrow> (RTS_POLICY cfg = RTS_POLICY_KIND_EDF \<longrightarrow>
     (\<forall>u \<in> set (ready_q cfg (lmem s)). \<not> rts_tick_before (next_release_sequence s) (release_sequence (tcbs s u))))"

lemma front_of_head:
  assumes links: "links_inv cfg s" and q: "ready_q cfg (lmem s) = t # us"
  shows "policy_front cfg t s"
    and "release_fresh cfg s \<Longrightarrow> policy_peer cfg t s \<Longrightarrow> \<exists>u vs. us = u # vs \<and> \<not> policy_before cfg (yield_prep cfg t s) t u"
proof -
  have pol: "policy_inv cfg s" using links by (simp add: links_inv_def)
  have "policy_front cfg t s \<and> (release_fresh cfg s \<longrightarrow> policy_peer cfg t s \<longrightarrow>
      (\<exists>u vs. us = u # vs \<and> \<not> policy_before cfg (yield_prep cfg t s) t u))"
  proof (cases "RTS_POLICY cfg = RTS_POLICY_KIND_EDF")
    case True
    then have o: "edf_order s = t # us" using q by (simp add: ready_q_def edf_order_def)
    show ?thesis
    proof (intro conjI impI)
      show "policy_front cfg t s" using True o by (simp add: policy_front_def)
      assume fresh: "release_fresh cfg s" and "policy_peer cfg t s"
      then obtain u vs where u: "us = u # vs" "absolute_deadline (tcbs s u) = absolute_deadline (tcbs s t)" "Some u \<noteq> idle_task s"
        using True o by (auto simp: policy_peer_def split: list.splits)
      have "u \<noteq> t" using distinct_ready_q [OF links] q u(1) by auto
      then have "\<not> rts_policy_edf_is_before (yield_prep cfg t s) t u"
        using u(2,3) fresh True q u(1) by (simp add: rts_policy_edf_is_before_def yield_prep_def upd_tcb_def release_fresh_def)
      with u(1) True show "\<exists>u vs. us = u # vs \<and> \<not> policy_before cfg (yield_prep cfg t s) t u" by (simp add: policy_before_def)
    qed
  next
    case False
    then have o: "fp_order cfg s = t # us" using q by (simp add: ready_q_def fp_order_def ready_tasks_def [abs_def])
    have r: "ready_inv cfg s" using pol False by (simp add: policy_inv_def fp_inv_def)
    let ?p = "unat (priority (tcbs s t))"
    have p: "?p < RTS_PRIORITY_COUNT cfg" using fp_order_adm [of cfg s t] pol False o by (simp add: policy_inv_def fp_adm_def)
    have tasks: "ready_tasks s ?p = t # filter (\<lambda>x. unat (priority (tcbs s x)) = ?p) us"
      using ready_tasks_filter [OF r p] o by simp
    have ord: "ordered_by (fp_before s) (t # us)" using fp_order_ordered [OF r] o by simp
    show ?thesis
    proof (intro conjI impI)
      show "policy_front cfg t s" using False tasks by (simp add: policy_front_def)
      assume "policy_peer cfg t s"
      then obtain v where v: "v \<in> set us" "unat (priority (tcbs s v)) = ?p"
        using False tasks by (auto simp: policy_peer_def filter_empty_conv)
      then obtain u vs where u: "us = u # vs" by (cases us) auto
      have "\<not> fp_before s t u" using ord u v by (auto simp: fp_before_def)
      with u False show "\<exists>u vs. us = u # vs \<and> \<not> policy_before cfg (yield_prep cfg t s) t u"
        by (simp add: policy_before_def yield_prep_def)
    qed
  qed
  then show "policy_front cfg t s"
    and "release_fresh cfg s \<Longrightarrow> policy_peer cfg t s \<Longrightarrow> \<exists>u vs. us = u # vs \<and> \<not> policy_before cfg (yield_prep cfg t s) t u"
    by blast+
qed

lemma release_fresh_cong:
  assumes "lmem s' = lmem s" and "policy_release_sequence s' = policy_release_sequence s"
    and "\<And>u. release_sequence (tcbs s' u) = release_sequence (tcbs s u)"
  shows "release_fresh cfg s' = release_fresh cfg s"
  using assms by (simp add: release_fresh_def next_release_sequence_def)

lemma policy_peer_cong:
  assumes "lmem s' = lmem s" and "idle_task s' = idle_task s" and "\<And>u. priority (tcbs s' u) = priority (tcbs s u)"
    and "\<And>u. absolute_deadline (tcbs s' u) = absolute_deadline (tcbs s u)"
  shows "policy_peer cfg t s' = policy_peer cfg t s"
  unfolding policy_peer_def ready_tasks_def edf_order_def assms ..

lemma book_yield_prep [simp]: "book cfg s (yield_prep cfg t s)"
proof -
  have "tcb_core (x\<lparr>release_sequence := a\<rparr>) = tcb_core x" for x a by (cases x) (simp add: tcb_core_def)
  then show ?thesis by (simp add: book_def same_core_def rest_same_def yield_prep_def upd_tcb_def)
qed

text \<open>Yielding by the policy, from the front of the service order.\<close>

lemma policy_yield_sched:
  assumes inv: "sched_inv cfg base s" and q: "ready_q cfg (lmem s) = t # us"
  obtains s' where "rts_policy_yield cfg (Some t) s = Inr (policy_peer cfg t s, s')" and "sched_inv cfg base s'"
    and "sched_frame s s'" and "switch_plan s' = switch_plan s" and "\<And>u. task_state (tcbs s' u) = task_state (tcbs s u)"
    and "release_fresh cfg s \<Longrightarrow> policy_peer cfg t s \<Longrightarrow> head_ready cfg s' \<noteq> t"
    and "\<not> policy_peer cfg t s \<Longrightarrow> s' = s"
proof (cases "policy_peer cfg t s")
  case False
  then have "rts_policy_yield cfg (Some t) s = Inr (False, s)"
    using links_yield [OF sched_invD(1) [OF inv] front_of_head(1) [OF sched_invD(1) [OF inv] q]] by simp
  with False inv show ?thesis by - (rule that [of s], simp_all)
next
  case True
  let ?y = "yield_prep cfg t s"
  note links = sched_invD(1) [OF inv]
  obtain m b where m: "rts_policy_yield cfg (Some t) s = Inr (True, ?y\<lparr>lmem := m, ready_bitmap := b\<rparr>)"
    "links_inv cfg (?y\<lparr>lmem := m, ready_bitmap := b\<rparr>)"
    "ready_q cfg m = stable_insert (policy_before cfg ?y) t (remove1 t (ready_q cfg (lmem s)))"
    "delay_q m = delay_q (lmem s)" "timer_q m = timer_q (lmem s)"
    using links_yield [OF links front_of_head(1) [OF links q]] True by auto
  have bk: "book cfg s ?y" by simp
  note F = book_fields [OF bk] and T = book_tcb [OF bk]
  have set: "set (ready_q cfg m) = set (ready_q cfg (lmem ?y))" using q by (simp add: m(3) F)
  note S = sched_inv_reordered [OF book_sched [OF bk inv] m(2) set]
  have "head_ready cfg (?y\<lparr>lmem := m, ready_bitmap := b\<rparr>) \<noteq> t" if fresh: "release_fresh cfg s"
  proof -
    obtain u vs where u: "us = u # vs" "\<not> policy_before cfg ?y t u" using front_of_head(2) [OF links q fresh True] by blast
    have "u \<noteq> t" using distinct_ready_q [OF links] q u(1) by auto
    with u q m(3) show ?thesis by (simp add: head_ready_def)
  qed
  with True m S F T sched_frame_trans [OF book_frame [OF bk]] show ?thesis
    by (intro that [of "?y\<lparr>lmem := m, ready_bitmap := b\<rparr>"]) simp_all
qed

lemma head_of_thread:
  assumes inv: "sched_inv cfg base s" and plan: "plan_inv cfg s" and thread: "thread_ready t s"
  shows "\<exists>us. ready_q cfg (lmem s) = t # us"
proof -
  have "head_ready cfg s = t" using plan thread by (auto simp: plan_inv_def plan_target_def thread_ready_def)
  moreover have "ready_q cfg (lmem s) \<noteq> []" using idle_ready [OF sched_invD(2) [OF inv]] by auto
  ultimately show ?thesis unfolding head_ready_def by (metis list.collapse)
qed

lemma yield_law:
  assumes inv: "sched_inv cfg base s" and plan: "plan_inv cfg s" and thread: "thread_ready t s" and fresh: "release_fresh cfg s"
  obtains s' where "rts_task_yield cfg s = Inr (RTS_STATUS_OK, s')" and "sched_inv cfg base s'" and "plan_inv cfg s'"
    and "sched_frame s s'" and "policy_peer cfg t s \<Longrightarrow> sp_pending (switch_plan s')"
proof -
  note R = thread_readyD [OF thread] and D = sched_invD [OF inv]
  note Q = running_not_queued [OF inv R(1,2)]
  obtain us where q: "ready_q cfg (lmem s) = t # us" using head_of_thread [OF inv plan thread] by blast
  have cv: "rts_scheduler_current_is_valid cfg s = Inr True"
    using current_valid [OF D(1,2) R(1)] R(2) sched_running [OF inv] by simp
  have v: "rts_policy_validate cfg (Some t) True s = Inr True" "rts_policy_pick_next cfg s = Inr (Some t)"
    using links_validate [OF D(1) live_adm [OF D(2) Q(5)], of True] Q(1) links_pick [OF D(1)] q by simp_all
  have coh: "rts_yield_current_is_coherent cfg s = Inr True"
    using R v cv by (simp add: rts_yield_current_is_coherent_def rts_scheduler_current_get_def)
  define s0 where "s0 = upd_tcb t (\<lambda>x. x\<lparr>slice_remaining := RTS_TIME_SLICE_TICKS cfg\<rparr>) s"
  define s1 where "s1 = RTS_TRACE cfg RTS_TRACE_YIELD (ucast (priority (tcbs (diag_inc cfg yields s0) t))) 0 (diag_inc cfg yields s0)"
  have b0: "book cfg s s0" unfolding s0_def by simp
  have bk: "book cfg s s1" unfolding s1_def by (rule book_trans [OF book_trans [OF b0 book_steps(1)] book_steps(3)])
  note F = book_fields [OF bk] and T = book_tcb [OF bk]
  have "release_sequence (tcbs s1 u) = release_sequence (tcbs s u)" "absolute_deadline (tcbs s1 u) = absolute_deadline (tcbs s u)"
    "policy_release_sequence s1 = policy_release_sequence s" for u
    by (simp_all add: s1_def s0_def RTS_TRACE_def diag_inc_def upd_tcb_def)
  then have same: "policy_peer cfg t s1 = policy_peer cfg t s" "release_fresh cfg s1"
    using fresh policy_peer_cong [of s1 s cfg t] release_fresh_cong [of s1 s cfg] F T by simp_all
  obtain s2 where s2: "rts_policy_yield cfg (Some t) s1 = Inr (policy_peer cfg t s1, s2)" "sched_inv cfg base s2"
    "sched_frame s1 s2" "switch_plan s2 = switch_plan s1" "\<And>u. task_state (tcbs s2 u) = task_state (tcbs s1 u)"
    "release_fresh cfg s1 \<Longrightarrow> policy_peer cfg t s1 \<Longrightarrow> head_ready cfg s2 \<noteq> t" "\<not> policy_peer cfg t s1 \<Longrightarrow> s2 = s1"
    by (rule policy_yield_sched [OF book_sched [OF bk inv], of t us]) (use q F(1) in auto)
  have frame: "sched_frame s s2" by (rule sched_frame_trans [OF book_frame [OF bk] s2(3)])
  show ?thesis
  proof (cases "policy_peer cfg t s")
    case False
    have "rts_task_yield cfg s = Inr (RTS_STATUS_OK, s2)"
      using R coh s2(1) same False sched_running [OF inv]
      by (simp add: rts_task_yield_def rts_scheduler_current_get_def Let_def flip: s0_def s1_def)
    with False s2 same frame book_plan_inv [OF bk plan] show ?thesis by (intro that [of s2]) auto
  next
    case True
    have c2: "current_task s2 = Some t" using frame R(1) by (simp add: sched_frame_def rest_same_def)
    have ne: "head_ready cfg s2 \<noteq> t" using s2(6) same True by simp
    have rd: "task_state (tcbs s2 (head_ready cfg s2)) = RTS_TASK_STATE_READY"
      using head_ready_props(3,4) [OF sched_invD(2) [OF s2(2)]] ne c2 running_iff_current [OF sched_invD(2) [OF s2(2)]] by auto
    obtain notify s3 where s3: "rts_scheduler_prepare_switch cfg (Some (head_ready cfg s2)) s2 = Inr (notify, s3)"
      "sched_inv cfg base s3" "plan_inv cfg s3" "sched_frame s2 s3"
      "plan_proposed t (head_ready cfg s2) (switch_plan s2) (switch_plan s3)"
      by (rule propose_head [OF s2(2) c2])
    let ?s4 = "if notify then rts_port_request_reschedule s3 else s3"
    have bk4: "book cfg s3 ?s4" by simp
    have pend: "sp_pending (switch_plan ?s4)"
      using s3(5) ne R(4) s2(4) F(6) book_fields(6) [OF bk4] by (simp add: plan_proposed_def)
    have "rts_task_yield cfg s = Inr (RTS_STATUS_OK, ?s4)"
      using R coh s2(1) same True ne rd s3(1) select_sched [OF s2(2)] sched_running [OF inv]
      by (simp add: rts_task_yield_def rts_scheduler_current_get_def Let_def flip: s0_def s1_def)
    with pend book_sched [OF bk4 s3(2)] book_plan_inv [OF bk4 s3(3)] sched_frame_trans [OF frame sched_frame_trans [OF s3(4)
        book_frame [OF bk4]]] show ?thesis by (intro that [of ?s4])
  qed
qed

end
