(* ===== verification/Context_Switch.thy ===== *)
theory Context_Switch
  imports Context_Frames Task_Laws
begin

text \<open>
  The context switch of PendSV as a whole: every task keeps its context (the process stack pointer, R4 to R11
  and the frame the hardware stacked), the kernel invariant is kept, and the task the kernel planned runs.
\<close>

section \<open>Contexts\<close>

definition task_context :: "cm4f \<Rightarrow> task_ref \<Rightarrow> uintptr \<times> uint32 list \<times> uint32 list" where
  "task_context st t =
     (let (p, rs) = (if current_task (kernel st) = Some t then (psp st, r4_r11 st)
                     else ldmia (saved_stack_pointer (tcbs (kernel st) t)) (bytes (kernel st))) in
      (p, rs, map (frame_word p (bytes (kernel st))) [0..<8]))"

text \<open>A saved frame of 64 bytes lies between the guard and the top of the stack of its task.\<close>

definition frame_fits :: "rts_config \<Rightarrow> rts_kernel_state \<Rightarrow> task_ref \<Rightarrow> uintptr \<Rightarrow> bool" where
  "frame_fits cfg s t sp \<longleftrightarrow> sp \<noteq> 0 \<and> sp mod 8 = 0 \<and>
     unat (stack_low (tcbs s t)) + (if RTS_ENABLE_STACK_GUARDS cfg then RTS_STACK_GUARD_SIZE_BYTES cfg else 0) \<le> unat sp \<and>
     unat sp + 64 \<le> unat (stack_high (tcbs s t))"

definition stacks_apart :: "rts_config \<Rightarrow> rts_kernel_state \<Rightarrow> bool" where
  "stacks_apart cfg s \<longleftrightarrow> (\<forall>t u. live cfg s t \<longrightarrow> live cfg s u \<longrightarrow> t \<noteq> u \<longrightarrow>
     unat (stack_high (tcbs s t)) \<le> unat (stack_low (tcbs s u)) \<or> unat (stack_high (tcbs s u)) \<le> unat (stack_low (tcbs s t)))"

text \<open>
  No task has overrun its stack: the saved frames fit, the running task has room for the registers that the handler
  stores, and the guards are intact.
\<close>

definition contexts_ok :: "rts_config \<Rightarrow> cm4f \<Rightarrow> bool" where
  "contexts_ok cfg st \<longleftrightarrow> length (r4_r11 st) = 8 \<and> stacks_apart cfg (kernel st) \<and>
     (\<forall>t. live cfg (kernel st) t \<longrightarrow>
        rts_stack_guard_is_valid cfg (Some t) (kernel st) \<and>
        (if current_task (kernel st) = Some t then 32 \<le> unat (psp st) \<and> frame_fits cfg (kernel st) t (psp st - 32)
         else frame_fits cfg (kernel st) t (saved_stack_pointer (tcbs (kernel st) t))))"

section \<open>Writes to a stack and to a saved stack pointer\<close>

lemma sched_inv_published:
  assumes inv: "sched_inv cfg base s" and t: "live cfg s t" and sp: "sp \<noteq> 0"
    and s'_def: "s' = upd_tcb t (\<lambda>x. x\<lparr>saved_stack_pointer := sp\<rparr>) (s\<lparr>bytes := m, switch_plan := p\<rparr>)"
    and wf: "plan_wf cfg s'"
  shows "sched_inv cfg base s'"
proof -
  note D = sched_invD [OF inv]
  let ?s = "s\<lparr>bytes := m, switch_plan := p\<rparr>"
  have core: "same_core cfg s ?s" by (simp add: same_core_def)
  have tasks: "tasks_inv cfg ?s" by (rule same_core_tasks [OF D(2) core])
  have l: "live cfg ?s t" using t by (simp add: live_def)
  have f: "task_state (tcbs s' u) = task_state (tcbs s u)" "priority (tcbs s' u) = priority (tcbs s u)"
    "base_priority (tcbs s' u) = base_priority (tcbs s u)" "slot_state (tcbs s' u) = slot_state (tcbs s u)"
    "wake_tick (tcbs s' u) = wake_tick (tcbs s u)" for u
    by (simp_all add: s'_def upd_tcb_def)
  have "links_inv cfg s'"
    unfolding s'_def by (rule links_upd_tcb [OF same_core_links [OF D(1) core]]) simp
  moreover have "tasks_inv cfg s'"
  proof -
    have "tasks_but cfg t s'" unfolding s'_def by (rule tasks_but_upd_tcb [OF tasks_open [OF tasks l]]) simp
    moreover have "task_static cfg t (tcbs s' t)"
      using live_static [OF tasks l] sp by (auto simp: s'_def upd_tcb_def task_static_def)
    moreover have "member_ok t (tcbs s' t) = member_ok t (tcbs ?s t)"
      by (simp add: fun_eq_iff s'_def upd_tcb_def member_ok_def not_waiting_def split: rts_task_state.split rts_wait_reason.split)
    ultimately have "task_ok cfg s' t"
      using live_member [OF tasks l] l by (simp add: task_ok_def s'_def upd_tcb_def live_def)
    with \<open>tasks_but cfg t s'\<close> show ?thesis by (rule tasks_close)
  qed
  moreover have "sync_inv cfg s'" using D(3) sync_cong [of s' s cfg] f by (simp add: s'_def upd_tcb_def)
  moreover have "delay_ordered base s'" using D(4) delay_ordered_cong [of s' s base] f(5) by (simp add: s'_def upd_tcb_def)
  ultimately show ?thesis using wf by (simp add: sched_inv_def)
qed

lemma sched_inv_bytes:
  assumes inv: "sched_inv cfg base s"
  shows "sched_inv cfg base (s\<lparr>bytes := m\<rparr>)"
proof -
  note D = sched_invD [OF inv]
  let ?s = "s\<lparr>bytes := m\<rparr>"
  have core: "same_core cfg s ?s" by (simp add: same_core_def)
  have "sync_inv cfg ?s" using D(3) sync_cong [of ?s s cfg] by simp
  moreover have "delay_ordered base ?s" using D(4) delay_ordered_cong [of ?s s base] by simp
  moreover have "plan_wf cfg ?s" by (rule plan_wf_cong [OF D(5)]) (simp_all add: live_def)
  ultimately show ?thesis
    using same_core_links [OF D(1) core] same_core_tasks [OF D(2) core] by (simp add: sched_inv_def)
qed

lemma plan_inv_cong:
  assumes "plan_inv cfg s" and "lifecycle s' = lifecycle s" and "current_task s' = current_task s"
    and "switch_plan s' = switch_plan s" and "lmem s' = lmem s"
    and "\<And>u. task_state (tcbs s' u) = task_state (tcbs s u)" and "\<And>u. slot_state (tcbs s' u) = slot_state (tcbs s u)"
  shows "plan_inv cfg s'"
proof -
  have "plan_wf cfg s" using assms(1) by (simp add: plan_inv_def)
  then have "plan_wf cfg s'" by (rule plan_wf_cong) (simp_all add: assms(2-7) live_def)
  then show ?thesis using assms(1) unfolding plan_inv_def plan_target_def head_ready_def assms(2-6) by blast
qed

section \<open>The checks of the handler\<close>

lemma frame_fits_valid:
  assumes tasks: "tasks_inv cfg s" and t: "live cfg s t" and fits: "frame_fits cfg s t sp"
  shows "rts_cm4f_saved_sp_is_valid (Some t) sp s"
    and "saved_stack_pointer (tcbs s t) = sp \<Longrightarrow> rts_stack_saved_sp_is_valid cfg (Some t) s"
proof -
  have st: "stack_low (tcbs s t) \<noteq> 0" "stack_high (tcbs s t) \<noteq> 0" "stack_low (tcbs s t) < stack_high (tcbs s t)"
    using live_static [OF tasks t] by (simp_all add: task_static_def)
  have f: "sp \<noteq> 0" "sp mod 8 = 0" "unat (stack_low (tcbs s t)) \<le> unat sp" "unat sp + 64 \<le> unat (stack_high (tcbs s t))"
    using fits by (auto simp: frame_fits_def)
  have "sp \<le> stack_high (tcbs s t)" using f(4) by (simp add: word_le_nat_alt)
  then have "unat (stack_high (tcbs s t) - sp) = unat (stack_high (tcbs s t)) - unat sp" by (rule unat_sub)
  with st f show "rts_cm4f_saved_sp_is_valid (Some t) sp s"
    by (simp add: rts_cm4f_saved_sp_is_valid_def Let_def cm4f_consts word_le_nat_alt)
  have "stack_low (tcbs s t) + of_nat (RTS_STACK_GUARD_SIZE_BYTES cfg) \<le> sp" if "RTS_ENABLE_STACK_GUARDS cfg"
  proof -
    have g: "unat (stack_low (tcbs s t)) + RTS_STACK_GUARD_SIZE_BYTES cfg \<le> unat sp" using fits that by (simp add: frame_fits_def)
    then have "unat (stack_low (tcbs s t)) + RTS_STACK_GUARD_SIZE_BYTES cfg < 2 ^ 32" using unat_u32 [of sp] by linarith
    then show ?thesis using g by (simp add: word_le_nat_alt unat_offset)
  qed
  then show "rts_stack_saved_sp_is_valid cfg (Some t) s" if "saved_stack_pointer (tcbs s t) = sp"
    using that st f by (simp add: rts_stack_saved_sp_is_valid_def Let_def word_le_nat_alt word_less_nat_alt)
qed

lemma saved_sp_valid_cong: "tcbs s' = tcbs s \<Longrightarrow> rts_cm4f_saved_sp_is_valid tp sp s' = rts_cm4f_saved_sp_is_valid tp sp s"
  by (cases tp) (simp_all add: rts_cm4f_saved_sp_is_valid_def)

lemma guard_kept:
  assumes g: "rts_stack_guard_is_valid cfg (Some t) s" and lh: "stack_low (tcbs s t) < stack_high (tcbs s t)"
    and same: "stack_low (tcbs s' t) = stack_low (tcbs s t)" "stack_high (tcbs s' t) = stack_high (tcbs s t)"
    and b: "\<And>x. unat (stack_low (tcbs s t)) \<le> unat x \<Longrightarrow>
      unat x < unat (stack_low (tcbs s t)) + RTS_STACK_GUARD_SIZE_BYTES cfg \<Longrightarrow> bytes s' x = bytes s x"
  shows "rts_stack_guard_is_valid cfg (Some t) s'"
proof (cases "RTS_ENABLE_STACK_GUARDS cfg")
  case True
  define low where "low = stack_low (tcbs s t)"
  have n: "RTS_STACK_GUARD_SIZE_BYTES cfg \<le> unat (stack_high (tcbs s t) - low)"
    using g True by (auto simp: rts_stack_guard_is_valid_def Let_def low_def split: if_splits)
  have "low \<le> stack_high (tcbs s t)" using lh by (simp add: low_def)
  then have "unat low + RTS_STACK_GUARD_SIZE_BYTES cfg < 2 ^ 32"
    using n unat_u32 [of "stack_high (tcbs s t)"] by (simp add: unat_sub word_le_nat_alt)
  then have "bytes s' (low + of_nat i) = bytes s (low + of_nat i)" if "i < RTS_STACK_GUARD_SIZE_BYTES cfg" for i
    using that by (intro b) (simp_all add: unat_offset low_def [symmetric])
  then show ?thesis using g by (auto simp: rts_stack_guard_is_valid_def Let_def same low_def list_all_iff split: if_splits)
qed (simp add: rts_stack_guard_is_valid_def)

section \<open>What storing the registers leaves alone\<close>

text \<open>The words above the stored registers of the running task, and everything of the other tasks.\<close>

lemma stored_elsewhere:
  assumes ok: "contexts_ok cfg st" and cur: "current_task (kernel st) = Some from" and live: "live cfg (kernel st) from"
    and st: "stmdb (psp st) (r4_r11 st) (bytes (kernel st)) = (sp, m)"
  shows "sp = psp st - 32" and "unat sp + 32 = unat (psp st)" and "map (frame_word sp m) [0..<8] = r4_r11 st" and "frame_fits cfg (kernel st) from sp"
    and "unat (psp st) \<le> unat x \<Longrightarrow> m x = bytes (kernel st) x"
    and "unat x < unat (stack_low (tcbs (kernel st) from)) + (if RTS_ENABLE_STACK_GUARDS cfg then RTS_STACK_GUARD_SIZE_BYTES cfg else 0) \<Longrightarrow>
      m x = bytes (kernel st) x"
    and "live cfg (kernel st) t \<Longrightarrow> t \<noteq> from \<Longrightarrow> unat (stack_low (tcbs (kernel st) t)) \<le> unat x \<Longrightarrow>
      unat x < unat (stack_high (tcbs (kernel st) t)) \<Longrightarrow> m x = bytes (kernel st) x"
proof -
  have 32: "32 \<le> unat (psp st)" "length (r4_r11 st) = 8" and fits: "frame_fits cfg (kernel st) from (psp st - 32)"
    using ok cur live by (auto simp: contexts_ok_def)
  note S = stmdb_frame [OF 32(1) st 32(2)]
  show "sp = psp st - 32" "unat sp + 32 = unat (psp st)" "map (frame_word sp m) [0..<8] = r4_r11 st" by (rule S)+
  show fit: "frame_fits cfg (kernel st) from sp" using fits S(1) by simp
  show "unat (psp st) \<le> unat x \<Longrightarrow> m x = bytes (kernel st) x" by (rule S(4)) simp
  show "m x = bytes (kernel st) x"
    if "unat x < unat (stack_low (tcbs (kernel st) from)) + (if RTS_ENABLE_STACK_GUARDS cfg then RTS_STACK_GUARD_SIZE_BYTES cfg else 0)"
    using that fit by (intro S(4)) (auto simp: frame_fits_def)
  show "m x = bytes (kernel st) x"
    if "live cfg (kernel st) t" "t \<noteq> from" "unat (stack_low (tcbs (kernel st) t)) \<le> unat x" "unat x < unat (stack_high (tcbs (kernel st) t))"
  proof (rule S(4))
    have "unat (stack_high (tcbs (kernel st) t)) \<le> unat (stack_low (tcbs (kernel st) from)) \<or>
      unat (stack_high (tcbs (kernel st) from)) \<le> unat (stack_low (tcbs (kernel st) t))"
      using ok live that(1,2) by (auto simp: contexts_ok_def stacks_apart_def)
    then show "unat x < unat sp \<or> unat (psp st) \<le> unat x" using fit S(2) that(3,4) by (auto simp: frame_fits_def)
  qed
qed

section \<open>The switch\<close>

text \<open>A request without a plan stores the registers below the running task's stack pointer and changes nothing else.\<close>

lemma pendsv_stale:
  assumes ok: "contexts_ok cfg st" and inv: "sched_inv cfg base (kernel st)" and plan: "plan_inv cfg (kernel st)"
    and np: "\<not> sp_pending (switch_plan (kernel st))" "\<not> sp_active (switch_plan (kernel st))"
    and st: "stmdb (psp st) (r4_r11 st) (bytes (kernel st)) = (sp, m)"
  shows "PendSV_Handler cfg RTS_CM4F_EXC_RETURN_THREAD_PSP_BASIC st =
      Inr (st\<lparr>kernel := (kernel st)\<lparr>bytes := m\<rparr>, primask := False\<rparr>)"
  using st np by (simp add: PendSV_Handler_def upd_kernel_def rts_cm4f_switch_bridge_acquire_def rts_cm4f_switch_bridge_no_plan_def)

lemma bridge_acquire_law:
  assumes ok: "contexts_ok cfg st" and inv: "sched_inv cfg base (kernel st)" and plan: "plan_inv cfg (kernel st)"
    and p: "sp_pending (switch_plan (kernel st))" "\<not> sp_active (switch_plan (kernel st))"
    and fits: "frame_fits cfg (kernel st) from sp" and cur: "current_task (kernel st) = Some from" and to: "sp_to (switch_plan (kernel st)) = Some to"
  shows "rts_cm4f_switch_bridge_acquire cfg sp (st\<lparr>primask := b, kernel := (kernel st)\<lparr>bytes := m\<rparr>\<rparr>) =
    Inr (True, st\<lparr>primask := b, kernel := (kernel st)\<lparr>bytes := m, switch_plan := (switch_plan (kernel st))\<lparr>sp_pending := False, sp_active := True\<rparr>\<rparr>,
      switch_handoff := \<lparr>sh_from = Some from, sh_to = Some to,
        sh_snapshot = \<lparr>ss_from = Some from, ss_to = Some to, ss_generation = sp_generation (switch_plan (kernel st))\<rparr>,
        sh_outgoing_saved_stack_pointer = sp, sh_incoming_saved_stack_pointer = saved_stack_pointer (tcbs (kernel st) to)\<rparr>\<rparr>)"
proof -
  define s where "s = (kernel st)\<lparr>bytes := m\<rparr>"
  have inv': "sched_inv cfg base s" unfolding s_def by (rule sched_inv_bytes [OF inv])
  have plan': "plan_inv cfg s" unfolding s_def by (rule plan_inv_cong [OF plan]) simp_all
  note D = sched_invD [OF inv']
  have wf: "live cfg s to" "task_state (tcbs s to) = RTS_TASK_STATE_READY"
    using D(5) p to by (auto simp: plan_wf_def s_def)
  have cur': "current_task s = Some from" by (simp add: s_def cur)
  have lf: "live cfg s from" by (rule queued_live(4) [OF D(2) cur'])
  have ne: "from \<noteq> to" by (rule switched_tasks(2) [OF D(2) cur' wf])
  have st_from: "task_state (tcbs s from) = RTS_TASK_STATE_RUNNING \<or> task_state (tcbs s from) = RTS_TASK_STATE_BLOCKED"
    using live_member [OF D(2) lf] cur' by (auto simp: member_ok_def split: rts_task_state.splits)
  have fit_to: "frame_fits cfg s to (saved_stack_pointer (tcbs s to))" and fit_from: "frame_fits cfg s from sp"
    using ok wf(1) ne cur fits by (auto simp: contexts_ok_def s_def live_def frame_fits_def)
  let ?s = "s\<lparr>switch_plan := (switch_plan s)\<lparr>sp_pending := False, sp_active := True\<rparr>\<rparr>"
  have "rts_scheduler_switch_acquire cfg s = Inr (Some \<lparr>ss_from = Some from, ss_to = Some to, ss_generation = sp_generation (switch_plan s)\<rparr>, ?s)"
    using switch_acquire_law(1) [OF D(1,2) plan'] p to cur' by (simp add: s_def)
  moreover have "rts_cm4f_saved_sp_is_valid (Some from) sp ?s" "rts_cm4f_saved_sp_is_valid (Some to) (saved_stack_pointer (tcbs ?s to)) ?s"
    using frame_fits_valid(1) [OF D(2) lf fit_from] frame_fits_valid(1) [OF D(2) wf(1) fit_to]
    by (simp_all add: saved_sp_valid_cong [of ?s s])
  ultimately show ?thesis
    using p ne st_from wf(2) cur' unfolding s_def
    by (simp add: rts_cm4f_switch_bridge_acquire_def rts_scheduler_current_get_def Let_def)
qed

text \<open>Completing the switch with the saved stack pointer of the outgoing task published.\<close>

lemma bridge_complete_law:
  assumes inv: "sched_inv cfg base s" and plan: "plan_inv cfg s" and act: "sp_active (switch_plan s)"
    and cur: "current_task s = Some from" and to: "sp_to (switch_plan s) = Some to"
    and fit: "frame_fits cfg s from (saved_stack_pointer (tcbs s from))" "frame_fits cfg s to (saved_stack_pointer (tcbs s to))"
    and guard: "rts_stack_guard_is_valid cfg (Some from) s" "rts_stack_guard_is_valid cfg (Some to) s"
    and st: "kernel st = s" "switch_handoff st = \<lparr>sh_from = Some from, sh_to = Some to,
        sh_snapshot = \<lparr>ss_from = Some from, ss_to = Some to, ss_generation = sp_generation (switch_plan s)\<rparr>,
        sh_outgoing_saved_stack_pointer = saved_stack_pointer (tcbs s from), sh_incoming_saved_stack_pointer = saved_stack_pointer (tcbs s to)\<rparr>"
  obtains s' where "rts_cm4f_switch_bridge_complete cfg True st = Inr (True, st\<lparr>kernel := s'\<rparr>)"
    and "sched_inv cfg base s'" and "plan_inv cfg s'" and "current_task s' = Some to" and "\<not> sp_active (switch_plan s')"
    and "task_state (tcbs s' to) = RTS_TASK_STATE_RUNNING" and "bytes s' = bytes s"
    and "\<And>u. saved_stack_pointer (tcbs s' u) = saved_stack_pointer (tcbs s u) \<and> stack_low (tcbs s' u) = stack_low (tcbs s u) \<and>
      stack_high (tcbs s' u) = stack_high (tcbs s u) \<and> slot_state (tcbs s' u) = slot_state (tcbs s u)"
proof -
  note D = sched_invD [OF inv]
  have lt: "live cfg s to" using D(5) act to by (auto simp: plan_wf_def)
  have lf: "live cfg s from" by (rule queued_live(4) [OF D(2) cur])
  have np: "\<not> sp_pending (switch_plan s)" using D(5) act by (auto simp: plan_wf_def)
  obtain s3 where s3: "rts_scheduler_switch_complete cfg
      (Some \<lparr>ss_from = Some from, ss_to = Some to, ss_generation = sp_generation (switch_plan s)\<rparr>) s = Inr s3"
    "same_core cfg (switched cfg from to s) s3" "tasks_inv cfg s3" "links_inv cfg s3" "plan_wf cfg s3"
    "task_state (tcbs s3 to) = RTS_TASK_STATE_RUNNING" "current_task s3 = Some to"
    "sp_reselection_required (switch_plan s) \<or> plan_inv cfg s3" "switch_plan s3 = rts_switch_plan_clear (switch_plan s)"
    "bytes s3 = bytes s" "semaphores s3 = semaphores s" "mutexes s3 = mutexes s" "\<And>u. wake_tick (tcbs s3 u) = wake_tick (tcbs s u)"
    by (rule switch_complete_law [OF D(1,2) plan act cur to guard frame_fits_valid(2) [OF D(2) lf fit(1) refl] frame_fits_valid(2) [OF D(2) lt fit(2) refl]]) blast
  have core: "tcb_core (tcbs s3 u) = tcb_core (tcbs (switched cfg from to s) u)" for u using s3(2) by (simp add: same_core_def)
  note C = tcb_core_fields [OF core]
  have r: "sp_reselection_required (switch_plan s3) \<or> plan_inv cfg s3" using s3(8,9) by (simp add: rts_switch_plan_clear_def)
  obtain notify p rc where rs: "rts_scheduler_reselect_after_switch cfg s3 = Inr (notify, s3\<lparr>switch_plan := p, runtime_counters := rc\<rparr>)"
    "plan_inv cfg (s3\<lparr>switch_plan := p, runtime_counters := rc\<rparr>)" "\<not> sp_active (switch_plan s3) \<Longrightarrow> \<not> sp_active p"
    by (rule reselect_law [OF s3(4,3,5,7,6) r]) blast
  define s4 where "s4 = s3\<lparr>switch_plan := p, runtime_counters := rc\<rparr>"
  define s5 where "s5 = (if notify then rts_port_request_reschedule s4 else s4)"
  have bk: "book cfg s4 s5" by (simp add: s5_def)
  have na: "\<not> sp_active p" using rs(3) by (simp add: s3(9) rts_switch_plan_clear_def)
  have sync: "sync_inv cfg s3"
    using D(3) sync_cong [of s3 s cfg] s3(2,11,12) C(6,7,8) by (simp add: same_core_def switched_def)
  have del: "delay_ordered base s3" using D(4) delay_ordered_cong [of s3 s base] s3(2,13) by (simp add: same_core_def switched_def)
  have wf4: "plan_wf cfg s4" using rs(2) by (simp add: s4_def plan_inv_def)
  have "sched_inv cfg base s3" using s3(3,4,5) sync del by (simp add: sched_inv_def)
  then have inv4: "sched_inv cfg base s4" unfolding s4_def by (rule sched_inv_replanned(1)) (use wf4 in \<open>simp add: s4_def\<close>)
  have f5: "tcbs s5 = tcbs s3" "bytes s5 = bytes s" "current_task s5 = Some to" "switch_plan s5 = p"
    by (simp_all add: s5_def s4_def rts_port_request_reschedule_def s3)
  have fs: "task_state (tcbs s3 from) = RTS_TASK_STATE_READY \<or> task_state (tcbs s3 from) = RTS_TASK_STATE_BLOCKED"
  proof -
    have ne: "from \<noteq> to" using switched_tasks(2) [OF D(2) cur lt] D(5) act to by (auto simp: plan_wf_def)
    have "task_state (tcbs s from) = RTS_TASK_STATE_RUNNING \<or> task_state (tcbs s from) = RTS_TASK_STATE_BLOCKED"
      using live_member [OF D(2) lf] cur by (auto simp: member_ok_def split: rts_task_state.splits)
    then show ?thesis using C(1) [of "from"] ne by (auto simp: switched_def)
  qed
  have "rts_cm4f_switch_bridge_complete cfg True st = Inr (True, st\<lparr>kernel := s5\<rparr>)"
    using st act np cur s3(1,6,7) rs(1) na fs f5
    by (simp add: rts_cm4f_switch_bridge_complete_def rts_scheduler_current_get_def s5_def [symmetric] s4_def [symmetric])
  moreover have "saved_stack_pointer (tcbs s5 u) = saved_stack_pointer (tcbs s u) \<and> stack_low (tcbs s5 u) = stack_low (tcbs s u) \<and>
      stack_high (tcbs s5 u) = stack_high (tcbs s u) \<and> slot_state (tcbs s5 u) = slot_state (tcbs s u)" for u
    using C(8,9,10,11) [of u] by (simp add: f5 switched_def)
  ultimately show ?thesis
    using book_sched [OF bk inv4] book_plan_inv [OF bk rs(2) [folded s4_def]] f5 na s3(6) by (intro that [of s5]) simp_all
qed

text \<open>The context of a task that is not running, in memory that agrees on its stack.\<close>

lemma saved_context_cong:
  assumes fits: "frame_fits cfg s t sp"
    and same: "\<And>x. unat (stack_low (tcbs s t)) \<le> unat x \<Longrightarrow> unat x < unat (stack_high (tcbs s t)) \<Longrightarrow> m' x = m x"
  shows "ldmia sp m' = ldmia sp m" and "unat (sp + 32) = unat sp + 32"
    and "map (frame_word (sp + 32) m') [0..<8] = map (frame_word (sp + 32) m) [0..<8]"
proof -
  have f: "unat (stack_low (tcbs s t)) \<le> unat sp" "unat sp + 64 \<le> unat (stack_high (tcbs s t))"
    using fits by (auto simp: frame_fits_def)
  then show u: "unat (sp + 32) = unat sp + 32"
    using unat_offset [of sp 32] unat_u32 [of "stack_high (tcbs s t)"] by simp
  have a: "unat sp + 4 * 8 \<le> 2 ^ 32" "unat (sp + 32) + 4 * 8 \<le> 2 ^ 32" using f u unat_u32 [of "stack_high (tcbs s t)"] by simp_all
  have "frame_word sp m' i = frame_word sp m i" if "i < 8" for i
    by (rule frame_word_cong [OF a(1) that]) (use f in \<open>intro same; linarith\<close>)
  then show "ldmia sp m' = ldmia sp m" by (simp add: ldmia_frame)
  have "frame_word (sp + 32) m' i = frame_word (sp + 32) m i" if "i < 8" for i
    by (rule frame_word_cong [OF a(2) that]) (use f u in \<open>intro same; linarith\<close>)
  then show "map (frame_word (sp + 32) m') [0..<8] = map (frame_word (sp + 32) m) [0..<8]" by simp
qed

lemma stored_guard:
  assumes ok: "contexts_ok cfg st" and tasks: "tasks_inv cfg (kernel st)" and cur: "current_task (kernel st) = Some from"
    and st: "stmdb (psp st) (r4_r11 st) (bytes (kernel st)) = (sp, m)" and u: "live cfg (kernel st) u"
    and s': "bytes s' = m" "stack_low (tcbs s' u) = stack_low (tcbs (kernel st) u)" "stack_high (tcbs s' u) = stack_high (tcbs (kernel st) u)"
  shows "rts_stack_guard_is_valid cfg (Some u) s'"
proof (cases "RTS_ENABLE_STACK_GUARDS cfg")
  case True
  define s where "s = kernel st"
  note E = stored_elsewhere [OF ok cur queued_live(4) [OF tasks cur] st, folded s_def]
  have lt: "stack_low (tcbs s u) < stack_high (tcbs s u)" using live_static [OF tasks u] by (simp add: task_static_def s_def)
  have g: "rts_stack_guard_is_valid cfg (Some u) s" using ok u by (auto simp: contexts_ok_def s_def)
  have n: "RTS_STACK_GUARD_SIZE_BYTES cfg \<le> unat (stack_high (tcbs s u) - stack_low (tcbs s u))"
    using g True by (auto simp: rts_stack_guard_is_valid_def Let_def split: if_splits)
  then have n': "unat (stack_low (tcbs s u)) + RTS_STACK_GUARD_SIZE_BYTES cfg \<le> unat (stack_high (tcbs s u))"
    using lt by (simp add: unat_sub word_le_nat_alt word_less_nat_alt)
  show ?thesis
  proof (rule guard_kept [OF g lt])
    fix x :: uintptr
    assume x: "unat (stack_low (tcbs s u)) \<le> unat x" "unat x < unat (stack_low (tcbs s u)) + RTS_STACK_GUARD_SIZE_BYTES cfg"
    show "bytes s' x = bytes s x"
    proof (cases "u = from")
      case True
      with x(2) \<open>RTS_ENABLE_STACK_GUARDS cfg\<close> show ?thesis using E(6) [of x] by (simp add: s'(1))
    next
      case False
      with x n' u show ?thesis using E(7) [of u x] by (simp add: s'(1) s_def)
    qed
  qed (simp_all add: s'(2,3) s_def)
qed (simp add: rts_stack_guard_is_valid_def)

lemma contexts_kept:
  assumes ok: "contexts_ok cfg st" and tasks: "tasks_inv cfg (kernel st)" and cur: "current_task (kernel st) = Some from"
    and st: "stmdb (psp st) (r4_r11 st) (bytes (kernel st)) = (sp, m)"
    and st': "bytes (kernel st') = m" "current_task (kernel st') = Some to" "to \<noteq> from" "live cfg (kernel st) to"
    and sv: "\<And>u. saved_stack_pointer (tcbs (kernel st') u) = (if u = from then sp else saved_stack_pointer (tcbs (kernel st) u))"
    and lh: "\<And>u. stack_low (tcbs (kernel st') u) = stack_low (tcbs (kernel st) u)"
      "\<And>u. stack_high (tcbs (kernel st') u) = stack_high (tcbs (kernel st) u)"
      "\<And>u. slot_state (tcbs (kernel st') u) = slot_state (tcbs (kernel st) u)"
    and regs: "(psp st', r4_r11 st') = ldmia (saved_stack_pointer (tcbs (kernel st) to)) m"
  shows "contexts_ok cfg st'" and "live cfg (kernel st) t \<Longrightarrow> task_context st' t = task_context st t"
proof -
  define s where "s = kernel st"
  have lf: "live cfg s from" unfolding s_def by (rule queued_live(4) [OF tasks cur])
  note E = stored_elsewhere [OF ok cur lf [unfolded s_def] st, folded s_def]
  have l: "live cfg (kernel st') u = live cfg s u" for u by (simp add: live_def lh s_def)
  have fits: "frame_fits cfg s u (saved_stack_pointer (tcbs s u))" if "live cfg s u" "u \<noteq> from" for u
    using ok that cur by (auto simp: contexts_ok_def s_def)
  have ff: "frame_fits cfg (kernel st') u = frame_fits cfg s u" for u by (simp add: frame_fits_def lh s_def fun_eq_iff)
  note S = saved_context_cong [OF fits E(7)]
  have psp': "psp st' = saved_stack_pointer (tcbs s to) + 32" "length (r4_r11 st') = 8"
    using regs by (simp_all add: ldmia_frame s_def)
  have lto: "live cfg s to" "to \<noteq> from" using st'(3,4) by (simp_all add: s_def)
  have u32: "unat (saved_stack_pointer (tcbs s to) + 32) = unat (saved_stack_pointer (tcbs s to)) + 32" by (rule S(2) [OF lto lto])
  note guard = stored_guard [OF ok tasks cur st _ st'(1) lh(1,2), folded s_def]
  show "contexts_ok cfg st'"
    unfolding contexts_ok_def
  proof (intro conjI allI impI)
    show "length (r4_r11 st') = 8" by (rule psp'(2))
    show "stacks_apart cfg (kernel st')" using ok by (simp add: contexts_ok_def stacks_apart_def l lh s_def)
    fix u
    assume "live cfg (kernel st') u"
    then have u: "live cfg s u" by (simp add: l)
    show "rts_stack_guard_is_valid cfg (Some u) (kernel st')" by (rule guard [OF u])
    show "if current_task (kernel st') = Some u then 32 \<le> unat (psp st') \<and> frame_fits cfg (kernel st') u (psp st' - 32)
      else frame_fits cfg (kernel st') u (saved_stack_pointer (tcbs (kernel st') u))"
      using fits [OF u] E(4) u32 lto by (auto simp: ff st' psp' sv s_def [symmetric])
  qed
  show "task_context st' t = task_context st t" if t: "live cfg (kernel st) t"
  proof -
    have t: "live cfg s t" using t by (simp add: s_def)
    consider "t = from" | "t = to" | "t \<noteq> from" "t \<noteq> to" by blast
    then show ?thesis
    proof cases
      case 1
      have "sp + 32 = psp st" using E(1) by simp
      moreover have "unat (psp st) + 4 * 8 \<le> 2 ^ 32"
        using E(2,4) unat_u32 [of "stack_high (tcbs s from)"] by (simp add: frame_fits_def)
      then have "frame_word (psp st) m i = frame_word (psp st) (bytes s) i" if "i < 8" for i
        by (rule frame_word_cong [OF _ that]) (rule E(5))
      ultimately show ?thesis
        using 1 E(3) cur st'(1-3) sv [of "from"] by (simp add: task_context_def ldmia_frame s_def)
    next
      case 2
      then show ?thesis
        using regs S(1,3) [OF lto lto] cur st'(1-3) by (simp add: task_context_def ldmia_frame s_def Let_def split: prod.splits)
    next
      case 3
      then show ?thesis
        using S(1,3) [OF t 3(1) t 3(1)] cur st'(1-3) sv [of t] by (simp add: task_context_def ldmia_frame s_def)
    qed
  qed
qed

lemma contexts_kept_stale:
  assumes ok: "contexts_ok cfg st" and tasks: "tasks_inv cfg (kernel st)" and cur: "current_task (kernel st) = Some from"
    and st: "stmdb (psp st) (r4_r11 st) (bytes (kernel st)) = (sp, m)"
  defines "st' \<equiv> st\<lparr>kernel := (kernel st)\<lparr>bytes := m\<rparr>, primask := False\<rparr>"
  shows "contexts_ok cfg st'" and "live cfg (kernel st) t \<Longrightarrow> task_context st' t = task_context st t"
proof -
  define s where "s = kernel st"
  have lf: "live cfg s from" unfolding s_def by (rule queued_live(4) [OF tasks cur])
  note E = stored_elsewhere [OF ok cur lf [unfolded s_def] st, folded s_def]
  have fits: "frame_fits cfg s u (saved_stack_pointer (tcbs s u))" if "live cfg s u" "u \<noteq> from" for u
    using ok that cur by (auto simp: contexts_ok_def s_def)
  note S = saved_context_cong [OF fits E(7)]
  show "contexts_ok cfg st'"
    using ok stored_guard [OF ok tasks cur st, of _ "s\<lparr>bytes := m\<rparr>"]
    by (auto simp: contexts_ok_def st'_def stacks_apart_def frame_fits_def live_def s_def)
  show "task_context st' t = task_context st t" if "live cfg (kernel st) t"
  proof (cases "t = from")
    case True
    have "unat (psp st) + 4 * 8 \<le> 2 ^ 32"
      using E(2,4) unat_u32 [of "stack_high (tcbs s from)"] by (simp add: frame_fits_def)
    then have "frame_word (psp st) m i = frame_word (psp st) (bytes s) i" if "i < 8" for i
      by (rule frame_word_cong [OF _ that]) (rule E(5))
    then show ?thesis using True cur by (simp add: task_context_def st'_def s_def)
  next
    case False
    then show ?thesis
      using S(1,3) [of t] that cur by (simp add: task_context_def st'_def ldmia_frame s_def)
  qed
qed

text \<open>The handler on an intact system.\<close>

lemma pendsv_law:
  assumes ok: "contexts_ok cfg st" and inv: "sched_inv cfg base (kernel st)" and plan: "plan_inv cfg (kernel st)"
    and act: "\<not> sp_active (switch_plan (kernel st))"
  obtains st' where "PendSV_Handler cfg RTS_CM4F_EXC_RETURN_THREAD_PSP_BASIC st = Inr st'" and "contexts_ok cfg st'"
    and "sched_inv cfg base (kernel st')" and "plan_inv cfg (kernel st')" and "\<not> sp_active (switch_plan (kernel st'))"
    and "current_task (kernel st') = plan_target (kernel st)" and "\<And>t. live cfg (kernel st) t \<Longrightarrow> task_context st' t = task_context st t"
    and "\<not> primask st'"
proof -
  define s where "s = kernel st"
  note D = sched_invD [OF inv, folded s_def]
  obtain "from" where cur: "current_task s = Some from" using D(5) by (auto simp: plan_wf_def)
  have lf: "live cfg s from" by (rule queued_live(4) [OF D(2) cur])
  obtain sp m where st: "stmdb (psp st) (r4_r11 st) (bytes s) = (sp, m)" by (cases "stmdb (psp st) (r4_r11 st) (bytes s)")
  note E = stored_elsewhere [OF ok cur [unfolded s_def] lf [unfolded s_def] st [unfolded s_def]]
  show ?thesis
  proof (cases "sp_pending (switch_plan s)")
    case False
    let ?st = "st\<lparr>kernel := s\<lparr>bytes := m\<rparr>, primask := False\<rparr>"
    note K = contexts_kept_stale [OF ok D(2) [unfolded s_def] cur [unfolded s_def] st [unfolded s_def], folded s_def]
    have "plan_inv cfg (s\<lparr>bytes := m\<rparr>)" by (rule plan_inv_cong [OF plan [folded s_def]]) simp_all
    then show ?thesis
      using pendsv_stale [OF ok inv plan _ act st [unfolded s_def]] False K act cur sched_inv_bytes [OF inv, of m]
      by (intro that [of ?st]) (simp_all add: s_def plan_target_def)
  next
    case True
    obtain to where to: "sp_to (switch_plan s) = Some to" "live cfg s to" "task_state (tcbs s to) = RTS_TASK_STATE_READY"
      using D(5) True by (auto simp: plan_wf_def)
    have ne: "to \<noteq> from" using switched_tasks(2) [OF D(2) cur to(2,3)] by simp
    define p where "p = (switch_plan s)\<lparr>sp_pending := False, sp_active := True\<rparr>"
    define s2 where "s2 = upd_tcb from (\<lambda>x. x\<lparr>saved_stack_pointer := sp\<rparr>) (s\<lparr>bytes := m, switch_plan := p\<rparr>)"
    have plan1: "plan_inv cfg (s\<lparr>switch_plan := p\<rparr>)"
      using switch_acquire_law(2) [OF D(1,2) plan [folded s_def]] act True by (simp add: s_def p_def)
    have plan2: "plan_inv cfg s2" by (rule plan_inv_cong [OF plan1]) (simp_all add: s2_def upd_tcb_def)
    have fit: "frame_fits cfg s from sp" "frame_fits cfg s to (saved_stack_pointer (tcbs s to))"
      using E(4) ok to(2) ne cur by (auto simp: contexts_ok_def s_def)
    have inv2: "sched_inv cfg base s2"
      by (rule sched_inv_published [OF inv [folded s_def] lf _ s2_def]) (use fit(1) plan2 in \<open>simp_all add: frame_fits_def plan_inv_def\<close>)
    have f2: "bytes s2 = m" "current_task s2 = Some from" "switch_plan s2 = p"
      "saved_stack_pointer (tcbs s2 u) = (if u = from then sp else saved_stack_pointer (tcbs s u))"
      "stack_low (tcbs s2 u) = stack_low (tcbs s u)" "stack_high (tcbs s2 u) = stack_high (tcbs s u)"
      "slot_state (tcbs s2 u) = slot_state (tcbs s u)" for u
      by (simp_all add: s2_def upd_tcb_def cur)
    note guard = stored_guard [OF ok D(2) [unfolded s_def] cur [unfolded s_def] st [unfolded s_def], folded s_def, OF _ f2(1,5,6)]
    define st2 where "st2 = st\<lparr>primask := True, kernel := s2,
      switch_handoff := \<lparr>sh_from = Some from, sh_to = Some to,
        sh_snapshot = \<lparr>ss_from = Some from, ss_to = Some to, ss_generation = sp_generation p\<rparr>,
        sh_outgoing_saved_stack_pointer = saved_stack_pointer (tcbs s2 from), sh_incoming_saved_stack_pointer = saved_stack_pointer (tcbs s2 to)\<rparr>,
      r4_r11 := snd (ldmia (saved_stack_pointer (tcbs s to)) m), psp := fst (ldmia (saved_stack_pointer (tcbs s to)) m)\<rparr>"
    obtain s' where s': "rts_cm4f_switch_bridge_complete cfg True st2 = Inr (True, st2\<lparr>kernel := s'\<rparr>)"
      "sched_inv cfg base s'" "plan_inv cfg s'" "current_task s' = Some to" "\<not> sp_active (switch_plan s')" "bytes s' = bytes s2"
      "\<And>u. saved_stack_pointer (tcbs s' u) = saved_stack_pointer (tcbs s2 u) \<and> stack_low (tcbs s' u) = stack_low (tcbs s2 u) \<and>
        stack_high (tcbs s' u) = stack_high (tcbs s2 u) \<and> slot_state (tcbs s' u) = slot_state (tcbs s2 u)"
    proof (rule bridge_complete_law [OF inv2 plan2, of "from" to st2])
      show "sp_active (switch_plan s2)" "current_task s2 = Some from" "sp_to (switch_plan s2) = Some to" by (simp_all add: f2 p_def to(1))
      show "frame_fits cfg s2 from (saved_stack_pointer (tcbs s2 from))" "frame_fits cfg s2 to (saved_stack_pointer (tcbs s2 to))"
        using fit ne by (simp_all add: frame_fits_def f2)
      show "rts_stack_guard_is_valid cfg (Some from) s2" "rts_stack_guard_is_valid cfg (Some to) s2" by (rule guard, fact)+
      show "kernel st2 = s2" by (simp add: st2_def)
      show "switch_handoff st2 = \<lparr>sh_from = Some from, sh_to = Some to,
          sh_snapshot = \<lparr>ss_from = Some from, ss_to = Some to, ss_generation = sp_generation (switch_plan s2)\<rparr>,
          sh_outgoing_saved_stack_pointer = saved_stack_pointer (tcbs s2 from), sh_incoming_saved_stack_pointer = saved_stack_pointer (tcbs s2 to)\<rparr>"
        by (simp add: st2_def f2)
    qed blast
    define st' where "st' = st2\<lparr>kernel := s', primask := False\<rparr>"
    note A = bridge_acquire_law [OF ok inv plan True [unfolded s_def] act fit(1) [unfolded s_def] cur [unfolded s_def] to(1) [unfolded s_def],
        where m = m and b = True, folded s_def, folded p_def]
    define h where "h = \<lparr>sh_from = Some from, sh_to = Some to,
        sh_snapshot = \<lparr>ss_from = Some from, ss_to = Some to, ss_generation = sp_generation (switch_plan s)\<rparr>,
        sh_outgoing_saved_stack_pointer = sp, sh_incoming_saved_stack_pointer = saved_stack_pointer (tcbs s to)\<rparr>"
    have h: "sh_from h = Some from" "sh_to h = Some to" by (simp_all add: h_def)
    have st2: "(upd_kernel (upd_tcb from (\<lambda>x. x\<lparr>saved_stack_pointer := sp\<rparr>))
        (st\<lparr>primask := True, kernel := s\<lparr>bytes := m, switch_plan := p\<rparr>, switch_handoff := h\<rparr>))
        \<lparr>r4_r11 := snd (ldmia (saved_stack_pointer (tcbs s to)) m), psp := fst (ldmia (saved_stack_pointer (tcbs s to)) m)\<rparr> = st2"
      by (rule cm4f.equality) (simp_all add: st2_def upd_kernel_def s2_def [symmetric] h_def f2 ne, simp add: p_def)
    have "PendSV_Handler cfg RTS_CM4F_EXC_RETURN_THREAD_PSP_BASIC st = Inr st'"
      using A [folded h_def] st s'(1) ne st2 h
      by (simp add: PendSV_Handler_def upd_kernel_def s_def [symmetric] Let_def s2_def [symmetric] f2 case_prod_beta st'_def)
    moreover have "contexts_ok cfg st' \<and> (\<forall>t. live cfg s t \<longrightarrow> task_context st' t = task_context st t)"
    proof -
      note K = contexts_kept [OF ok D(2) [unfolded s_def] cur [unfolded s_def] st [unfolded s_def], of st' to, folded s_def]
      show ?thesis
        using ne to(2) by (intro conjI allI impI K) (simp_all add: st'_def st2_def s' f2)
    qed
    ultimately show ?thesis
      using s' to(1) True by (intro that [of st']) (simp_all add: st'_def plan_target_def s_def)
  qed
qed

end
