(* ===== verification/Boot_Laws.thy ===== *)
theory Boot_Laws
  imports Task_Laws Kernel_Boot
begin

text \<open>
  Initialisation, task creation and start (\<^verbatim>\<open>scheduler_init.c\<close>, \<^verbatim>\<open>task_create.c\<close>, \<^verbatim>\<open>scheduler_start.c\<close>)
  establish the scheduling invariant. \<open>boot_inv\<close> is the invariant between initialisation and start.
\<close>

section \<open>Initialising zeroed memory\<close>

lemma zero_mem_fields [simp]:
  "node_at zero_mem = (\<lambda>_. \<lparr>nd_previous = None, nd_next = None, nd_owner = None, nd_object = None\<rparr>)"
  "list_at zero_mem = (\<lambda>_. \<lparr>ls_head = None, ls_tail = None, ls_count = 0\<rparr>)"
  by (simp_all add: zero_mem_def)

lemma zero_mem_views [simp]: "nodes_of zero_mem = (\<lambda>_. [])" "ready_q cfg zero_mem = []" "delay_q zero_mem = []" "timer_q zero_mem = []"
  by (simp_all add: zero_mem_nodes ready_q_def delay_q_def timer_q_def)

lemma write_zero [simp]:
  "write_node n (\<lambda>_. \<lparr>nd_previous = None, nd_next = None, nd_owner = None, nd_object = None\<rparr>) zero_mem = zero_mem"
  "write_node n (\<lambda>x. x\<lparr>nd_previous := None, nd_next := None, nd_owner := None\<rparr>) zero_mem = zero_mem"
  "write_list l (\<lambda>_. \<lparr>ls_head = None, ls_tail = None, ls_count = 0\<rparr>) zero_mem = zero_mem"
  by (simp_all add: write_node_def write_list_def zero_mem_def fun_eq_iff)

lemma initialize_zero [simp]:
  "rts_list_initialize cfg (Some l) zero_mem = Inr zero_mem" "rts_list_node_initialize cfg (Some n) zero_mem = Inr zero_mem"
  by (simp_all add: rts_list_initialize_def rts_list_node_initialize_def)

lemma on_lmem_id: "f (lmem s) = Inr (lmem s) \<Longrightarrow> on_lmem f s = Inr s"
  by (simp add: on_lmem_def)

definition reset_timer :: "nat \<Rightarrow> rts_timer" where
  "reset_timer i = zero_timer\<lparr>tm_slot_index := i, tm_mode := RTS_TIMER_ONE_SHOT,
     tm_state := RTS_TIMER_UNINITIALIZED, tm_callback_state := RTS_TIMER_CALLBACK_IDLE, tm_slot_state := RTS_TIMER_SLOT_FREE\<rparr>"

lemma timer_object_reset_zero:
  assumes "lmem s = zero_mem"
  shows "rts_timer_object_reset cfg i i s = Inr (s\<lparr>timers := (timers s)(i := reset_timer i)\<rparr>)"
  using assms by (simp add: rts_timer_object_reset_def upd_timer_def upd_lmem_def on_lmem_def reset_timer_def Let_def)

lemma timer_reset_loop:
  assumes "lmem s = zero_mem"
  shows "\<exists>ts. for_loop (\<lambda>i. rts_timer_object_reset cfg i i) is s = Inr (s\<lparr>timers := ts\<rparr>) \<and>
    (\<forall>i \<in> set is. ts i = reset_timer i) \<and> (\<forall>i. i \<notin> set is \<longrightarrow> ts i = timers s i)"
  using assms
proof (induction "is" arbitrary: s)
  case Nil
  then show ?case by (auto intro: exI [of _ "timers s"])
next
  case (Cons i "is")
  obtain ts where "for_loop (\<lambda>i. rts_timer_object_reset cfg i i) is (s\<lparr>timers := (timers s)(i := reset_timer i)\<rparr>) =
      Inr (s\<lparr>timers := ts\<rparr>)" "\<forall>j \<in> set is. ts j = reset_timer j"
    "\<forall>j. j \<notin> set is \<longrightarrow> ts j = ((timers s)(i := reset_timer i)) j"
    using Cons.IH [of "s\<lparr>timers := (timers s)(i := reset_timer i)\<rparr>"] Cons.prems by auto
  with timer_object_reset_zero [OF Cons.prems, of cfg i] show ?case by (intro exI [of _ ts]) auto
qed

lemma timer_manager_initialize_zero:
  assumes "lmem s = zero_mem"
  obtains ts where "rts_timer_manager_initialize cfg s = Inr (s\<lparr>timers := ts,
      callback_queue := rts_timer_callback_queue_initialize cfg (callback_queue s), tm_allocated_count := 0, tm_next_free_hint := 0\<rparr>)"
    and "\<And>i. i < RTS_MAX_TIMERS cfg \<Longrightarrow> ts i = reset_timer i"
  using timer_reset_loop [OF assms, of cfg "[0..<RTS_MAX_TIMERS cfg]"] assms that
  by (auto simp: rts_timer_manager_initialize_def rts_timer_queue_initialize_def on_lmem_id)

lemma pool_initialize_zero:
  assumes "\<And>t. tcbs s t = zero_tcb" and "allocated_count s = 0" and "next_free_hint s = 0"
  shows "rts_task_pool_initialize cfg s = s"
proof -
  have "set_slot_state i RTS_TASK_SLOT_FREE s = s" for i
  proof -
    have "(tcbs s)(App i := (tcbs s (App i))\<lparr>slot_state := RTS_TASK_SLOT_FREE\<rparr>) = tcbs s"
      using assms(1) by (auto simp: fun_eq_iff zero_tcb_def)
    then show ?thesis by (simp add: set_slot_state_def upd_tcb_def)
  qed
  then have "fold (\<lambda>i. set_slot_state i RTS_TASK_SLOT_FREE) is s = s" for "is" by (induction "is") simp_all
  then show ?thesis using assms(2,3) by (simp add: rts_task_pool_initialize_def)
qed

lemma policy_initialize_zero:
  assumes "lmem s = zero_mem" and "policy_release_sequence s = 0" and "ready_bitmap s = replicate (RTS_READY_BITMAP_WORDS cfg) 0"
  shows "rts_policy_initialize cfg s = Inr s"
proof -
  have s: "s\<lparr>policy_release_sequence := 0\<rparr> = s" "s\<lparr>ready_bitmap := replicate (RTS_READY_BITMAP_WORDS cfg) 0\<rparr> = s"
    by (subst assms(2,3) [symmetric], simp)+
  have "for_loop (\<lambda>p. on_lmem (rts_list_initialize cfg (Some (Ready_List p)))) is s = Inr s" for "is"
    by (induction "is") (simp_all add: on_lmem_id assms(1))
  then show ?thesis
    by (cases "RTS_POLICY cfg") (simp_all add: rts_policy_initialize_def s rts_policy_fp_initialize_def rts_policy_rms_initialize_def
        rts_policy_edf_initialize_def rts_ready_initialize_def on_lmem_id assms(1))
qed

lemma clear_task_nodes_zero:
  "lmem s = zero_mem \<Longrightarrow> wmem s = zero_mem \<Longrightarrow> omem s = zero_mem \<Longrightarrow> clear_task_nodes cfg t s = Inr s"
  by (simp add: clear_task_nodes_def on_lmem_id)

section \<open>Initialisation\<close>

text \<open>The state at reset: static storage is zero and the kernel is not running.\<close>

definition cold :: "rts_kernel_state \<Rightarrow> bool" where
  "cold s \<longleftrightarrow> lifecycle s = RTS_KERNEL_RESET \<and> \<not> in_isr s \<and> lmem s = zero_mem \<and> wmem s = zero_mem \<and> omem s = zero_mem"

definition image_ok :: "rts_config \<Rightarrow> rts_image \<Rightarrow> bool" where
  "image_ok cfg im \<longleftrightarrow> im_idle_stack im \<noteq> 0 \<and> im_idle_entry im \<noteq> 0 \<and> im_service_stack im \<noteq> 0 \<and> im_service_entry im \<noteq> 0 \<and>
     unat (im_idle_stack im) + RTS_IDLE_STACK_SIZE_BYTES cfg < 2 ^ 32 \<and>
     unat (im_service_stack im) + RTS_TIMER_SERVICE_STACK_SIZE_BYTES cfg < 2 ^ 32"

text \<open>A port that accepts a stack returns a saved stack pointer.\<close>

definition accepts_stack :: "rts_port \<Rightarrow> uintptr \<Rightarrow> nat \<Rightarrow> uintptr \<Rightarrow> uintptr \<Rightarrow> bool" where
  "accepts_stack pt stack size_bytes task_entry arg \<longleftrightarrow> (\<forall>b. let r = fst (pt_stack_initialize pt stack size_bytes task_entry arg b) in
     psr_status r = RTS_STATUS_OK \<and> psr_saved_stack_pointer r \<noteq> 0)"

definition port_boots :: "rts_config \<Rightarrow> rts_port \<Rightarrow> rts_image \<Rightarrow> bool" where
  "port_boots cfg pt im \<longleftrightarrow> pt_initialize pt = RTS_STATUS_OK \<and>
     accepts_stack pt (im_service_stack im) (RTS_TIMER_SERVICE_STACK_SIZE_BYTES cfg) (im_service_entry im) 0 \<and>
     accepts_stack pt (im_idle_stack im) (RTS_IDLE_STACK_SIZE_BYTES cfg) (im_idle_entry im) 0"

definition plan_clear :: "rts_switch_plan \<Rightarrow> bool" where
  "plan_clear p \<longleftrightarrow> \<not> sp_pending p \<and> \<not> sp_active p \<and> \<not> sp_reselection_required p \<and> sp_from p = None \<and> sp_to p = None"

definition boot_inv :: "rts_config \<Rightarrow> rts_kernel_state \<Rightarrow> bool" where
  "boot_inv cfg s \<longleftrightarrow> links_inv cfg s \<and> tasks_inv cfg s \<and> pool_inv cfg s \<and> lifecycle s = RTS_KERNEL_INITIALIZED \<and>
     current_task s = None \<and> \<not> in_isr s \<and> delay_q (lmem s) = [] \<and> wmem s = zero_mem \<and> omem s = zero_mem \<and>
     (\<forall>t. live cfg s t \<longrightarrow> priority (tcbs s t) = base_priority (tcbs s t) \<and> wait_result (tcbs s t) = RTS_WAIT_RESULT_NONE) \<and> plan_clear (switch_plan s) \<and>
     task_state (tcbs s Service) = RTS_TASK_STATE_BLOCKED \<and> cq_count (callback_queue s) = 0 \<and>
     (\<forall>t. slot_state (tcbs s t) \<noteq> RTS_TASK_SLOT_ALLOCATED \<longrightarrow>
        slot_state (tcbs s t) = RTS_TASK_SLOT_FREE \<and> priority (tcbs s t) = RTS_IDLE_PRIORITY)"

lemma init_kernel_stack_ok:
  assumes "accepts_stack pt stack n e 0"
  obtains sp b where "init_kernel_stack cfg pt t stack n e s = (Some sp, s\<lparr>bytes := b\<rparr>)" and "sp \<noteq> 0"
proof -
  let ?r = "pt_stack_initialize pt stack n e 0 (rts_stack_diagnostics_prepare cfg (stack_low (tcbs s t)) (stack_high (tcbs s t)) (bytes s))"
  have "psr_status (fst ?r) = RTS_STATUS_OK" "psr_saved_stack_pointer (fst ?r) \<noteq> 0"
    using assms by (simp_all add: accepts_stack_def Let_def)
  then show ?thesis
    by (intro that [of "psr_saved_stack_pointer (fst ?r)" "snd ?r"]) (simp_all add: init_kernel_stack_def Let_def case_prod_unfold)
qed

lemma stack_range:
  assumes "unat low + n < 2 ^ 32" and "0 < n" and "low \<noteq> (0 :: uintptr)"
  shows "low < low + of_nat n" and "low + of_nat n \<noteq> 0"
proof -
  have u: "unat (low + of_nat n) = unat low + n"
    using assms(1) by (simp add: unat_word_ariths unat_of_nat)
  then show "low < low + of_nat n" using assms(2) by (simp add: word_less_nat_alt)
  show "low + of_nat n \<noteq> 0" using u assms(2) by (metis add_is_0 less_not_refl unsigned_0)
qed

text \<open>The two kernel tasks after their initialisation.\<close>

definition idle_tcb :: "rts_config \<Rightarrow> rts_image \<Rightarrow> uintptr \<Rightarrow> rts_tcb" where
  "idle_tcb cfg im sp = zero_tcb\<lparr>saved_stack_pointer := sp, stack_low := im_idle_stack im,
     stack_high := im_idle_stack im + of_nat (RTS_IDLE_STACK_SIZE_BYTES cfg), entry := im_idle_entry im,
     slice_remaining := RTS_TIME_SLICE_TICKS cfg, slot_state := RTS_TASK_SLOT_ALLOCATED\<rparr>"

definition service_tcb :: "rts_config \<Rightarrow> rts_image \<Rightarrow> uintptr \<Rightarrow> rts_tcb" where
  "service_tcb cfg im sp = zero_tcb\<lparr>saved_stack_pointer := sp, stack_low := im_service_stack im,
     stack_high := im_service_stack im + of_nat (RTS_TIMER_SERVICE_STACK_SIZE_BYTES cfg), entry := im_service_entry im,
     wait_reason := RTS_WAIT_TIMER_SERVICE, slice_remaining := RTS_TIME_SLICE_TICKS cfg,
     base_priority := of_nat (RTS_TIMER_SERVICE_PRIORITY cfg), priority := of_nat (RTS_TIMER_SERVICE_PRIORITY cfg),
     period := 1, relative_deadline := 1, task_state := RTS_TASK_STATE_BLOCKED, slot_state := RTS_TASK_SLOT_ALLOCATED,
     validation_magic := (if RTS_ENABLE_ASSERTIONS cfg then RTS_TASK_VALIDATION_MAGIC else 0)\<rparr>"

lemma kernel_tcb_static:
  assumes "config_ok cfg" and "image_ok cfg im" and "sp \<noteq> 0"
  shows "task_static cfg Service (service_tcb cfg im sp)"
    and "task_static cfg Idle ((idle_tcb cfg im sp)\<lparr>task_state := st, validation_magic := (if RTS_ENABLE_ASSERTIONS cfg then RTS_TASK_VALIDATION_MAGIC else 0)\<rparr>)"
proof -
  have c: "RTS_TIMER_SERVICE_PRIORITY cfg < RTS_PRIORITY_COUNT cfg" "RTS_PRIORITY_COUNT cfg \<le> 256" "1 \<le> RTS_TIMER_SERVICE_PRIORITY cfg"
    "0 < RTS_IDLE_STACK_SIZE_BYTES cfg" "0 < RTS_TIMER_SERVICE_STACK_SIZE_BYTES cfg"
    using assms(1) by (simp_all add: config_ok_def rts_types_checks_def config_internal_checks_def)
  have u: "unat (of_nat (RTS_TIMER_SERVICE_PRIORITY cfg) :: rts_priority) = RTS_TIMER_SERVICE_PRIORITY cfg"
    using c by (intro unat_of_nat_u8) simp
  then have p: "(of_nat (RTS_TIMER_SERVICE_PRIORITY cfg) :: rts_priority) \<noteq> 0" using c(3) by (metis not_one_le_zero unsigned_0)
  show "task_static cfg Service (service_tcb cfg im sp)"
    using assms c p stack_range [of "im_service_stack im" "RTS_TIMER_SERVICE_STACK_SIZE_BYTES cfg"]
    by (simp add: task_static_def service_tcb_def image_ok_def u RTS_IDLE_PRIORITY_def)
  show "task_static cfg Idle ((idle_tcb cfg im sp)\<lparr>task_state := st, validation_magic := (if RTS_ENABLE_ASSERTIONS cfg then RTS_TASK_VALIDATION_MAGIC else 0)\<rparr>)"
    using assms c stack_range [of "im_idle_stack im" "RTS_IDLE_STACK_SIZE_BYTES cfg"]
    by (simp add: task_static_def idle_tcb_def image_ok_def RTS_IDLE_PRIORITY_def zero_tcb_def)
qed

text \<open>The state after the timer manager, the pool, the policy and the delay queue are initialised.\<close>

definition reset_state :: "rts_config \<Rightarrow> rts_image \<Rightarrow> (nat \<Rightarrow> rts_timer) \<Rightarrow> rts_kernel_state \<Rightarrow> rts_kernel_state" where
  "reset_state cfg im ts s = (zero_kernel cfg im s)\<lparr>timers := ts,
     callback_queue := rts_timer_callback_queue_initialize cfg (callback_queue s), tm_allocated_count := 0, tm_next_free_hint := 0\<rparr>"

lemma zero_kernel_zero:
  assumes "cold s"
  shows "lmem (zero_kernel cfg im s) = zero_mem" and "wmem (zero_kernel cfg im s) = zero_mem" and "omem (zero_kernel cfg im s) = zero_mem"
  using assms by (simp_all add: zero_kernel_def cold_def zero_mem_def zero_node_def zero_list_def fun_eq_iff)

lemma restore_reset_cold:
  assumes "cold s"
  obtains ts where "rts_kernel_restore_reset cfg im s = Inr (reset_state cfg im ts s)"
    and "\<And>i. i < RTS_MAX_TIMERS cfg \<Longrightarrow> ts i = reset_timer i"
  by (rule timer_manager_initialize_zero [OF zero_kernel_zero(1) [OF assms]])
    (auto intro!: that simp: rts_kernel_restore_reset_def reset_state_def zero_kernel_def)

lemma reset_state_fields:
  assumes "cold s"
  shows "lmem (reset_state cfg im ts s) = zero_mem" and "wmem (reset_state cfg im ts s) = zero_mem"
    and "omem (reset_state cfg im ts s) = zero_mem" and "tcbs (reset_state cfg im ts s) = (\<lambda>_. zero_tcb)"
    and "ready_bitmap (reset_state cfg im ts s) = replicate (RTS_READY_BITMAP_WORDS cfg) 0"
    and "policy_release_sequence (reset_state cfg im ts s) = 0" and "allocated_count (reset_state cfg im ts s) = 0"
    and "next_free_hint (reset_state cfg im ts s) = 0" and "current_task (reset_state cfg im ts s) = None"
    and "\<not> in_isr (reset_state cfg im ts s)" and "plan_clear (switch_plan (reset_state cfg im ts s))"
    and "cq_count (callback_queue (reset_state cfg im ts s)) = 0" and "current_tick (reset_state cfg im ts s) = 0"
    and "timers (reset_state cfg im ts s) = ts"
  using assms zero_kernel_zero [OF assms, of cfg im]
  by (simp_all add: reset_state_def zero_kernel_def plan_clear_def rts_timer_callback_queue_initialize_def cold_def)

text \<open>The kernel tasks are initialised; the idle task is not yet ready.\<close>

definition tasks_state :: "rts_config \<Rightarrow> rts_image \<Rightarrow> uintptr \<Rightarrow> uintptr \<Rightarrow> byte_mem \<Rightarrow> rts_kernel_state \<Rightarrow> rts_kernel_state" where
  "tasks_state cfg im sp sp' b s = s\<lparr>tcbs := (\<lambda>_. zero_tcb)(Service := service_tcb cfg im sp, Idle := idle_tcb cfg im sp'),
     timer_service_task := Some Service, bytes := b\<rparr>"

lemma service_initialize_zero:
  assumes "lmem s = zero_mem" and "wmem s = zero_mem" and "omem s = zero_mem" and "tcbs s = (\<lambda>_. zero_tcb)"
  shows "rts_timer_service_object_initialize cfg im s =
    Inr (s\<lparr>tcbs := (tcbs s)(Service := service_tcb cfg im 0), timer_service_task := Some Service\<rparr>)"
  using clear_task_nodes_zero [OF assms(1-3), of cfg Service] assms(4)
  by (simp add: rts_timer_service_object_initialize_def clear_task_diagnostics_def upd_tcb_def service_tcb_def zero_tcb_def Let_def)

lemma idle_initialize_zero:
  assumes "lmem s = zero_mem" and "wmem s = zero_mem" and "omem s = zero_mem" and "tcbs s Idle = zero_tcb"
  shows "rts_idle_object_initialize cfg im s = Inr (s\<lparr>tcbs := (tcbs s)(Idle := idle_tcb cfg im 0)\<rparr>)"
  using clear_task_nodes_zero [OF assms(1-3), of cfg Idle] assms(4)
  by (simp add: rts_idle_object_initialize_def clear_task_diagnostics_def upd_tcb_def idle_tcb_def zero_tcb_def RTS_IDLE_PRIORITY_def Let_def)

lemma zero_links:
  assumes "config_ok cfg" and "lmem s = zero_mem" and "wmem s = zero_mem" and "omem s = zero_mem"
    and "ready_bitmap s = replicate (RTS_READY_BITMAP_WORDS cfg) 0"
  shows "links_inv cfg s"
proof -
  have "policy_inv cfg s"
    using assms by (auto simp: policy_inv_def edf_inv_def fp_inv_def ready_inv_def zero_mem_ok ready_bit_def)
  then show ?thesis using assms by (simp add: links_inv_def delay_wf_def timer_wf_def zero_mem_ok)
qed

text \<open>The ready structure of a state that differs from a well-formed one by ready nodes only.\<close>

lemma insert_idle:
  assumes cfg: "config_ok cfg" and s: "lmem s = zero_mem" "wmem s = zero_mem" "omem s = zero_mem"
    "ready_bitmap s = replicate (RTS_READY_BITMAP_WORDS cfg) 0" and i: "tcbs s Idle = idle_tcb cfg im sp"
  obtains m b where "rts_policy_insert cfg (Some Idle) s = Inr (True, (rts_policy_record_release Idle s)\<lparr>lmem := m, ready_bitmap := b\<rparr>)"
    and "links_inv cfg ((rts_policy_record_release Idle s)\<lparr>lmem := m, ready_bitmap := b\<rparr>)" and "ready_q cfg m = [Idle]"
    and "delay_q m = []" and "timer_q m = []"
proof -
  have links: "links_inv cfg s" by (rule zero_links [OF cfg s])
  have "insert_adm cfg Idle s" using cfg i
    by (simp add: insert_adm_def idle_tcb_def zero_tcb_def config_ok_def rts_types_checks_def)
  then obtain m b where m: "rts_policy_insert cfg (Some Idle) s = Inr (True, (rts_policy_record_release Idle s)\<lparr>lmem := m, ready_bitmap := b\<rparr>)"
    "policy_inv cfg ((rts_policy_record_release Idle s)\<lparr>lmem := m, ready_bitmap := b\<rparr>)" "ready_frame Idle (lmem s) m"
    "ready_q cfg m = [Idle]"
    using policy_insert_adm_law [OF links_invD(2) [OF links], of Idle] s(1) by auto
  have only: "ready_only (lmem s) m" using ready_frame_only [OF m(3)] .
  have "links_inv cfg ((rts_policy_record_release Idle s)\<lparr>lmem := m, ready_bitmap := b\<rparr>)"
    by (rule links_ready_only [OF links m(2)]) (use only s in \<open>simp_all add: rts_policy_record_release_def Let_def upd_tcb_def\<close>)
  with m ready_only_views [OF only] s(1) that show ?thesis by simp
qed

text \<open>The last writes of initialisation.\<close>

definition idle_made_ready :: "rts_config \<Rightarrow> rts_kernel_state \<Rightarrow> rts_kernel_state" where
  "idle_made_ready cfg s =
     (let s = upd_tcb Idle (\<lambda>x. x\<lparr>task_state := RTS_TASK_STATE_READY\<rparr>) s;
          s = (if RTS_ENABLE_ASSERTIONS cfg
               then upd_tcb Idle (\<lambda>x. x\<lparr>validation_magic := RTS_TASK_VALIDATION_MAGIC\<rparr>) s else s) in
      s\<lparr>idle_task := Some Idle, lifecycle := RTS_KERNEL_INITIALIZED\<rparr>)"

lemma idle_made_ready_inv:
  assumes cfg: "config_ok cfg" "image_ok cfg im" and sp: "sp \<noteq> 0" "sp' \<noteq> 0"
    and tcbs: "tcbs s = (\<lambda>_. zero_tcb)(Service := service_tcb cfg im sp, Idle := (idle_tcb cfg im sp')\<lparr>release_tick := a,
      absolute_deadline := d, release_sequence := e\<rparr>)"
    and links: "links_inv cfg s" and q: "ready_q cfg (lmem s) = [Idle]" "delay_q (lmem s) = []"
    and s: "timer_service_task s = Some Service" "wmem s = zero_mem" "omem s = zero_mem" "current_task s = None" "\<not> in_isr s"
      "plan_clear (switch_plan s)" "cq_count (callback_queue s) = 0" "allocated_count s = 0" "next_free_hint s = 0"
  shows "boot_inv cfg (idle_made_ready cfg s)"
proof -
  let ?s = "idle_made_ready cfg s"
  define x where "x = (idle_tcb cfg im sp')\<lparr>task_state := RTS_TASK_STATE_READY,
    validation_magic := (if RTS_ENABLE_ASSERTIONS cfg then RTS_TASK_VALIDATION_MAGIC else 0)\<rparr>"
  have t: "tcbs ?s = (\<lambda>_. zero_tcb)(Service := service_tcb cfg im sp, Idle := x\<lparr>release_tick := a, absolute_deadline := d, release_sequence := e\<rparr>)"
    by (simp add: idle_made_ready_def upd_tcb_def tcbs x_def idle_tcb_def zero_tcb_def Let_def)
  have f: "lmem ?s = lmem s" "wmem ?s = zero_mem" "omem ?s = zero_mem" "current_task ?s = None" "idle_task ?s = Some Idle"
    "timer_service_task ?s = Some Service" "lifecycle ?s = RTS_KERNEL_INITIALIZED" "switch_plan ?s = switch_plan s"
    "callback_queue ?s = callback_queue s" "in_isr ?s = in_isr s" "allocated_count ?s = 0" "next_free_hint ?s = 0" "ready_bitmap ?s = ready_bitmap s"
    using s by (simp_all add: idle_made_ready_def upd_tcb_def Let_def)
  have xs: "task_state x = RTS_TASK_STATE_READY" "not_waiting x" "slot_state x = RTS_TASK_SLOT_ALLOCATED" "base_priority x = 0"
    "priority x = 0" "wait_result x = RTS_WAIT_RESULT_NONE"
    by (simp_all add: x_def idle_tcb_def zero_tcb_def not_waiting_def)
  have vs: "task_state (service_tcb cfg im sp) = RTS_TASK_STATE_BLOCKED" "wait_reason (service_tcb cfg im sp) = RTS_WAIT_TIMER_SERVICE"
    "slot_state (service_tcb cfg im sp) = RTS_TASK_SLOT_ALLOCATED" "wait_object (service_tcb cfg im sp) = None"
    "\<not> timeout_active (service_tcb cfg im sp)" "wait_result (service_tcb cfg im sp) = RTS_WAIT_RESULT_NONE"
    "priority (service_tcb cfg im sp) = base_priority (service_tcb cfg im sp)"
    by (simp_all add: service_tcb_def zero_tcb_def)
  have z: "slot_state zero_tcb = RTS_TASK_SLOT_FREE" by (simp add: zero_tcb_def)
  have "task_static cfg Idle (x\<lparr>release_tick := a, absolute_deadline := d, release_sequence := e\<rparr>)"
    using kernel_tcb_static(2) [OF cfg sp(2), of RTS_TASK_STATE_READY] unfolding x_def [symmetric] by (auto simp: task_static_def)
  moreover have "task_static cfg Service (service_tcb cfg im sp)" by (rule kernel_tcb_static(1) [OF cfg sp(1)])
  ultimately have "task_ok cfg ?s u" for u
    by (cases u) (use xs vs z in \<open>simp_all add: task_ok_def live_def t f q s member_ok_def not_waiting_def\<close>)
  then have tasks: "tasks_inv cfg ?s" by (simp add: tasks_inv_def live_def t f xs vs)
  have "links_inv cfg ?s" by (rule links_cong [OF links]) (simp_all add: f s q t tcbs xs idle_tcb_def zero_tcb_def)
  moreover have "pool_inv cfg ?s" using cfg(1) by (simp add: pool_inv_def t f z config_ok_def rts_types_checks_def)
  moreover have "slot_state (tcbs ?s u) \<noteq> RTS_TASK_SLOT_ALLOCATED \<longrightarrow>
      slot_state (tcbs ?s u) = RTS_TASK_SLOT_FREE \<and> priority (tcbs ?s u) = RTS_IDLE_PRIORITY" for u
    by (cases u) (use xs vs in \<open>simp_all add: t zero_tcb_def RTS_IDLE_PRIORITY_def\<close>)
  moreover have "priority (tcbs ?s u) = base_priority (tcbs ?s u) \<and> wait_result (tcbs ?s u) = RTS_WAIT_RESULT_NONE" for u
    by (cases u) (use xs vs in \<open>simp_all add: t zero_tcb_def\<close>)
  ultimately show ?thesis using tasks s q vs by (simp add: boot_inv_def f t)
qed

lemma init_law:
  assumes cfg: "config_ok cfg" and im: "image_ok cfg im" and port: "port_boots cfg pt im" and cold: "cold s"
  obtains s' where "rts_init cfg pt im s = Inr (RTS_STATUS_OK, s')" and "boot_inv cfg s'"
    and "\<And>i. slot_state (tcbs s' (App i)) = RTS_TASK_SLOT_FREE" and "ready_q cfg (lmem s') = [Idle]" and "current_tick s' = 0"
    and "timer_q (lmem s') = []" and "\<And>i. i < RTS_MAX_TIMERS cfg \<Longrightarrow> timers s' i = reset_timer i"
proof -
  obtain ts where ts: "rts_kernel_restore_reset cfg im s = Inr (reset_state cfg im ts s)"
    "\<And>i. i < RTS_MAX_TIMERS cfg \<Longrightarrow> ts i = reset_timer i" by (rule restore_reset_cold [OF cold, of cfg im]) blast
  define s1 where "s1 = reset_state cfg im ts s"
  note F = reset_state_fields [OF cold, of cfg im ts, folded s1_def]
  have P: "pt_initialize pt = RTS_STATUS_OK"
    "accepts_stack pt (im_service_stack im) (RTS_TIMER_SERVICE_STACK_SIZE_BYTES cfg) (im_service_entry im) 0"
    "accepts_stack pt (im_idle_stack im) (RTS_IDLE_STACK_SIZE_BYTES cfg) (im_idle_entry im) 0"
    using port by (simp_all add: port_boots_def)
  have early: "rts_task_pool_initialize cfg s1 = s1" "rts_policy_initialize cfg s1 = Inr s1" "rts_delay_initialize cfg s1 = Inr s1"
    using pool_initialize_zero [of s1 cfg] policy_initialize_zero [of s1 cfg] F by (simp_all add: rts_delay_initialize_def on_lmem_id)
  define s2 where "s2 = s1\<lparr>tcbs := (tcbs s1)(Service := service_tcb cfg im 0), timer_service_task := Some Service\<rparr>"
  have s2: "rts_timer_service_object_initialize cfg im s1 = Inr s2"
    unfolding s2_def by (rule service_initialize_zero) (rule F(1-4))+
  obtain sp b where sp: "init_kernel_stack cfg pt Service (im_service_stack im) (RTS_TIMER_SERVICE_STACK_SIZE_BYTES cfg)
      (im_service_entry im) s2 = (Some sp, s2\<lparr>bytes := b\<rparr>)" "sp \<noteq> 0" by (rule init_kernel_stack_ok [OF P(2)])
  define s3 where "s3 = upd_tcb Service (\<lambda>x. x\<lparr>saved_stack_pointer := sp\<rparr>) (s2\<lparr>bytes := b\<rparr>)"
  define s4 where "s4 = s3\<lparr>tcbs := (tcbs s3)(Idle := idle_tcb cfg im 0)\<rparr>"
  have s4: "rts_idle_object_initialize cfg im s3 = Inr s4"
    unfolding s4_def by (rule idle_initialize_zero) (simp_all add: s3_def s2_def upd_tcb_def F)
  obtain sp' b' where sp': "init_kernel_stack cfg pt Idle (im_idle_stack im) (RTS_IDLE_STACK_SIZE_BYTES cfg)
      (im_idle_entry im) s4 = (Some sp', s4\<lparr>bytes := b'\<rparr>)" "sp' \<noteq> 0" by (rule init_kernel_stack_ok [OF P(3)])
  define s5 where "s5 = upd_tcb Idle (\<lambda>x. x\<lparr>saved_stack_pointer := sp'\<rparr>) (s4\<lparr>bytes := b'\<rparr>)"
  have s5: "s5 = tasks_state cfg im sp sp' b' s1"
    by (simp add: s5_def s4_def s3_def s2_def tasks_state_def upd_tcb_def F service_tcb_def idle_tcb_def fun_eq_iff)
  obtain m bm where m: "rts_policy_insert cfg (Some Idle) s5 = Inr (True, (rts_policy_record_release Idle s5)\<lparr>lmem := m, ready_bitmap := bm\<rparr>)"
    "links_inv cfg ((rts_policy_record_release Idle s5)\<lparr>lmem := m, ready_bitmap := bm\<rparr>)" "ready_q cfg m = [Idle]"
    "delay_q m = []" "timer_q m = []"
    by (rule insert_idle [OF cfg, of s5 im sp']) (simp_all add: s5 tasks_state_def F)
  define s6 where "s6 = (rts_policy_record_release Idle s5)\<lparr>lmem := m, ready_bitmap := bm\<rparr>"
  have t6: "\<exists>a d e. tcbs s6 = (\<lambda>_. zero_tcb)(Service := service_tcb cfg im sp, Idle := (idle_tcb cfg im sp')\<lparr>release_tick := a,
      absolute_deadline := d, release_sequence := e\<rparr>)"
    by (auto simp: s6_def s5 tasks_state_def rts_policy_record_release_def upd_tcb_def Let_def)
  have f6: "timer_service_task s6 = Some Service" "wmem s6 = zero_mem" "omem s6 = zero_mem" "current_task s6 = None" "\<not> in_isr s6"
      "plan_clear (switch_plan s6)" "cq_count (callback_queue s6) = 0" "allocated_count s6 = 0" "next_free_hint s6 = 0"
      "current_tick s6 = 0" "timers s6 = ts" "lmem s6 = m"
    by (simp_all add: s6_def s5 tasks_state_def rts_policy_record_release_def upd_tcb_def Let_def F)
  have inv: "boot_inv cfg (idle_made_ready cfg s6)"
    using t6 idle_made_ready_inv [OF cfg im sp(2) sp'(2), of s6] m(2-5) f6 unfolding s6_def [symmetric] by auto
  have "rts_init cfg pt im s = Inr (RTS_STATUS_OK, idle_made_ready cfg s6)"
    using cold ts(1) early s2 sp(1) s4 sp'(1) m(1) P(1)
    by (simp add: rts_init_def cold_def Let_def idle_made_ready_def flip: s1_def s3_def s5_def s6_def)
  moreover have "slot_state (tcbs (idle_made_ready cfg s6) (App i)) = RTS_TASK_SLOT_FREE" for i
    using t6 by (auto simp: idle_made_ready_def upd_tcb_def Let_def zero_tcb_def)
  ultimately show ?thesis
    using inv m(3,5) f6 ts(2) by (intro that [of "idle_made_ready cfg s6"]) (simp_all add: idle_made_ready_def upd_tcb_def Let_def)
qed

section \<open>Start\<close>

lemma boot_invD:
  assumes "boot_inv cfg s"
  shows "links_inv cfg s" and "tasks_inv cfg s" and "pool_inv cfg s" and "lifecycle s = RTS_KERNEL_INITIALIZED"
    and "current_task s = None" and "\<not> in_isr s" and "delay_q (lmem s) = []" and "wmem s = zero_mem" and "omem s = zero_mem"
    and "live cfg s t \<Longrightarrow> priority (tcbs s t) = base_priority (tcbs s t)" and "plan_clear (switch_plan s)"
    and "task_state (tcbs s Service) = RTS_TASK_STATE_BLOCKED" and "cq_count (callback_queue s) = 0"
    and "live cfg s t \<Longrightarrow> wait_result (tcbs s t) = RTS_WAIT_RESULT_NONE"
    and "slot_state (tcbs s t) \<noteq> RTS_TASK_SLOT_ALLOCATED \<Longrightarrow>
      slot_state (tcbs s t) = RTS_TASK_SLOT_FREE \<and> priority (tcbs s t) = RTS_IDLE_PRIORITY"
  using assms by (simp_all add: boot_inv_def)

lemma boot_sync: "boot_inv cfg s \<Longrightarrow> sync_inv cfg s"
  by (simp add: boot_inv_def sync_inv_def sync_struct_def wait_sorted_def inherits_def required_priority_def waits_for_def acyclic_def)

text \<open>The first task becomes the current one.\<close>

definition established :: "rts_config \<Rightarrow> task_ref \<Rightarrow> rts_kernel_state \<Rightarrow> rts_kernel_state" where
  "established cfg t s = (upd_tcb t (\<lambda>x. x\<lparr>task_state := RTS_TASK_STATE_RUNNING,
     slice_remaining := RTS_TIME_SLICE_TICKS cfg\<rparr>) s)\<lparr>current_task := Some t\<rparr>"

lemma established_tasks:
  assumes tasks: "tasks_inv cfg s" and cur: "current_task s = None" and t: "live cfg s t" "task_state (tcbs s t) = RTS_TASK_STATE_READY"
  shows "tasks_inv cfg (established cfg t s)"
proof -
  let ?s = "established cfg t s"
  note D = tasks_invD [OF tasks]
  have live: "live cfg ?s u = live cfg s u" for u by (simp add: live_def established_def upd_tcb_def)
  have "task_ok cfg ?s u" for u
    using D(5) [of u] t cur live [of u]
    by (cases "u = t") (auto simp: task_ok_def member_ok_def established_def upd_tcb_def not_waiting_def split: rts_task_state.splits)
  then show ?thesis using D live by (simp add: tasks_inv_def established_def upd_tcb_def)
qed

lemma established_links: "links_inv cfg s \<Longrightarrow> links_inv cfg (established cfg t s)"
  by (erule links_cong) (simp_all add: established_def upd_tcb_def)

lemma start_select:
  assumes inv: "boot_inv cfg s"
  shows "rts_start_preflight_is_coherent cfg s = Inr True"
    and "rts_scheduler_select_highest_ready cfg s = Inr (Some (head_ready cfg s))"
    and "task_state (tcbs s (head_ready cfg s)) = RTS_TASK_STATE_READY"
    and "rts_scheduler_task_is_runnable cfg (Some (head_ready cfg s)) s = Inr True"
proof -
  note B = boot_invD [OF inv] and H = head_ready_props [OF boot_invD(2) [OF inv]] and T = tasks_invD [OF boot_invD(2) [OF inv]]
  show "rts_scheduler_select_highest_ready cfg s = Inr (Some (head_ready cfg s))" using select_head [OF B(1,2)] B(4) by simp
  show r: "task_state (tcbs s (head_ready cfg s)) = RTS_TASK_STATE_READY"
    using H(4) running_iff_current [OF B(2) H(3)] B(5) by auto
  then show "rts_scheduler_task_is_runnable cfg (Some (head_ready cfg s)) s = Inr True" by (simp add: runnable_iff [OF B(1,2) H(3)])
  have d: "ls_count (list_at (lmem s) Delay_List) = 0"
    using mem_okD(2) [OF links_invD(7) [OF B(1)], of Delay_List] B(7) by (simp add: delay_q_def)
  have "task_state (tcbs s Idle) = RTS_TASK_STATE_READY"
    using ready_iff_state [OF B(2) T(3)] idle_ready [OF B(2)] running_iff_current [OF B(2) T(3)] B(5) by auto
  moreover have "rts_policy_validate cfg (Some Idle) True s = Inr True"
    using links_validate [OF B(1) live_adm [OF B(2) T(3)], of True] idle_ready [OF B(2)] by simp
  moreover have "wait_reason (tcbs s Service) \<noteq> RTS_WAIT_DELAY"
    using live_member [OF B(2) T(4)] B(12) by (auto simp: member_ok_def)
  then have "rts_scheduler_task_is_blocked_wait cfg (Some Service) s = Inr True"
    using blocked_wait_iff [OF B(1,2) T(4)] B(12) by simp
  ultimately show "rts_start_preflight_is_coherent cfg s = Inr True"
    using B T(1,2) d H(1) links_pick [OF B(1)]
    by (simp add: rts_start_preflight_is_coherent_def rts_scheduler_current_get_def plan_clear_def)
qed

lemma establish_law:
  assumes inv: "boot_inv cfg s"
  defines "h \<equiv> head_ready cfg s"
  shows "rts_scheduler_current_establish cfg (Some h) s = Inr (True, established cfg h s)"
    and "links_inv cfg (established cfg h s)" and "tasks_inv cfg (established cfg h s)"
proof -
  note B = boot_invD [OF inv] and S = start_select [OF inv] and H = head_ready_props [OF boot_invD(2) [OF inv]]
  show l: "links_inv cfg (established cfg h s)" by (rule established_links [OF B(1)])
  show t: "tasks_inv cfg (established cfg h s)"
    unfolding h_def by (rule established_tasks [OF B(2,5) H(3) S(3)])
  have "rts_scheduler_current_is_valid cfg (established cfg h s) = Inr True"
    using current_valid [OF l t, of h] B(4) by (simp add: established_def upd_tcb_def)
  then show "rts_scheduler_current_establish cfg (Some h) s = Inr (True, established cfg h s)"
    using B(4,5) S(2,3)
    by (simp add: rts_scheduler_current_establish_def rts_scheduler_current_get_def Let_def h_def flip: established_def)
qed

text \<open>The state in which the tick source is started, and the state in which the port is asked to start the first task.\<close>

definition starting :: "rts_config \<Rightarrow> rts_kernel_state \<Rightarrow> rts_kernel_state" where
  "starting cfg s =
     (let s = (established cfg (head_ready cfg s) s)\<lparr>lifecycle := RTS_KERNEL_RUNNING\<rparr>;
          s = rts_runtime_task_started cfg (rts_scheduler_current_get s) (current_tick s) s;
          s = diag_inc cfg scheduler_starts s in
      RTS_TRACE cfg RTS_TRACE_SCHEDULER_STARTED (ucast (priority (tcbs s (the (rts_scheduler_current_get s))))) 0 s)"

definition started :: "rts_config \<Rightarrow> bool \<Rightarrow> rts_kernel_state \<Rightarrow> rts_kernel_state" where
  "started cfg on s = (starting cfg s)\<lparr>tick_on := on\<rparr>"

lemma book_starting: "book cfg ((established cfg (head_ready cfg s) s)\<lparr>lifecycle := RTS_KERNEL_RUNNING\<rparr>) (starting cfg s)"
  unfolding starting_def Let_def by (rule book_trans [OF book_trans [OF book_steps(7) book_steps(1)] book_steps(3)])

lemma book_started: "book cfg ((established cfg (head_ready cfg s) s)\<lparr>lifecycle := RTS_KERNEL_RUNNING\<rparr>) (started cfg on s)"
  unfolding started_def by (rule book_trans [OF book_starting book_tick_on])

lemma tick_on_starting: "tick_on (starting cfg s) = tick_on s"
  by (simp add: starting_def Let_def RTS_TRACE_def diag_inc_def rts_runtime_task_started_def established_def upd_tcb_def split: option.split)

lemma starting_is_started: "starting cfg s = started cfg (tick_on s) s"
  unfolding started_def tick_on_starting [of cfg s, symmetric] by simp

lemma tick_on_started [simp]: "tick_on (started cfg on s) = on" "(started cfg on s)\<lparr>tick_on := on'\<rparr> = started cfg on' s"
  by (simp_all add: started_def)

lemma started_inv:
  assumes inv: "boot_inv cfg s"
  shows "sched_inv cfg base (started cfg on s)" and "plan_inv cfg (started cfg on s)" and "thread_ready (head_ready cfg s) (started cfg on s)"
proof -
  note B = boot_invD [OF inv] and E = establish_law [OF inv] and H = head_ready_props [OF boot_invD(2) [OF inv]]
  let ?h = "head_ready cfg s" and ?e = "(established cfg (head_ready cfg s) s)\<lparr>lifecycle := RTS_KERNEL_RUNNING\<rparr>"
  have same: "same_core cfg (established cfg ?h s) ?e" by simp
  have links: "links_inv cfg ?e" by (rule same_core_links [OF E(2) same])
  have tasks: "tasks_inv cfg ?e" by (rule same_core_tasks [OF E(3) same])
  have sync: "sync_inv cfg ?e"
    using boot_sync [OF inv] sync_cong [of ?e s cfg] by (simp add: established_def upd_tcb_def)
  have plan: "plan_wf cfg ?e" "plan_inv cfg ?e"
    using B(11) by (simp_all add: plan_inv_def plan_wf_def plan_clear_def plan_target_def established_def upd_tcb_def head_ready_def)
  have "delay_ordered base ?e" using B(7) by (simp add: delay_ordered_def established_def upd_tcb_def)
  with links tasks sync plan have s: "sched_inv cfg base ?e" by (simp add: sched_inv_def)
  note F = book_fields [OF book_started [of cfg s on]] and T = book_tcb [OF book_started [of cfg s on]]
  show "sched_inv cfg base (started cfg on s)" by (rule book_sched [OF book_started s])
  show "plan_inv cfg (started cfg on s)" by (rule book_plan_inv [OF book_started plan(2)])
  show "thread_ready ?h (started cfg on s)"
    using B(6,11) B(14) [OF H(3)] by (simp add: thread_ready_def F T plan_clear_def established_def upd_tcb_def)
qed

lemma start_returns:
  assumes inv: "boot_inv cfg s" and tick: "pt_tick_start pt (tick_on s) = (st, on)"
  shows "rts_start cfg pt s =
    (if st = RTS_STATUS_OK \<and> pt_start_first_task pt (started cfg on s) = RTS_STATUS_OK then Inr (RTS_STATUS_OK, started cfg on s)
     else bnd (rts_start_rollback cfg (started cfg (pt_tick_stop pt on) s)) (\<lambda>s. Inr (RTS_STATUS_PORT_ERROR, s)))"
proof -
  note B = boot_invD [OF inv] and S = start_select [OF inv] and E = establish_law [OF inv] and I = started_inv [OF inv]
  have "rts_scheduler_current_is_valid cfg (starting cfg s) = Inr True"
    using current_valid [OF sched_invD(1,2) [OF I(1)]] sched_running [OF I(1)] thread_readyD [OF I(3)]
    by (simp add: starting_is_started)
  then show ?thesis
    using B(4,5,6) S E(1) tick tick_on_starting [of cfg s] unfolding started_def starting_def
    by (simp add: rts_start_def Let_def)
qed

text \<open>Where the port cannot start, the kernel is back in the state before the call.\<close>

definition released :: "task_ref \<Rightarrow> rts_kernel_state \<Rightarrow> rts_kernel_state" where
  "released t s = (upd_tcb t (\<lambda>x. x\<lparr>task_state := RTS_TASK_STATE_READY\<rparr>)
     (s\<lparr>lifecycle := RTS_KERNEL_INITIALIZED\<rparr>))\<lparr>current_task := None\<rparr>"

lemma released_tasks:
  assumes tasks: "tasks_inv cfg s" and cur: "current_task s = Some t" and run: "task_state (tcbs s t) = RTS_TASK_STATE_RUNNING"
  shows "tasks_inv cfg (released t s)"
proof -
  let ?s = "released t s"
  note D = tasks_invD [OF tasks]
  have live: "live cfg ?s u = live cfg s u" for u by (simp add: live_def released_def upd_tcb_def)
  have "task_ok cfg ?s u" for u
    using D(5) [of u] cur run live [of u]
    by (cases "u = t") (auto simp: task_ok_def member_ok_def released_def upd_tcb_def not_waiting_def
        split: rts_task_state.splits rts_wait_reason.splits)
  then show ?thesis using D live by (simp add: tasks_inv_def released_def upd_tcb_def)
qed

lemma start_rollback_law:
  assumes inv: "boot_inv cfg s"
  shows "rts_start_rollback cfg (started cfg on s) = Inr (released (head_ready cfg s) (started cfg on s))"
    and "boot_inv cfg (released (head_ready cfg s) (started cfg on s))"
proof -
  let ?h = "head_ready cfg s" let ?s = "started cfg on s" let ?r = "released ?h ?s"
  note B = boot_invD [OF inv] and I = started_inv(1) [OF inv, where base = 0 and on = on] and R = thread_readyD [OF started_inv(3) [OF inv, of on]]
  have links: "links_inv cfg ?r"
    by (rule links_cong [OF sched_invD(1) [OF I]]) (simp_all add: released_def upd_tcb_def)
  have tasks: "tasks_inv cfg ?r" by (rule released_tasks [OF sched_invD(2) [OF I] R(1,2)])
  note Q = running_not_queued [OF I R(1,2)]
  have "live cfg ?r ?h" using Q(5) by (simp add: live_def released_def upd_tcb_def)
  then have v: "rts_policy_validate cfg (Some ?h) True ?r = Inr True"
    using links_validate [OF links live_adm [OF tasks], of ?h True] Q(1) by (simp add: released_def upd_tcb_def)
  have c: "rts_scheduler_current_is_valid cfg ?r = Inr True"
    by (simp add: rts_scheduler_current_is_valid_def rts_scheduler_current_get_def released_def upd_tcb_def)
  have "rts_scheduler_current_release_initial cfg (?s\<lparr>lifecycle := RTS_KERNEL_INITIALIZED\<rparr>) = Inr (True, ?r)"
    using R(1,2) v c by (simp add: rts_scheduler_current_release_initial_def rts_scheduler_current_get_def Let_def released_def)
  then show "rts_start_rollback cfg ?s = Inr ?r"
    using c by (simp add: rts_start_rollback_def rts_scheduler_current_get_def released_def)
  note F = book_fields [OF book_started [of cfg s on]] and T = book_tcb [OF book_started [of cfg s on]]
  have "slot_state (tcbs ?r u) = slot_state (tcbs s u)" for u by (simp add: released_def upd_tcb_def T established_def)
  then have p: "pool_inv cfg ?r"
    using B(3) book_fields(12) [OF book_started [of cfg s on]]
    by (simp add: pool_inv_def) (simp add: released_def upd_tcb_def rest_same_def established_def)
  have l: "live cfg ?r u \<longleftrightarrow> live cfg s u" for u by (simp add: live_def released_def upd_tcb_def T established_def)
  have "Service \<noteq> ?h" using B(12) start_select(3) [OF inv] by auto
  then show "boot_inv cfg ?r"
    using links tasks p B l by (simp add: boot_inv_def released_def upd_tcb_def F T established_def)
qed

end
