(* ===== verification/Task_Creation.thy ===== *)
theory Task_Creation
  imports Boot_Laws
begin

text \<open>
  Creating a task between initialisation and start (\<^verbatim>\<open>task_create.c\<close>): the invariant is kept, the new
  task is ready, and under the rate-monotonic policy every application task gets a new rank. A
  refusal by the port rolls everything back.
\<close>

section \<open>Inserting a new task into the policy\<close>

text \<open>What ranking may change of a task.\<close>

definition reranked :: "rts_config \<Rightarrow> task_ref \<Rightarrow> rts_tcb \<Rightarrow> rts_tcb \<Rightarrow> bool" where
  "reranked cfg t x y \<longleftrightarrow> tcb_core (y\<lparr>priority := 0, base_priority := 0\<rparr>) = tcb_core (x\<lparr>priority := 0, base_priority := 0\<rparr>) \<and>
     (priority y = priority x \<and> base_priority y = base_priority x \<or>
      is_app t \<and> base_priority y = priority y \<and> priority y \<noteq> RTS_IDLE_PRIORITY \<and> unat (priority y) < RTS_PRIORITY_COUNT cfg)"

lemma reranked_refl [simp]: "reranked cfg t x x"
  by (simp add: reranked_def)

lemma reranked_fields:
  assumes "reranked cfg t x y"
  shows "task_state y = task_state x" and "wait_reason y = wait_reason x" and "wait_result y = wait_result x"
    and "wait_object y = wait_object x" and "timeout_active y = timeout_active x" and "slot_state y = slot_state x"
    and "saved_stack_pointer y = saved_stack_pointer x" and "stack_low y = stack_low x" and "stack_high y = stack_high x"
    and "entry y = entry x" and "period y = period x" and "validation_magic y = validation_magic x"
  using assms tcb_core_fields [of "y\<lparr>priority := 0, base_priority := 0\<rparr>" "x\<lparr>priority := 0, base_priority := 0\<rparr>"]
  by (simp_all add: reranked_def)

lemma reranked_member: "reranked cfg t x y \<Longrightarrow> member_ok t y = member_ok t x"
  by (simp add: member_ok_def fun_eq_iff not_waiting_def reranked_fields [of cfg t x y] cong: rts_task_state.case_cong rts_wait_reason.case_cong)

lemma reranked_static: "reranked cfg t x y \<Longrightarrow> task_static cfg t x \<Longrightarrow> task_static cfg t y"
  using reranked_fields [of cfg t x y] by (cases t) (auto simp: task_static_def reranked_def)

lemma reranked_release:
  "reranked cfg u (tcbs s u) (tcbs (rts_policy_record_release t s) u)"
  by (cases "tcbs s u") (auto simp: reranked_def rts_policy_record_release_def upd_tcb_def Let_def tcb_core_def)

lemma reranked_assigned:
  assumes "config_ok cfg" and "RTS_POLICY cfg = RTS_POLICY_KIND_RMS" and "reranked cfg u x (tcbs s u)"
  shows "reranked cfg u x (rms_assigned cfg n is s u)"
proof (cases u)
  case (App i)
  with assms rms_rank_bounds [OF assms(1,2), of n s i] show ?thesis
    by (auto simp: reranked_def rms_assigned_def rms_tcb_def)
qed (use assms in \<open>simp_all add: rms_assigned_def\<close>)

lemma create_insert:
  assumes links: "links_inv cfg s" and t: "valid_task cfg t" "t \<notin> set (ready_q cfg (lmem s))" "is_app t"
    and x: "task_state (tcbs s t) = RTS_TASK_STATE_DORMANT" "RTS_POLICY cfg = RTS_POLICY_KIND_RMS \<Longrightarrow> period (tcbs s t) \<noteq> 0"
    and p: "\<And>i. i < RTS_MAX_TASKS cfg \<Longrightarrow> unat (priority (tcbs s (App i))) < RTS_PRIORITY_COUNT cfg"
  obtains s' where "rts_policy_insert cfg (Some t) s = Inr (True, s')" and "links_inv cfg s'"
    and "set (ready_q cfg (lmem s')) = insert t (set (ready_q cfg (lmem s)))"
    and "delay_q (lmem s') = delay_q (lmem s)" and "timer_q (lmem s') = timer_q (lmem s)"
    and "s' = s\<lparr>tcbs := tcbs s', lmem := lmem s', ready_bitmap := ready_bitmap s', policy_release_sequence := policy_release_sequence s'\<rparr>"
    and "\<And>u. reranked cfg u (tcbs s u) (tcbs s' u)"
    and "\<And>u. u \<noteq> t \<Longrightarrow> slot_state (tcbs s u) \<noteq> RTS_TASK_SLOT_ALLOCATED \<Longrightarrow> tcbs s' u = tcbs s u"
    and "\<And>u. RTS_POLICY cfg \<noteq> RTS_POLICY_KIND_RMS \<Longrightarrow> priority (tcbs s' u) = priority (tcbs s u)"
proof -
  note D = links_invD [OF links] and result = that
  let ?r = "rts_policy_record_release t s"
  have pt: "unat (priority (tcbs s t)) < RTS_PRIORITY_COUNT cfg" using p t(1,3) by (cases t) auto
  have inv: "policy_inv cfg ?r" by (rule policy_inv_cong [OF D(2)]) simp_all
  have r: "wmem ?r = wmem s" "omem ?r = omem s" "lmem ?r = lmem s" "\<And>u. u \<noteq> t \<Longrightarrow> tcbs ?r u = tcbs s u"
    by (simp_all add: rts_policy_record_release_def upd_tcb_def Let_def)
  have finish: thesis if m: "rts_policy_insert cfg (Some t) s = Inr (True, ?r\<lparr>tcbs := ts, lmem := m, ready_bitmap := b\<rparr>)"
    "policy_inv cfg (?r\<lparr>tcbs := ts, lmem := m, ready_bitmap := b\<rparr>)" "ready_only (lmem s) m"
    "set (ready_q cfg m) = insert t (set (ready_q cfg (lmem s)))" "\<And>u. reranked cfg u (tcbs s u) (ts u)"
    "\<And>u. u \<noteq> t \<Longrightarrow> slot_state (tcbs s u) \<noteq> RTS_TASK_SLOT_ALLOCATED \<Longrightarrow> ts u = tcbs s u"
    "\<And>u. RTS_POLICY cfg \<noteq> RTS_POLICY_KIND_RMS \<Longrightarrow> priority (ts u) = priority (tcbs s u)" for ts m b
  proof -
    let ?s = "?r\<lparr>tcbs := ts, lmem := m, ready_bitmap := b\<rparr>"
    show thesis
    proof (rule result [of ?s, OF m(1)])
      show "links_inv cfg ?s" by (rule links_ready_only [OF links m(2)]) (simp_all add: r m(3))
      show "?s = s\<lparr>tcbs := tcbs ?s, lmem := lmem ?s, ready_bitmap := ready_bitmap ?s, policy_release_sequence := policy_release_sequence ?s\<rparr>"
        by (simp add: rts_policy_record_release_def upd_tcb_def Let_def)
    qed (use m ready_only_views [OF m(3)] in simp_all)
  qed
  show thesis
  proof (cases "RTS_POLICY cfg = RTS_POLICY_KIND_RMS")
    case False
    have "insert_adm cfg t s" using False t pt by (simp add: insert_adm_def)
    then obtain m b where m: "rts_policy_insert cfg (Some t) s = Inr (True, ?r\<lparr>lmem := m, ready_bitmap := b\<rparr>)"
      "policy_inv cfg (?r\<lparr>lmem := m, ready_bitmap := b\<rparr>)" "ready_frame t (lmem s) m"
      "ready_q cfg m = stable_insert (policy_before cfg ?r) t (ready_q cfg (lmem s))"
      using policy_insert_adm_law [OF D(2), of t] t(2) by auto
    show thesis
      by (rule finish [where ts = "tcbs ?r" and m = m and b = b]) (use m ready_frame_only [OF m(3)] reranked_release r(4) in simp_all)
  next
    case True
    have "fp_inv cfg ?r" using inv True by (simp add: policy_inv_def)
    moreover have "\<forall>i < RTS_MAX_TASKS cfg. unat (priority (tcbs ?r (App i))) < RTS_PRIORITY_COUNT cfg" using p by simp
    ultimately obtain m b where m: "rts_policy_rms_assign_priorities cfg (Some t) ?r =
        Inr (?r\<lparr>tcbs := rms_assigned cfg (Some t) [0..<RTS_MAX_TASKS cfg] ?r, lmem := m, ready_bitmap := b\<rparr>)"
      "fp_inv cfg (?r\<lparr>tcbs := rms_assigned cfg (Some t) [0..<RTS_MAX_TASKS cfg] ?r, lmem := m, ready_bitmap := b\<rparr>)"
      "set (fp_order cfg (?r\<lparr>tcbs := rms_assigned cfg (Some t) [0..<RTS_MAX_TASKS cfg] ?r, lmem := m, ready_bitmap := b\<rparr>)) =
        set (fp_order cfg ?r)" "ready_only (lmem ?r) m"
      by (rule rms_assign_ok [OF _ True])
    define ts where "ts = rms_assigned cfg (Some t) [0..<RTS_MAX_TASKS cfg] ?r"
    let ?a = "?r\<lparr>tcbs := ts, lmem := m, ready_bitmap := b\<rparr>"
    note m = m [folded ts_def]
    have o: "fp_order cfg s' = ready_q cfg (lmem s')" for s' using True by (simp add: ready_q_def fp_order_def ready_tasks_def [abs_def])
    have rr: "reranked cfg u (tcbs s u) (ts u)" for u
      unfolding ts_def by (rule reranked_assigned [OF D(1) True reranked_release])
    have "unat (priority (ts t)) < RTS_PRIORITY_COUNT cfg" using rr [of t] pt by (auto simp: reranked_def)
    then have "fp_adm cfg t ?a" using t(1) by (simp add: fp_adm_def)
    moreover have "t \<notin> set (fp_order cfg ?a)" using m(3) t(2) by (simp add: o)
    ultimately obtain m' b' where m': "rts_policy_fp_insert cfg (Some t) ?a = Inr (True, ?a\<lparr>lmem := m', ready_bitmap := b'\<rparr>)"
      "fp_inv cfg (?a\<lparr>lmem := m', ready_bitmap := b'\<rparr>)" "ready_frame t (lmem ?a) m'"
      "fp_order cfg (?a\<lparr>lmem := m', ready_bitmap := b'\<rparr>) = stable_insert (fp_before ?a) t (fp_order cfg ?a)"
      using fp_insert_law [OF m(2)] by blast
    show thesis
    proof (rule finish [where ts = ts and m = m' and b = b'])
      show "rts_policy_insert cfg (Some t) s = Inr (True, ?r\<lparr>tcbs := ts, lmem := m', ready_bitmap := b'\<rparr>)"
        using True x m(1) m'(1) by (simp add: rts_policy_insert_def rts_policy_rms_insert_def Let_def)
      show "policy_inv cfg (?r\<lparr>tcbs := ts, lmem := m', ready_bitmap := b'\<rparr>)" using True m'(2) by (simp add: policy_inv_def)
      show "ready_only (lmem s) m'" using ready_only_trans [OF m(4), of m'] ready_frame_only [OF m'(3)] by simp
      show "set (ready_q cfg m') = insert t (set (ready_q cfg (lmem s)))" using m'(4) m(3) by (simp add: o)
      show "ts u = tcbs s u" if "u \<noteq> t" "slot_state (tcbs s u) \<noteq> RTS_TASK_SLOT_ALLOCATED" for u
        using that r(4) by (cases u) (auto simp: ts_def rms_assigned_def rms_included_def)
    qed (use rr True in simp_all)
  qed
qed

section \<open>Reservation and the new task\<close>

lemma reserve_explicit:
  assumes "pool_inv cfg s" and "i < RTS_MAX_TASKS cfg" and "slot_is_free s i"
  obtains j where "rts_task_pool_reserve cfg s =
      Inr (Some j, (set_slot_state j RTS_TASK_SLOT_RESERVED s)\<lparr>next_free_hint := next_slot (RTS_MAX_TASKS cfg) j\<rparr>)"
    and "j < RTS_MAX_TASKS cfg" and "slot_is_free s j"
proof -
  obtain j s' where j: "rts_task_pool_reserve cfg s = Inr (Some j, s')" "j < RTS_MAX_TASKS cfg" "slot_is_free s j"
    using pool_reserve_ok [OF assms] by blast
  with that show ?thesis
    by (auto simp: rts_task_pool_reserve_def rts_assert_def split: if_splits option.splits)
qed

definition created_tcb :: "rts_config \<Rightarrow> rts_task_config \<Rightarrow> rts_tcb \<Rightarrow> rts_tcb" where
  "created_tcb cfg c x = clear_task_diagnostics cfg (x\<lparr>
     saved_stack_pointer := 0, stack_low := tc_stack_buffer c,
     stack_high := tc_stack_buffer c + of_nat (tc_stack_size_bytes c),
     entry := tc_entry c, argument := tc_argument c,
     wait_reason := RTS_WAIT_NONE, wait_result := RTS_WAIT_RESULT_NONE, wake_tick := 0,
     wait_object := None, timeout_active := False, slice_remaining := RTS_TIME_SLICE_TICKS cfg,
     base_priority := tc_priority c, priority := tc_priority c, period := tc_period c,
     relative_deadline := tc_relative_deadline c, absolute_deadline := 0, release_tick := 0,
     execution_budget := tc_execution_budget c, release_sequence := 0, task_state := RTS_TASK_STATE_DORMANT\<rparr>)"

lemma created_tcb_fields [simp]:
  "stack_low (created_tcb cfg c x) = tc_stack_buffer c"
  "stack_high (created_tcb cfg c x) = tc_stack_buffer c + of_nat (tc_stack_size_bytes c)"
  "entry (created_tcb cfg c x) = tc_entry c" "wait_reason (created_tcb cfg c x) = RTS_WAIT_NONE"
  "wait_result (created_tcb cfg c x) = RTS_WAIT_RESULT_NONE" "wait_object (created_tcb cfg c x) = None"
  "\<not> timeout_active (created_tcb cfg c x)" "base_priority (created_tcb cfg c x) = tc_priority c"
  "priority (created_tcb cfg c x) = tc_priority c" "period (created_tcb cfg c x) = tc_period c"
  "task_state (created_tcb cfg c x) = RTS_TASK_STATE_DORMANT" "slot_state (created_tcb cfg c x) = slot_state x"
  by (simp_all add: created_tcb_def clear_task_diagnostics_def Let_def)

text \<open>A reserved slot: nothing but the slot state differs from a free one.\<close>

definition reserved :: "rts_config \<Rightarrow> nat \<Rightarrow> rts_kernel_state \<Rightarrow> rts_kernel_state" where
  "reserved cfg j s = (set_slot_state j RTS_TASK_SLOT_RESERVED s)\<lparr>next_free_hint := next_slot (RTS_MAX_TASKS cfg) j\<rparr>"

lemma free_slot_unlinked:
  assumes inv: "boot_inv cfg s" and j: "slot_is_free s j"
  shows "App j \<notin> set (ready_q cfg (lmem s))" and "rts_task_node_is_canonical_unlinked (Ready_Node (App j)) s"
    and "rts_task_node_is_canonical_unlinked (Delay_Node (App j)) s" and "wait_node_is_clear (App j) s"
proof -
  note B = boot_invD [OF inv] and D = links_invD [OF boot_invD(1) [OF inv]]
  have nl: "\<not> live cfg s (App j)" using j by (simp add: live_def slot_is_free_def)
  then show r: "App j \<notin> set (ready_q cfg (lmem s))" using queued_live(1) [OF B(2)] by blast
  then have ro: "ready_owner (App j) s = None" "delay_owner (App j) s = None"
    using ready_q_owner [OF B(1), of "App j"] delay_q_owner [OF B(1), of "App j"] B(7) by simp_all
  have ob: "nd_object (node_at (lmem s) (Ready_Node (App j))) = None" "nd_object (node_at (lmem s) (Delay_Node (App j))) = None"
    using ro D(2) delay_wfD(3) [OF D(3), of "App j"]
    by (auto simp: policy_inv_def edf_inv_def fp_inv_def ready_inv_def split: if_splits)
  with ro mem_okD(5,6) [OF D(7)] show "rts_task_node_is_canonical_unlinked (Ready_Node (App j)) s"
    "rts_task_node_is_canonical_unlinked (Delay_Node (App j)) s"
    by (simp_all add: rts_task_node_is_canonical_unlinked_def)
  show "wait_node_is_clear (App j) s" using B(8) by (simp add: wait_node_is_clear_def)
qed

lemma clear_unlinked_nodes:
  assumes "rts_task_node_is_canonical_unlinked (Ready_Node t) s" and "rts_task_node_is_canonical_unlinked (Delay_Node t) s"
    and "wmem s = zero_mem" and "omem s = zero_mem"
  shows "clear_task_nodes cfg t s = Inr s"
proof -
  have "write_node n (\<lambda>_. \<lparr>nd_previous = None, nd_next = None, nd_owner = None, nd_object = None\<rparr>) (lmem s) = lmem s"
    if "rts_task_node_is_canonical_unlinked n s" for n
    using that by (simp add: write_node_def rts_task_node_is_canonical_unlinked_def fun_upd_idem)
  with assms show ?thesis by (simp add: clear_task_nodes_def on_lmem_id rts_list_node_initialize_def)
qed

lemma object_initialize_law:
  assumes inv: "boot_inv cfg s" and j: "j < RTS_MAX_TASKS cfg" "slot_is_free s j"
    and c: "rts_task_descriptor_preconditions_hold cfg c"
  shows "rts_task_object_initialize cfg (Some (App j)) (Some c) RTS_KERNEL_INITIALIZED (reserved cfg j s) =
    Inr (RTS_STATUS_OK, upd_tcb (App j) (created_tcb cfg c) (reserved cfg j s))"
proof -
  let ?s = "reserved cfg j s"
  note U = free_slot_unlinked [OF inv j(2)] and B = boot_invD [OF inv]
  have f: "lmem ?s = lmem s" "wmem ?s = wmem s" "omem ?s = omem s" "slot_state (tcbs ?s (App j)) = RTS_TASK_SLOT_RESERVED"
    by (simp_all add: reserved_def set_slot_state_def upd_tcb_def)
  have u: "rts_task_node_is_canonical_unlinked (Ready_Node (App j)) ?s" "rts_task_node_is_canonical_unlinked (Delay_Node (App j)) ?s"
    "wait_node_is_clear (App j) ?s"
    using U(2-4) by (simp_all add: rts_task_node_is_canonical_unlinked_def wait_node_is_clear_def f)
  have "clear_task_nodes cfg (App j) ?s = Inr ?s" by (rule clear_unlinked_nodes [OF u(1,2)]) (simp_all add: f B)
  with u c j show ?thesis
    by (simp add: rts_task_object_initialize_def f pool_contains_iff Let_def created_tcb_def [abs_def])
qed

section \<open>Creation succeeds\<close>

lemma pool_inv_cong:
  assumes "pool_inv cfg s" and "next_free_hint s' = next_free_hint s" and "allocated_count s' = allocated_count s"
    and "\<And>u. slot_state (tcbs s' u) = slot_state (tcbs s u)"
  shows "pool_inv cfg s'"
  using assms by (simp add: pool_inv_def)

lemma book_boot:
  assumes "book cfg s s'" and "boot_inv cfg s"
  shows "boot_inv cfg s'"
proof -
  note F = book_fields [OF assms(1)] and T = book_tcb [OF assms(1)] and B = boot_invD [OF assms(2)]
  have "pool_inv cfg s'" by (rule pool_inv_cong [OF B(3)]) (use F(12) T(8) in \<open>simp_all add: rest_same_def\<close>)
  moreover have "links_inv cfg s'" by (rule book_links [OF assms(1) B(1)])
  moreover have "tasks_inv cfg s'" by (rule book_tasks [OF assms(1) B(2)])
  ultimately show ?thesis using B by (simp add: boot_inv_def F T)
qed

text \<open>The new task as the policy gets it, and the final writes behind the insertion.\<close>

definition prepared :: "rts_config \<Rightarrow> rts_task_config \<Rightarrow> nat \<Rightarrow> uintptr \<Rightarrow> byte_mem \<Rightarrow> rts_kernel_state \<Rightarrow> rts_kernel_state" where
  "prepared cfg c j sp b s = upd_tcb (App j) (\<lambda>x. x\<lparr>saved_stack_pointer := sp\<rparr>)
     ((upd_tcb (App j) (created_tcb cfg c) (reserved cfg j s))\<lparr>bytes := b\<rparr>)"

definition committed :: "rts_config \<Rightarrow> nat \<Rightarrow> rts_kernel_state \<Rightarrow> rts_kernel_state" where
  "committed cfg j s = (set_slot_state j RTS_TASK_SLOT_ALLOCATED
     (upd_tcb (App j) (\<lambda>x. x\<lparr>task_state := RTS_TASK_STATE_READY\<rparr>) s))\<lparr>allocated_count := allocated_count s + 1\<rparr>"

definition magic_set :: "rts_config \<Rightarrow> task_ref \<Rightarrow> rts_kernel_state \<Rightarrow> rts_kernel_state" where
  "magic_set cfg t s = (if RTS_ENABLE_ASSERTIONS cfg
     then upd_tcb t (\<lambda>x. x\<lparr>validation_magic := RTS_TASK_VALIDATION_MAGIC\<rparr>) s else s)"

lemma prepared_fields:
  "lmem (prepared cfg c j sp b s) = lmem s" "wmem (prepared cfg c j sp b s) = wmem s" "omem (prepared cfg c j sp b s) = omem s"
  "ready_bitmap (prepared cfg c j sp b s) = ready_bitmap s"
  "tcbs (prepared cfg c j sp b s) = (tcbs s)(App j :=
     (created_tcb cfg c ((tcbs s (App j))\<lparr>slot_state := RTS_TASK_SLOT_RESERVED\<rparr>))\<lparr>saved_stack_pointer := sp\<rparr>)"
  "idle_task (prepared cfg c j sp b s) = idle_task s" "timer_service_task (prepared cfg c j sp b s) = timer_service_task s"
  "current_task (prepared cfg c j sp b s) = current_task s" "lifecycle (prepared cfg c j sp b s) = lifecycle s"
  "in_isr (prepared cfg c j sp b s) = in_isr s" "switch_plan (prepared cfg c j sp b s) = switch_plan s"
  "callback_queue (prepared cfg c j sp b s) = callback_queue s" "allocated_count (prepared cfg c j sp b s) = allocated_count s"
  "next_free_hint (prepared cfg c j sp b s) = next_slot (RTS_MAX_TASKS cfg) j"
  by (simp_all add: prepared_def reserved_def set_slot_state_def upd_tcb_def)

lemma prepared_links:
  assumes "boot_inv cfg s" and "slot_is_free s j"
  shows "links_inv cfg (prepared cfg c j sp b s)"
  by (rule links_cong [OF boot_invD(1) [OF assms(1)]])
    (use free_slot_unlinked(1) [OF assms] in \<open>auto simp: prepared_fields\<close>)

lemma prepared_pool:
  assumes inv: "pool_inv cfg s" and j: "j < RTS_MAX_TASKS cfg" "slot_is_free s j"
  shows "pool_inv cfg (prepared cfg c j sp b s)"
proof -
  have "{i. i < RTS_MAX_TASKS cfg \<and> slot_state (tcbs (prepared cfg c j sp b s) (App i)) = RTS_TASK_SLOT_ALLOCATED} =
      {i. i < RTS_MAX_TASKS cfg \<and> slot_state (tcbs s (App i)) = RTS_TASK_SLOT_ALLOCATED}"
    using j(2) by (auto simp: slot_is_free_def prepared_def reserved_def set_slot_state_def upd_tcb_def)
  then show ?thesis using inv next_slot_less [OF j(1)] by (simp add: pool_inv_def prepared_fields)
qed

lemma created_static:
  assumes v: "rts_task_config_validate cfg pt (Some c) lc = Inr RTS_STATUS_OK" and sp: "sp \<noteq> 0"
    and r: "reranked cfg (App j) ((created_tcb cfg c x)\<lparr>saved_stack_pointer := sp\<rparr>) y"
  shows "task_static cfg (App j) (y\<lparr>task_state := a, slot_state := b,
    validation_magic := (if RTS_ENABLE_ASSERTIONS cfg then RTS_TASK_VALIDATION_MAGIC else validation_magic y)\<rparr>)"
proof -
  note C = config_validate_preconditions [OF v]
  have p: "tc_entry c \<noteq> 0" "tc_stack_buffer c \<noteq> 0" "0 < tc_stack_size_bytes c" "tc_priority c \<noteq> RTS_IDLE_PRIORITY"
    "unat (tc_priority c) < RTS_PRIORITY_COUNT cfg"
    using C(2) by (auto simp: rts_task_descriptor_preconditions_hold_def)
  note S = stack_range [OF C(3) p(3,2)]
  have "base_priority y \<le> priority y \<and> unat (priority y) < RTS_PRIORITY_COUNT cfg \<and> base_priority y \<noteq> RTS_IDLE_PRIORITY"
    using r p by (auto simp: reranked_def)
  then show ?thesis using S p C(6) sp reranked_fields [OF r] by (simp add: task_static_def)
qed

lemma committed_tasks:
  assumes inv: "boot_inv cfg s" and j: "j < RTS_MAX_TASKS cfg" and links: "links_inv cfg s4"
    and q: "set (ready_q cfg (lmem s4)) = insert (App j) (set (ready_q cfg (lmem s)))" "delay_q (lmem s4) = []"
    and f: "wmem s4 = zero_mem" "omem s4 = zero_mem" "idle_task s4 = idle_task s" "timer_service_task s4 = timer_service_task s"
      "current_task s4 = None"
    and r: "\<And>u. u \<noteq> App j \<Longrightarrow> reranked cfg u (tcbs s u) (tcbs s4 u)"
    and x: "not_waiting (tcbs s4 (App j))"
      "task_static cfg (App j) ((tcbs s4 (App j))\<lparr>task_state := RTS_TASK_STATE_READY, slot_state := RTS_TASK_SLOT_ALLOCATED,
        validation_magic := (if RTS_ENABLE_ASSERTIONS cfg then RTS_TASK_VALIDATION_MAGIC else validation_magic (tcbs s4 (App j)))\<rparr>)"
  shows "tasks_inv cfg (magic_set cfg (App j) (committed cfg j s4))"
proof -
  let ?s = "magic_set cfg (App j) (committed cfg j s4)" and ?t = "App j"
  note B = boot_invD [OF inv] and T = tasks_invD [OF boot_invD(2) [OF inv]]
  have g: "lmem ?s = lmem s4" "wmem ?s = zero_mem" "omem ?s = zero_mem" "current_task ?s = None" "idle_task ?s = idle_task s"
    "timer_service_task ?s = timer_service_task s"
    using f by (simp_all add: magic_set_def committed_def set_slot_state_def upd_tcb_def)
  have tn: "tcbs ?s u = tcbs s4 u" if "u \<noteq> ?t" for u
    using that by (simp add: magic_set_def committed_def set_slot_state_def upd_tcb_def)
  have tt: "tcbs ?s ?t = (tcbs s4 ?t)\<lparr>task_state := RTS_TASK_STATE_READY, slot_state := RTS_TASK_SLOT_ALLOCATED,
      validation_magic := (if RTS_ENABLE_ASSERTIONS cfg then RTS_TASK_VALIDATION_MAGIC else validation_magic (tcbs s4 ?t))\<rparr>"
    by (simp add: magic_set_def committed_def set_slot_state_def upd_tcb_def)
  have live: "live cfg ?s u = live cfg s u" if "u \<noteq> ?t" for u
    using reranked_fields(6) [OF r [OF that]] that by (simp add: live_def tn)
  have "task_ok cfg ?s u" for u
  proof (cases "u = ?t")
    case True
    have "live cfg ?s ?t" using j by (simp add: live_def tt)
    with True x show ?thesis using q by (simp add: task_ok_def tt g member_ok_def not_waiting_def)
  next
    case False
    note R = r [OF False]
    have m: "u \<in> set (ready_q cfg (lmem s4)) \<longleftrightarrow> u \<in> set (ready_q cfg (lmem s))" using q(1) False by auto
    show ?thesis
      using T(5) [of u] reranked_static [OF R] B(5,7,8,9)
      unfolding task_ok_def live [OF False] tn [OF False] g m q(2) reranked_member [OF R] by (simp split: if_splits)
  qed
  then show ?thesis using T live [of Idle] live [of Service] by (simp add: tasks_inv_def g)
qed

lemma committed_boot:
  assumes inv: "boot_inv cfg s" and j: "j < RTS_MAX_TASKS cfg" "slot_is_free s j" and links: "links_inv cfg s4"
    and s4: "s4 = (prepared cfg c j sp b s)\<lparr>tcbs := ts, lmem := m, ready_bitmap := bm, policy_release_sequence := n\<rparr>"
    and q: "set (ready_q cfg m) = insert (App j) (set (ready_q cfg (lmem s)))" "delay_q m = delay_q (lmem s)"
    and r: "\<And>u. reranked cfg u (tcbs (prepared cfg c j sp b s) u) (ts u)"
    and d: "\<And>u. u \<noteq> App j \<Longrightarrow> slot_state (tcbs s u) \<noteq> RTS_TASK_SLOT_ALLOCATED \<Longrightarrow> ts u = tcbs s u"
    and v: "rts_task_config_validate cfg pt (Some c) lc = Inr RTS_STATUS_OK" and sp: "sp \<noteq> 0"
  shows "boot_inv cfg (magic_set cfg (App j) (committed cfg j s4))" and "pool_inv cfg s4"
proof -
  let ?s = "magic_set cfg (App j) (committed cfg j s4)" and ?p = "prepared cfg c j sp b s"
  note B = boot_invD [OF inv] and P = prepared_fields [of cfg c j sp b s]
  have r': "reranked cfg u (tcbs s u) (ts u)" if "u \<noteq> App j" for u using r [of u] that by (simp add: P)
  have rt: "reranked cfg (App j) ((created_tcb cfg c ((tcbs s (App j))\<lparr>slot_state := RTS_TASK_SLOT_RESERVED\<rparr>))\<lparr>saved_stack_pointer := sp\<rparr>) (ts (App j))"
    using r [of "App j"] by (simp add: P)
  note R = reranked_fields [OF rt, simplified]
  have tasks: "tasks_inv cfg ?s"
  proof (rule committed_tasks [OF inv j(1) links])
    show "not_waiting (tcbs s4 (App j))" using R by (simp add: s4 not_waiting_def)
    show "task_static cfg (App j) ((tcbs s4 (App j))\<lparr>task_state := RTS_TASK_STATE_READY, slot_state := RTS_TASK_SLOT_ALLOCATED,
        validation_magic := (if RTS_ENABLE_ASSERTIONS cfg then RTS_TASK_VALIDATION_MAGIC else validation_magic (tcbs s4 (App j)))\<rparr>)"
      using created_static [OF v sp rt, of RTS_TASK_SLOT_ALLOCATED RTS_TASK_STATE_READY]
      unfolding s4 by (cases "RTS_ENABLE_ASSERTIONS cfg") simp_all
  qed (use q B r' in \<open>simp_all add: s4 P\<close>)
  have "slot_state (ts u) = slot_state (tcbs ?p u)" for u using reranked_fields(6) [OF r [of u]] .
  then show p4: "pool_inv cfg s4" using pool_inv_cong [OF prepared_pool [OF B(3) j, of c sp b], of s4] by (simp add: s4)
  define s5 where "s5 = upd_tcb (App j) (\<lambda>x. x\<lparr>task_state := RTS_TASK_STATE_READY\<rparr>) s4"
  have "slot_state (tcbs s5 (App j)) = RTS_TASK_SLOT_RESERVED" "pool_inv cfg s5" "allocated_count s5 = allocated_count s4"
    using R pool_inv_cong [OF p4, of s5] by (simp_all add: s5_def s4 upd_tcb_def)
  then have "pool_inv cfg (committed cfg j s4)"
    using pool_commit_ok(2) [of cfg s5 j] j(1) by (simp add: committed_def s5_def)
  then have pool: "pool_inv cfg ?s" by (rule pool_inv_cong) (simp_all add: magic_set_def upd_tcb_def)
  have l: "links_inv cfg ?s"
    by (rule links_cong [OF links]) (simp_all add: magic_set_def committed_def set_slot_state_def upd_tcb_def)
  have prio: "base_priority (ts u) = priority (ts u)" "wait_result (ts u) = RTS_WAIT_RESULT_NONE" if "u = App j \<or> live cfg s u" for u
    using that rt r' [of u] R(3) B(10) [of u] B(14) [of u] reranked_fields(3) [OF r' [of u]]
    by (cases "u = App j"; auto simp: reranked_def)+
  have t: "tcbs ?s = (\<lambda>u. if u = App j then (ts u)\<lparr>task_state := RTS_TASK_STATE_READY, slot_state := RTS_TASK_SLOT_ALLOCATED,
      validation_magic := (if RTS_ENABLE_ASSERTIONS cfg then RTS_TASK_VALIDATION_MAGIC else validation_magic (ts u))\<rparr> else ts u)"
    by (simp add: fun_eq_iff magic_set_def committed_def set_slot_state_def upd_tcb_def s4)
  have live: "u = App j \<or> live cfg s u" if "live cfg ?s u" for u
    using that reranked_fields(6) [OF r' [of u]] by (auto simp: live_def t split: if_splits)
  have dead: "slot_state (tcbs ?s u) = RTS_TASK_SLOT_FREE \<and> priority (tcbs ?s u) = RTS_IDLE_PRIORITY"
    if "slot_state (tcbs ?s u) \<noteq> RTS_TASK_SLOT_ALLOCATED" for u
    using that B(15) [of u] d [of u] reranked_fields(6) [OF r' [of u]] by (cases "u = App j") (simp_all add: t)
  have "task_state (tcbs ?s Service) = RTS_TASK_STATE_BLOCKED" using B(12) reranked_fields(1) [OF r' [of Service]] by (simp add: t)
  moreover have "priority (tcbs ?s u) = base_priority (tcbs ?s u)" "wait_result (tcbs ?s u) = RTS_WAIT_RESULT_NONE" if "live cfg ?s u" for u
    using prio [OF live [OF that]] by (auto simp: t)
  moreover have "lmem ?s = m" "wmem ?s = wmem s" "omem ?s = omem s" "current_task ?s = current_task s" "lifecycle ?s = lifecycle s"
    "in_isr ?s = in_isr s" "switch_plan ?s = switch_plan s" "callback_queue ?s = callback_queue s"
    by (simp_all add: magic_set_def committed_def set_slot_state_def upd_tcb_def s4 P)
  ultimately show "boot_inv cfg ?s" using tasks pool l B q(2) dead unfolding boot_inv_def by simp
qed

text \<open>Creation of a described task on a stack the port accepts.\<close>

lemma create_law:
  assumes inv: "boot_inv cfg s" and v: "rts_task_config_validate cfg pt (Some c) RTS_KERNEL_INITIALIZED = Inr RTS_STATUS_OK"
    and i: "i < RTS_MAX_TASKS cfg" "slot_is_free s i"
    and acc: "accepts_stack pt (tc_stack_buffer c) (tc_stack_size_bytes c) (tc_entry c) (tc_argument c)"
  obtains j s' where "rts_task_create cfg pt (Some c) True s = Inr (RTS_STATUS_OK, Some (App j), s')" and "boot_inv cfg s'"
    and "j < RTS_MAX_TASKS cfg" and "slot_is_free s j" and "\<And>k. slot_is_free s' k \<longleftrightarrow> k \<noteq> j \<and> slot_is_free s k"
    and "set (ready_q cfg (lmem s')) = insert (App j) (set (ready_q cfg (lmem s)))"
    and "task_state (tcbs s' (App j)) = RTS_TASK_STATE_READY"
    and "RTS_POLICY cfg \<noteq> RTS_POLICY_KIND_RMS \<Longrightarrow> priority (tcbs s' (App j)) = tc_priority c"
    and "current_tick s' = current_tick s" and "timer_q (lmem s') = timer_q (lmem s)" and "timers s' = timers s"
proof -
  note B = boot_invD [OF inv] and C = config_validate_preconditions [OF v]
  obtain j where j: "rts_task_pool_reserve cfg s = Inr (Some j, reserved cfg j s)" "j < RTS_MAX_TASKS cfg" "slot_is_free s j"
    unfolding reserved_def by (rule reserve_explicit [OF B(3) i])
  let ?t = "App j"
  have lc: "lifecycle (reserved cfg j s) = RTS_KERNEL_INITIALIZED" using B(4) by (simp add: reserved_def set_slot_state_def upd_tcb_def)
  note O = object_initialize_law [OF inv j(2,3) C(2)]
  define s2 where "s2 = upd_tcb ?t (created_tcb cfg c) (reserved cfg j s)"
  define r where "r = pt_stack_initialize pt (tc_stack_buffer c) (tc_stack_size_bytes c) (tc_entry c) (tc_argument c)
    (rts_stack_diagnostics_prepare cfg (stack_low (tcbs s2 ?t)) (stack_high (tcbs s2 ?t)) (bytes s2))"
  let ?sp = "psr_saved_stack_pointer (fst r)"
  have r: "psr_status (fst r) = RTS_STATUS_OK" "?sp \<noteq> 0" using acc by (simp_all add: accepts_stack_def r_def Let_def)
  define s3 where "s3 = prepared cfg c j ?sp (snd r) s"
  have s3: "s3 = upd_tcb ?t (\<lambda>x. x\<lparr>saved_stack_pointer := ?sp\<rparr>) (s2\<lparr>bytes := snd r\<rparr>)" by (simp add: s3_def s2_def prepared_def)
  note P = prepared_fields [of cfg c j ?sp "snd r" s, folded s3_def]
  have prio: "unat (priority (tcbs s3 (App k))) < RTS_PRIORITY_COUNT cfg" if "k < RTS_MAX_TASKS cfg" for k
  proof (cases "k = j")
    case True
    then show ?thesis using C(2) by (simp add: P rts_task_descriptor_preconditions_hold_def)
  next
    case False
    have "unat (priority (tcbs s (App k))) < RTS_PRIORITY_COUNT cfg"
      using live_static [OF B(2), of "App k"] B(15) [of "App k"] that links_invD(1) [OF B(1)]
      by (cases "live cfg s (App k)") (auto simp: live_def task_static_def RTS_IDLE_PRIORITY_def config_ok_def rts_types_checks_def)
    with False show ?thesis by (simp add: P)
  qed
  obtain s4 where s4: "rts_policy_insert cfg (Some ?t) s3 = Inr (True, s4)" "links_inv cfg s4"
    "set (ready_q cfg (lmem s4)) = insert ?t (set (ready_q cfg (lmem s3)))" "delay_q (lmem s4) = delay_q (lmem s3)"
    "timer_q (lmem s4) = timer_q (lmem s3)"
    "s4 = s3\<lparr>tcbs := tcbs s4, lmem := lmem s4, ready_bitmap := ready_bitmap s4, policy_release_sequence := policy_release_sequence s4\<rparr>"
    "\<And>u. reranked cfg u (tcbs s3 u) (tcbs s4 u)"
    "\<And>u. u \<noteq> ?t \<Longrightarrow> slot_state (tcbs s3 u) \<noteq> RTS_TASK_SLOT_ALLOCATED \<Longrightarrow> tcbs s4 u = tcbs s3 u"
    "\<And>u. RTS_POLICY cfg \<noteq> RTS_POLICY_KIND_RMS \<Longrightarrow> priority (tcbs s4 u) = priority (tcbs s3 u)"
  proof (rule create_insert [of cfg s3 ?t])
    show "links_inv cfg s3" unfolding s3_def by (rule prepared_links [OF inv j(3)])
    show "?t \<notin> set (ready_q cfg (lmem s3))" using free_slot_unlinked(1) [OF inv j(3)] by (simp add: P)
  qed (use j(2) C(6) prio in \<open>simp_all add: P\<close>)
  define s5 where "s5 = upd_tcb ?t (\<lambda>x. x\<lparr>task_state := RTS_TASK_STATE_READY\<rparr>) s4"
  define s6 where "s6 = magic_set cfg ?t (committed cfg j s4)"
  have s6: "boot_inv cfg s6" "pool_inv cfg s4" unfolding s6_def
    by (rule committed_boot [OF inv j(2,3) s4(2) s4(6) [unfolded s3_def] _ _ _ _ v r(2)];
        use s4(3,4,7,8) in \<open>simp add: P flip: s3_def\<close>)+
  have slot: "slot_state (tcbs s5 ?t) = RTS_TASK_SLOT_RESERVED"
    using reranked_fields(6) [OF s4(7) [of ?t]] by (simp add: s5_def upd_tcb_def P)
  have p5: "pool_inv cfg s5" by (rule pool_inv_cong [OF s6(2)]) (simp_all add: s5_def upd_tcb_def)
  have commit: "rts_task_pool_commit cfg j s5 = Inr (committed cfg j s4)"
    using pool_commit_ok(1) [OF p5 j(2) slot] by (simp add: committed_def s5_def upd_tcb_def)
  define s7 where "s7 = RTS_TRACE cfg RTS_TRACE_TASK_CREATED (ucast (priority (tcbs (diag_inc cfg task_creations s6) ?t))) (of_nat j)
    (diag_inc cfg task_creations s6)"
  have bk: "book cfg s6 s7" unfolding s7_def by (rule book_trans [OF book_steps(1) book_steps(3)])
  have alloc: "slot_state (tcbs (committed cfg j s4) ?t) = RTS_TASK_SLOT_ALLOCATED"
    by (simp add: committed_def set_slot_state_def upd_tcb_def)
  have "task_create_in_slot cfg pt c j (reserved cfg j s) = Inr (RTS_STATUS_OK, Some ?t, s7)"
    using O j(2) r s4(1) commit alloc lc
    by (simp add: task_create_in_slot_def rts_task_pool_get_def rts_task_pool_index_is_valid_def Let_def case_prod_unfold s7_def
        flip: s2_def r_def s3 s5_def magic_set_def s6_def)
  then have "rts_task_create cfg pt (Some c) True s = Inr (RTS_STATUS_OK, Some ?t, s7)"
    using B(4,6) v j(1) by (simp add: rts_task_create_def)
  moreover have b7: "boot_inv cfg s7" by (rule book_boot [OF bk s6(1)])
  have t6: "tcbs s6 u = (if u = ?t then (tcbs s4 ?t)\<lparr>task_state := RTS_TASK_STATE_READY, slot_state := RTS_TASK_SLOT_ALLOCATED,
      validation_magic := (if RTS_ENABLE_ASSERTIONS cfg then RTS_TASK_VALIDATION_MAGIC else validation_magic (tcbs s4 ?t))\<rparr>
      else tcbs s4 u)" for u
    by (simp add: s6_def magic_set_def committed_def set_slot_state_def upd_tcb_def)
  moreover have "slot_is_free s7 k \<longleftrightarrow> k \<noteq> j \<and> slot_is_free s k" for k
    using reranked_fields(6) [OF s4(7) [of "App k"]] by (auto simp: slot_is_free_def book_tcb [OF bk] t6 P)
  moreover have "lmem s7 = lmem s4" "current_tick s7 = current_tick s4" "timers s7 = timers s4"
    by (simp_all add: book_fields [OF bk] s6_def magic_set_def committed_def set_slot_state_def upd_tcb_def)
  moreover have "current_tick s4 = current_tick s" "timers s4 = timers s"
    by (subst s4(6), simp add: s3_def prepared_def reserved_def set_slot_state_def upd_tcb_def)+
  ultimately show ?thesis
    using j(2,3) s4(3,5,9) b7 by (intro that [of j s7]) (simp_all add: P book_tcb [OF bk] t6)
qed

section \<open>Creation is refused\<close>

lemma unready_validate:
  assumes links: "links_inv cfg s" and t: "valid_task cfg t" "t \<notin> set (ready_q cfg (lmem s))"
    and p: "unat (priority (tcbs s t)) < RTS_PRIORITY_COUNT cfg"
  shows "rts_policy_validate cfg (Some t) True s = Inr False"
proof (cases "RTS_POLICY cfg = RTS_POLICY_KIND_EDF")
  case True
  then have "edf_inv cfg s" "t \<notin> set (edf_order s)"
    using links_invD(2) [OF links] t(2) by (simp_all add: policy_inv_def ready_q_def edf_order_def)
  with True t(1) edf.validate_law [of cfg s t True] show ?thesis by (simp add: rts_policy_validate_def)
next
  case False
  then have "fp_inv cfg s" "t \<notin> set (fp_order cfg s)"
    using links_invD(2) [OF links] t(2) by (simp_all add: policy_inv_def ready_q_def fp_order_def ready_tasks_def [abs_def])
  then have "rts_policy_fp_validate cfg (Some t) True s = Inr False"
    using fp.validate_law [of cfg s t True] t(1) p by (simp add: fp_adm_def)
  with False show ?thesis by (cases "RTS_POLICY cfg") (simp_all add: rts_policy_validate_def rts_policy_rms_validate_def)
qed

definition reset_tcb :: "rts_config \<Rightarrow> rts_tcb \<Rightarrow> rts_tcb" where
  "reset_tcb cfg x = clear_task_diagnostics cfg (x\<lparr>
     saved_stack_pointer := 0, stack_low := 0, stack_high := 0, entry := 0, argument := 0,
     wait_reason := RTS_WAIT_NONE, wait_result := RTS_WAIT_RESULT_NONE, wake_tick := 0,
     wait_object := None, timeout_active := False, slice_remaining := 0,
     base_priority := RTS_IDLE_PRIORITY, priority := RTS_IDLE_PRIORITY, period := 0,
     relative_deadline := 0, absolute_deadline := 0, release_tick := 0, execution_budget := 0,
     release_sequence := 0, task_state := RTS_TASK_STATE_DORMANT\<rparr>)"

text \<open>Rolling back restores the invariant; only the slot hint and the bytes of the stack differ.\<close>

lemma rollback_law:
  assumes inv: "boot_inv cfg s" and j: "j < RTS_MAX_TASKS cfg" "slot_is_free s j"
    and s': "s' = (upd_tcb (App j) (created_tcb cfg c) (reserved cfg j s))\<lparr>bytes := b\<rparr>" and p: "unat (tc_priority c) < RTS_PRIORITY_COUNT cfg"
  obtains s'' where "rts_task_create_rollback cfg (Some (App j)) j s' = Inr s''" and "boot_inv cfg s''" and "lmem s'' = lmem s"
    and "\<And>u. u \<noteq> App j \<Longrightarrow> tcbs s'' u = tcbs s u" and "\<And>k. slot_is_free s'' k = slot_is_free s k"
proof -
  note B = boot_invD [OF inv] and U = free_slot_unlinked [OF inv j(2)]
  let ?t = "App j"
  have f: "lmem s' = lmem s" "wmem s' = zero_mem" "omem s' = zero_mem" "ready_bitmap s' = ready_bitmap s"
    using B(8,9) by (simp_all add: s' reserved_def set_slot_state_def upd_tcb_def)
  have t': "tcbs s' = (tcbs s)(?t := created_tcb cfg c ((tcbs s ?t)\<lparr>slot_state := RTS_TASK_SLOT_RESERVED\<rparr>))"
    by (simp add: s' reserved_def set_slot_state_def upd_tcb_def)
  have links: "links_inv cfg s'" by (rule links_cong [OF B(1)]) (use U(1) B f t' in \<open>auto simp: upd_tcb_def\<close>)
  have v: "rts_policy_validate cfg (Some ?t) True s' = Inr False"
    by (rule unready_validate [OF links]) (use j U(1) p in \<open>simp_all add: f t'\<close>)
  have u: "rts_task_node_is_canonical_unlinked (Ready_Node ?t) s'" "rts_task_node_is_canonical_unlinked (Delay_Node ?t) s'"
    "wait_node_is_clear ?t s'"
    using U(2-4) by (simp_all add: rts_task_node_is_canonical_unlinked_def wait_node_is_clear_def f)
  have c: "clear_task_nodes cfg ?t s' = Inr s'" by (rule clear_unlinked_nodes [OF u(1,2)]) (simp_all add: f)
  have sl: "slot_state (tcbs s' ?t) = RTS_TASK_SLOT_RESERVED" by (simp add: t')
  have reset: "rts_task_object_reset cfg (Some ?t) s' = Inr (upd_tcb ?t (reset_tcb cfg) s')"
    using u c sl by (simp add: rts_task_object_reset_def rts_task_node_is_canonical_unlinked_def reset_tcb_def [abs_def])
  define z where "z = (set_slot_state j RTS_TASK_SLOT_FREE (upd_tcb ?t (reset_tcb cfg) s'))\<lparr>next_free_hint := j\<rparr>"
  have r: "slot_state (reset_tcb cfg x) = slot_state x" "priority (reset_tcb cfg x) = RTS_IDLE_PRIORITY" for x
    by (simp_all add: reset_tcb_def clear_task_diagnostics_def Let_def)
  have "rts_task_pool_rollback cfg j (upd_tcb ?t (reset_tcb cfg) s') = Inr z"
    using j(1) sl by (simp add: z_def rts_task_pool_rollback_def rts_task_pool_index_is_valid_def upd_tcb_def r)
  with v reset have eq: "rts_task_create_rollback cfg (Some ?t) j s' = Inr z" by (simp add: rts_task_create_rollback_def)
  have tn: "tcbs z u = tcbs s u" if "u \<noteq> ?t" for u using that by (simp add: z_def t' set_slot_state_def upd_tcb_def)
  have tt: "slot_state (tcbs z ?t) = RTS_TASK_SLOT_FREE" "priority (tcbs z ?t) = RTS_IDLE_PRIORITY"
    by (simp_all add: z_def set_slot_state_def upd_tcb_def r)
  have slot: "slot_state (tcbs z u) = slot_state (tcbs s u)" for u
    using tt(1) tn [of u] j(2) by (cases "u = ?t") (auto simp: slot_is_free_def)
  have g: "lmem z = lmem s" "wmem z = zero_mem" "omem z = zero_mem" "ready_bitmap z = ready_bitmap s" "idle_task z = idle_task s"
    "timer_service_task z = timer_service_task s" "current_task z = current_task s" "lifecycle z = lifecycle s" "in_isr z = in_isr s"
    "switch_plan z = switch_plan s" "callback_queue z = callback_queue s" "allocated_count z = allocated_count s" "next_free_hint z = j"
    using B(8,9) by (simp_all add: z_def s' reserved_def set_slot_state_def upd_tcb_def)
  have live: "live cfg z u = live cfg s u" "live cfg s u \<Longrightarrow> u \<noteq> ?t" for u
    using slot j(2) by (auto simp: live_def slot_is_free_def)
  have "task_ok cfg z u" for u
    using tasks_invD(5) [OF B(2), of u] live [of u] tn [of u] B(8,9) by (auto simp: task_ok_def g split: if_splits)
  then have "tasks_inv cfg z" using tasks_invD [OF B(2)] by (simp add: tasks_inv_def g live)
  moreover have "priority (tcbs z u) = priority (tcbs s u)" if "u \<in> set (ready_q cfg (lmem s))" for u
    using that U(1) tn [of u] by (cases "u = ?t") simp_all
  then have "links_inv cfg z" by (intro links_cong [OF B(1)]) (use B(8,9) in \<open>simp_all add: g\<close>)
  moreover have "pool_inv cfg z" using B(3) j(1) by (simp add: pool_inv_def slot g)
  moreover have "priority (tcbs z u) = base_priority (tcbs z u) \<and> wait_result (tcbs z u) = RTS_WAIT_RESULT_NONE" if "live cfg z u" for u
    using that live [of u] tn [of u] B(10,14) by simp
  moreover have "slot_state (tcbs z u) = RTS_TASK_SLOT_FREE \<and> priority (tcbs z u) = RTS_IDLE_PRIORITY"
    if "slot_state (tcbs z u) \<noteq> RTS_TASK_SLOT_ALLOCATED" for u
    using that B(15) [of u] tn [of u] tt by (cases "u = ?t") auto
  ultimately have "boot_inv cfg z" using B(4-9,11-13) tn [of Service] by (simp add: boot_inv_def g)
  with eq g(1) tn slot show ?thesis by (intro that [of z]) (simp_all add: slot_is_free_def)
qed

lemma create_refused_law:
  assumes inv: "boot_inv cfg s" and v: "rts_task_config_validate cfg pt (Some c) RTS_KERNEL_INITIALIZED = Inr RTS_STATUS_OK"
    and i: "i < RTS_MAX_TASKS cfg" "slot_is_free s i"
    and ref: "\<And>b. psr_status (fst (pt_stack_initialize pt (tc_stack_buffer c) (tc_stack_size_bytes c) (tc_entry c) (tc_argument c) b)) = st"
    "st \<noteq> RTS_STATUS_OK"
  obtains s' where "rts_task_create cfg pt (Some c) True s = Inr (st, None, s')" and "boot_inv cfg s'"
    and "lmem s' = lmem s" and "\<And>k. slot_is_free s' k = slot_is_free s k" and "\<And>u. live cfg s u \<Longrightarrow> tcbs s' u = tcbs s u"
proof -
  note B = boot_invD [OF inv] and C = config_validate_preconditions [OF v]
  obtain j where j: "rts_task_pool_reserve cfg s = Inr (Some j, reserved cfg j s)" "j < RTS_MAX_TASKS cfg" "slot_is_free s j"
    unfolding reserved_def by (rule reserve_explicit [OF B(3) i])
  let ?t = "App j"
  have lc: "lifecycle (reserved cfg j s) = RTS_KERNEL_INITIALIZED" using B(4) by (simp add: reserved_def set_slot_state_def upd_tcb_def)
  note O = object_initialize_law [OF inv j(2,3) C(2)]
  define s2 where "s2 = upd_tcb ?t (created_tcb cfg c) (reserved cfg j s)"
  define r where "r = pt_stack_initialize pt (tc_stack_buffer c) (tc_stack_size_bytes c) (tc_entry c) (tc_argument c)
    (rts_stack_diagnostics_prepare cfg (stack_low (tcbs s2 ?t)) (stack_high (tcbs s2 ?t)) (bytes s2))"
  have r: "psr_status (fst r) = st" using ref by (simp add: r_def)
  obtain s' where s': "rts_task_create_rollback cfg (Some ?t) j (s2\<lparr>bytes := snd r\<rparr>) = Inr s'" "boot_inv cfg s'" "lmem s' = lmem s"
    "\<And>u. u \<noteq> ?t \<Longrightarrow> tcbs s' u = tcbs s u" "\<And>k. slot_is_free s' k = slot_is_free s k"
  proof (rule rollback_law [OF inv j(2,3), of "s2\<lparr>bytes := snd r\<rparr>" "snd r" c])
    show "unat (tc_priority c) < RTS_PRIORITY_COUNT cfg" using C(2) by (simp add: rts_task_descriptor_preconditions_hold_def)
  qed (use s2_def in auto)
  have "task_create_in_slot cfg pt c j (reserved cfg j s) = Inr (st, None, s')"
    using O j(2) r ref(2) s'(1) lc
    by (simp add: task_create_in_slot_def rts_task_pool_get_def rts_task_pool_index_is_valid_def Let_def case_prod_unfold flip: s2_def r_def)
  then have "rts_task_create cfg pt (Some c) True s = Inr (st, None, s')" using B(4,6) v j(1) by (simp add: rts_task_create_def)
  moreover have "u \<noteq> ?t" if "live cfg s u" for u using that j(3) by (auto simp: live_def slot_is_free_def)
  ultimately show ?thesis using s' by (intro that [of s']) simp_all
qed

end
