(* ===== verification/Kernel_Properties.thy ===== *)
theory Kernel_Properties
  imports Task_Creation Queue_Properties
begin

text \<open>
  The properties of the kernel as a whole: booting, creating tasks, starting the scheduler, giving up
  the processor, switching, and what the kernel's invariant says. The example kernel of the witnesses
  is booted, populated and started by the operations themselves.
\<close>

section \<open>An example kernel\<close>

text \<open>An image and a port whose hooks all succeed: the stacks are left as they are, the saved stack pointer is the low end plus 64.\<close>

definition ex_image :: rts_image where
  "ex_image = \<lparr>im_idle_stack = 0x20000000, im_idle_entry = 0x101, im_service_stack = 0x20001000, im_service_entry = 0x201\<rparr>"

definition ex_port :: rts_port where
  "ex_port = \<lparr>pt_initialize = RTS_STATUS_OK, pt_stack_minimum = 128, pt_stack_granularity = 8,
     pt_stack_initialize = \<lambda>low n e a b. (\<lparr>psr_status = RTS_STATUS_OK, psr_saved_stack_pointer = 0x20000040\<rparr>, b),
     pt_tick_start = \<lambda>on. (RTS_STATUS_OK, True), pt_tick_stop = \<lambda>on. False, pt_start_first_task = \<lambda>s. RTS_STATUS_OK,
     pt_power_sleep = \<lambda>n. \<lparr>slr_status = RTS_STATUS_OK, slr_elapsed_ticks = n, slr_wake_source = RTS_PORT_WAKE_TIMER\<rparr>\<rparr>"

definition ex_task :: rts_task_config where
  "ex_task = \<lparr>tc_entry = 0x301, tc_argument = 0, tc_stack_buffer = 0x20002000, tc_stack_size_bytes = 512,
     tc_priority = 5, tc_period = 0, tc_relative_deadline = 0, tc_execution_budget = 0\<rparr>"

definition ex_cold :: rts_kernel_state where
  "ex_cold = ex_kernel\<lparr>lifecycle := RTS_KERNEL_RESET\<rparr>"

lemma ex_boots:
  "image_ok test_config ex_image" "port_boots test_config ex_port ex_image" "cold ex_cold"
  "accepts_stack ex_port low n e a"
  by (simp_all add: image_ok_def ex_image_def test_config_def port_boots_def ex_port_def accepts_stack_def cold_def ex_cold_def ex_kernel_def)

lemma ex_task_fits:
  assumes "pt_stack_minimum pt = 128" and "pt_stack_granularity pt = 8"
  shows "rts_task_config_validate test_config pt (Some ex_task) RTS_KERNEL_INITIALIZED = Inr RTS_STATUS_OK"
  using assms by (simp add: rts_task_config_validate_def ex_task_def rts_task_stack_is_valid_def
      RTS_DELAY_MAX_def SIZE_MAX_def UINTPTR_MAX_def RTS_TASK_STACK_ALIGNMENT_def)

lemma ex_task_valid: "rts_task_config_validate test_config ex_port (Some ex_task) RTS_KERNEL_INITIALIZED = Inr RTS_STATUS_OK"
  by (rule ex_task_fits) (simp_all add: ex_port_def)

lemma ex_booted:
  obtains s where "rts_init test_config ex_port ex_image ex_cold = Inr (RTS_STATUS_OK, s)" and "boot_inv test_config s"
    and "\<And>i. slot_is_free s i" and "ready_q test_config (lmem s) = [Idle]" and "current_tick s = 0"
  using init_law [OF test_config_ok ex_boots(1-3)] unfolding slot_is_free_def by metis

lemma head_highest:
  assumes links: "links_inv cfg s" and pol: "RTS_POLICY cfg \<noteq> RTS_POLICY_KIND_EDF" and u: "u \<in> set (ready_q cfg (lmem s))"
  shows "priority (tcbs s u) \<le> priority (tcbs s (head_ready cfg s))"
proof -
  have "ready_inv cfg s" using links pol by (simp add: links_inv_def policy_inv_def fp_inv_def)
  then have "ordered_by (fp_before s) (ready_q cfg (lmem s))"
    using fp_order_ordered [of cfg s] pol by (simp add: fp_order_def ready_q_def ready_tasks_def [abs_def])
  with u show ?thesis
    by (cases "ready_q cfg (lmem s)") (auto simp: head_ready_def ordered_by_def fp_before_def word_less_nat_alt word_le_nat_alt)
qed

text \<open>The example kernel with one task of priority 5, created by the interface and not yet started.\<close>

lemma ex_populated:
  obtains j s where "boot_inv test_config s" and "head_ready test_config s = App j" and "current_tick s = 0"
    and "set (ready_q test_config (lmem s)) = {App j, Idle}" and "j < RTS_MAX_TASKS test_config"
proof -
  obtain s where s: "boot_inv test_config s" "\<And>i. slot_is_free s i" "ready_q test_config (lmem s) = [Idle]" "current_tick s = 0"
    by (rule ex_booted) blast
  obtain j s' where s': "boot_inv test_config s'" "set (ready_q test_config (lmem s')) = insert (App j) (set (ready_q test_config (lmem s)))"
    "RTS_POLICY test_config \<noteq> RTS_POLICY_KIND_RMS \<Longrightarrow> priority (tcbs s' (App j)) = tc_priority ex_task"
    "current_tick s' = current_tick s" "j < RTS_MAX_TASKS test_config"
    by (rule create_law [OF s(1) ex_task_valid _ s(2) ex_boots(4), of 0]) (simp, blast)
  note B = boot_invD [OF s'(1)]
  have "priority (tcbs s' (App j)) = 5" using s'(3) by (simp add: ex_task_def)
  moreover have "priority (tcbs s' Idle) = RTS_IDLE_PRIORITY"
    using live_static [OF B(2), of Idle] tasks_invD [OF B(2)] by (simp add: live_def task_static_def)
  moreover have "priority (tcbs s' (App j)) \<le> priority (tcbs s' (head_ready test_config s'))"
    by (rule head_highest [OF B(1)]) (simp_all add: s'(2))
  ultimately have "head_ready test_config s' \<noteq> Idle" by (auto simp: RTS_IDLE_PRIORITY_def)
  moreover have "head_ready test_config s' \<in> {App j, Idle}" using head_ready_props(2) [OF B(2)] s'(2) s(3) by auto
  ultimately show ?thesis using that [OF s'(1)] s' s by auto
qed

lemma ex_running:
  obtains j s where "sched_inv test_config (current_tick s + 1) s" and "plan_inv test_config s" and "thread_ready (App j) s"
    and "release_fresh test_config s" and "j < RTS_MAX_TASKS test_config"
proof -
  obtain j s where s: "boot_inv test_config s" "head_ready test_config s = App j" "j < RTS_MAX_TASKS test_config"
    by (rule ex_populated) blast
  show ?thesis
    by (rule that [of "started test_config True s" j]) (use started_inv [OF s(1)] s(2,3) in \<open>simp_all add: release_fresh_def\<close>)
qed

section \<open>Booting and starting\<close>

text \<open>
  C9. Initialization (\<^verbatim>\<open>rts_init\<close>, \<^verbatim>\<open>kernel/scheduler_init.c\<close>) succeeds from reset with any valid configuration,
  image and port, establishes the boot invariant (well linked queues, every task in the queues its state says,
  free task slots, no plan), makes the idle task the only ready one, and a second call is refused
  without touching the state.
\<close>

theorem init_establishes_invariant:
  assumes "config_ok cfg" and "image_ok cfg im" and "port_boots cfg pt im" and "cold s"
  shows "\<exists>s'. rts_init cfg pt im s = Inr (RTS_STATUS_OK, s') \<and> boot_inv cfg s' \<and> ready_q cfg (lmem s') = [Idle] \<and>
    (\<forall>i. slot_is_free s' i) \<and> current_tick s' = 0 \<and>
    rts_init cfg pt im s' = Inr (RTS_STATUS_ALREADY_INITIALIZED, s')"
proof -
  obtain s' where "rts_init cfg pt im s = Inr (RTS_STATUS_OK, s')" "boot_inv cfg s'" "\<And>i. slot_is_free s' i"
    "ready_q cfg (lmem s') = [Idle]" "current_tick s' = 0"
    using init_law [OF assms] unfolding slot_is_free_def by metis
  moreover have "rts_init cfg pt im s' = Inr (RTS_STATUS_ALREADY_INITIALIZED, s')"
    using boot_invD(4,6) [OF \<open>boot_inv cfg s'\<close>] by (simp add: rts_init_def)
  ultimately show ?thesis by blast
qed

theorem init_establishes_invariant_witness:
  "\<exists>s'. rts_init test_config ex_port ex_image ex_cold = Inr (RTS_STATUS_OK, s') \<and> boot_inv test_config s'"
  using init_establishes_invariant [OF test_config_ok ex_boots(1-3)] by blast

text \<open>
  C4. Task creation (\<^verbatim>\<open>rts_task_create\<close>, \<^verbatim>\<open>kernel/task_create.c\<close>) with a valid description, a free slot and a stack
  the port accepts returns a handle of a slot that was free, adds exactly that task to the ready ones in any
  scheduling policy, keeps the boot invariant and takes no other slot.
\<close>

theorem create_adds_ready_task:
  assumes "boot_inv cfg s" and "rts_task_config_validate cfg pt (Some c) RTS_KERNEL_INITIALIZED = Inr RTS_STATUS_OK"
    and "i < RTS_MAX_TASKS cfg" and "slot_is_free s i"
    and "accepts_stack pt (tc_stack_buffer c) (tc_stack_size_bytes c) (tc_entry c) (tc_argument c)"
  shows "\<exists>j s'. rts_task_create cfg pt (Some c) True s = Inr (RTS_STATUS_OK, Some (App j), s') \<and> boot_inv cfg s' \<and>
    j < RTS_MAX_TASKS cfg \<and> slot_is_free s j \<and> (\<forall>k. slot_is_free s' k \<longleftrightarrow> k \<noteq> j \<and> slot_is_free s k) \<and>
    set (ready_q cfg (lmem s')) = insert (App j) (set (ready_q cfg (lmem s))) \<and>
    task_state (tcbs s' (App j)) = RTS_TASK_STATE_READY"
  by (rule create_law [OF assms]) blast

theorem create_adds_ready_task_witness:
  "\<exists>s j s'. rts_task_create test_config ex_port (Some ex_task) True s = Inr (RTS_STATUS_OK, Some (App j), s') \<and>
    set (ready_q test_config (lmem s')) = {App j, Idle}"
proof -
  obtain s where s: "boot_inv test_config s" "\<And>i. slot_is_free s i" "ready_q test_config (lmem s) = [Idle]"
    by (rule ex_booted) blast
  show ?thesis using create_adds_ready_task [OF s(1) ex_task_valid _ s(2) ex_boots(4), of 0] s(3) by auto
qed

text \<open>
  C5. Task creation fails cleanly. Given a description that passes validation: when a slot is free and the
  port refuses the stack, its status is returned and the rollback restores the boot invariant, every
  queue, every slot and every existing task; when every slot is taken, whatever the port would say,
  the call reports exhausted capacity and changes nothing.
\<close>

theorem create_failure_is_clean:
  assumes "boot_inv cfg s" and "rts_task_config_validate cfg pt (Some c) RTS_KERNEL_INITIALIZED = Inr RTS_STATUS_OK"
  shows "(\<forall>st. (\<exists>i < RTS_MAX_TASKS cfg. slot_is_free s i) \<and> st \<noteq> RTS_STATUS_OK \<and>
      (\<forall>b. psr_status (fst (pt_stack_initialize pt (tc_stack_buffer c) (tc_stack_size_bytes c) (tc_entry c) (tc_argument c) b)) = st) \<longrightarrow>
      (\<exists>s'. rts_task_create cfg pt (Some c) True s = Inr (st, None, s') \<and> boot_inv cfg s' \<and> lmem s' = lmem s \<and>
        slot_is_free s' = slot_is_free s \<and> (\<forall>u. live cfg s u \<longrightarrow> tcbs s' u = tcbs s u))) \<and>
    ((\<forall>i < RTS_MAX_TASKS cfg. \<not> slot_is_free s i) \<longrightarrow>
      rts_task_create cfg pt (Some c) True s = Inr (RTS_STATUS_CAPACITY_EXHAUSTED, None, s))"
proof (intro conjI allI impI)
  fix st
  assume h: "(\<exists>i < RTS_MAX_TASKS cfg. slot_is_free s i) \<and> st \<noteq> RTS_STATUS_OK \<and>
    (\<forall>b. psr_status (fst (pt_stack_initialize pt (tc_stack_buffer c) (tc_stack_size_bytes c) (tc_entry c) (tc_argument c) b)) = st)"
  then obtain i where i: "i < RTS_MAX_TASKS cfg" "slot_is_free s i" and st: "st \<noteq> RTS_STATUS_OK" by blast
  obtain s' where "rts_task_create cfg pt (Some c) True s = Inr (st, None, s')" "boot_inv cfg s'" "lmem s' = lmem s"
    "\<And>k. slot_is_free s' k = slot_is_free s k" "\<And>u. live cfg s u \<Longrightarrow> tcbs s' u = tcbs s u"
    by (rule create_refused_law [OF assms(1,2) i _ st]) (use h in \<open>simp, blast\<close>)
  then show "\<exists>s'. rts_task_create cfg pt (Some c) True s = Inr (st, None, s') \<and> boot_inv cfg s' \<and> lmem s' = lmem s \<and>
      slot_is_free s' = slot_is_free s \<and> (\<forall>u. live cfg s u \<longrightarrow> tcbs s' u = tcbs s u)"
    by (auto simp: fun_eq_iff)
next
  assume "\<forall>i < RTS_MAX_TASKS cfg. \<not> slot_is_free s i"
  then have "rts_task_pool_reserve cfg s = Inr (None, s)" by (intro pool_reserve_full boot_invD(3) [OF assms(1)]) blast
  then show "rts_task_create cfg pt (Some c) True s = Inr (RTS_STATUS_CAPACITY_EXHAUSTED, None, s)"
    using boot_invD(4,6) [OF assms(1)] assms(2) by (simp add: rts_task_create_def)
qed

definition ex_refusing_port :: rts_port where
  "ex_refusing_port = ex_port\<lparr>pt_stack_initialize :=
     \<lambda>low n e a b. (\<lparr>psr_status = RTS_STATUS_PORT_ERROR, psr_saved_stack_pointer = 0\<rparr>, b)\<rparr>"

text \<open>Creating tasks until no slot is left.\<close>

lemma fill_slots:
  assumes "boot_inv test_config s" and "card {i. i < RTS_MAX_TASKS test_config \<and> slot_is_free s i} = n"
  shows "\<exists>s'. boot_inv test_config s' \<and> (\<forall>i < RTS_MAX_TASKS test_config. \<not> slot_is_free s' i)"
  using assms
proof (induction n arbitrary: s)
  case 0
  then have "{i. i < RTS_MAX_TASKS test_config \<and> slot_is_free s i} = {}" by (subst (asm) card_0_eq) auto
  with 0(1) show ?case by blast
next
  case (Suc n)
  let ?free = "\<lambda>s. {i. i < RTS_MAX_TASKS test_config \<and> slot_is_free s i}"
  obtain i where i: "i < RTS_MAX_TASKS test_config" "slot_is_free s i" using Suc(3) card_gt_0_iff [of "?free s"] by auto
  obtain j s' where s': "boot_inv test_config s'" "j < RTS_MAX_TASKS test_config" "slot_is_free s j"
    "\<And>k. slot_is_free s' k \<longleftrightarrow> k \<noteq> j \<and> slot_is_free s k"
    by (rule create_law [OF Suc(2) ex_task_valid i ex_boots(4)]) blast
  have "?free s' = ?free s - {j}" using s'(4) by auto
  then have "card (?free s') = n" using Suc(3) s'(2,3) by (simp add: card_Diff_singleton)
  with Suc(1) s'(1) show ?case by blast
qed

theorem create_failure_is_clean_witness:
  "(\<exists>s s'. rts_task_create test_config ex_refusing_port (Some ex_task) True s = Inr (RTS_STATUS_PORT_ERROR, None, s') \<and>
      boot_inv test_config s') \<and>
   (\<exists>s. rts_task_create test_config ex_port (Some ex_task) True s = Inr (RTS_STATUS_CAPACITY_EXHAUSTED, None, s))"
proof
  obtain s where s: "boot_inv test_config s" "\<And>i. slot_is_free s i" by (rule ex_booted) blast
  have v: "rts_task_config_validate test_config ex_refusing_port (Some ex_task) RTS_KERNEL_INITIALIZED = Inr RTS_STATUS_OK"
    by (rule ex_task_fits) (simp_all add: ex_refusing_port_def ex_port_def)
  have "\<exists>i < RTS_MAX_TASKS test_config. slot_is_free s i" using s(2) by (intro exI [of _ 0]) simp
  then show "\<exists>s s'. rts_task_create test_config ex_refusing_port (Some ex_task) True s = Inr (RTS_STATUS_PORT_ERROR, None, s') \<and>
      boot_inv test_config s'"
    using create_failure_is_clean [OF s(1) v] by (fastforce simp: ex_refusing_port_def)
  obtain s' where "boot_inv test_config s'" "\<forall>i < RTS_MAX_TASKS test_config. \<not> slot_is_free s' i"
    using fill_slots [OF s(1) refl] by blast
  then show "\<exists>s. rts_task_create test_config ex_port (Some ex_task) True s = Inr (RTS_STATUS_CAPACITY_EXHAUSTED, None, s)"
    using create_failure_is_clean [OF _ ex_task_valid] by blast
qed

lemma failed_start_law:
  assumes inv: "boot_inv cfg s"
    and fails: "fst (pt_tick_start pt (tick_on s)) \<noteq> RTS_STATUS_OK \<or> (\<forall>s. pt_start_first_task pt s \<noteq> RTS_STATUS_OK)"
    and stops: "\<forall>on. \<not> pt_tick_stop pt on"
  obtains s' where "rts_start cfg pt s = Inr (RTS_STATUS_PORT_ERROR, s')" and "boot_inv cfg s'" and "\<not> tick_on s'"
    and "lmem s' = lmem s" and "timers s' = timers s"
proof -
  let ?s = "released (head_ready cfg s) (started cfg False s)"
  have r: "rts_start cfg pt s = Inr (RTS_STATUS_PORT_ERROR, ?s)"
    using start_returns [OF inv prod.collapse [symmetric], of pt] start_rollback_law(1) [OF inv] fails stops by auto
  have "lmem (started cfg False s) = lmem s" "timers (started cfg False s) = timers s"
    using book_fields [OF book_started [of cfg s False]] by (simp_all add: established_def upd_tcb_def)
  then have "lmem ?s = lmem s" "timers ?s = timers s" "\<not> tick_on ?s" by (simp_all add: released_def upd_tcb_def)
  with r start_rollback_law(2) [OF inv] show ?thesis by (intro that [of ?s])
qed

lemma start_law:
  assumes "boot_inv cfg s" and "fst (pt_tick_start pt (tick_on s)) = RTS_STATUS_OK" and "\<forall>s. pt_start_first_task pt s = RTS_STATUS_OK"
  shows "rts_start cfg pt s = Inr (RTS_STATUS_OK, started cfg (snd (pt_tick_start pt (tick_on s))) s)"
  using start_returns [OF assms(1) prod.collapse [symmetric], of pt] assms(2,3) by simp

text \<open>
  C2. Starting the scheduler (\<^verbatim>\<open>rts_start\<close>, \<^verbatim>\<open>kernel/scheduler_start.c\<close>) runs the ready task at the head of
  the policy's order: the kernel's run-time invariant holds, no switch is planned, the chosen task is
  RUNNING, and under the priority policies no ready task has a higher priority.
\<close>

theorem start_runs_highest:
  assumes "boot_inv cfg s" and "fst (pt_tick_start pt (tick_on s)) = RTS_STATUS_OK" and "\<forall>s. pt_start_first_task pt s = RTS_STATUS_OK"
  shows "\<exists>s' t. rts_start cfg pt s = Inr (RTS_STATUS_OK, s') \<and> thread_ready t s' \<and> t = head_ready cfg s \<and>
    sched_inv cfg (current_tick s' + 1) s' \<and> plan_inv cfg s' \<and>
    (RTS_POLICY cfg = RTS_POLICY_KIND_EDF \<or> (\<forall>u \<in> set (ready_q cfg (lmem s)). priority (tcbs s u) \<le> priority (tcbs s t)))"
proof -
  note start_law [OF assms]
  then show ?thesis using started_inv [OF assms(1)] head_highest [OF boot_invD(1) [OF assms(1)]] by blast
qed

theorem start_runs_highest_witness:
  "\<exists>s s' j. rts_start test_config ex_port s = Inr (RTS_STATUS_OK, s') \<and> thread_ready (App j) s' \<and> App j \<in> set (ready_q test_config (lmem s))"
proof -
  obtain j s where s: "boot_inv test_config s" "head_ready test_config s = App j" "set (ready_q test_config (lmem s)) = {App j, Idle}"
    by (rule ex_populated) blast
  show ?thesis using start_runs_highest [OF s(1), of ex_port] s(2,3) by (auto simp: ex_port_def)
qed

text \<open>
  C10. A failed start is undone: when the tick source or the port cannot start, \<^verbatim>\<open>rts_start\<close> reports the port
  error, the tick source is stopped, the kernel is INITIALIZED again with no current task, the boot invariant
  holds and the ready queue and every timer are as before, so that a second start succeeds even with a port that
  refuses to start a tick source that is already on.
\<close>

theorem failed_start_rolls_back:
  assumes "boot_inv cfg s"
    and "fst (pt_tick_start pt (tick_on s)) \<noteq> RTS_STATUS_OK \<or> (\<forall>s. pt_start_first_task pt s \<noteq> RTS_STATUS_OK)"
    and "\<forall>on. \<not> pt_tick_stop pt on"
    and "fst (pt_tick_start pt' False) = RTS_STATUS_OK" and "\<forall>s. pt_start_first_task pt' s = RTS_STATUS_OK"
  shows "\<exists>s'. rts_start cfg pt s = Inr (RTS_STATUS_PORT_ERROR, s') \<and> boot_inv cfg s' \<and> \<not> tick_on s' \<and> lmem s' = lmem s \<and>
    timers s' = timers s \<and> (\<exists>s''. rts_start cfg pt' s' = Inr (RTS_STATUS_OK, s''))"
proof -
  obtain s' where s': "rts_start cfg pt s = Inr (RTS_STATUS_PORT_ERROR, s')" "boot_inv cfg s'" "\<not> tick_on s'" "lmem s' = lmem s" "timers s' = timers s"
    by (rule failed_start_law [OF assms(1-3)])
  moreover have "\<exists>s''. rts_start cfg pt' s' = Inr (RTS_STATUS_OK, s'')" using start_law [OF s'(2), of pt'] s'(3) assms(4,5) by simp
  ultimately show ?thesis by blast
qed

definition ex_strict_port :: rts_port where
  "ex_strict_port = ex_port\<lparr>pt_tick_start := \<lambda>on. (if on then RTS_STATUS_INVALID_STATE else RTS_STATUS_OK, True)\<rparr>"

theorem failed_start_rolls_back_witness:
  "\<exists>s s'. rts_start test_config (ex_port\<lparr>pt_start_first_task := \<lambda>s. RTS_STATUS_PORT_ERROR\<rparr>) s = Inr (RTS_STATUS_PORT_ERROR, s') \<and>
    (\<exists>s''. rts_start test_config ex_strict_port s' = Inr (RTS_STATUS_OK, s''))"
proof -
  obtain s where s: "boot_inv test_config s" by (rule ex_booted) blast
  show ?thesis
    using failed_start_rolls_back [OF s, of "ex_port\<lparr>pt_start_first_task := \<lambda>s. RTS_STATUS_PORT_ERROR\<rparr>" ex_strict_port]
    by (auto simp: ex_port_def ex_strict_port_def)
qed

section \<open>Giving up the processor\<close>

text \<open>
  C3. \<^verbatim>\<open>rts_task_delay\<close> (\<^verbatim>\<open>kernel/task_delay.c\<close>), called by the running application task with a delay \<open>d\<close> that is valid and not
  zero, blocks that task until the tick \<open>now + d\<close>, whatever wrap-around lies between: the task leaves the ready queue, stands in the delay queue behind every task that
  wakes no later, a switch to the head of the ready queue is planned, and the kernel invariant holds.
\<close>

theorem delay_blocks_until_deadline:
  assumes "sched_inv cfg (current_tick s + 1) s" and "thread_ready (App i) s" and "rts_tick_relative_is_valid d" and "d \<noteq> 0"
  shows "\<exists>s'. rts_task_delay cfg d s = Inr (RTS_STATUS_OK, s') \<and> sched_inv cfg (current_tick s + 1) s' \<and> plan_inv cfg s' \<and>
    task_state (tcbs s' (App i)) = RTS_TASK_STATE_BLOCKED \<and> wake_tick (tcbs s' (App i)) = current_tick s + d \<and>
    delay_q (lmem s') = stable_insert (wake_before s') (App i) (delay_q (lmem s)) \<and> sp_pending (switch_plan s')"
  by (rule delay_law [OF assms]) blast

theorem delay_blocks_until_deadline_witness:
  "\<exists>s j s'. rts_task_delay test_config 7 s = Inr (RTS_STATUS_OK, s') \<and> wake_tick (tcbs s' (App j)) = current_tick s + 7"
proof -
  obtain j s where s: "sched_inv test_config (current_tick s + 1) s" "thread_ready (App j) s" by (rule ex_running) blast
  show ?thesis
    using delay_blocks_until_deadline [OF s, of 7] by (auto simp: rts_tick_relative_is_valid_def RTS_TICK_MAX_ADVANCE_def)
qed

text \<open>
  C8. \<^verbatim>\<open>rts_task_yield\<close> (\<^verbatim>\<open>kernel/task_yield.c\<close>) always succeeds for the running task and keeps the kernel
  invariant; it plans a switch whenever the policy has another ready task of the same rank.
  Under the deadline policy the release sequence must not be half a range ahead of a queued task's.
\<close>

theorem yield_passes_to_peer:
  assumes "sched_inv cfg base s" and "plan_inv cfg s" and "thread_ready t s" and "release_fresh cfg s"
  shows "\<exists>s'. rts_task_yield cfg s = Inr (RTS_STATUS_OK, s') \<and> sched_inv cfg base s' \<and> plan_inv cfg s' \<and>
    (policy_peer cfg t s \<longrightarrow> sp_pending (switch_plan s'))"
  by (rule yield_law [OF assms]) blast

theorem yield_passes_to_peer_witness:
  "\<exists>s s'. rts_task_yield test_config s = Inr (RTS_STATUS_OK, s') \<and> plan_inv test_config s'"
proof -
  obtain j s where s: "sched_inv test_config (current_tick s + 1) s" "plan_inv test_config s" "thread_ready (App j) s"
    "release_fresh test_config s"
    by (rule ex_running) blast
  show ?thesis using yield_passes_to_peer [OF s] by blast
qed

section \<open>Priority inheritance\<close>

text \<open>
  C7. \<^verbatim>\<open>rts_priority_recompute_chain\<close> (\<^verbatim>\<open>kernel/priority_inheritance.c\<close>) ends and settles inheritance: when
  every task but the given one has the priority it should have, the walk along the chain of mutex owners returns
  within its bound of steps, and afterwards the priority of every task is the maximum of its own base priority and
  the priorities of the tasks that wait for a mutex it owns.
\<close>

theorem inheritance_chain_settles:
  assumes "links_inv cfg s" and "tasks_inv cfg s" and "wait_sorted s" and "sync_struct cfg s"
    and "\<forall>u. live cfg s u \<longrightarrow> u \<noteq> t \<longrightarrow> inherits s u" and "live cfg s t" and "t \<noteq> Idle"
  shows "\<exists>s'. rts_priority_recompute_chain cfg (Some t) s = Inr (True, s') \<and> sync_inv cfg s' \<and> prio_frame cfg s s' \<and>
    (\<forall>u. live cfg s' u \<longrightarrow>
      priority (tcbs s' u) = Max (insert (base_priority (tcbs s' u)) ((\<lambda>v. priority (tcbs s' v)) ` donors s' u)))"
proof -
  obtain s' where s': "rts_priority_recompute_chain cfg (Some t) s = Inr (True, s')" "links_inv cfg s'" "sync_inv cfg s'"
    "prio_frame cfg s s'"
    by (rule recompute_chain_law [OF assms(1-4), of "Some t"]) (use assms(5-7) in auto)
  have "priority (tcbs s' u) = Max (insert (base_priority (tcbs s' u)) ((\<lambda>v. priority (tcbs s' v)) ` donors s' u))"
    if "live cfg s' u" for u
    using sync_invD(3) [OF s'(3) that] inherits_Max(1) [OF s'(2) sync_invD(2) [OF s'(3)]] by (simp add: inherits_def)
  with s' show ?thesis by blast
qed

theorem inheritance_chain_settles_witness:
  "\<exists>s j s'. rts_priority_recompute_chain test_config (Some (App j)) s = Inr (True, s') \<and>
    priority (tcbs s' (App j)) = Max (insert (base_priority (tcbs s' (App j))) ((\<lambda>v. priority (tcbs s' v)) ` donors s' (App j)))"
proof -
  obtain j s where s: "sched_inv test_config (current_tick s + 1) s" "thread_ready (App j) s" by (rule ex_running) blast
  note D = sched_invD [OF s(1)]
  have l: "live test_config s (App j)" using running_not_queued(5) [OF s(1)] s(2) by (simp add: thread_ready_def)
  obtain s' where s': "rts_priority_recompute_chain test_config (Some (App j)) s = Inr (True, s')" "prio_frame test_config s s'"
    "\<forall>u. live test_config s' u \<longrightarrow>
      priority (tcbs s' u) = Max (insert (base_priority (tcbs s' u)) ((\<lambda>v. priority (tcbs s' v)) ` donors s' u))"
    using inheritance_chain_settles [OF D(1,2) sync_invD(2,1) [OF D(3)], of "App j"] sync_invD(3) [OF D(3)] l by auto
  have "live test_config s' (App j)" using prio_frame_sched [OF s'(2)] l by (simp add: sched_frame_def live_def)
  with s' show ?thesis by blast
qed

end
