(* ===== verification/Memory_Layout.thy ===== *)
theory Memory_Layout
  imports Context_Switch Kernel_Properties
begin

text \<open>
  A concrete memory layout for the example systems: every task has a stack of 512 bytes of its own, a saved frame at its top and
  a guard at its bottom. Moving the stacks of a system keeps the kernel's invariants.
\<close>

definition ex_low :: "task_ref \<Rightarrow> nat" where
  "ex_low t = (case t of App i \<Rightarrow> 0x30000 + 512 * i | Idle \<Rightarrow> 0x10000 | Service \<Rightarrow> 0x20000)"

definition relocated :: "byte_mem \<Rightarrow> rts_kernel_state \<Rightarrow> rts_kernel_state" where
  "relocated b s = s\<lparr>tcbs := \<lambda>t. (tcbs s t)\<lparr>stack_low := of_nat (ex_low t), stack_high := of_nat (ex_low t + 512),
     saved_stack_pointer := of_nat (ex_low t + 448)\<rparr>, bytes := b\<rparr>"

lemma ex_low_bounds:
  assumes "valid_task test_config t"
  shows "0x10000 \<le> ex_low t" and "ex_low t \<le> 0x40000" and "ex_low t mod 512 = 0"
  using assms by (cases t; simp add: ex_low_def; presburger)+

lemma ex_low_apart:
  assumes "valid_task test_config t" and "valid_task test_config u" and "t \<noteq> u"
  shows "ex_low t + 512 \<le> ex_low u \<or> ex_low u + 512 \<le> ex_low t"
  using assms by (cases t; cases u) (auto simp: ex_low_def)

lemma unat_ex_low:
  assumes "valid_task test_config t" and "k \<le> 512"
  shows "unat (of_nat (ex_low t + k) :: uintptr) = ex_low t + k"
  using ex_low_bounds [OF assms(1)] assms(2) by (simp add: unsigned_of_nat take_bit_nat_eq_self del: of_nat_add)

lemma relocated_same [simp]:
  "lmem (relocated b s) = lmem s" "wmem (relocated b s) = wmem s" "omem (relocated b s) = omem s"
  "ready_bitmap (relocated b s) = ready_bitmap s" "current_task (relocated b s) = current_task s"
  "switch_plan (relocated b s) = switch_plan s" "lifecycle (relocated b s) = lifecycle s" "idle_task (relocated b s) = idle_task s"
  "timer_service_task (relocated b s) = timer_service_task s" "semaphores (relocated b s) = semaphores s"
  "mutexes (relocated b s) = mutexes s" "bytes (relocated b s) = b" "in_isr (relocated b s) = in_isr s"
  "callback_queue (relocated b s) = callback_queue s" "next_free_hint (relocated b s) = next_free_hint s"
  "allocated_count (relocated b s) = allocated_count s"
  by (simp_all add: relocated_def)

lemma relocated_tcb [simp]:
  "priority (tcbs (relocated b s) t) = priority (tcbs s t)" "base_priority (tcbs (relocated b s) t) = base_priority (tcbs s t)"
  "slot_state (tcbs (relocated b s) t) = slot_state (tcbs s t)" "wake_tick (tcbs (relocated b s) t) = wake_tick (tcbs s t)"
  "task_state (tcbs (relocated b s) t) = task_state (tcbs s t)" "wait_result (tcbs (relocated b s) t) = wait_result (tcbs s t)"
  "stack_low (tcbs (relocated b s) t) = of_nat (ex_low t)" "stack_high (tcbs (relocated b s) t) = of_nat (ex_low t + 512)"
  "saved_stack_pointer (tcbs (relocated b s) t) = of_nat (ex_low t + 448)"
  by (simp_all add: relocated_def)

lemma relocated_live [simp]: "live cfg (relocated b s) t = live cfg s t"
  by (simp add: live_def)

lemma relocated_tasks:
  assumes "tasks_inv test_config s"
  shows "tasks_inv test_config (relocated b s)"
proof -
  have "task_ok test_config (relocated b s) t" for t
  proof (cases "live test_config s t")
    case True
    then have v: "valid_task test_config t" by (simp add: live_def)
    note u = unat_ex_low [OF v, of 0] unat_ex_low [OF v, of 448] unat_ex_low [OF v, of 512] and B = ex_low_bounds [OF v]
    have "(of_nat (ex_low t) :: uintptr) \<noteq> 0" "(of_nat (ex_low t + 448) :: uintptr) \<noteq> 0" "(of_nat (ex_low t + 512) :: uintptr) \<noteq> 0"
      "(of_nat (ex_low t) :: uintptr) < of_nat (ex_low t + 512)"
      using u B by (auto simp: word_less_nat_alt unat_eq_0 [symmetric] simp del: of_nat_add)
    then have "task_static test_config t (tcbs (relocated b s) t)"
      using live_static [OF assms True] by (auto simp: task_static_def relocated_def simp del: of_nat_add)
    moreover have "member_ok t (tcbs (relocated b s) t) = member_ok t (tcbs s t)"
      by (simp add: fun_eq_iff relocated_def member_ok_def not_waiting_def split: rts_task_state.split rts_wait_reason.split)
    ultimately show ?thesis using live_member [OF assms True] True by (simp add: task_ok_def)
  next
    case False
    then show ?thesis using tasks_invD(5) [OF assms, of t] by (simp add: task_ok_def)
  qed
  then show ?thesis using assms by (simp add: tasks_inv_def)
qed

lemma relocated_links: "links_inv cfg s \<Longrightarrow> links_inv cfg (relocated b s)"
  by (rule links_cong [of cfg s]) simp_all

lemma relocated_sched:
  assumes "sched_inv test_config base s"
  shows "sched_inv test_config base (relocated b s)"
proof -
  note D = sched_invD [OF assms]
  have "sync_inv test_config (relocated b s)" using sync_cong [of "relocated b s" s test_config] D(3) by simp
  moreover have "delay_ordered base (relocated b s)" using delay_ordered_cong [of "relocated b s" s base] D(4) by simp
  moreover have "plan_wf test_config (relocated b s)" by (rule plan_wf_cong [OF D(5)]) simp_all
  ultimately show ?thesis using relocated_links [OF D(1)] relocated_tasks [OF D(2)] by (simp add: sched_inv_def)
qed

lemma relocated_plan: "plan_inv cfg s \<Longrightarrow> plan_inv cfg (relocated b s)"
  by (rule plan_inv_cong [of cfg s]) simp_all

lemma relocated_boot:
  assumes "boot_inv test_config s"
  shows "boot_inv test_config (relocated b s)"
  using boot_invD [OF assms] relocated_links relocated_tasks pool_inv_cong [of test_config s "relocated b s"] assms
  by (simp add: boot_inv_def)

lemma ex_low_nonzero:
  assumes "valid_task test_config t" and "k \<le> 512"
  shows "(of_nat (ex_low t + k) :: uintptr) \<noteq> 0"
  using unat_ex_low [OF assms] ex_low_bounds(1) [OF assms(1)] by (metis add_is_0 not_numeral_le_zero unat_0)

lemma ex_low_aligned:
  assumes "valid_task test_config t" and "k \<le> 512" and "k mod 16 = 0"
  shows "(of_nat (ex_low t + k) :: uintptr) mod 16 = 0" and "(of_nat (ex_low t + k) :: uintptr) mod 8 = 0"
proof -
  have "16 dvd ex_low t" using ex_low_bounds(3) [OF assms(1)] dvd_trans [of 16 "512 :: nat" "ex_low t"] by (simp add: mod_0_imp_dvd)
  then have d: "16 dvd ex_low t + k" using assms(3) by (simp add: mod_0_imp_dvd)
  then have "8 dvd ex_low t + k" by (rule dvd_trans [rotated]) simp
  with d have "(ex_low t + k) mod 16 = 0" "(ex_low t + k) mod 8 = 0" by (simp_all only: dvd_imp_mod_0)
  then have "unat ((of_nat (ex_low t + k) :: uintptr) mod 16) = 0" "unat ((of_nat (ex_low t + k) :: uintptr) mod 8) = 0"
    unfolding unat_mod unat_ex_low [OF assms(1,2)] by simp_all
  then show "(of_nat (ex_low t + k) :: uintptr) mod 16 = 0" "(of_nat (ex_low t + k) :: uintptr) mod 8 = 0"
    unfolding unat_eq_0 by simp_all
qed

text \<open>The machine state around a relocated kernel, with the running task's stack pointer above its saved frame.\<close>

definition relocated_cpu :: "rts_kernel_state \<Rightarrow> cm4f" where
  "relocated_cpu s = \<lparr>kernel = relocated (\<lambda>_. RTS_STACK_GUARD_PATTERN) s,
     start_handoff = \<lparr>st_first_task = None, st_saved_stack_pointer = 0, st_cookie = 0, st_valid = 0\<rparr>, start_attempted = True,
     switch_handoff = \<lparr>sh_from = None, sh_to = None, sh_snapshot = \<lparr>ss_from = None, ss_to = None, ss_generation = 0\<rparr>,
       sh_outgoing_saved_stack_pointer = 0, sh_incoming_saved_stack_pointer = 0\<rparr>,
     psp = of_nat (ex_low (the (current_task s)) + 480), r4_r11 = replicate 8 7, control = 2, primask = False\<rparr>"

lemma relocated_contexts:
  assumes "current_task s = Some c" and "live test_config s c"
  shows "contexts_ok test_config (relocated_cpu s)"
proof -
  let ?s = "relocated (\<lambda>_. RTS_STACK_GUARD_PATTERN) s"
  have fits: "frame_fits test_config ?s t (of_nat (ex_low t + 448))" if v: "valid_task test_config t" for t
  proof -
    have u: "unat (of_nat (ex_low t) :: uintptr) = ex_low t" using unat_ex_low [OF v, of 0] by simp
    show ?thesis
      using ex_low_nonzero [OF v, of 448] ex_low_aligned(2) [OF v, of 448] unat_ex_low [OF v, of 448] unat_ex_low [OF v, of 512]
      by (simp add: frame_fits_def u del: of_nat_add)
  qed
  have guard: "rts_stack_guard_is_valid test_config (Some t) ?s" if v: "valid_task test_config t" for t
    using ex_low_nonzero [OF v, of 0] ex_low_nonzero [OF v, of 512]
    by (simp add: rts_stack_guard_is_valid_def list_all_iff)
  have "stacks_apart test_config ?s"
    unfolding stacks_apart_def
  proof (intro allI impI)
    fix t u assume "live test_config ?s t" "live test_config ?s u" "t \<noteq> u"
    then have v: "valid_task test_config t" "valid_task test_config u" by (simp_all add: live_def)
    show "unat (stack_high (tcbs ?s t)) \<le> unat (stack_low (tcbs ?s u)) \<or> unat (stack_high (tcbs ?s u)) \<le> unat (stack_low (tcbs ?s t))"
      using ex_low_apart [OF v \<open>t \<noteq> u\<close>] unat_ex_low [OF v(1), of 0] unat_ex_low [OF v(2), of 0]
        unat_ex_low [OF v(1), of 512] unat_ex_low [OF v(2), of 512]
      by (simp del: of_nat_add)
  qed
  moreover have "32 \<le> unat (of_nat (ex_low c + 480) :: uintptr)" "(of_nat (ex_low c + 480) :: uintptr) - 32 = of_nat (ex_low c + 448)"
    using unat_ex_low [of c 480] ex_low_bounds(1) [of c] assms(2) by (simp_all add: live_def del: of_nat_add) (simp add: of_nat_add)
  moreover have "kernel (relocated_cpu s) = ?s" "psp (relocated_cpu s) = of_nat (ex_low c + 480)" "length (r4_r11 (relocated_cpu s)) = 8"
    using assms(1) by (simp_all add: relocated_cpu_def del: of_nat_add)
  ultimately show ?thesis
    unfolding contexts_ok_def using fits guard assms(1) by (simp add: live_def del: of_nat_add)
qed

end
