(* ===== verification/Service_Wake.thy ===== *)
theory Service_Wake
  imports Cortex_M4F Task_Laws
begin

text \<open>
  Waking the timer service task (\<^verbatim>\<open>rts_scheduler_timer_service_wake\<close>, \<^verbatim>\<open>kernel/scheduler_select.c\<close>) while it is
  still the current task.
\<close>

text \<open>
  Between \<^verbatim>\<open>rts_scheduler_timer_service_block\<close> and the context switch it plans, the service task is
  blocked and still the current task. A tick in this window that finds an expired timer wakes it.
\<close>

definition service_woken :: "rts_config \<Rightarrow> rts_tcb \<Rightarrow> rts_tcb" where
  "service_woken cfg x = x\<lparr>wait_reason := RTS_WAIT_NONE, wait_result := RTS_WAIT_RESULT_NONE,
     task_state := RTS_TASK_STATE_READY, slice_remaining := RTS_TIME_SLICE_TICKS cfg\<rparr>"

lemma service_woken_ready:
  assumes inv: "sched_inv cfg base s" and cur: "current_task s = Some Service" and b: "task_state (tcbs s Service) = RTS_TASK_STATE_BLOCKED"
  obtains s' where "rts_policy_task_unblock cfg (Some Service) (upd_tcb Service (service_woken cfg) s) = Inr (True, s')"
    and "rts_scheduler_task_is_runnable cfg (Some Service) (task_diag_wake cfg Service s') = Inr True"
    and "task_state (tcbs s' Service) = RTS_TASK_STATE_READY" and "current_task s' = Some Service"
    and "lifecycle s' = lifecycle s" and "switch_plan s' = switch_plan s"
    and "links_inv cfg s'" and "timer_q (lmem s') = timer_q (lmem s)" and "timers s' = timers s"
    and "set (ready_q cfg (lmem s')) = insert Service (set (ready_q cfg (lmem s)))"
    and "\<And>u. live cfg s u \<Longrightarrow> policy_adm cfg u s'"
proof -
  note D = sched_invD [OF inv]
  let ?s = "upd_tcb Service (service_woken cfg) s" and ?t = Service
  have l: "live cfg s ?t" by (rule tasks_invD(4) [OF D(2)])
  note M = live_member [OF D(2) l, unfolded member_ok_def b rts_task_state.case]
  have q: "?t \<notin> set (ready_q cfg (lmem s))" "?t \<notin> set (delay_q (lmem s))" "wait_owner ?t s = None"
    "wait_object (tcbs s ?t) = None" "\<not> timeout_active (tcbs s ?t)"
    using M by (auto split: rts_wait_reason.splits)
  have st: "task_static cfg ?t (tcbs ?s ?t)" using live_static [OF D(2) l] by (simp add: upd_tcb_def service_woken_def task_static_def)
  have adm: "policy_adm cfg ?t ?s"
    using live_adm [OF D(2) l] by (simp add: policy_adm_def upd_tcb_def service_woken_def)
  have links: "links_inv cfg ?s" by (rule links_upd_tcb [OF D(1)]) (simp add: service_woken_def)
  let ?s1 = "rts_policy_record_release ?t ?s"
  obtain m b where m: "rts_policy_task_unblock cfg (Some ?t) ?s = Inr (True, ?s1\<lparr>lmem := m, ready_bitmap := b\<rparr>)"
    "links_inv cfg (?s1\<lparr>lmem := m, ready_bitmap := b\<rparr>)"
    "ready_q cfg m = stable_insert (policy_before cfg ?s1) ?t (ready_q cfg (lmem ?s))" "delay_q m = delay_q (lmem ?s)"
    "timer_q m = timer_q (lmem ?s)"
    by (rule links_unblock [OF links adm]) (use q(1) in \<open>simp_all add: upd_tcb_def\<close>)
  define s2 where "s2 = ?s1\<lparr>lmem := m, ready_bitmap := b\<rparr>"
  let ?s3 = "task_diag_wake cfg ?t s2"
  have f: "task_state (tcbs s2 ?t) = RTS_TASK_STATE_READY" "current_task s2 = current_task s" "lifecycle s2 = lifecycle s"
    "switch_plan s2 = switch_plan s" "timers s2 = timers s" "timer_q (lmem s2) = timer_q (lmem s)"
    using m(5) by (simp_all add: s2_def rts_policy_record_release_def Let_def upd_tcb_def service_woken_def)
  have a: "policy_adm cfg u s2" if "live cfg s u" for u
    using live_adm [OF D(2) that]
    by (cases "u = ?t") (simp_all add: policy_adm_def s2_def rts_policy_record_release_def Let_def upd_tcb_def service_woken_def)
  have x: "tcb_core (tcbs ?s3 ?t) = tcb_core (tcbs ?s ?t)" "wmem ?s3 = wmem s" "lmem ?s3 = m" "timer_service_task ?s3 = timer_service_task s"
    by (simp_all add: s2_def rts_policy_record_release_def Let_def upd_tcb_def task_diag_wake_def tcb_core_def)
  have l3: "links_inv cfg ?s3" by (rule same_core_links [OF m(2) [folded s2_def]]) simp
  have adm3: "policy_adm cfg ?t ?s3"
    using adm tcb_core_fields [OF x(1)] tasks_invD(2) [OF D(2)] by (simp add: policy_adm_def x(4))
  have v: "rts_policy_validate cfg (Some ?t) True ?s3 = Inr True" using links_validate [OF l3 adm3, of True] by (simp add: x(3) m(3))
  have "delay_owner ?t ?s3 = None" using delay_q_owner [OF l3, of ?t] q(2) by (simp add: x(3) m(4) upd_tcb_def)
  have "task_static cfg ?t (tcbs ?s3 ?t)" using st task_static_core [OF x(1), of cfg ?t] by simp
  note st3 = this [unfolded task_static_def]
  have "priority (tcbs ?s3 ?t) \<noteq> RTS_IDLE_PRIORITY" using st3 by (auto simp: RTS_IDLE_PRIORITY_def)
  moreover have "\<not> priority (tcbs ?s3 ?t) < base_priority (tcbs ?s3 ?t)" "\<not> RTS_PRIORITY_COUNT cfg \<le> unat (base_priority (tcbs ?s3 ?t))"
    using st3 by (auto simp: not_less word_le_nat_alt)
  moreover have "task_state (tcbs ?s3 ?t) = RTS_TASK_STATE_READY" "slot_state (tcbs ?s3 ?t) = RTS_TASK_SLOT_ALLOCATED"
    "wait_reason (tcbs ?s3 ?t) = RTS_WAIT_NONE" "wait_object (tcbs ?s3 ?t) = None" "\<not> timeout_active (tcbs ?s3 ?t)"
    using tcb_core_fields(1,2,4,5,8) [OF x(1)] q(4,5) l by (simp_all add: upd_tcb_def service_woken_def live_def)
  ultimately have "rts_scheduler_task_is_runnable cfg (Some ?t) ?s3 = Inr True"
    using v \<open>delay_owner ?t ?s3 = None\<close> q(3) st3 tasks_invD(2) [OF D(2)]
    by (simp add: rts_scheduler_task_is_runnable_def x(2,4) rts_scheduler_task_is_timer_service_def magic_is_valid_def Let_def not_le)
  moreover have "set (ready_q cfg (lmem s2)) = insert ?t (set (ready_q cfg (lmem s)))" by (simp add: s2_def m(3) upd_tcb_def)
  ultimately show ?thesis using m(1,2) f a cur unfolding s2_def [symmetric] by (intro that [of s2]) simp_all
qed

lemma ready_is_not_outgoing:
  assumes "task_state (tcbs s t) = RTS_TASK_STATE_READY"
  shows "rts_switch_outgoing_is_valid cfg (Some t) s = Inr False"
  using assms by (auto simp: rts_switch_outgoing_is_valid_def Let_def dest: sym)

lemma service_wake_current:
  assumes inv: "sched_inv cfg base s" and cur: "current_task s = Some Service" and b: "task_state (tcbs s Service) = RTS_TASK_STATE_BLOCKED"
  obtains s' where "rts_scheduler_timer_service_wake cfg s = Inr (True, s')"
    and "task_state (tcbs s' Service) = RTS_TASK_STATE_READY" and "current_task s' = Some Service"
    and "lifecycle s' = lifecycle s" and "switch_plan s' = switch_plan s"
    and "links_inv cfg s'" and "timer_q (lmem s') = timer_q (lmem s)" and "timers s' = timers s"
    and "set (ready_q cfg (lmem s')) = insert Service (set (ready_q cfg (lmem s)))"
    and "\<And>u. live cfg s u \<Longrightarrow> policy_adm cfg u s'" and "rts_scheduler_task_is_runnable cfg (Some Service) s' = Inr True"
proof -
  note D = sched_invD [OF inv]
  have l: "live cfg s Service" by (rule tasks_invD(4) [OF D(2)])
  note M = live_member [OF D(2) l, unfolded member_ok_def b rts_task_state.case]
  have w: "wait_reason (tcbs s Service) = RTS_WAIT_TIMER_SERVICE" "wait_object (tcbs s Service) = None"
    "\<not> timeout_active (tcbs s Service)" "Service \<notin> set (ready_q cfg (lmem s))"
    using M by (auto split: rts_wait_reason.splits)
  have v: "rts_policy_validate cfg (Some Service) True s = Inr False" using links_validate [OF D(1) live_adm [OF D(2) l], of True] w(4) by simp
  obtain s' where s': "rts_policy_task_unblock cfg (Some Service) (upd_tcb Service (service_woken cfg) s) = Inr (True, s')"
    "rts_scheduler_task_is_runnable cfg (Some Service) (task_diag_wake cfg Service s') = Inr True"
    "task_state (tcbs s' Service) = RTS_TASK_STATE_READY" "current_task s' = Some Service"
    "lifecycle s' = lifecycle s" "switch_plan s' = switch_plan s"
    "links_inv cfg s'" "timer_q (lmem s') = timer_q (lmem s)" "timers s' = timers s"
    "set (ready_q cfg (lmem s')) = insert Service (set (ready_q cfg (lmem s)))" "\<And>u. live cfg s u \<Longrightarrow> policy_adm cfg u s'"
    by (rule service_woken_ready [OF inv cur b]) blast
  have "rts_scheduler_timer_service_wake cfg s = Inr (True, task_diag_wake cfg Service s')"
    using tasks_invD(2) [OF D(2)] b w(1-3) v s'(1,2)
    by (simp add: rts_scheduler_timer_service_wake_def Let_def service_woken_def [abs_def])
  moreover have "links_inv cfg (task_diag_wake cfg Service s')" by (rule same_core_links [OF s'(7)]) simp
  moreover have "policy_adm cfg u (task_diag_wake cfg Service s')" if "live cfg s u" for u
    using s'(11) [OF that] by (cases "u = Service") (simp_all add: policy_adm_def task_diag_wake_def upd_tcb_def)
  ultimately show ?thesis
    using s'(2-) by (intro that [of "task_diag_wake cfg Service s'"]) (simp_all add: task_diag_wake_def upd_tcb_def)
qed

end
