(* ===== verification/Service_Sleep.thy ===== *)
theory Service_Sleep
  imports Service_Wake Timer_Service Kernel_Time Boot_Laws
begin

text \<open>
  A round of the timer service task with nothing to do (\<^verbatim>\<open>rts_timer_service_entry\<close>, \<^verbatim>\<open>kernel/timer_service.c\<close>):
  it blocks, plans the switch to the next task and keeps the kernel invariant.
\<close>

lemma service_block_law:
  assumes inv: "sched_inv cfg base s" and cur: "current_task s = Some Service" and run: "task_state (tcbs s Service) = RTS_TASK_STATE_RUNNING"
    and act: "\<not> sp_active (switch_plan s)"
  obtains notify s1 s' where "rts_scheduler_timer_service_block cfg s = Inr (notify, s1)"
    and "s' = (if notify then rts_port_request_reschedule s1 else s1)" and "sched_inv cfg base s'" and "plan_inv cfg s'"
    and "tcbs s1 = tcbs s'" and "timer_service_task s1 = Some Service" and "task_state (tcbs s' Service) = RTS_TASK_STATE_BLOCKED"
    and "current_task s' = Some Service" and "sp_pending (switch_plan s')"
    and "rest_same s s'" and "timer_q (lmem s') = timer_q (lmem s)" and "delay_q (lmem s') = delay_q (lmem s)"
    and "\<And>u. u \<noteq> Service \<Longrightarrow> wake_tick (tcbs s' u) = wake_tick (tcbs s u)"
proof -
  note D = sched_invD [OF inv]
  let ?t = Service
  let ?f = "\<lambda>x. x\<lparr>wait_reason := RTS_WAIT_TIMER_SERVICE, wait_result := RTS_WAIT_RESULT_NONE, wake_tick := 0, wait_object := None,
      timeout_active := False, task_state := RTS_TASK_STATE_BLOCKED\<rparr>"
  have l: "live cfg s ?t" by (rule queued_live(4) [OF D(2) cur])
  note Q = running_not_queued [OF inv cur run]
  have n: "wait_reason (tcbs s ?t) = RTS_WAIT_NONE" using live_member [OF D(2) l] run by (simp add: member_ok_def not_waiting_def)
  have v: "rts_policy_validate cfg (Some ?t) True s = Inr True" using links_validate [OF D(1) live_adm [OF D(2) l], of True] Q(1) by simp
  obtain m b where m: "rts_policy_task_block cfg (Some ?t) s = Inr (True, s\<lparr>lmem := m, ready_bitmap := b\<rparr>)"
    "opened cfg base ?t (s\<lparr>lmem := m, ready_bitmap := b\<rparr>)" "sync_inv cfg (s\<lparr>lmem := m, ready_bitmap := b\<rparr>)" "?t \<notin> set (delay_q m)"
    "delay_q m = delay_q (lmem s)" "sched_frame s (s\<lparr>lmem := m, ready_bitmap := b\<rparr>)"
    by (rule open_current [OF inv cur run])
  define s1 where "s1 = service_sleep ?t (s\<lparr>lmem := m, ready_bitmap := b\<rparr>)"
  define s2 where "s2 = task_diag_block cfg ?t s1"
  have bk: "book cfg s1 s2" unfolding s2_def by simp
  note F = book_fields [OF bk] and T = book_tcb [OF bk]
  have o1: "opened cfg base ?t s1" unfolding s1_def service_sleep_def
    by (rule opened_upd [OF m(2)]) (use m(4) run in \<open>simp_all add: task_static_def\<close>)
  have "sync_inv cfg s1" unfolding s1_def service_sleep_def by (subst sync_upd_tcb) (use m(3) in simp_all)
  then have sync: "sync_inv cfg s2" using book_sync [OF bk] by simp
  note o2 = opened_book [OF bk o1]
  have x: "task_state (tcbs s2 ?t) = RTS_TASK_STATE_BLOCKED" "current_task s2 = Some ?t" "switch_plan s2 = switch_plan s"
    "timer_service_task s2 = Some ?t"
    using F T cur tasks_invD(2) [OF D(2)] by (simp_all add: s1_def service_sleep_def upd_tcb_def)
  have "tasks_inv cfg s2"
    by (rule close_blocked [OF o2 x(1)]) (use F T m(4) Q(3) in \<open>simp add: member_ok_def s1_def service_sleep_def upd_tcb_def\<close>)
  then have inv2: "sched_inv cfg base s2" using openedD [OF o2] sync by (simp add: sched_inv_def)
  have act2: "\<not> sp_active (switch_plan s2)" using act x(3) by simp
  obtain notify s3 where s3: "rts_scheduler_select_highest_ready cfg s2 = Inr (Some (head_ready cfg s2))" "head_ready cfg s2 \<noteq> ?t"
    "rts_scheduler_prepare_switch cfg (Some (head_ready cfg s2)) s2 = Inr (notify, s3)" "sp_pending (switch_plan s3)"
    and s4: "sched_inv cfg base (if notify then rts_port_request_reschedule s3 else s3)"
    "plan_inv cfg (if notify then rts_port_request_reschedule s3 else s3)"
    "sched_frame s2 (if notify then rts_port_request_reschedule s3 else s3)"
    "tcbs (if notify then rts_port_request_reschedule s3 else s3) = tcbs s2"
    "lmem (if notify then rts_port_request_reschedule s3 else s3) = lmem s2"
    by (rule leave_blocked [OF inv2 x(2,1) act2])
  let ?s4 = "if notify then rts_port_request_reschedule s3 else s3"
  have "rts_scheduler_timer_service_block cfg s = Inr (notify, s3)"
    using tasks_invD(2) [OF D(2)] cur run v n m(1) s3
    by (simp add: rts_scheduler_timer_service_block_def rts_scheduler_current_get_def Let_def flip: s1_def s2_def)
  moreover have "tcbs s3 = tcbs ?s4" "timer_service_task s3 = timer_service_task ?s4" "switch_plan s3 = switch_plan ?s4"
    by (simp_all add: rts_port_request_reschedule_def)
  moreover have "timer_service_task ?s4 = Some ?t" "current_task ?s4 = Some ?t"
    using s4(3) x(2,4) by (simp_all add: sched_frame_def rest_same_def)
  moreover have "task_state (tcbs ?s4 ?t) = RTS_TASK_STATE_BLOCKED" using x(1) s4(4) by simp
  moreover have "rest_same s s2"
    using F(12) m(6) by (simp add: sched_frame_def rest_same_def s1_def service_sleep_def upd_tcb_def)
  then have "rest_same s ?s4" using s4(3) rest_same_trans [of s s2 ?s4] by (simp add: sched_frame_def)
  moreover have "timer_q (lmem ?s4) = timer_q (lmem s)" "delay_q (lmem ?s4) = delay_q (lmem s)"
    using F(1) m(5,6) by (simp_all add: s4(5) s1_def service_sleep_def upd_tcb_def sched_frame_def)
  moreover have "wake_tick (tcbs ?s4 u) = wake_tick (tcbs s u)" if "u \<noteq> ?t" for u
    using that T(9) [of u] by (simp add: s4(4) s1_def service_sleep_def upd_tcb_def)
  ultimately show ?thesis using s4(1,2) s3(4) by (intro that [of notify s3 ?s4]) simp_all
qed

lemma service_idle_round:
  assumes inv: "sched_inv cfg base s" and cur: "current_task s = Some Service" and run: "task_state (tcbs s Service) = RTS_TASK_STATE_RUNNING"
    and act: "\<not> sp_active (switch_plan s)" and q: "cq_count (callback_queue s) = 0" and isr: "\<not> in_isr s"
  obtains s' where "rts_timer_service_entry cfg callback s = Some (Inr s')" and "sched_inv cfg base s'" and "plan_inv cfg s'"
    and "task_state (tcbs s' Service) = RTS_TASK_STATE_BLOCKED" and "current_task s' = Some Service" and "sp_pending (switch_plan s')"
    and "rest_same s s'" and "timer_q (lmem s') = timer_q (lmem s)" and "delay_q (lmem s') = delay_q (lmem s)"
    and "\<And>u. u \<noteq> Service \<Longrightarrow> wake_tick (tcbs s' u) = wake_tick (tcbs s u)"
proof -
  obtain notify s1 s' where s': "rts_scheduler_timer_service_block cfg s = Inr (notify, s1)"
    "s' = (if notify then rts_port_request_reschedule s1 else s1)" "sched_inv cfg base s'" "plan_inv cfg s'"
    "tcbs s1 = tcbs s'" "timer_service_task s1 = Some Service" "task_state (tcbs s' Service) = RTS_TASK_STATE_BLOCKED"
    "current_task s' = Some Service" "sp_pending (switch_plan s')"
    "rest_same s s'" "timer_q (lmem s') = timer_q (lmem s)" "delay_q (lmem s') = delay_q (lmem s)"
    "\<And>u. u \<noteq> Service \<Longrightarrow> wake_tick (tcbs s' u) = wake_tick (tcbs s u)"
    by (rule service_block_law [OF inv cur run act]) blast
  have c: "rts_scheduler_current_get s = Some Service" "timer_service_task s = Some Service"
    using cur tasks_invD(2) [OF sched_invD(2) [OF inv]] by (simp_all add: rts_scheduler_current_get_def)
  have p: "rts_timer_service_process_one cfg callback s = Inr (False, s)"
    unfolding rts_timer_service_process_one_def Let_def c by (simp add: isr sched_running [OF inv] run q rts_timer_callback_queue_dequeue_def)
  have "rts_timer_service_drain cfg callback s = Some (Inr (0, s))"
    unfolding rts_timer_service_drain_def service_drain_loop.simps [of cfg callback 0 s] p by simp
  moreover have "task_state (tcbs s1 Service) = RTS_TASK_STATE_BLOCKED" using s'(5,7) by simp
  ultimately have "rts_timer_service_entry cfg callback s = Some (Inr s')"
    using s'(1,6) q by (simp add: rts_timer_service_entry_def s'(2) [symmetric])
  with s' show ?thesis by (intro that)
qed

text \<open>A system in which the timer service is the running task, from any running one.\<close>

lemma service_made_running:
  assumes inv: "sched_inv cfg base s" and cur: "current_task s = Some t" "t \<noteq> Service" and b: "task_state (tcbs s Service) = RTS_TASK_STATE_BLOCKED"
    and plan: "\<not> sp_active (switch_plan s)" "\<not> sp_pending (switch_plan s)"
  obtains s' where "sched_inv cfg base s'" and "current_task s' = Some Service" and "task_state (tcbs s' Service) = RTS_TASK_STATE_RUNNING"
    and "\<not> sp_active (switch_plan s')" and "rest_same (s\<lparr>current_task := Some Service\<rparr>) s'"
    and "timer_q (lmem s') = timer_q (lmem s)" and "delay_q (lmem s') = delay_q (lmem s)"
proof -
  note D = sched_invD [OF inv]
  have l: "live cfg s Service" by (rule tasks_invD(4) [OF D(2)])
  have q: "Service \<notin> set (delay_q (lmem s))" "wait_owner Service s = None"
    using live_member [OF D(2) l] b by (auto simp: member_ok_def split: rts_wait_reason.splits)
  have e: "False = (current_task s = Some Service)" using cur by simp
  obtain s1 where s1: "sched_inv cfg base s1" "rest_same s s1" "switch_plan s1 = switch_plan s"
    "\<And>u. tcb_core (tcbs s1 u) = tcb_core (tcbs (upd_tcb Service (woken cfg False RTS_WAIT_RESULT_NONE) s) u)"
    "timer_q (lmem s1) = timer_q (lmem s)" "delay_q (lmem s1) = delay_q (lmem s)"
    by (rule wake_up_law [OF open_blocked [OF inv l b] b D(3) q e, of RTS_WAIT_RESULT_NONE]) blast
  note E = sched_invD [OF s1(1)]
  let ?s = "switched cfg t Service s1"
  have c1: "current_task s1 = Some t" using s1(2) cur by (simp add: rest_same_def)
  have r: "task_state (tcbs s1 Service) = RTS_TASK_STATE_READY"
    using tcb_core_fields(1) [OF s1(4) [of Service]] by (simp add: upd_tcb_def woken_def)
  have f: "priority (tcbs ?s u) = priority (tcbs s1 u)" "base_priority (tcbs ?s u) = base_priority (tcbs s1 u)"
    "slot_state (tcbs ?s u) = slot_state (tcbs s1 u)" "wake_tick (tcbs ?s u) = wake_tick (tcbs s1 u)" for u
    by (simp_all add: switched_def)
  have g: "lmem ?s = lmem s1" "wmem ?s = wmem s1" "omem ?s = omem s1" "ready_bitmap ?s = ready_bitmap s1"
    "semaphores ?s = semaphores s1" "mutexes ?s = mutexes s1" "switch_plan ?s = switch_plan s1" "lifecycle ?s = lifecycle s1"
    by (simp_all add: switched_def)
  have "links_inv cfg ?s" by (rule links_cong [OF E(1)]) (simp_all add: f g)
  moreover have "tasks_inv cfg ?s" by (rule switched_tasks(1) [OF E(2) c1 tasks_invD(4) [OF E(2)] r])
  moreover have "sync_inv cfg ?s" using sync_cong [of ?s s1 cfg] E(3) f g by simp
  moreover have "delay_ordered base ?s" using delay_ordered_cong [of ?s s1 base] E(4) f g by simp
  moreover have "plan_wf cfg ?s" using plan sched_running [OF s1(1)] s1(3) by (simp add: plan_wf_def g) (simp add: switched_def)
  ultimately have "sched_inv cfg base ?s" by (simp add: sched_inv_def)
  then show ?thesis using plan s1(2,3,5,6) by (intro that [of ?s]) (simp_all add: switched_def rest_same_def)
qed

end
