(* ===== verification/Service_Race.thy ===== *)
theory Service_Race
  imports Service_Sleep
begin

text \<open>
  A tick that finds an expired timer while the timer service is about to sleep: the steps of
  \<^verbatim>\<open>rts_kernel_tick_advance\<close> (\<^verbatim>\<open>kernel/time.c\<close>) and of the expiry loop (\<^verbatim>\<open>kernel/timer.c\<close>) in the state between the
  blocking of the service and the context switch.
\<close>

section \<open>What the timers leave alone\<close>

definition off_timers where
  "off_timers s = (tcbs s, ready_bitmap s, wmem s, omem s, (current_task s, lifecycle s, switch_plan s),
     (idle_task s, timer_service_task s), semaphores s, mutexes s)"

lemma off_timers_simps [simp]:
  "off_timers (upd_timer i f s) = off_timers s" "off_timers (diag_inc cfg c s) = off_timers s"
  "off_timers (diag_add cfg c n s) = off_timers s" "off_timers (RTS_TRACE cfg e a b s) = off_timers s"
  "off_timers (s\<lparr>lmem := m\<rparr>) = off_timers s" "off_timers (s\<lparr>callback_queue := q\<rparr>) = off_timers s"
  "off_timers (s\<lparr>timers := ts\<rparr>) = off_timers s" "off_timers (s\<lparr>runtime_counters := c'\<rparr>) = off_timers s"
  "off_timers (s\<lparr>in_isr := b'\<rparr>) = off_timers s" "off_timers (s\<lparr>current_tick := now\<rparr>) = off_timers s"
  by (simp_all add: off_timers_def upd_timer_def diag_inc_def diag_add_def RTS_TRACE_def)

lemma off_timers_inv:
  assumes inv: "sched_inv cfg base s" and off: "off_timers s' = off_timers s" and links: "links_inv cfg s'"
    and q: "ready_q cfg (lmem s') = ready_q cfg (lmem s)" "delay_q (lmem s') = delay_q (lmem s)"
  shows "sched_inv cfg base s'"
proof -
  note D = sched_invD [OF inv]
  have f: "tcbs s' = tcbs s" "wmem s' = wmem s" "omem s' = omem s" "current_task s' = current_task s" "lifecycle s' = lifecycle s"
    "switch_plan s' = switch_plan s" "idle_task s' = idle_task s" "timer_service_task s' = timer_service_task s"
    "semaphores s' = semaphores s" "mutexes s' = mutexes s"
    using off by (simp_all add: off_timers_def)
  have "tasks_inv cfg s'" using D(2) by (simp add: tasks_inv_def task_ok_def live_def f q)
  moreover have "sync_inv cfg s'" using D(3) sync_cong [of s' s cfg] f by simp
  moreover have "delay_ordered base s'" using D(4) delay_ordered_cong [of s' s base] f q by simp
  moreover have "plan_wf cfg s'" by (rule plan_wf_cong [OF D(5)]) (use f in \<open>simp_all add: live_def\<close>)
  ultimately show ?thesis using links by (simp add: sched_inv_def)
qed

lemma off_timers_links:
  assumes "links_inv cfg s" and "off_timers s' = off_timers s" and "lmem s' = lmem s"
  shows "links_inv cfg s'"
  by (rule links_cong [OF assms(1)]) (use assms in \<open>simp_all add: off_timers_def\<close>)

section \<open>The expiry of one timer\<close>

lemma queue_callback_wakes:
  assumes inv: "sched_inv cfg base s" and cur: "current_task s = Some Service" and b: "task_state (tcbs s Service) = RTS_TASK_STATE_BLOCKED"
    and q: "cq_count (callback_queue s) = 0"
  obtains s' where "timer_queue_callback cfg i d s = Inr (True, s')"
    and "task_state (tcbs s' Service) = RTS_TASK_STATE_READY" and "current_task s' = Some Service"
    and "lifecycle s' = lifecycle s" and "switch_plan s' = switch_plan s"
    and "links_inv cfg s'" and "timer_q (lmem s') = timer_q (lmem s)" and "\<And>j. j \<noteq> i \<Longrightarrow> timers s' j = timers s j"
    and "set (ready_q cfg (lmem s')) = insert Service (set (ready_q cfg (lmem s)))"
    and "\<And>u. live cfg s u \<Longrightarrow> policy_adm cfg u s'" and "rts_scheduler_task_is_runnable cfg (Some Service) s' = Inr True"
proof -
  have cap: "0 < RTS_TIMER_CALLBACK_QUEUE_CAPACITY cfg"
    using links_invD(1) [OF sched_invD(1) [OF inv]] by (simp add: config_ok_def rts_types_checks_def)
  define s1 where "s1 = upd_timer i (\<lambda>x. x\<lparr>tm_expiration_sequence := tm_expiration_sequence x + 1\<rparr>) s"
  define work where "work = \<lparr>wk_timer = Some i, wk_expiration_tick = d, wk_generation = tm_generation (timers s1 i),
    wk_sequence = tm_expiration_sequence (timers s1 i)\<rparr>"
  define q' where "q' = snd (rts_timer_callback_queue_enqueue cfg (Some work) (callback_queue s1))"
  have enq: "rts_timer_callback_queue_enqueue cfg (Some work) (callback_queue s1) = (True, q')"
    using cap q by (simp add: q'_def rts_timer_callback_queue_enqueue_def work_def s1_def upd_timer_def Let_def)
  define s2 where "s2 = upd_timer i (\<lambda>x. x\<lparr>tm_callback_state := RTS_TIMER_CALLBACK_PENDING\<rparr>) (s1\<lparr>callback_queue := q'\<rparr>)"
  define depth where "depth = (of_nat (cq_maximum_depth (callback_queue s2)) :: uint32)"
  define s3 where "s3 = (if RTS_ENABLE_RUNTIME_STATS cfg \<and> depth > runtime_counters s2 timer_callback_queue_maximum_depth
    then s2\<lparr>runtime_counters := (runtime_counters s2)(timer_callback_queue_maximum_depth := depth)\<rparr> else s2)"
  have off: "off_timers s3 = off_timers s" by (simp add: s3_def s2_def s1_def)
  have l: "lmem s3 = lmem s" by (simp add: s3_def s2_def s1_def upd_timer_def)
  have t: "timers s3 j = timers s j" if "j \<noteq> i" for j using that by (simp add: s3_def s2_def s1_def upd_timer_def)
  have c: "timer_queue_callback cfg i d s = rts_scheduler_timer_service_wake cfg s3"
    by (simp add: timer_queue_callback_def Let_def enq flip: s1_def work_def s2_def depth_def) (simp add: s3_def)
  have inv3: "sched_inv cfg base s3"
    by (rule off_timers_inv [OF inv off off_timers_links [OF sched_invD(1) [OF inv] off l]]) (simp_all add: l)
  have f: "tcbs s3 = tcbs s" "current_task s3 = current_task s" "lifecycle s3 = lifecycle s" "switch_plan s3 = switch_plan s"
    using off by (simp_all add: off_timers_def)
  have live: "live cfg s3 u = live cfg s u" for u by (simp add: live_def f)
  have cb: "current_task s3 = Some Service" "task_state (tcbs s3 Service) = RTS_TASK_STATE_BLOCKED" using cur b by (simp_all add: f)
  obtain s' where "rts_scheduler_timer_service_wake cfg s3 = Inr (True, s')"
    "task_state (tcbs s' Service) = RTS_TASK_STATE_READY" "current_task s' = Some Service" "lifecycle s' = lifecycle s3"
    "switch_plan s' = switch_plan s3" "links_inv cfg s'" "timer_q (lmem s') = timer_q (lmem s3)"
    "timers s' = timers s3"
    "set (ready_q cfg (lmem s')) = insert Service (set (ready_q cfg (lmem s3)))"
    "\<And>u. live cfg s3 u \<Longrightarrow> policy_adm cfg u s'" "rts_scheduler_task_is_runnable cfg (Some Service) s' = Inr True"
    by (rule service_wake_current [OF inv3 cb]) blast
  then show ?thesis by (intro that [of s']) (simp_all add: c f l t live)
qed

lemma expire_one_shot_wakes:
  assumes inv: "sched_inv cfg base s" and cur: "current_task s = Some Service" and b: "task_state (tcbs s Service) = RTS_TASK_STATE_BLOCKED"
    and q: "cq_count (callback_queue s) = 0" and i: "i \<in> set (timer_q (lmem s))" and mode: "tm_mode (timers s i) \<noteq> RTS_TIMER_PERIODIC"
    and idle: "tm_callback_state (timers s i) = RTS_TIMER_CALLBACK_IDLE"
  obtains s' where "timer_expire_one cfg now i s = Inr (True, s')"
    and "task_state (tcbs s' Service) = RTS_TASK_STATE_READY" and "current_task s' = Some Service"
    and "lifecycle s' = lifecycle s" and "switch_plan s' = switch_plan s"
    and "links_inv cfg s'" and "timer_q (lmem s') = remove1 i (timer_q (lmem s))" and "\<And>j. j \<noteq> i \<Longrightarrow> timers s' j = timers s j"
    and "set (ready_q cfg (lmem s')) = insert Service (set (ready_q cfg (lmem s)))"
    and "\<And>u. live cfg s u \<Longrightarrow> policy_adm cfg u s'" and "rts_scheduler_task_is_runnable cfg (Some Service) s' = Inr True"
proof -
  obtain m where m: "rts_timer_queue_remove cfg (Some i) s = Inr (s\<lparr>lmem := m\<rparr>)" "links_inv cfg (s\<lparr>lmem := m\<rparr>)"
    "timer_q m = remove1 i (timer_q (lmem s))" "ready_q cfg m = ready_q cfg (lmem s)" "delay_q m = delay_q (lmem s)"
    by (rule links_timer_remove [OF sched_invD(1) [OF inv] i])
  let ?d = "tm_expiration_tick (timers s i)"
  define s1 where "s1 = upd_timer i (\<lambda>x. x\<lparr>tm_state := RTS_TIMER_STOPPED\<rparr>)
    (upd_timer i (\<lambda>x. x\<lparr>tm_last_expiration_tick := ?d\<rparr>) (s\<lparr>lmem := m\<rparr>))"
  define s2 where "s2 = (if RTS_ENABLE_RUNTIME_STATS cfg then
      upd_timer i (\<lambda>x. x\<lparr>tm_diagnostic_expiration_count := rts_diagnostic_counter_increment (tm_diagnostic_expiration_count x),
        tm_diagnostic_missed_period_count := rts_diagnostic_counter_add (tm_diagnostic_missed_period_count x) 0\<rparr>)
        (diag_add cfg timer_missed_periods 0 (diag_inc cfg timer_expirations s1)) else s1)"
  define s3 where "s3 = RTS_TRACE cfg RTS_TRACE_TIMER_EXPIRED (of_nat (tm_slot_index (timers s2 i))) ?d s2"
  note defs = s3_def s2_def s1_def
  have off: "off_timers s3 = off_timers s" by (simp add: defs)
  have l: "lmem s3 = m" "callback_queue s3 = callback_queue s" "tm_callback_state (timers s3 i) = RTS_TIMER_CALLBACK_IDLE"
    using idle by (simp_all add: defs upd_timer_def RTS_TRACE_def diag_add_def diag_inc_def)
  have t: "timers s3 j = timers s j" if "j \<noteq> i" for j
    using that by (simp add: defs upd_timer_def RTS_TRACE_def diag_add_def diag_inc_def)
  have mode1: "tm_mode (timers (upd_timer i (\<lambda>x. x\<lparr>tm_last_expiration_tick := ?d\<rparr>) (s\<lparr>lmem := m\<rparr>)) i) \<noteq> RTS_TIMER_PERIODIC"
    using mode by (simp add: upd_timer_def)
  have c: "timer_expire_one cfg now i s = timer_queue_callback cfg i ?d s3"
    using mode1 l(3) unfolding defs
    by (cases "RTS_ENABLE_RUNTIME_STATS cfg") (simp_all add: timer_expire_one_def Let_def m(1))
  have links3: "links_inv cfg s3" by (rule off_timers_links [OF m(2)]) (simp_all add: off l(1))
  have inv3: "sched_inv cfg base s3" by (rule off_timers_inv [OF inv off links3]) (simp_all add: l(1) m(4,5))
  have f: "tcbs s3 = tcbs s" "current_task s3 = current_task s" "lifecycle s3 = lifecycle s" "switch_plan s3 = switch_plan s"
    using off by (simp_all add: off_timers_def)
  have live: "live cfg s3 u = live cfg s u" for u by (simp add: live_def f)
  have cb: "current_task s3 = Some Service" "task_state (tcbs s3 Service) = RTS_TASK_STATE_BLOCKED" "cq_count (callback_queue s3) = 0"
    using cur b q by (simp_all add: f l(2))
  obtain s' where "timer_queue_callback cfg i ?d s3 = Inr (True, s')"
    "task_state (tcbs s' Service) = RTS_TASK_STATE_READY" "current_task s' = Some Service" "lifecycle s' = lifecycle s3"
    "switch_plan s' = switch_plan s3" "links_inv cfg s'" "timer_q (lmem s') = timer_q (lmem s3)"
    "\<And>j. j \<noteq> i \<Longrightarrow> timers s' j = timers s3 j"
    "set (ready_q cfg (lmem s')) = insert Service (set (ready_q cfg (lmem s3)))"
    "\<And>u. live cfg s3 u \<Longrightarrow> policy_adm cfg u s'" "rts_scheduler_task_is_runnable cfg (Some Service) s' = Inr True"
    by (rule queue_callback_wakes [OF inv3 cb, of i ?d]) blast
  then show ?thesis by (intro that [of s']) (simp_all add: c f l(1) m(3,4) t live)
qed

section \<open>The tick\<close>

lemma runnable_total:
  assumes "links_inv cfg s" and "policy_adm cfg t s"
  obtains r where "rts_scheduler_task_is_runnable cfg (Some t) s = Inr r"
proof (cases "rts_scheduler_task_is_runnable cfg (Some t) s")
  case (Inl e)
  then show ?thesis
    using links_validate [OF assms, of True] by (simp add: rts_scheduler_task_is_runnable_def Let_def split: if_splits)
qed (use that in blast)

text \<open>The reschedule decision with a current task that is ready: it is fatal, or leaves the state as it is.\<close>

lemma ready_current_reschedule:
  assumes links: "links_inv cfg s" and cur: "current_task s = Some t" and ready: "task_state (tcbs s t) = RTS_TASK_STATE_READY"
    and run: "lifecycle s = RTS_KERNEL_RUNNING" and r: "rts_scheduler_task_is_runnable cfg (Some t) s = Inr True"
    and adm: "\<And>u. u \<in> set (ready_q cfg (lmem s)) \<Longrightarrow> policy_adm cfg u s" and ne: "ready_q cfg (lmem s) \<noteq> []"
  shows "bnd (rts_policy_tick cfg n s) (\<lambda>(_, s). time_reschedule cfg s) \<in> {Inl RTS_FATAL_ASSERTION, Inr (False, s)}"
proof -
  have get: "rts_scheduler_current_get s = Some t" using cur by (simp add: rts_scheduler_current_get_def)
  have out: "rts_switch_outgoing_is_valid cfg (Some t) s = Inr False" by (rule ready_is_not_outgoing [OF ready])
  have tick: "rts_policy_tick cfg n s = Inr (False, s)"
    using get ready by (auto simp: rts_policy_tick_def rts_policy_fp_tick_def rts_policy_rms_tick_def rts_policy_edf_tick_def
        split: rts_policy_kind.split)
  obtain h hs where h: "ready_q cfg (lmem s) = h # hs" using ne by (cases "ready_q cfg (lmem s)") auto
  obtain rh where rh: "rts_scheduler_task_is_runnable cfg (Some h) s = Inr rh"
    by (rule runnable_total [OF links adm [of h]]) (simp_all add: h)
  have pick: "rts_policy_pick_next cfg s = Inr (Some h)" using links_pick [OF links] by (simp add: h)
  have "rts_scheduler_prepare_switch cfg (Some t) s \<in> {Inl RTS_FATAL_ASSERTION, Inr (False, s)}"
    using run by (auto simp: rts_scheduler_prepare_switch_def get out r rts_assert_def Let_def)
  then show ?thesis
    unfolding tick using run
    by (auto simp: time_reschedule_def get Let_def rts_scheduler_select_highest_ready_def pick rh ready fatal_unless_def rts_assert_def)
qed

text \<open>The state in which a tick looks for tasks and timers that are due.\<close>

definition ticked :: "rts_config \<Rightarrow> rts_tick \<Rightarrow> rts_kernel_state \<Rightarrow> rts_kernel_state" where
  "ticked cfg n s =
     (let s = diag_add cfg scheduler_ticks n (s\<lparr>current_tick := current_tick s + n\<rparr>) in
      RTS_TRACE cfg RTS_TRACE_TICK n (current_tick s) s)"

lemma ticked_fields:
  "off_timers (ticked cfg n s) = off_timers s" "lmem (ticked cfg n s) = lmem s" "timers (ticked cfg n s) = timers s"
  "callback_queue (ticked cfg n s) = callback_queue s" "current_tick (ticked cfg n s) = current_tick s + n"
  by (simp_all add: ticked_def Let_def) (simp_all add: RTS_TRACE_def diag_add_def)

lemma time_advance_ticked:
  "rts_kernel_time_advance_common cfg n s =
    bnd (wake_loop cfg (RTS_SCHEDULABLE_TASK_CAPACITY cfg + 1) False False (ticked cfg n s)) (\<lambda>(ok, woke_task, current_woke, s).
      if \<not> ok then Inr (False, s)
      else
        bnd (rts_timer_manager_process_expired cfg (current_tick s) s) (\<lambda>(service_woken, s).
        let woke_task = (woke_task \<or> service_woken) in
        bnd (if current_woke then Inr (False, s) else rts_policy_tick cfg n s) (\<lambda>(slice_rotated, s).
        if \<not> woke_task \<and> \<not> slice_rotated then Inr (False, s)
        else time_reschedule cfg s)))"
  by (simp only: rts_kernel_time_advance_common_def ticked_def Let_def)

text \<open>Nothing is due but the one-shot timer at the head of the queue, whose callback is idle.\<close>

definition only_due :: "rts_tick \<Rightarrow> nat \<Rightarrow> rts_kernel_state \<Rightarrow> bool" where
  "only_due now i s \<longleftrightarrow> (\<exists>js. timer_q (lmem s) = i # js \<and> (\<forall>j \<in> set js. \<not> rts_tick_reached now (tm_expiration_tick (timers s j)))) \<and>
     rts_tick_reached now (tm_expiration_tick (timers s i)) \<and> tm_mode (timers s i) \<noteq> RTS_TIMER_PERIODIC \<and>
     tm_callback_state (timers s i) = RTS_TIMER_CALLBACK_IDLE \<and>
     (\<forall>t \<in> set (delay_q (lmem s)). \<not> rts_tick_reached now (wake_tick (tcbs s t)))"

lemma expired_loop_one:
  assumes inv: "sched_inv cfg base s" and cur: "current_task s = Some Service" and b: "task_state (tcbs s Service) = RTS_TASK_STATE_BLOCKED"
    and q: "cq_count (callback_queue s) = 0" and due: "only_due now i s"
  obtains s' where "expired_loop cfg (RTS_MAX_TIMERS cfg + 1) now False s = Inr (True, s')"
    and "task_state (tcbs s' Service) = RTS_TASK_STATE_READY" and "current_task s' = Some Service"
    and "lifecycle s' = lifecycle s" and "switch_plan s' = switch_plan s" and "links_inv cfg s'"
    and "set (ready_q cfg (lmem s')) = insert Service (set (ready_q cfg (lmem s)))"
    and "\<And>u. live cfg s u \<Longrightarrow> policy_adm cfg u s'" and "rts_scheduler_task_is_runnable cfg (Some Service) s' = Inr True"
proof -
  note D = links_invD [OF sched_invD(1) [OF inv]]
  obtain js where js: "timer_q (lmem s) = i # js" "\<And>j. j \<in> set js \<Longrightarrow> \<not> rts_tick_reached now (tm_expiration_tick (timers s j))"
    "rts_tick_reached now (tm_expiration_tick (timers s i))"
    using due by (auto simp: only_due_def)
  have i: "i \<in> set (timer_q (lmem s))" "tm_mode (timers s i) \<noteq> RTS_TIMER_PERIODIC" "tm_callback_state (timers s i) = RTS_TIMER_CALLBACK_IDLE"
    using due by (auto simp: only_due_def)
  obtain s' where s': "timer_expire_one cfg now i s = Inr (True, s')"
    "task_state (tcbs s' Service) = RTS_TASK_STATE_READY" "current_task s' = Some Service" "lifecycle s' = lifecycle s"
    "switch_plan s' = switch_plan s" "links_inv cfg s'" "timer_q (lmem s') = remove1 i (timer_q (lmem s))"
    "\<And>j. j \<noteq> i \<Longrightarrow> timers s' j = timers s j"
    "set (ready_q cfg (lmem s')) = insert Service (set (ready_q cfg (lmem s)))"
    "\<And>u. live cfg s u \<Longrightarrow> policy_adm cfg u s'" "rts_scheduler_task_is_runnable cfg (Some Service) s' = Inr True"
    by (rule expire_one_shot_wakes [OF inv cur b q i, of now]) blast
  have p1: "rts_timer_queue_peek_expired cfg now s = Inr (Some i)"
    using timer_queue_peek_expired_ok [OF D(4), of now] js by simp
  have "i \<notin> set js" using distinct_active_timers [OF D(4)] js(1) by simp
  then have "rts_timer_queue_peek_expired cfg now s' = Inr None"
    using timer_queue_peek_expired_ok [OF links_invD(4) [OF s'(6)], of now] s'(7,8) js(1,2) by (cases js) auto
  moreover obtain k where "RTS_MAX_TIMERS cfg = Suc k"
    using D(1) by (cases "RTS_MAX_TIMERS cfg") (auto simp: config_ok_def rts_types_checks_def)
  ultimately have "expired_loop cfg (RTS_MAX_TIMERS cfg + 1) now False s = Inr (True, s')" using p1 s'(1) by simp
  with s' show ?thesis by (intro that [of s']) blast+
qed

lemma tick_stops_on_ready_service:
  assumes inv: "sched_inv cfg base s" and cur: "current_task s = Some Service" and b: "task_state (tcbs s Service) = RTS_TASK_STATE_BLOCKED"
    and q: "cq_count (callback_queue s) = 0" and due: "only_due (current_tick s + 1) i s"
  obtains s' where "expired_loop cfg (RTS_MAX_TIMERS cfg + 1) (current_tick s + 1) False (ticked cfg 1 (s\<lparr>in_isr := True\<rparr>)) = Inr (True, s')"
    and "current_task s' = Some Service" and "task_state (tcbs s' Service) = RTS_TASK_STATE_READY" and "switch_plan s' = switch_plan s"
    and "links_inv cfg s'" and "\<And>u. live cfg s u \<Longrightarrow> policy_adm cfg u s'" and "lifecycle s' = RTS_KERNEL_RUNNING"
    and "rts_kernel_tick_advance cfg 1 (s\<lparr>in_isr := True\<rparr>) \<in> {Inl RTS_FATAL_ASSERTION, Inr (False, s')}"
proof -
  let ?s = "ticked cfg 1 (s\<lparr>in_isr := True\<rparr>)" and ?now = "current_tick s + 1"
  note T = ticked_fields [of cfg 1 "s\<lparr>in_isr := True\<rparr>"]
  have off: "off_timers ?s = off_timers s" and l: "lmem ?s = lmem s" using T by simp_all
  have f: "tcbs ?s = tcbs s" "current_task ?s = current_task s" "lifecycle ?s = lifecycle s" "switch_plan ?s = switch_plan s"
    using off by (simp_all add: off_timers_def)
  have inv': "sched_inv cfg base ?s"
    by (rule off_timers_inv [OF inv off off_timers_links [OF sched_invD(1) [OF inv] off l]]) (simp_all add: l)
  note D = sched_invD [OF inv'] and L = links_invD [OF sched_invD(1) [OF inv']]
  have live: "live cfg ?s u = live cfg s u" for u by (simp add: live_def f)
  have cb: "current_task ?s = Some Service" "task_state (tcbs ?s Service) = RTS_TASK_STATE_BLOCKED" "cq_count (callback_queue ?s) = 0"
    using cur b q T(4) by (simp_all add: f)
  have due': "only_due ?now i ?s" using due T by (simp add: only_due_def f l)
  obtain s' where s': "expired_loop cfg (RTS_MAX_TIMERS cfg + 1) ?now False ?s = Inr (True, s')"
    "task_state (tcbs s' Service) = RTS_TASK_STATE_READY" "current_task s' = Some Service"
    "lifecycle s' = lifecycle ?s" "switch_plan s' = switch_plan ?s" "links_inv cfg s'"
    "set (ready_q cfg (lmem s')) = insert Service (set (ready_q cfg (lmem ?s)))"
    "\<And>u. live cfg ?s u \<Longrightarrow> policy_adm cfg u s'" "rts_scheduler_task_is_runnable cfg (Some Service) s' = Inr True"
    by (rule expired_loop_one [OF inv' cb due']) blast
  have run: "lifecycle s = RTS_KERNEL_RUNNING" "lifecycle s' = RTS_KERNEL_RUNNING" using sched_running [OF inv] s'(4) f by simp_all
  have adm: "policy_adm cfg u s'" if "u \<in> set (ready_q cfg (lmem s'))" for u
    using that s'(7,8) queued_live(1) [OF D(2), of u] tasks_invD(4) [OF D(2)] by auto
  have "ready_q cfg (lmem s') \<noteq> []" using s'(7) by auto
  note R = ready_current_reschedule [OF s'(6,3,2) run(2) s'(9) adm this, of 1]
  have "rts_delay_peek_expired cfg (current_tick ?s) ?s = Inr None"
    using delay_peek_expired_ok [OF L(3), of "current_tick ?s"] due' T(5)
    by (cases "delay_q (lmem ?s)") (auto simp: only_due_def)
  then have "wake_loop cfg (RTS_SCHEDULABLE_TASK_CAPACITY cfg + 1) False False ?s = Inr (True, False, False, ?s)" by simp
  then have "rts_kernel_time_advance_common cfg 1 (s\<lparr>in_isr := True\<rparr>) =
      fatal_unless (rts_timer_manager_validate cfg s') (bnd (rts_policy_tick cfg 1 s') (\<lambda>(_, s). time_reschedule cfg s))"
    using s'(1) T(5) unfolding time_advance_ticked
    by (simp add: Let_def rts_timer_manager_process_expired_def fatal_unless_def del: wake_loop.simps expired_loop.simps)
  then have "rts_kernel_tick_advance cfg 1 (s\<lparr>in_isr := True\<rparr>) \<in> {Inl RTS_FATAL_ASSERTION, Inr (False, s')}"
    using R run(1) by (auto simp: rts_kernel_tick_advance_def Let_def rts_assert_def fatal_unless_def RTS_TICK_MAX_ADVANCE_def)
  with s' run(2) show ?thesis by (intro that [of s']) (simp_all add: f live)
qed

section \<open>The context switch\<close>

lemma ready_current_stops_switch:
  assumes "current_task s = Some t" and "task_state (tcbs s t) = RTS_TASK_STATE_READY" and "sp_pending (switch_plan s)"
    and "sp_from (switch_plan s) = Some t" and "sp_to (switch_plan s) = Some u" and "rts_scheduler_task_is_runnable cfg (Some u) s = Inr r"
  shows "rts_cm4f_switch_bridge_acquire cfg sp (st\<lparr>kernel := s\<rparr>) = Inl RTS_FATAL_ASSERTION"
proof -
  have "rts_scheduler_switch_acquire cfg s \<in> {Inr (None, s), Inl RTS_FATAL_ASSERTION}"
    using assms ready_is_not_outgoing [OF assms(2)]
    by (auto simp: rts_scheduler_switch_acquire_def Let_def rts_scheduler_current_get_def rts_assert_def)
  with assms(3) show ?thesis by (auto simp: rts_cm4f_switch_bridge_acquire_def fatal_unless_def)
qed

lemma pendsv_stops_on_ready_current:
  assumes "current_task s = Some t" and "task_state (tcbs s t) = RTS_TASK_STATE_READY" and "sp_pending (switch_plan s)"
    and "sp_from (switch_plan s) = Some t" and "sp_to (switch_plan s) = Some u" and "links_inv cfg s" and "policy_adm cfg u s"
  shows "PendSV_Handler cfg RTS_CM4F_EXC_RETURN_THREAD_PSP_BASIC (st\<lparr>kernel := s\<rparr>) = Inl RTS_FATAL_ASSERTION"
proof -
  obtain sp m where m: "stmdb (psp st) (r4_r11 st) (bytes s) = (sp, m)" by (cases "stmdb (psp st) (r4_r11 st) (bytes s)")
  let ?st = "st\<lparr>kernel := s, primask := True\<rparr>" and ?s = "s\<lparr>bytes := m\<rparr>"
  have "links_inv cfg ?s" by (rule same_core_links [OF assms(6)]) simp
  moreover have "policy_adm cfg u ?s" using assms(7) by (simp add: policy_adm_def)
  ultimately obtain r where "rts_scheduler_task_is_runnable cfg (Some u) ?s = Inr r" by (rule runnable_total)
  then have "rts_cm4f_switch_bridge_acquire cfg sp (?st\<lparr>kernel := ?s\<rparr>) = Inl RTS_FATAL_ASSERTION"
    using assms(1-5) by (intro ready_current_stops_switch) simp_all
  then show ?thesis by (simp add: PendSV_Handler_def m upd_kernel_def Let_def)
qed

end
