(* ===== verification/Port_Properties.thy ===== *)
theory Port_Properties
  imports Memory_Layout Service_Race
begin

text \<open>
  The properties of the kernel together with the Cortex-M4F port: the frame a task starts with, the
  start of the first task, and the context switch.
\<close>

unbundle bit_operations_syntax

section \<open>The first frame\<close>

lemma cm4f_stack_refused:
  assumes "\<not> cm4f_stack_ok trap low n task_entry"
  obtains st where "cm4f_stack_initialize trap low n task_entry arg m = invalid_stack st m" and "st \<noteq> RTS_STATUS_OK"
proof -
  have add: "rts_cm4f_add_is_valid low n = None" if "\<not> unat low + n < 2 ^ 32"
    using that unat_u32 [of low] by (simp add: rts_cm4f_add_is_valid_def UINTPTR_MAX_def unat_sub word_le_nat_alt)
  consider "task_entry = 0" | "task_entry \<noteq> 0" "low = 0"
    | "task_entry \<noteq> 0" "low \<noteq> 0" "low mod 16 \<noteq> 0 \<or> n < 64 \<or> n mod 16 \<noteq> 0 \<or> \<not> unat low + n < 2 ^ 32"
    | "task_entry \<noteq> 0" "cm4f_stack_ok 1 low n 1" "even task_entry \<or> even trap"
    using assms unfolding cm4f_stack_ok_def by (metis not_le odd_one)
  then show ?thesis
  proof cases
    case 1
    then have "cm4f_stack_initialize trap low n task_entry arg m = invalid_stack RTS_STATUS_INVALID_TASK_CONFIG m"
      by (simp add: cm4f_stack_initialize_def)
    then show ?thesis by (rule that) simp
  next
    case 2
    then have "cm4f_stack_initialize trap low n task_entry arg m = invalid_stack RTS_STATUS_INVALID_STACK m"
      by (simp add: cm4f_stack_initialize_def)
    then show ?thesis by (rule that) simp
  next
    case 4
    define high where "high = low + of_nat n"
    note T = stack_top [OF 4(2), folded high_def]
    have "unat low \<le> unat high" "64 \<le> n" using T(1) 4(2) by (simp_all add: cm4f_stack_ok_def)
    moreover have "\<not> high < low" "\<not> high - 64 < low" "\<not> high < high - 64" using T(1,3) calculation by (simp_all add: word_less_nat_alt)
    moreover have "unat (high - low) = n" using T(1) by (simp add: unat_sub word_le_nat_alt)
    moreover have "\<not> arg > 0xffffffff" using unat_u32 [of arg] by (simp add: word_less_nat_alt not_less)
    ultimately have "cm4f_stack_initialize trap low n task_entry arg m = invalid_stack RTS_STATUS_PORT_ERROR m"
      using 4 T(4) aligned_top [OF T(2)]
      by (simp add: cm4f_stack_initialize_def cm4f_stack_ok_def cm4f_consts T(5) rts_cm4f_entry_encode_def odd_and_1 Let_def)
    then show ?thesis by (rule that) simp
  next
    case 3
    then have "cm4f_stack_initialize trap low n task_entry arg m = invalid_stack RTS_STATUS_INVALID_STACK m"
      using add by (auto simp: cm4f_stack_initialize_def cm4f_consts Let_def)
    then show ?thesis by (rule that) simp
  qed
qed

text \<open>
  C27. \<^verbatim>\<open>rts_port_stack_initialize\<close> of the Cortex-M4F port (\<^verbatim>\<open>ports/arm/cortex_m4f/port_stack.c\<close>): a stack is accepted
  exactly when it is non-null, 16-byte aligned at both ends, large enough, does not wrap around the address
  space and both code addresses are Thumb addresses. Then the frame lies below the top of the
  stack, reads back as the sixteen words that start the task (R4 to R11 zero, R0 the argument, LR the return trap, PC the entry,
  the Thumb bit in xPSR), and no other byte is written. Otherwise nothing is written and no stack pointer is returned.
\<close>

theorem initial_frame_reads_back:
  assumes "cm4f_stack_initialize trap low n task_entry arg m = (r, m')"
  shows "if cm4f_stack_ok trap low n task_entry
    then psr_status r = RTS_STATUS_OK \<and> psr_saved_stack_pointer r = low + of_nat n - 64 \<and>
      map (frame_word (psr_saved_stack_pointer r) m') [0..<16] =
        [0, 0, 0, 0, 0, 0, 0, 0, arg, 0, 0, 0, 0, trap, task_entry, 0x01000000] \<and>
      (\<forall>x. unat x < unat low + n - 64 \<or> unat low + n \<le> unat x \<longrightarrow> m' x = m x)
    else psr_status r \<noteq> RTS_STATUS_OK \<and> psr_saved_stack_pointer r = 0 \<and> m' = m"
proof (cases "cm4f_stack_ok trap low n task_entry")
  case True
  have eight: "replicate 8 0 = [0, 0, 0, 0, 0, 0, 0, 0 :: uint32]" by (simp add: eval_nat_numeral)
  obtain m'' where m'': "cm4f_stack_initialize trap low n task_entry arg m =
      (\<lparr>psr_status = RTS_STATUS_OK, psr_saved_stack_pointer = low + of_nat n - 64\<rparr>, m'')"
    "map (frame_word (low + of_nat n - 64) m'') [0..<16] = initial_frame trap task_entry arg"
    "\<And>x. unat x < unat low + n - 64 \<or> unat low + n \<le> unat x \<Longrightarrow> m'' x = m x"
    by (rule cm4f_stack_accepted [OF True, of arg m]) blast
  have r: "r = \<lparr>psr_status = RTS_STATUS_OK, psr_saved_stack_pointer = low + of_nat n - 64\<rparr>" and m': "m' = m''" using m''(1) assms by simp_all
  have "initial_frame trap task_entry arg = [0, 0, 0, 0, 0, 0, 0, 0, arg, 0, 0, 0, 0, trap, task_entry, 0x01000000]"
    by (simp add: initial_frame_def eight RTS_CM4F_INITIAL_XPSR_def)
  then show ?thesis using True m''(2,3) unfolding r m' by (simp only: if_True rts_port_stack_result.select_convs simp_thms) blast
next
  case False
  obtain st where st: "cm4f_stack_initialize trap low n task_entry arg m = invalid_stack st m" "st \<noteq> RTS_STATUS_OK"
    by (rule cm4f_stack_refused [OF False])
  then have "r = \<lparr>psr_status = st, psr_saved_stack_pointer = 0\<rparr>" "m' = m" using assms by (simp_all add: invalid_stack_def)
  with st(2) False show ?thesis by simp
qed

theorem initial_frame_reads_back_witness:
  "\<exists>r m'. cm4f_stack_initialize 0x801 0x20002000 512 0x301 42 (\<lambda>_. 0xcd) = (r, m') \<and>
    frame_word (psr_saved_stack_pointer r) m' 8 = 42 \<and> frame_word (psr_saved_stack_pointer r) m' 14 = 0x301 \<and> m' 0x20002000 = 0xcd"
proof -
  obtain r m' where e: "cm4f_stack_initialize 0x801 0x20002000 512 0x301 42 (\<lambda>_. 0xcd) = (r, m')"
    by (cases "cm4f_stack_initialize 0x801 0x20002000 512 0x301 42 (\<lambda>_. 0xcd)")
  have ok: "cm4f_stack_ok 0x801 0x20002000 512 0x301" by (simp add: cm4f_stack_ok_def)
  note I = initial_frame_reads_back [OF e, unfolded if_P [OF ok]]
  have f: "map (frame_word (psr_saved_stack_pointer r) m') [0..<16] = [0, 0, 0, 0, 0, 0, 0, 0, 42, 0, 0, 0, 0, 0x801, 0x301, 0x01000000]"
    "\<forall>x. unat x < unat (0x20002000 :: uintptr) + 512 - 64 \<longrightarrow> m' x = 0xcd"
    using I by blast+
  have "map (frame_word (psr_saved_stack_pointer r) m') [0..<16] ! 8 = 42" "map (frame_word (psr_saved_stack_pointer r) m') [0..<16] ! 14 = 0x301"
    unfolding f by simp_all
  moreover have "m' 0x20002000 = 0xcd" using f(2) by simp
  ultimately show ?thesis using e by simp
qed

section \<open>Creating tasks\<close>

lemma no_overflow:
  assumes "n \<le> unat UINTPTR_MAX" and "\<not> low > UINTPTR_MAX - of_nat n"
  shows "unat low + n < 2 ^ 32"
proof -
  have n: "n < 2 ^ 32" using assms(1) by (simp add: UINTPTR_MAX_def)
  then have "unat (of_nat n :: uintptr) = n" by (simp add: unsigned_of_nat take_bit_nat_eq_self)
  then have "unat (UINTPTR_MAX - of_nat n) = 2 ^ 32 - 1 - n"
    using n by (subst unat_sub) (simp_all add: UINTPTR_MAX_def word_le_nat_alt)
  then have "unat low \<le> 2 ^ 32 - 1 - n" using assms(2) by (simp add: not_less word_le_nat_alt)
  with n show ?thesis by simp
qed

lemma validated_stack_fits:
  assumes v: "rts_task_config_validate cfg (cm4f_port trap tg) (Some c) RTS_KERNEL_INITIALIZED = Inr RTS_STATUS_OK"
    and thumb: "odd (tc_entry c)" "odd trap"
  shows "cm4f_stack_ok trap (tc_stack_buffer c) (tc_stack_size_bytes c) (tc_entry c)"
proof -
  let ?low = "tc_stack_buffer c" and ?n = "tc_stack_size_bytes c"
  have "rts_task_stack_is_valid cfg (cm4f_port trap tg) c = Inr True"
    using v by (cases "rts_task_stack_is_valid cfg (cm4f_port trap tg) c")
      (auto simp: rts_task_config_validate_def split: if_splits)
  then have "?low \<noteq> 0 \<and> ?low mod 16 = 0 \<and> 64 \<le> ?n \<and> ?n mod 16 = 0 \<and> ?n \<le> unat UINTPTR_MAX \<and> \<not> ?low > UINTPTR_MAX - of_nat ?n"
    by (auto simp: rts_task_stack_is_valid_def cm4f_port_def cm4f_consts rts_assert_def Let_def split: if_splits)
  moreover from this have "unat ?low + ?n < 2 ^ 32" by (intro no_overflow) blast+
  ultimately show ?thesis using thumb by (simp add: cm4f_stack_ok_def)
qed

text \<open>
  C13. On the Cortex-M4F port every task description that the kernel's validation accepts gets its stack: with
  Thumb addresses for the entry and the trap, \<^verbatim>\<open>rts_task_create\<close> succeeds whenever a slot is free. The port's own
  checks of the stack never refuse what \<^verbatim>\<open>rts_task_stack_is_valid\<close> has let through.
\<close>

theorem validated_tasks_are_created:
  assumes "boot_inv cfg s" and "rts_task_config_validate cfg (cm4f_port trap tg) (Some c) RTS_KERNEL_INITIALIZED = Inr RTS_STATUS_OK"
    and "odd (tc_entry c)" and "odd trap" and "i < RTS_MAX_TASKS cfg" and "slot_is_free s i"
  shows "\<exists>j s'. rts_task_create cfg (cm4f_port trap tg) (Some c) True s = Inr (RTS_STATUS_OK, Some (App j), s') \<and> boot_inv cfg s'"
proof -
  note ok = validated_stack_fits [OF assms(2-4)]
  have "accepts_stack (cm4f_port trap tg) (tc_stack_buffer c) (tc_stack_size_bytes c) (tc_entry c) (tc_argument c)"
    unfolding accepts_stack_def
  proof
    fix b
    obtain m' where "cm4f_stack_initialize trap (tc_stack_buffer c) (tc_stack_size_bytes c) (tc_entry c) (tc_argument c) b =
      (\<lparr>psr_status = RTS_STATUS_OK, psr_saved_stack_pointer = tc_stack_buffer c + of_nat (tc_stack_size_bytes c) - 64\<rparr>, m')"
      by (rule cm4f_stack_accepted [OF ok])
    moreover have "0 < unat (tc_stack_buffer c)" "64 \<le> tc_stack_size_bytes c"
      using ok by (simp_all add: cm4f_stack_ok_def word_neq_0_conv [symmetric] unat_gt_0)
    then have "unat (tc_stack_buffer c + of_nat (tc_stack_size_bytes c) - 64) \<noteq> 0" using stack_top(3) [OF ok] by simp
    ultimately show "let r = fst (pt_stack_initialize (cm4f_port trap tg) (tc_stack_buffer c) (tc_stack_size_bytes c) (tc_entry c) (tc_argument c) b) in
        psr_status r = RTS_STATUS_OK \<and> psr_saved_stack_pointer r \<noteq> 0"
      by (simp add: cm4f_port_def unat_eq_0)
  qed
  then show ?thesis by (rule create_law [OF assms(1,2,5,6)]) blast
qed

theorem validated_tasks_are_created_witness:
  "\<exists>s j s'. rts_task_create test_config (cm4f_port 0x801 ex_port) (Some ex_task) True s = Inr (RTS_STATUS_OK, Some (App j), s')"
proof -
  obtain s where s: "boot_inv test_config s" "\<And>i. slot_is_free s i" by (rule ex_booted) blast
  have "rts_task_config_validate test_config (cm4f_port 0x801 ex_port) (Some ex_task) RTS_KERNEL_INITIALIZED = Inr RTS_STATUS_OK"
    by (simp add: rts_task_config_validate_def ex_task_def rts_task_stack_is_valid_def cm4f_port_def cm4f_consts
        RTS_DELAY_MAX_def SIZE_MAX_def UINTPTR_MAX_def)
  moreover have "odd (tc_entry ex_task)" by (simp add: ex_task_def)
  ultimately show ?thesis using validated_tasks_are_created [OF s(1), of "0x801" ex_port ex_task 0] s(2) by auto
qed

section \<open>The first task\<close>

lemma first_task_valid:
  assumes inv: "boot_inv cfg s" and al: "saved_stack_pointer (tcbs s (head_ready cfg s)) mod RTS_TASK_STACK_ALIGNMENT = 0"
  shows "rts_cm4f_start_task_is_valid cfg (started cfg on s) (Some (head_ready cfg s)) = Inr True"
    and "current_task (started cfg on s) = Some (head_ready cfg s)" and "bytes (started cfg on s) = bytes s"
    and "saved_stack_pointer (tcbs (started cfg on s) t) = saved_stack_pointer (tcbs s t)" and "saved_stack_pointer (tcbs s (head_ready cfg s)) \<noteq> 0"
proof -
  let ?h = "head_ready cfg s" and ?s = "started cfg on s"
  note I = started_inv [OF inv] and R = thread_readyD [OF started_inv(3) [OF inv]]
  note D = sched_invD [OF I(1) [of 0]]
  have l: "live cfg ?s ?h" by (rule queued_live(4) [OF D(2) R(1)])
  have B: "book cfg ((established cfg ?h s)\<lparr>lifecycle := RTS_KERNEL_RUNNING\<rparr>) ?s" by (rule book_started)
  show c: "current_task ?s = Some ?h" by (rule R(1))
  show "bytes ?s = bytes s" using book_fields(12) [OF B] by (simp add: rest_same_def established_def upd_tcb_def)
  have "tcb_core (tcbs ?s t) = tcb_core (tcbs ((established cfg ?h s)\<lparr>lifecycle := RTS_KERNEL_RUNNING\<rparr>) t)" for t
    using book_core [OF B] by (simp add: same_core_def)
  then show sv: "saved_stack_pointer (tcbs ?s t) = saved_stack_pointer (tcbs s t)" for t
    using tcb_core_fields(9) [of "tcbs ?s t"] by (fastforce simp: established_def upd_tcb_def)
  show nz: "saved_stack_pointer (tcbs s ?h) \<noteq> 0" using live_static [OF D(2) l] by (simp add: task_static_def sv)
  show "rts_cm4f_start_task_is_valid cfg ?s (Some ?h) = Inr True"
    using current_valid [OF D(1,2) c] R sched_running [OF I(1) [of 0]] al nz
    by (simp add: rts_cm4f_start_task_is_valid_def rts_scheduler_current_get_def c sv)
qed

lemma frame_word_shift: "frame_word (sp + 32) m i = frame_word sp m (i + 8)"
  by (simp add: frame_word_def algebra_simps)

text \<open>
  C12. Starting on the Cortex-M4F port (\<^verbatim>\<open>port_start.c\<close>, \<^verbatim>\<open>SVC_Handler\<close>): after \<^verbatim>\<open>rts_start\<close> chose the first task, the
  hand-off through SVC enters it with the context its initial frame describes (PSP at the hardware frame with the argument
  in R0, the trap in LR and the entry in PC, R4 to R11 zero), in privileged thread mode on
  the process stack with interrupts enabled; the hand-off is consumed, and a second start is refused. The target's commit of the
  tick source, which the SVC handler calls, is taken to succeed.
\<close>

theorem first_task_enters_its_frame:
  assumes "boot_inv cfg s" and "kernel st = started cfg on s" and "\<not> start_attempted st" and "h = head_ready cfg s"
    and "saved_stack_pointer (tcbs s h) mod RTS_TASK_STACK_ALIGNMENT = 0"
    and "map (frame_word (saved_stack_pointer (tcbs s h)) (bytes s)) [0..<16] = initial_frame trap task_entry arg"
  shows "\<exists>st'. cm4f_start_first_task cfg True st = Inr (RTS_STATUS_OK, st') \<and>
    task_context st' h = (saved_stack_pointer (tcbs s h) + 32, replicate 8 0, [arg, 0, 0, 0, 0, trap, task_entry, 0x01000000]) \<and>
    \<not> primask st' \<and> control st' AND 3 = 2 \<and> kernel st' = started cfg on s \<and> st_valid (start_handoff st') = 0 \<and>
    cm4f_start_first_task cfg True st' = Inr (RTS_STATUS_INVALID_STATE, st')"
proof -
  let ?sp = "saved_stack_pointer (tcbs s h)"
  note V = first_task_valid [OF assms(1) assms(5) [unfolded assms(4)], folded assms(4)]
  define st' where "st' = st\<lparr>start_handoff := \<lparr>st_first_task = Some h, st_saved_stack_pointer = ?sp,
      st_cookie = RTS_CM4F_START_HANDOFF_COOKIE, st_valid = 0\<rparr>, start_attempted := True, primask := False,
    r4_r11 := map (frame_word ?sp (bytes s)) [0..<8], psp := ?sp + 32,
    control := (control st AND NOT (RTS_CM4F_CONTROL_NPRIV_BIT OR RTS_CM4F_CONTROL_FPCA_BIT)) OR RTS_CM4F_CONTROL_SPSEL_BIT\<rparr>"
  have "cm4f_start_first_task cfg True st = Inr (RTS_STATUS_OK, st')"
    using V(1,2,4,5) assms(2,3)
    by (simp add: cm4f_start_first_task_def rts_cm4f_start_handoff_prepare_def SVC_Handler_def rts_cm4f_start_handoff_consume_def
        rts_scheduler_current_get_def Let_def ldmia_frame V(3) st'_def)
  moreover have "task_context st' h = (?sp + 32, replicate 8 0, [arg, 0, 0, 0, 0, trap, task_entry, 0x01000000])"
  proof -
    have "map (frame_word ?sp (bytes s)) [0..<8] = take 8 (map (frame_word ?sp (bytes s)) [0..<16])" by (simp add: take_map)
    moreover have "map (frame_word (?sp + 32) (bytes s)) [0..<8] = drop 8 (map (frame_word ?sp (bytes s)) [0..<16])"
      by (simp add: drop_map frame_word_shift upt_rec numeral_eq_Suc)
    ultimately show ?thesis
      using assms(2) V(2,3) by (simp add: task_context_def st'_def assms(6) initial_frame_def RTS_CM4F_INITIAL_XPSR_def)
  qed
  moreover have "control st' AND 3 = 2"
  proof -
    have three: "(3 :: uint32) = mask 2" by (simp add: mask_eq_exp_minus_1)
    show ?thesis
      by (rule bit_eqI) (auto simp: st'_def three RTS_CM4F_CONTROL_NPRIV_BIT_def RTS_CM4F_CONTROL_FPCA_BIT_def RTS_CM4F_CONTROL_SPSEL_BIT_def
          bit_simps less_Suc_eq numeral_2_eq_2)
  qed
  moreover have "cm4f_start_first_task cfg True st' = Inr (RTS_STATUS_INVALID_STATE, st')"
    by (simp add: cm4f_start_first_task_def rts_cm4f_start_handoff_prepare_def st'_def)
  ultimately show ?thesis using assms(2) by (intro exI [of _ st']) (simp add: st'_def)
qed

theorem first_task_enters_its_frame_witness:
  "\<exists>st h st'. cm4f_start_first_task test_config True st = Inr (RTS_STATUS_OK, st') \<and> \<not> primask st' \<and>
    task_context st' h = (psp st', replicate 8 0, [42, 0, 0, 0, 0, 0x801, 0x301, 0x01000000])"
proof -
  obtain j s where s: "boot_inv test_config s" "head_ready test_config s = App j" "j < RTS_MAX_TASKS test_config"
    by (rule ex_populated) blast
  have v: "valid_task test_config (App j)" using s(3) by simp
  let ?low = "of_nat (ex_low (App j)) :: uintptr"
  have u: "unat ?low = ex_low (App j)" using unat_ex_low [OF v, of 0] by simp
  have ok: "cm4f_stack_ok 0x801 ?low 512 0x301"
    using ex_low_nonzero [OF v, of 0] ex_low_aligned(1) [OF v, of 0] ex_low_bounds(2) [OF v] by (simp add: cm4f_stack_ok_def u)
  obtain m where m: "map (frame_word (?low + of_nat 512 - 64) m) [0..<16] = initial_frame 0x801 0x301 42"
    by (rule cm4f_stack_accepted [OF ok, of 42 "\<lambda>_. 0"]) blast
  let ?r = "relocated m s" and ?st = "(relocated_cpu s)\<lparr>kernel := started test_config True (relocated m s), start_attempted := False\<rparr>"
  have h: "head_ready test_config ?r = App j" using s(2) by (simp add: head_ready_def)
  have sp: "saved_stack_pointer (tcbs ?r (App j)) = ?low + of_nat 512 - 64" by simp
  have al: "saved_stack_pointer (tcbs ?r (App j)) mod RTS_TASK_STACK_ALIGNMENT = 0"
    using ex_low_aligned(1) [OF v, of 448] by (simp add: RTS_TASK_STACK_ALIGNMENT_def)
  obtain st' where st': "cm4f_start_first_task test_config True ?st = Inr (RTS_STATUS_OK, st')" "\<not> primask st'"
    "task_context st' (App j) = (saved_stack_pointer (tcbs ?r (App j)) + 32, replicate 8 0, [42, 0, 0, 0, 0, 0x801, 0x301, 0x01000000])"
    "kernel st' = started test_config True ?r"
    using first_task_enters_its_frame [OF relocated_boot [OF s(1)], of ?st True m "App j" "0x801" "0x301" 42] h m al
    unfolding sp by auto
  have "current_task (kernel st') = Some (App j)" using first_task_valid(2) [OF relocated_boot [OF s(1), of m]] al by (simp add: h st'(4))
  then have "fst (task_context st' (App j)) = psp st'" by (simp add: task_context_def)
  with st' show ?thesis by (metis fst_conv)
qed

section \<open>Context switches\<close>

text \<open>
  C1. \<^verbatim>\<open>PendSV_Handler\<close> (\<^verbatim>\<open>ports/arm/cortex_m4f/port_asm.S\<close>, with the bridge of \<^verbatim>\<open>port_switch.c\<close>) implements the
  abstract context switch: on an intact system it never stops, the current task becomes the target of the plan, and the
  context of every task (its stack pointer, R4 to R11 and the words of its exception frame), seen in the registers while
  it runs and in its stack while it does not, is exactly what it was. The kernel's invariants and the stacks stay intact.
\<close>

theorem pendsv_switches_contexts:
  assumes "contexts_ok cfg st" and "sched_inv cfg base (kernel st)" and "plan_inv cfg (kernel st)" and "\<not> sp_active (switch_plan (kernel st))"
  shows "\<exists>st'. PendSV_Handler cfg RTS_CM4F_EXC_RETURN_THREAD_PSP_BASIC st = Inr st' \<and>
    current_task (kernel st') = plan_target (kernel st) \<and> (\<forall>t. live cfg (kernel st) t \<longrightarrow> task_context st' t = task_context st t) \<and>
    contexts_ok cfg st' \<and> sched_inv cfg base (kernel st') \<and> plan_inv cfg (kernel st') \<and> \<not> primask st'"
  by (rule pendsv_law [OF assms]) blast

theorem pendsv_switches_contexts_witness:
  "\<exists>st st' j u. PendSV_Handler test_config RTS_CM4F_EXC_RETURN_THREAD_PSP_BASIC st = Inr st' \<and> current_task (kernel st) = Some (App j) \<and>
    current_task (kernel st') = Some u \<and> u \<noteq> App j \<and> task_context st' (App j) = (psp st, r4_r11 st, snd (snd (task_context st (App j))))"
proof -
  obtain j s0 where s0: "sched_inv test_config (current_tick s0 + 1) s0" "thread_ready (App j) s0" by (rule ex_running) blast
  have d: "rts_tick_relative_is_valid 7" "(7 :: rts_tick) \<noteq> 0" by (simp_all add: rts_tick_relative_is_valid_def RTS_TICK_MAX_ADVANCE_def)
  obtain s where s: "sched_inv test_config (current_tick s0 + 1) s" "plan_inv test_config s" "sched_frame s0 s"
    "task_state (tcbs s (App j)) = RTS_TASK_STATE_BLOCKED" "sp_pending (switch_plan s)"
    by (rule delay_law [OF s0 d]) blast
  have c: "current_task s = Some (App j)" using s(3) thread_readyD(1) [OF s0(2)] by (simp add: sched_frame_def rest_same_def)
  have l: "live test_config s (App j)" by (rule queued_live(4) [OF sched_invD(2) [OF s(1)] c])
  let ?st = "relocated_cpu s"
  have k: "kernel ?st = relocated (\<lambda>_. RTS_STACK_GUARD_PATTERN) s" by (simp add: relocated_cpu_def)
  obtain u where u: "sp_to (switch_plan s) = Some u" "task_state (tcbs s u) = RTS_TASK_STATE_READY" "\<not> sp_active (switch_plan s)"
    using sched_invD(5) [OF s(1)] s(5) by (auto simp: plan_wf_def)
  have t: "plan_target (kernel ?st) = Some u" using u s(5) by (simp add: plan_target_def k)
  obtain st' where st': "PendSV_Handler test_config RTS_CM4F_EXC_RETURN_THREAD_PSP_BASIC ?st = Inr st'"
    "current_task (kernel st') = plan_target (kernel ?st)" "\<forall>t. live test_config (kernel ?st) t \<longrightarrow> task_context st' t = task_context ?st t"
    using pendsv_switches_contexts [OF relocated_contexts [OF c l], of "current_tick s0 + 1"] relocated_sched [OF s(1)] relocated_plan [OF s(2)] u(3)
    by (auto simp: k)
  have "task_context ?st (App j) = (psp ?st, r4_r11 ?st, snd (snd (task_context ?st (App j))))" using c by (simp add: task_context_def k)
  moreover have "task_context st' (App j) = task_context ?st (App j)" using st'(3) l by (simp add: k)
  moreover have "u \<noteq> App j" using u(2) s(4) by auto
  ultimately show ?thesis using st'(1,2) t c by (intro exI [of _ ?st] exI [of _ st'] exI [of _ j] exI [of _ u]) (simp add: k)
qed

section \<open>A tick while the timer service goes to sleep\<close>

lemma only_due_rest:
  assumes "only_due now i s" and "rest_same s s'" and "timer_q (lmem s') = timer_q (lmem s)" and "delay_q (lmem s') = delay_q (lmem s)"
    and "\<And>u. u \<in> set (delay_q (lmem s)) \<Longrightarrow> wake_tick (tcbs s' u) = wake_tick (tcbs s u)"
  shows "only_due now i s'"
  using assms by (simp add: only_due_def rest_same_def)

text \<open>
  C11. The timer service goes to sleep in two steps: \<^verbatim>\<open>rts_scheduler_timer_service_block\<close> makes it blocked and plans
  the switch, and PendSV carries the switch out. A tick (\<^verbatim>\<open>rts_kernel_tick_advance\<close>) between the two that finds a one-shot timer
  expired, and nothing else due, wakes the service while it is still the current task: the expiry loop ends with the
  current task ready instead of running. In every build the system then stops with a failed assertion: either the tick itself does, or it
  returns without asking for a switch and the context switch that is still pending stops.
\<close>

theorem service_wake_before_switch_is_fatal:
  assumes "sched_inv cfg base s" and "current_task s = Some Service" and "task_state (tcbs s Service) = RTS_TASK_STATE_RUNNING"
    and "\<not> sp_active (switch_plan s)" and "cq_count (callback_queue s) = 0" and "\<not> in_isr s"
    and "only_due (current_tick s + 1) i s"
  shows "\<exists>s1 s2. rts_timer_service_entry cfg callback s = Some (Inr s1) \<and> sched_inv cfg base s1 \<and>
    expired_loop cfg (RTS_MAX_TIMERS cfg + 1) (current_tick s + 1) False (ticked cfg 1 (s1\<lparr>in_isr := True\<rparr>)) = Inr (True, s2) \<and>
    current_task s2 = Some Service \<and> task_state (tcbs s2 Service) = RTS_TASK_STATE_READY \<and>
    (rts_kernel_tick_advance cfg 1 (s1\<lparr>in_isr := True\<rparr>) = Inl RTS_FATAL_ASSERTION \<or>
     rts_kernel_tick_advance cfg 1 (s1\<lparr>in_isr := True\<rparr>) = Inr (False, s2) \<and>
     (\<forall>st. PendSV_Handler cfg RTS_CM4F_EXC_RETURN_THREAD_PSP_BASIC (st\<lparr>kernel := s2\<rparr>) = Inl RTS_FATAL_ASSERTION))"
proof -
  obtain s1 where s1: "rts_timer_service_entry cfg callback s = Some (Inr s1)" "sched_inv cfg base s1"
    "task_state (tcbs s1 Service) = RTS_TASK_STATE_BLOCKED" "current_task s1 = Some Service" "sp_pending (switch_plan s1)"
    "rest_same s s1" "timer_q (lmem s1) = timer_q (lmem s)" "delay_q (lmem s1) = delay_q (lmem s)"
    "\<And>u. u \<noteq> Service \<Longrightarrow> wake_tick (tcbs s1 u) = wake_tick (tcbs s u)"
    by (rule service_idle_round [OF assms(1-6)]) blast
  have f: "current_tick s1 = current_tick s" "cq_count (callback_queue s1) = 0" using s1(6) assms(5) by (simp_all add: rest_same_def)
  have "Service \<notin> set (delay_q (lmem s))" by (rule running_not_queued(2) [OF assms(1-3)])
  then have "only_due (current_tick s1 + 1) i s1" unfolding f(1) by (intro only_due_rest [OF assms(7) s1(6-8)] s1(9)) blast
  then obtain s2 where s2: "expired_loop cfg (RTS_MAX_TIMERS cfg + 1) (current_tick s1 + 1) False (ticked cfg 1 (s1\<lparr>in_isr := True\<rparr>)) = Inr (True, s2)"
    "current_task s2 = Some Service" "task_state (tcbs s2 Service) = RTS_TASK_STATE_READY" "switch_plan s2 = switch_plan s1"
    "links_inv cfg s2" "\<And>u. live cfg s1 u \<Longrightarrow> policy_adm cfg u s2"
    "rts_kernel_tick_advance cfg 1 (s1\<lparr>in_isr := True\<rparr>) \<in> {Inl RTS_FATAL_ASSERTION, Inr (False, s2)}"
    by (rule tick_stops_on_ready_service [OF s1(2,4,3) f(2)]) blast
  obtain u where u: "sp_from (switch_plan s2) = Some Service" "sp_to (switch_plan s2) = Some u" "live cfg s1 u"
    using sched_invD(5) [OF s1(2)] s1(4,5) s2(4) by (auto simp: plan_wf_def)
  have "PendSV_Handler cfg RTS_CM4F_EXC_RETURN_THREAD_PSP_BASIC (st\<lparr>kernel := s2\<rparr>) = Inl RTS_FATAL_ASSERTION" for st
    using s1(5) s2(2-6) u by (intro pendsv_stops_on_ready_current) simp_all
  with s1(1,2) s2 show ?thesis unfolding f(1) by blast
qed

text \<open>A running system whose timer service is current, with one timer that expires at the next tick.\<close>

lemma ex_due_service:
  obtains s where "sched_inv test_config 0 s" and "current_task s = Some Service" and "task_state (tcbs s Service) = RTS_TASK_STATE_RUNNING"
    and "\<not> sp_active (switch_plan s)" and "cq_count (callback_queue s) = 0" and "\<not> in_isr s" and "only_due (current_tick s + 1) 0 s"
proof -
  obtain s where s: "boot_inv test_config s" "ready_q test_config (lmem s) = [Idle]" "timer_q (lmem s) = []"
    by (rule init_law [OF test_config_ok ex_boots(1-3)]) blast
  let ?s = "started test_config True s"
  have h: "head_ready test_config s = Idle" using s(2) by (simp add: head_ready_def)
  note I = started_inv [OF s(1), where on = True] and R = thread_readyD [OF started_inv(3) [OF s(1), of True], unfolded h]
  note F = book_fields [OF book_started [of test_config s True]] and T = book_tcb [OF book_started [of test_config s True]]
  have b: "task_state (tcbs ?s Service) = RTS_TASK_STATE_BLOCKED" "cq_count (callback_queue ?s) = 0" "\<not> in_isr ?s" "lmem ?s = lmem s"
    using s(1) F(1,12,14,15) T by (simp_all add: h established_def upd_tcb_def boot_inv_def)
  obtain s' where s': "sched_inv test_config 0 s'" "current_task s' = Some Service" "task_state (tcbs s' Service) = RTS_TASK_STATE_RUNNING"
    "\<not> sp_active (switch_plan s')" "rest_same (?s\<lparr>current_task := Some Service\<rparr>) s'"
    "timer_q (lmem s') = timer_q (lmem ?s)" "delay_q (lmem s') = delay_q (lmem ?s)"
    by (rule service_made_running [OF I(1) R(1) _ b(1) R(4,3)]) (simp, blast)
  have q: "timer_q (lmem s') = []" "delay_q (lmem s') = []" using s(1,3) s'(6,7) b(4) by (simp_all add: boot_inv_def)
  let ?t = "s'\<lparr>timers := (timers s')(0 := (timers s' 0)\<lparr>tm_expiration_tick := current_tick s' + 1, tm_mode := RTS_TIMER_ONE_SHOT,
    tm_callback_state := RTS_TIMER_CALLBACK_IDLE\<rparr>)\<rparr>"
  have links: "links_inv test_config ?t" by (rule off_timers_links [OF sched_invD(1) [OF s'(1)]]) simp_all
  obtain m where m: "links_inv test_config (?t\<lparr>lmem := m\<rparr>)" "timer_q m = stable_insert (expires_before ?t) 0 (timer_q (lmem ?t))"
    "ready_q test_config m = ready_q test_config (lmem ?t)" "delay_q m = delay_q (lmem ?t)"
    by (rule links_timer_insert [OF links, of 0]) (use q in \<open>simp_all add: test_config_def\<close>)
  have "sched_inv test_config 0 (?t\<lparr>lmem := m\<rparr>)" by (rule off_timers_inv [OF s'(1) _ m(1)]) (use m in simp_all)
  moreover have "only_due (current_tick s' + 1) 0 (?t\<lparr>lmem := m\<rparr>)"
    using m q by (simp add: only_due_def RTS_TIMER_ONE_SHOT_def RTS_TIMER_PERIODIC_def rts_tick_reached_def)
  moreover have "cq_count (callback_queue s') = 0" "\<not> in_isr s'" using s'(5) b by (simp_all add: rest_same_def)
  ultimately show ?thesis using s' by (intro that [of "?t\<lparr>lmem := m\<rparr>"]) simp_all
qed

theorem service_wake_before_switch_is_fatal_witness:
  "\<exists>s s1 s2. rts_timer_service_entry test_config (\<lambda>_ _ s. Inr s) s = Some (Inr s1) \<and>
    (rts_kernel_tick_advance test_config 1 (s1\<lparr>in_isr := True\<rparr>) = Inl RTS_FATAL_ASSERTION \<or>
     rts_kernel_tick_advance test_config 1 (s1\<lparr>in_isr := True\<rparr>) = Inr (False, s2) \<and>
     PendSV_Handler test_config RTS_CM4F_EXC_RETURN_THREAD_PSP_BASIC ((relocated_cpu s)\<lparr>kernel := s2\<rparr>) = Inl RTS_FATAL_ASSERTION)"
proof -
  obtain s where s: "sched_inv test_config 0 s" "current_task s = Some Service" "task_state (tcbs s Service) = RTS_TASK_STATE_RUNNING"
    "\<not> sp_active (switch_plan s)" "cq_count (callback_queue s) = 0" "\<not> in_isr s" "only_due (current_tick s + 1) 0 s"
    by (rule ex_due_service)
  show ?thesis using service_wake_before_switch_is_fatal [OF s, where callback = "\<lambda>_ _ s. Inr s"] by blast
qed

end
