(* ===== verification/Target_Properties.thy ===== *)
theory Target_Properties
  imports S32K148_Port Host_Port Port_Properties
begin

text \<open>
  The ports behind the kernel: critical sections of both ports through one interface, the tick period and the sleep of the
  S32K148 target, the frames of the host port, and the deadline the idle task sleeps to.
\<close>

unbundle bit_operations_syntax

section \<open>Critical sections\<close>

text \<open>Sections entered \<open>n\<close> deep and left again in the reverse order, as nested kernel locks do.\<close>

fun nested :: "('h \<Rightarrow> rts_fatal + (uintptr \<times> 'h)) \<Rightarrow> (uintptr \<Rightarrow> 'h \<Rightarrow> rts_fatal + 'h) \<Rightarrow> nat \<Rightarrow> 'h \<Rightarrow> rts_fatal + 'h" where
  "nested enter exit 0 h = Inr h"
| "nested enter exit (Suc n) h = bnd (enter h) (\<lambda>(token, h). bnd (nested enter exit n h) (exit token))"

text \<open>
  What \<^verbatim>\<open>rts_port_critical_enter\<close> and \<^verbatim>\<open>rts_port_critical_exit\<close> promise, over the part of the port's state they restore:
  entering pushes, and leaving with the token of the last section pops.
\<close>

locale critical_sections =
  fixes enter :: "'h \<Rightarrow> rts_fatal + (uintptr \<times> 'h)" and exit :: "uintptr \<Rightarrow> 'h \<Rightarrow> rts_fatal + 'h"
    and view :: "'h \<Rightarrow> 'v" and room :: "'v \<Rightarrow> bool" and push :: "'v \<Rightarrow> 'v" and token :: "'v \<Rightarrow> uintptr"
  assumes enter_law: "room (view h) \<Longrightarrow> \<exists>h'. enter h = Inr (token (view h), h') \<and> view h' = push (view h)"
    and exit_law: "room v \<Longrightarrow> view h = push v \<Longrightarrow> \<exists>h'. exit (token v) h = Inr h' \<and> view h' = v"
begin

lemma nested_restores:
  assumes "\<And>k. k < n \<Longrightarrow> room ((push ^^ k) (view h))"
  shows "\<exists>h'. nested enter exit n h = Inr h' \<and> view h' = view h"
  using assms
proof (induction n arbitrary: h)
  case (Suc n)
  have room: "room (view h)" using Suc.prems [of 0] by simp
  then obtain h1 where h1: "enter h = Inr (token (view h), h1)" "view h1 = push (view h)" using enter_law by blast
  have "room ((push ^^ k) (view h1))" if "k < n" for k
    using Suc.prems [of "Suc k"] that by (simp add: h1(2) funpow_swap1)
  then obtain h2 where h2: "nested enter exit n h1 = Inr h2" "view h2 = view h1" using Suc.IH by blast
  obtain h3 where "exit (token (view h)) h2 = Inr h3" "view h3 = view h"
    using exit_law [OF room, of h2] h1(2) h2(2) by auto
  then show ?case using h1 h2 by simp
qed simp

end

definition s32k_push :: "bool \<times> uint32 \<Rightarrow> bool \<times> uint32" where
  "s32k_push v = (True, snd v + 1)"

definition s32k_token :: "bool \<times> uint32 \<Rightarrow> uintptr" where
  "s32k_token v = push_bit 1 (snd v + 1) OR of_bool (fst v)"

lemma token_parts:
  assumes "unat x < 2 ^ 31"
  shows "drop_bit 1 (push_bit 1 x OR of_bool m :: 32 word) = x" and "(push_bit 1 x OR of_bool m :: 32 word) AND 1 = of_bool m"
proof -
  have "take_bit 31 x = x" using assms by (simp add: word_unat_eq_iff unsigned_take_bit_eq take_bit_nat_eq_self)
  then have x: "n < 31" if "bit x n" for n using that by (metis bit_take_bit_iff)
  show "drop_bit 1 (push_bit 1 x OR of_bool m :: 32 word) = x"
    by (rule bit_eqI) (use x in \<open>auto simp: bit_simps mult.commute [of x 2]\<close>)
  show "(push_bit 1 x OR of_bool m :: 32 word) AND 1 = of_bool m"
    by (rule bit_eqI) (auto simp: bit_simps mult.commute [of x 2])
qed

lemma unat_Suc_less:
  assumes "unat (d :: uint32) + 1 < 2 ^ 31"
  shows "unat (d + 1) = unat d + 1" and "d + 1 \<noteq> 0"
proof -
  show u: "unat (d + 1) = unat d + 1" using assms by (simp add: unat_word_ariths)
  then show "d + 1 \<noteq> 0" by (metis add_is_0 one_neq_zero unat_0)
qed

lemma timing_fields [simp]:
  "cpu (rts_s32k148_timing_critical_begin cfg st) = cpu st" "critical_depth (rts_s32k148_timing_critical_begin cfg st) = critical_depth st"
  "cpu (rts_s32k148_timing_critical_end cfg st) = cpu st" "critical_depth (rts_s32k148_timing_critical_end cfg st) = critical_depth st"
  "lptmr_woke (rts_s32k148_timing_critical_begin cfg st) = lptmr_woke st" "lptmr_woke (rts_s32k148_timing_critical_end cfg st) = lptmr_woke st"
  "regs (rts_s32k148_timing_critical_begin cfg st) = regs st" "regs (rts_s32k148_timing_critical_end cfg st) = regs st"
  by (simp_all add: rts_s32k148_timing_critical_begin_def rts_s32k148_timing_critical_end_def Let_def)

interpretation s32k_critical: critical_sections "s32k148_critical_enter cfg" "s32k148_critical_exit cfg"
  "\<lambda>st. (irq_masked st, critical_depth st)" "\<lambda>v. unat (snd v) + 1 < 2 ^ 31" s32k_push s32k_token for cfg
proof
  fix st :: s32k148
  assume "unat (snd (irq_masked st, critical_depth st)) + 1 < 2 ^ 31"
  then have "critical_depth st + 1 \<noteq> 0" using unat_Suc_less(2) [of "critical_depth st"] by simp
  then show "\<exists>h'. s32k148_critical_enter cfg st = Inr (s32k_token (irq_masked st, critical_depth st), h') \<and>
      (irq_masked h', critical_depth h') = s32k_push (irq_masked st, critical_depth st)"
    by (simp add: s32k148_critical_enter_def Let_def set_primask_def s32k_push_def s32k_token_def)
next
  fix v :: "bool \<times> uint32" and st :: s32k148
  assume r: "unat (snd v) + 1 < 2 ^ 31" and v: "(irq_masked st, critical_depth st) = s32k_push v"
  have d: "unat (snd v + 1) < 2 ^ 31" "snd v + 1 \<noteq> 0" using unat_Suc_less [OF r] r by simp_all
  have t: "drop_bit 1 (s32k_token v) = snd v + 1" "s32k_token v AND 1 = of_bool (fst v)"
    unfolding s32k_token_def by (rule token_parts [OF d(1)])+
  have st: "irq_masked st" "critical_depth st = snd v + 1" using v by (simp_all add: s32k_push_def)
  show "\<exists>h'. s32k148_critical_exit cfg (s32k_token v) st = Inr h' \<and> (irq_masked h', critical_depth h') = v"
    unfolding s32k148_critical_exit_def Let_def t using d(2) st by (simp add: set_primask_def prod_eq_iff)
qed

lemma s32k_pushes: "(s32k_push ^^ k) (m, d) = (m \<or> 0 < k, d + of_nat k)"
  by (induction k) (simp_all add: s32k_push_def algebra_simps)

lemma s32k_nested_restores:
  assumes "unat (critical_depth st) + n < 2 ^ 31"
  obtains st' where "nested (s32k148_critical_enter cfg) (s32k148_critical_exit cfg) n st = Inr st'"
    and "irq_masked st' = irq_masked st" and "critical_depth st' = critical_depth st"
proof -
  have "unat (snd ((s32k_push ^^ k) (irq_masked st, critical_depth st))) + 1 < 2 ^ 31" if "k < n" for k
    using assms that by (simp add: s32k_pushes unat_word_ariths unsigned_of_nat take_bit_nat_eq_self)
  then show ?thesis using s32k_critical.nested_restores [of n st cfg] that by auto
qed

lemma s32k_nested_timing:
  "critical_depth st \<noteq> 0 \<Longrightarrow> unat (critical_depth st) + n < 2 ^ 31 \<Longrightarrow>
    nested (s32k148_critical_enter cfg) (s32k148_critical_exit cfg) n st = Inr st' \<Longrightarrow> timing st' = timing st"
proof (induction n arbitrary: st st')
  case (Suc n)
  let ?nest = "nested (s32k148_critical_enter cfg) (s32k148_critical_exit cfg) n"
  have d: "unat (critical_depth st) + 1 < 2 ^ 31" using Suc.prems(2) by simp
  note u = unat_Suc_less [OF d]
  obtain token st1 where e: "s32k148_critical_enter cfg st = Inr (token, st1)" "critical_depth st1 = critical_depth st + 1" "timing st1 = timing st"
    "drop_bit 1 token = critical_depth st + 1"
    using Suc.prems(1) u d token_parts(1) [of "critical_depth st + 1" "irq_masked st"]
    by (auto simp: s32k148_critical_enter_def Let_def set_primask_def)
  obtain st2 where n: "?nest st1 = Inr st2" "critical_depth st2 = critical_depth st1"
    by (rule s32k_nested_restores [of st1 n cfg]) (use Suc.prems(2) u e(2) in auto)
  have "timing st2 = timing st1" using Suc.IH [OF _ _ n(1)] Suc.prems(2) u e(2) by simp
  moreover have "s32k148_critical_exit cfg token st2 = Inr st'" using Suc.prems(3) e(1) n(1) by simp
  then have "timing st' = timing st2"
    unfolding s32k148_critical_exit_def Let_def e(4) using Suc.prems(1) by (auto simp: set_primask_def fatal_unless_def split: if_splits)
  ultimately show ?case using e(3) by simp
qed simp

text \<open>
  C23. Critical sections of the S32K148 target (\<^verbatim>\<open>targets/nxp/s32k148/target_port.c\<close>): while the nesting depth stays below
  \<open>2 ^ 31\<close>, which is what a token can carry, any number of nested sections left in the reverse order restore the interrupt mask
  and the nesting depth they found; leaving with a token of another depth stops the system. Sections are measured only from
  depth zero: sections opened inside one that is still open leave the timing record as it is.
\<close>

theorem s32k148_critical_sections_nest:
  assumes "unat (critical_depth st) + n < 2 ^ 31"
  shows "(\<exists>st'. nested (s32k148_critical_enter cfg) (s32k148_critical_exit cfg) n st = Inr st' \<and>
      irq_masked st' = irq_masked st \<and> critical_depth st' = critical_depth st \<and> (critical_depth st \<noteq> 0 \<longrightarrow> timing st' = timing st)) \<and>
    (\<forall>token. drop_bit 1 token \<noteq> critical_depth st \<longrightarrow> s32k148_critical_exit cfg token st = Inl RTS_FATAL_ASSERTION)"
proof -
  obtain st' where st': "nested (s32k148_critical_enter cfg) (s32k148_critical_exit cfg) n st = Inr st'"
    "irq_masked st' = irq_masked st" "critical_depth st' = critical_depth st"
    by (rule s32k_nested_restores [OF assms])
  have "critical_depth st \<noteq> 0 \<longrightarrow> timing st' = timing st" using s32k_nested_timing [OF _ assms st'(1)] by blast
  moreover have "s32k148_critical_exit cfg token st = Inl RTS_FATAL_ASSERTION" if "drop_bit 1 token \<noteq> critical_depth st" for token
    using that by (simp add: s32k148_critical_exit_def Let_def fatal_unless_def)
  ultimately show ?thesis using st' by blast
qed

text \<open>A target after start: one section open, the tick running, the processor in the idle task.\<close>

definition ex_target :: s32k148 where
  "ex_target = \<lparr>cpu = (relocated_cpu ex_kernel)\<lparr>primask := True\<rparr>, ipsr = 0, msp = 0x20007000, regs = (\<lambda>_. 0)(SysTick_CTRL := 7),
     tick_state = RTS_S32K148_TICK_RUNNING, tick_reload = 47999, critical_depth = 1, lptmr_woke = False, power_ready = True,
     timing = \<lparr>cycle_counter_available = 1, critical_start_cycle = 5, maximum_critical_cycles = 9\<rparr>,
     fault_record = \<lparr>flt_assertion_failed = 0, flt_hardfault_seen = 0, flt_stacked = [], flt_cfsr = 0, flt_hfsr = 0, flt_dfsr = 0,
       flt_shcsr = 0, flt_mmfar = 0, flt_bfar = 0, flt_active_msp = 0, flt_active_psp = 0, flt_exc_return = 0,
       flt_handler_probe_msp = 0, flt_handler_probe_ipsr = 0, flt_fatal_reason = None, flt_fatal_tick = 0,
       flt_fatal_current_task = None\<rparr>\<rparr>"

theorem s32k148_critical_sections_nest_witness:
  "\<exists>st'. nested (s32k148_critical_enter test_config) (s32k148_critical_exit test_config) 3 ex_target = Inr st' \<and>
    irq_masked st' \<and> critical_depth st' = 1 \<and> maximum_critical_cycles (timing st') = 9 \<and>
    s32k148_critical_exit test_config 4 ex_target = Inl RTS_FATAL_ASSERTION"
  using s32k148_critical_sections_nest [of ex_target 3 test_config] by (auto simp: ex_target_def)

text \<open>The host port keeps the tokens of the open sections in an array of sixteen.\<close>

definition host_token :: "bool \<times> uintptr list \<times> nat \<times> nat \<Rightarrow> uintptr" where
  "host_token v = (case v of (m, ts, n, d) \<Rightarrow> push_bit 1 (of_nat d + 1) OR (if m then 1 else 0))"

definition host_push :: "bool \<times> uintptr list \<times> nat \<times> nat \<Rightarrow> bool \<times> uintptr list \<times> nat \<times> nat" where
  "host_push v = (case v of (m, ts, n, d) \<Rightarrow> (True, ts @ [host_token v], n, d + 1))"

definition host_view :: "rts_host \<Rightarrow> bool \<times> uintptr list \<times> nat \<times> nat" where
  "host_view h = (host_interrupts_masked h, take (host_critical_depth h) (host_critical_tokens h), length (host_critical_tokens h),
     host_critical_depth h)"

definition host_room :: "bool \<times> uintptr list \<times> nat \<times> nat \<Rightarrow> bool" where
  "host_room v = (case v of (m, ts, n, d) \<Rightarrow> n = RTS_HOST_CRITICAL_NESTING_MAX \<and> d < RTS_HOST_CRITICAL_NESTING_MAX)"

interpretation host_critical: critical_sections "host_critical_enter cfg" "host_critical_exit cfg" host_view host_room host_push host_token for cfg
proof
  fix h
  assume "host_room (host_view h)"
  then have d: "host_critical_depth h < 16" "length (host_critical_tokens h) = 16"
    by (simp_all add: host_room_def host_view_def RTS_HOST_CRITICAL_NESTING_MAX_def)
  then show "\<exists>h'. host_critical_enter cfg h = Inr (host_token (host_view h), h') \<and> host_view h' = host_push (host_view h)"
    by (simp add: host_critical_enter_def host_view_def host_push_def host_token_def RTS_HOST_CRITICAL_NESTING_MAX_def Let_def
        take_Suc_conv_app_nth)
next
  fix v h
  assume r: "host_room v" and v: "host_view h = host_push v"
  obtain m ts n d where vd: "v = (m, ts, n, d)" by (cases v)
  have h: "host_critical_depth h = d + 1" "take (d + 1) (host_critical_tokens h) = ts @ [host_token v]" "length (host_critical_tokens h) = 16"
    "n = 16" "d < 16"
    using r v by (auto simp: vd host_view_def host_push_def host_room_def RTS_HOST_CRITICAL_NESTING_MAX_def)
  then have t: "take d (host_critical_tokens h) = ts" "host_critical_tokens h ! d = host_token v"
    by (simp_all add: take_Suc_conv_app_nth)
  have one: "(host_token v AND 1 \<noteq> 0) = m"
  proof -
    have "unat (of_nat d + 1 :: uintptr) < 2 ^ 31" using h(5) by (simp add: unat_word_ariths unsigned_of_nat take_bit_nat_eq_self)
    from token_parts(2) [OF this, of m] show ?thesis by (simp add: vd host_token_def of_bool_def)
  qed
  show "\<exists>h'. host_critical_exit cfg (host_token v) h = Inr h' \<and> host_view h' = v"
    using h t by (simp add: host_critical_exit_def one host_view_def) (simp add: vd)
qed

lemma host_pushes:
  "\<exists>ts'. (host_push ^^ k) (m, ts, n, d) = (m \<or> 0 < k, ts', n, d + k)"
  by (induction k) (auto simp: host_push_def)

text \<open>
  C35. Critical sections of the host port (\<^verbatim>\<open>ports/host/port.c\<close>): up to sixteen nested sections left in the reverse order restore
  the simulated interrupt mask, the depth and the tokens of the sections still open; with assertions, one more section and leaving
  with a token that is not the last one are fatal, without them both leave the port as it is.
\<close>

theorem host_critical_sections_nest:
  assumes "length (host_critical_tokens h) = RTS_HOST_CRITICAL_NESTING_MAX" and "host_critical_depth h + n \<le> RTS_HOST_CRITICAL_NESTING_MAX"
  shows "(\<exists>h'. nested (host_critical_enter cfg) (host_critical_exit cfg) n h = Inr h' \<and> host_view h' = host_view h) \<and>
    (host_critical_depth h = RTS_HOST_CRITICAL_NESTING_MAX \<longrightarrow>
      host_critical_enter cfg h = (if RTS_ENABLE_ASSERTIONS cfg then Inl RTS_FATAL_ASSERTION else Inr (0, h))) \<and>
    (\<forall>token. host_critical_depth h = 0 \<or> token \<noteq> host_critical_tokens h ! (host_critical_depth h - 1) \<longrightarrow>
      host_critical_exit cfg token h = (if RTS_ENABLE_ASSERTIONS cfg then Inl RTS_FATAL_ASSERTION else Inr h))"
proof -
  have "host_room ((host_push ^^ k) (host_view h))" if "k < n" for k
  proof -
    obtain ts where "(host_push ^^ k) (host_view h) = (host_interrupts_masked h \<or> 0 < k, ts, 16, host_critical_depth h + k)"
      using host_pushes [of k "host_interrupts_masked h" "take (host_critical_depth h) (host_critical_tokens h)" 16 "host_critical_depth h"] assms(1)
      unfolding host_view_def RTS_HOST_CRITICAL_NESTING_MAX_def by auto
    then show ?thesis using assms(2) that by (simp add: host_room_def RTS_HOST_CRITICAL_NESTING_MAX_def)
  qed
  then have "\<exists>h'. nested (host_critical_enter cfg) (host_critical_exit cfg) n h = Inr h' \<and> host_view h' = host_view h"
    by (rule host_critical.nested_restores)
  then show ?thesis by (auto simp: host_critical_enter_def host_critical_exit_def rts_assert_def)
qed

definition ex_host :: rts_host where
  "ex_host = \<lparr>host_in_isr = False, host_interrupts_masked = False, host_fail_next_stack_initialize = False,
     host_fail_next_initialize = False, host_initialized = True, host_tick_ready = True, host_tick_running = False,
     host_fail_next_tick_start = False, host_critical_depth = 0, host_switch_request_count = 0,
     host_last_switch_request_critical_depth = 0, host_switch_request_pending = False, host_sleep_wake_configured = False,
     host_fail_next_sleep = False, host_next_sleep_elapsed = 0, host_last_sleep_limit = 0, host_next_wake_source = 0,
     host_sleep_count = 0, host_critical_tokens = replicate 16 0, host_start_request_count = 0, host_start_task = None,
     host_start_saved_stack_pointer = 0, host_start_consumed = False, host_fail_next_start = False\<rparr>"

theorem host_critical_sections_nest_witness:
  "\<exists>h'. nested (host_critical_enter test_config) (host_critical_exit test_config) 16 ex_host = Inr h' \<and>
    \<not> host_interrupts_masked h' \<and> host_critical_depth h' = 0 \<and> host_critical_exit test_config 2 h' = Inl RTS_FATAL_ASSERTION"
proof -
  have e: "length (host_critical_tokens ex_host) = RTS_HOST_CRITICAL_NESTING_MAX" "host_critical_depth ex_host + 16 \<le> RTS_HOST_CRITICAL_NESTING_MAX"
    by (simp_all add: ex_host_def RTS_HOST_CRITICAL_NESTING_MAX_def)
  obtain h' where h': "nested (host_critical_enter test_config) (host_critical_exit test_config) 16 ex_host = Inr h'" "host_view h' = host_view ex_host"
    using host_critical_sections_nest [OF e] by blast
  have v: "\<not> host_interrupts_masked h'" "host_critical_depth h' = 0" "length (host_critical_tokens h') = RTS_HOST_CRITICAL_NESTING_MAX"
    using h'(2) by (simp_all add: host_view_def ex_host_def RTS_HOST_CRITICAL_NESTING_MAX_def)
  then have "host_critical_exit test_config 2 h' = Inl RTS_FATAL_ASSERTION"
    using host_critical_sections_nest [of h' 0 test_config] by simp
  with h'(1) v show ?thesis by blast
qed

section \<open>Frames of the host port\<close>

lemma bytes_copy_word: "rts_host_bytes_copy a (word_bytes v) m = rts_cm4f_word_write a v m"
  by (simp add: word_bytes_def rts_cm4f_word_write_def byte_of_word add.assoc)

lemma host_frame_bounds:
  assumes "rts_host_stack_region_is_valid low n task_entry"
  shows "32 \<le> n" and "unat low + n < 2 ^ 32" and "unat (low + of_nat n - 32) = unat low + n - 32" and "low + of_nat n - 32 \<noteq> 0"
proof -
  have v: "low \<noteq> 0" "32 \<le> n" "n \<le> unat UINTPTR_MAX" "\<not> low > UINTPTR_MAX - of_nat n"
    using assms by (auto simp: rts_host_stack_region_is_valid_def RTS_HOST_FRAME_STORAGE_BYTES_def RTS_TASK_STACK_ALIGNMENT_def Let_def split: if_splits)
  show n: "32 \<le> n" and o: "unat low + n < 2 ^ 32" using v no_overflow by blast+
  have "unat (low + of_nat n) = unat low + n" by (rule unat_offset [OF o])
  then show u: "unat (low + of_nat n - 32) = unat low + n - 32" using n by (subst unat_sub) (simp_all add: word_le_nat_alt)
  have "0 < unat low" using v(1) by (simp add: unat_gt_0)
  with u n have "unat (low + of_nat n - 32) \<noteq> 0" by simp
  then show "low + of_nat n - 32 \<noteq> 0" by (metis unat_0)
qed

text \<open>
  C36. Task frames of the host port (\<^verbatim>\<open>ports/host/port.c\<close>) built with 32-bit pointers, where a frame has 32 bytes:
  \<^verbatim>\<open>rts_port_stack_initialize\<close> succeeds exactly for an entry and a
  valid region when no failure was injected. The frame it leaves is the one \<^verbatim>\<open>rts_host_port_initial_frame_read\<close> reads back and accepts,
  with the entry, the argument and the trap, and nothing outside its 32 bytes is written. Otherwise nothing is
  written, and an injected failure is used up by the call that reports it.
\<close>

theorem host_frame_reads_back:
  assumes "host_stack_initialize trap low n task_entry arg h m = (r, h', m')"
  shows "if task_entry \<noteq> 0 \<and> \<not> host_fail_next_stack_initialize h \<and> rts_host_stack_region_is_valid low n task_entry
    then psr_status r = RTS_STATUS_OK \<and> h' = h \<and> rts_host_port_initial_frame_read (psr_saved_stack_pointer r) m' =
        Some (True, \<lparr>fr_magic = RTS_HOST_INITIAL_FRAME_MAGIC, fr_version = RTS_HOST_INITIAL_FRAME_VERSION, fr_entry = task_entry,
          fr_argument = arg, fr_return_trap = trap, fr_reserved = 0\<rparr>) \<and>
      (\<forall>x. unat x < unat low + n - 32 \<or> unat low + n \<le> unat x \<longrightarrow> m' x = m x)
    else psr_status r \<noteq> RTS_STATUS_OK \<and> psr_saved_stack_pointer r = 0 \<and> m' = m \<and>
      (task_entry \<noteq> 0 \<longrightarrow> \<not> host_fail_next_stack_initialize h')"
proof (cases "task_entry \<noteq> 0 \<and> \<not> host_fail_next_stack_initialize h \<and> rts_host_stack_region_is_valid low n task_entry")
  case True
  define f where "f = low + of_nat n - 32"
  note B = host_frame_bounds [of low n task_entry, folded f_def]
  have fits: "unat f + 4 * 6 \<le> 2 ^ 32" "unat f + 32 \<le> 2 ^ 32" using True B by auto
  define m0 where "m0 = fill_loop 32 f 0 m"
  let ?w = "rts_cm4f_frame_word_write f"
  have m': "r = \<lparr>psr_status = RTS_STATUS_OK, psr_saved_stack_pointer = f\<rparr>" "h' = h"
    "m' = ?w 5 0 (?w 4 trap (?w 3 arg (?w 2 task_entry (?w 1 RTS_HOST_INITIAL_FRAME_VERSION (?w 0 RTS_HOST_INITIAL_FRAME_MAGIC m0)))))"
    using assms True
    by (simp_all add: host_stack_initialize_def bytes_copy_word RTS_HOST_FRAME_STORAGE_BYTES_def RTS_TASK_STACK_ALIGNMENT_def
        rts_cm4f_frame_word_write_def f_def m0_def Let_def)
  have w: "frame_word f m' 0 = RTS_HOST_INITIAL_FRAME_MAGIC" "frame_word f m' 1 = RTS_HOST_INITIAL_FRAME_VERSION" "frame_word f m' 2 = task_entry"
    "frame_word f m' 3 = arg" "frame_word f m' 4 = trap" "frame_word f m' 5 = 0"
    unfolding m'(3) by (simp_all add: frame_word_write [OF fits(1)])
  have "rts_host_port_initial_frame_read f m' = Some (True, \<lparr>fr_magic = RTS_HOST_INITIAL_FRAME_MAGIC,
      fr_version = RTS_HOST_INITIAL_FRAME_VERSION, fr_entry = task_entry, fr_argument = arg, fr_return_trap = trap, fr_reserved = 0\<rparr>)"
    using w B(4) True by (simp add: rts_host_port_initial_frame_read_def frame_word_def)
  moreover have "m' x = m x" if "unat x < unat low + n - 32 \<or> unat low + n \<le> unat x" for x
  proof -
    have x: "unat x < unat f \<or> unat f + 32 \<le> unat x" using that B True by auto
    then have "m0 x = m x" unfolding m0_def fill_loop_eq [OF fits(2)] by auto
    moreover have "unat x < unat f \<or> unat f + 4 * 6 \<le> unat x" using x by auto
    ultimately show ?thesis unfolding m'(3) by (simp add: frame_write_outside [OF fits(1)])
  qed
  ultimately show ?thesis using True m'(1,2) by simp
next
  case False
  then show ?thesis using assms by (auto simp: host_stack_initialize_def Let_def split: if_splits)
qed

theorem host_frame_reads_back_witness:
  "\<exists>r m'. host_stack_initialize 0x801 0x2000 256 0x301 42 ex_host (\<lambda>_. 0xcd) = (r, ex_host, m') \<and>
    rts_host_port_initial_frame_read (psr_saved_stack_pointer r) m' =
      Some (True, \<lparr>fr_magic = 0x48535446, fr_version = 1, fr_entry = 0x301, fr_argument = 42, fr_return_trap = 0x801, fr_reserved = 0\<rparr>) \<and>
    m' 0x2000 = 0xcd"
proof -
  obtain r h' m' where e: "host_stack_initialize 0x801 0x2000 256 0x301 42 ex_host (\<lambda>_. 0xcd) = (r, h', m')"
    by (cases "host_stack_initialize 0x801 0x2000 256 0x301 42 ex_host (\<lambda>_. 0xcd)")
  have "(0x301 :: uintptr) \<noteq> 0 \<and> \<not> host_fail_next_stack_initialize ex_host \<and> rts_host_stack_region_is_valid 0x2000 256 0x301"
    by (simp add: ex_host_def rts_host_stack_region_is_valid_def RTS_HOST_FRAME_STORAGE_BYTES_def RTS_TASK_STACK_ALIGNMENT_def UINTPTR_MAX_def)
  from host_frame_reads_back [OF e, unfolded if_P [OF this]] e show ?thesis
    by (auto simp: RTS_HOST_INITIAL_FRAME_MAGIC_def RTS_HOST_INITIAL_FRAME_VERSION_def)
qed

section \<open>Starting again on the host\<close>





section \<open>The tick period\<close>

text \<open>
  C25. \<^verbatim>\<open>rts_s32k148_tick_reload_calculate\<close> (\<^verbatim>\<open>target_tick_math.c\<close>) accepts a pair of clock and tick rate exactly when some value of the
  24-bit SysTick counter divides the clock into the rate without remainder, and gives that value: a tick takes
  one cycle more than the reload value, so the rate is met without drift.
\<close>

theorem tick_reload_is_exact:
  "rts_s32k148_tick_reload_calculate core_clock_hz tick_rate_hz = Some reload \<longleftrightarrow>
    tick_rate_hz \<noteq> 0 \<and> unat reload < 2 ^ 24 \<and> (unat reload + 1) * unat tick_rate_hz = unat core_clock_hz"
proof -
  let ?c = "unat core_clock_hz" and ?r = "unat tick_rate_hz" and ?q = "core_clock_hz div tick_rate_hz"
  have q: "unat ?q = ?c div ?r" by (simp add: unat_div)
  have div: "core_clock_hz mod tick_rate_hz = 0 \<longleftrightarrow> ?r dvd ?c" by (simp add: unat_eq_0 [symmetric] unat_mod dvd_eq_mod_eq_0)
  have cap: "?q > RTS_SYSTICK_COUNTER_CAPACITY \<longleftrightarrow> ?c div ?r > 2 ^ 24"
    by (simp add: word_less_nat_alt q RTS_SYSTICK_COUNTER_CAPACITY_def)
  show ?thesis
  proof
    assume "rts_s32k148_tick_reload_calculate core_clock_hz tick_rate_hz = Some reload"
    then have a: "core_clock_hz \<noteq> 0" "tick_rate_hz \<noteq> 0" "?r dvd ?c" "?q \<noteq> 0" "?c div ?r \<le> 2 ^ 24" "reload = ?q - 1"
      using div cap by (auto simp: rts_s32k148_tick_reload_calculate_def Let_def not_less split: if_splits)
    have "unat ?q \<noteq> 0" using a(4) by (metis unat_eq_zero)
    then have "unat reload + 1 = ?c div ?r" using a(4,6) by (simp add: unat_minus_one q)
    moreover have "?c div ?r * ?r = ?c" using a(3) by simp
    ultimately show "tick_rate_hz \<noteq> 0 \<and> unat reload < 2 ^ 24 \<and> (unat reload + 1) * ?r = ?c" using a(2,5) by simp
  next
    assume a: "tick_rate_hz \<noteq> 0 \<and> unat reload < 2 ^ 24 \<and> (unat reload + 1) * ?r = ?c"
    then have r: "0 < ?r" by (simp add: unat_gt_0)
    have d: "?c div ?r = unat reload + 1" using a r by (metis nonzero_mult_div_cancel_right less_numeral_extra(3))
    then have "unat ?q = unat reload + 1" by (simp add: q)
    then have nq: "?q \<noteq> 0" by (metis add_is_0 one_neq_zero unat_0)
    have "unat (?q - 1) = unat reload" using nq \<open>unat ?q = unat reload + 1\<close> by (simp add: unat_minus_one)
    moreover have "?r dvd ?c" using a by (metis dvd_triv_right)
    moreover have c: "0 < ?c" using a r by (metis add_gr_0 mult_pos_pos zero_less_one)
    then have "core_clock_hz \<noteq> 0" by auto
    moreover have "?r \<le> ?c" using \<open>?r dvd ?c\<close> c by (rule dvd_imp_le)
    then have "\<not> tick_rate_hz > core_clock_hz" by (simp add: word_less_nat_alt)
    ultimately show "rts_s32k148_tick_reload_calculate core_clock_hz tick_rate_hz = Some reload"
      using a nq div cap d by (simp add: rts_s32k148_tick_reload_calculate_def Let_def word_unat_eq_iff not_less)
  qed
qed

section \<open>Sleeping\<close>

lemma reg_write_fields [simp]:
  "cpu (reg_write dev r v st) = cpu st" "lptmr_woke (reg_write dev r v st) = lptmr_woke st" "ipsr (reg_write dev r v st) = ipsr st"
  "regs (reg_write dev r v st) = dev r v (regs st)"
  by (simp_all add: reg_write_def)

lemma set_primask_fields [simp]:
  "cpu (set_primask b st) = (cpu st)\<lparr>primask := b\<rparr>" "regs (set_primask b st) = regs st" "lptmr_woke (set_primask b st) = lptmr_woke st"
  by (simp_all add: set_primask_def)

definition sleep_request_ok :: "s32k148 \<Rightarrow> rts_tick \<Rightarrow> bool" where
  "sleep_request_ok st n \<longleftrightarrow> power_ready st \<and> n \<noteq> 0 \<and> n \<le> 0xffff \<and> ipsr st = 0 \<and> irq_masked st"

text \<open>
  What the sleep relies on of the device: the control bits of SysTick and the interrupt and timer enables of the low-power timer
  are what was last written to them, its compare register takes a 16-bit value while the timer is disabled, and writing another register
  changes none of them.
\<close>

definition SysTick_enabled :: "s32k_regs \<Rightarrow> uint32" where
  "SysTick_enabled rs = rs SysTick_CTRL AND SysTick_CTRL_ALL"

definition LPTMR_enabled :: "s32k_regs \<Rightarrow> uint32" where
  "LPTMR_enabled rs = rs LPTMR0_CSR AND (LPTMR_CSR_TIE_MASK OR LPTMR_CSR_TEN_MASK)"

definition sleep_device :: "s32k_device \<Rightarrow> bool" where
  "sleep_device dev \<longleftrightarrow> (\<forall>r v rs.
     SysTick_enabled (dev r v rs) = (if r = SysTick_CTRL then v AND SysTick_CTRL_ALL else SysTick_enabled rs) \<and>
     LPTMR_enabled (dev r v rs) = (if r = LPTMR0_CSR then v AND (LPTMR_CSR_TIE_MASK OR LPTMR_CSR_TEN_MASK) else LPTMR_enabled rs) \<and>
     (r \<noteq> LPTMR0_CMR \<longrightarrow> dev r v rs LPTMR0_CMR = rs LPTMR0_CMR) \<and>
     (LPTMR_enabled rs = 0 \<and> v \<le> 0xffff \<longrightarrow> dev LPTMR0_CMR v rs LPTMR0_CMR = v))"

lemma sleep_deviceD:
  assumes "sleep_device dev"
  shows "SysTick_enabled (dev r v rs) = (if r = SysTick_CTRL then v AND SysTick_CTRL_ALL else SysTick_enabled rs)"
    and "LPTMR_enabled (dev r v rs) = (if r = LPTMR0_CSR then v AND (LPTMR_CSR_TIE_MASK OR LPTMR_CSR_TEN_MASK) else LPTMR_enabled rs)"
    and "r \<noteq> LPTMR0_CMR \<Longrightarrow> dev r v rs LPTMR0_CMR = rs LPTMR0_CMR"
    and "LPTMR_enabled rs = 0 \<Longrightarrow> v \<le> 0xffff \<Longrightarrow> dev LPTMR0_CMR v rs LPTMR0_CMR = v"
  using assms by (auto simp: sleep_device_def)

text \<open>The state in which the processor waits for an interrupt.\<close>

definition asleep :: "rts_config \<Rightarrow> s32k_device \<Rightarrow> rts_tick \<Rightarrow> s32k148 \<Rightarrow> s32k148" where
  "asleep cfg dev n st =
     (let st = (reg_write dev SysTick_CTRL 0 st)\<lparr>lptmr_woke := False\<rparr>;
          st = reg_write dev LPTMR0_CMR (n - 1) (reg_write dev LPTMR0_CSR 0 st);
          st = reg_write dev NVIC_Clear_LPTMR0 1 (reg_write dev LPTMR0_CSR LPTMR_CSR_TCF_MASK st);
          st = reg_write dev LPTMR0_CSR (LPTMR_CSR_TIE_MASK OR LPTMR_CSR_TEN_MASK) st in
      set_primask False (rts_s32k148_timing_critical_end cfg st))"

lemma asleep_armed:
  assumes dev: "sleep_device dev" and n: "n \<noteq> 0" "n \<le> 0xffff"
  shows "cpu (asleep cfg dev n st) = (cpu st)\<lparr>primask := False\<rparr>" and "\<not> lptmr_woke (asleep cfg dev n st)"
    and "SysTick_enabled (regs (asleep cfg dev n st)) = 0"
    and "LPTMR_enabled (regs (asleep cfg dev n st)) = LPTMR_CSR_TIE_MASK OR LPTMR_CSR_TEN_MASK"
    and "regs (asleep cfg dev n st) LPTMR0_CMR = n - 1"
proof -
  note D = sleep_deviceD [OF dev]
  have le: "n - 1 \<le> 0xffff" using n by (simp add: word_le_nat_alt unat_minus_one)
  show "cpu (asleep cfg dev n st) = (cpu st)\<lparr>primask := False\<rparr>" "\<not> lptmr_woke (asleep cfg dev n st)"
    by (simp_all add: asleep_def Let_def)
  show "SysTick_enabled (regs (asleep cfg dev n st)) = 0" by (simp add: asleep_def Let_def D(1))
  show "LPTMR_enabled (regs (asleep cfg dev n st)) = LPTMR_CSR_TIE_MASK OR LPTMR_CSR_TEN_MASK" by (simp add: asleep_def Let_def D(2))
  show "regs (asleep cfg dev n st) LPTMR0_CMR = n - 1" by (simp add: asleep_def Let_def D(2,3) D(4) [OF _ le])
qed

text \<open>
  C24. \<^verbatim>\<open>rts_port_power_sleep\<close> of the S32K148 target (\<^verbatim>\<open>target_power.c\<close>), on a device that keeps the control bits written to it and whatever
  happens while the processor waits. Once the power support is ready, in a thread with interrupts masked and for one to 65535
  ticks, the processor waits with interrupts enabled, SysTick stopped and the low-power timer armed for exactly the ticks
  allowed; afterwards interrupts are masked, the timer is off and SysTick runs as before; the call reports the timer as wake source exactly if the
  timer's handler ran, with all the ticks allowed, and otherwise an external source with the timer's count, at most the ticks allowed.
  Any other request is refused without touching the device, and stops the system when assertions are enabled.
\<close>

theorem s32k148_sleep_contract:
  assumes "sleep_device dev"
  shows "if sleep_request_ok st n
    then \<exists>w. cpu w = (cpu st)\<lparr>primask := False\<rparr> \<and> \<not> lptmr_woke w \<and> SysTick_enabled (regs w) = 0 \<and>
      LPTMR_enabled (regs w) = LPTMR_CSR_TIE_MASK OR LPTMR_CSR_TEN_MASK \<and> regs w LPTMR0_CMR = n - 1 \<and>
      (\<forall>wfi. \<exists>r st'. s32k148_power_sleep cfg dev wfi n st = Inr (r, st') \<and> slr_status r = RTS_STATUS_OK \<and>
         slr_wake_source r = (if lptmr_woke (wfi w) then RTS_PORT_WAKE_TIMER else RTS_PORT_WAKE_EXTERNAL) \<and>
         slr_elapsed_ticks r = (if lptmr_woke (wfi w) then n else min n (fst (rts_s32k148_lptmr_count_read dev (wfi w)))) \<and>
         cpu st' = (cpu (wfi w))\<lparr>primask := True\<rparr> \<and> SysTick_enabled (regs st') = SysTick_enabled (regs st) \<and>
         LPTMR_enabled (regs st') = 0)
    else \<forall>wfi. s32k148_power_sleep cfg dev wfi n st = (if RTS_ENABLE_ASSERTIONS cfg then Inl RTS_FATAL_ASSERTION
      else Inr (\<lparr>slr_status = RTS_STATUS_PORT_ERROR, slr_elapsed_ticks = 0, slr_wake_source = RTS_PORT_WAKE_OTHER\<rparr>, st))"
proof (cases "sleep_request_ok st n")
  case True
  note D = sleep_deviceD [OF assms]
  have n: "power_ready st" "n \<noteq> 0" "n \<le> 0xffff" "ipsr st = 0" "irq_masked st" using True by (simp_all add: sleep_request_ok_def)
  have dis: "LPTMR_CSR_TCF_MASK AND (LPTMR_CSR_TIE_MASK OR LPTMR_CSR_TEN_MASK) = 0"
    by (simp add: LPTMR_CSR_TCF_MASK_def LPTMR_CSR_TIE_MASK_def LPTMR_CSR_TEN_MASK_def)
  define w where "w = asleep cfg dev n st"
  have "\<exists>r st'. s32k148_power_sleep cfg dev wfi n st = Inr (r, st') \<and> slr_status r = RTS_STATUS_OK \<and>
      slr_wake_source r = (if lptmr_woke (wfi w) then RTS_PORT_WAKE_TIMER else RTS_PORT_WAKE_EXTERNAL) \<and>
      slr_elapsed_ticks r = (if lptmr_woke (wfi w) then n else min n (fst (rts_s32k148_lptmr_count_read dev (wfi w)))) \<and>
      cpu st' = (cpu (wfi w))\<lparr>primask := True\<rparr> \<and> SysTick_enabled (regs st') = SysTick_enabled (regs st) \<and>
      LPTMR_enabled (regs st') = 0" for wfi
    using n D dis
    by (simp add: s32k148_power_sleep_def Let_def rts_s32k148_lptmr_count_read_def min_def SysTick_enabled_def [symmetric] not_le
        asleep_def [unfolded Let_def, symmetric] flip: w_def) (use less_asym in blast)
  then show ?thesis using asleep_armed [OF assms n(2,3), of cfg st] unfolding w_def [symmetric] if_P [OF True] by blast
next
  case False
  then show ?thesis
    unfolding sleep_request_ok_def by (auto simp: s32k148_power_sleep_def Let_def rts_assert_def)
qed

text \<open>A device that stores what is written, and a low-power timer that expires while the processor waits.\<close>

theorem s32k148_sleep_contract_witness:
  "\<exists>r st'. s32k148_power_sleep test_config (\<lambda>r v rs. rs(r := v)) (\<lambda>st. st\<lparr>lptmr_woke := True\<rparr>) 100 ex_target = Inr (r, st') \<and>
    slr_status r = RTS_STATUS_OK \<and> slr_elapsed_ticks r = 100 \<and> irq_masked st' \<and> SysTick_enabled (regs st') = 7"
proof -
  have dev: "sleep_device (\<lambda>r v rs. rs(r := v))" by (simp add: sleep_device_def SysTick_enabled_def LPTMR_enabled_def)
  have ok: "sleep_request_ok ex_target 100" by (simp add: sleep_request_ok_def ex_target_def)
  have sys: "SysTick_enabled (regs ex_target) = 7" by (simp add: SysTick_enabled_def ex_target_def SysTick_CTRL_ALL_def)
  obtain w where "\<forall>wfi. \<exists>r st'. s32k148_power_sleep test_config (\<lambda>r v rs. rs(r := v)) wfi 100 ex_target = Inr (r, st') \<and>
      slr_status r = RTS_STATUS_OK \<and>
      slr_elapsed_ticks r = (if lptmr_woke (wfi w) then 100 else min 100 (fst (rts_s32k148_lptmr_count_read (\<lambda>r v rs. rs(r := v)) (wfi w)))) \<and>
      cpu st' = (cpu (wfi w))\<lparr>primask := True\<rparr> \<and> SysTick_enabled (regs st') = SysTick_enabled (regs ex_target)"
    using s32k148_sleep_contract [OF dev, where cfg = test_config and n = 100 and st = ex_target, unfolded if_P [OF ok]] by blast
  from spec [OF this, of "\<lambda>st. st\<lparr>lptmr_woke := True\<rparr>"] show ?thesis by (auto simp: sys)
qed

section \<open>The deadline of a sleep\<close>

lemma consider_in_window:
  assumes "d \<in> tick_window now" and "pp_wake_tick p = now + pp_sleep_ticks p"
  obtains p' where "rts_power_consider_deadline cfg now d src p = Inr p'" and "pp_wake_tick p' = now + pp_sleep_ticks p'"
    and "unat (pp_sleep_ticks p') = min (unat (pp_sleep_ticks p)) (unat (d - now))" and "pp_current_tick p' = pp_current_tick p"
proof (cases "rts_tick_reached now d")
  case True
  then have b: "unat (now - d) < 2 ^ 31" "unat (d - now) < 2 ^ 31" using assms(1) by (simp_all add: rts_tick_reached_iff tick_window_def)
  have "unat (x + y) = (unat x + unat y) mod 2 ^ 32" for x y :: rts_tick by (simp add: unat_word_ariths)
  from this [of "now - d" "d - now"] have "unat (d - now) = 0" using b by simp
  then have "d = now" by (simp add: unat_eq_0)
  then show ?thesis using True that by (auto simp: rts_power_consider_deadline_def)
next
  case False
  have "d - now \<le> RTS_TICK_MAX_ADVANCE" using assms(1) by (simp add: tick_window_def RTS_TICK_MAX_ADVANCE_iff)
  then show ?thesis
    by (intro that [of "if d - now < pp_sleep_ticks p then p\<lparr>pp_wake_tick := d, pp_sleep_ticks := d - now, pp_source := src\<rparr> else p"])
      (use False assms(2) in \<open>auto simp: rts_power_consider_deadline_def Let_def word_less_nat_alt min_def\<close>)
qed

lemma head_is_first:
  assumes "ordered_by (\<lambda>x y. rts_tick_before (key x) (key y)) xs" and "\<forall>x \<in> set xs. key x \<in> tick_window now"
  shows "Min (insert k ((\<lambda>x. unat (key x - now)) ` set xs)) = (case hd_or xs None of None \<Rightarrow> k | Some x \<Rightarrow> min k (unat (key x - now)))"
proof (cases xs)
  case (Cons x ys)
  have "unat (key x - now) \<le> unat (key y - now)" if "y \<in> set ys" for y
    using assms that unfolding Cons by (auto simp: tick_before_window_unat [of _ now] not_less)
  then have "Min ((\<lambda>x. unat (key x - now)) ` set xs) = unat (key x - now)" unfolding Cons by (intro Min_eqI) auto
  then show ?thesis by (simp add: Cons)
qed simp

lemma Min_insert_Un:
  assumes "finite A" and "finite B"
  shows "Min (insert k (A \<union> B)) = Min (insert (Min (insert k A)) B)"
proof (cases "B = {}")
  case False
  have "Min (insert k A \<union> B) = min (Min (insert k A)) (Min B)" by (rule Min_Un) (use assms False in auto)
  then show ?thesis using assms False by simp
qed simp

text \<open>
  C6. Tickless idle (\<^verbatim>\<open>rts_power_plan_compute\<close>, \<^verbatim>\<open>kernel/power.c\<close>): when the idle task may sleep, the planned sleep ends exactly at the
  earliest of the wake-ups of all delayed tasks, the expirations of all active timers and the configured
  limit, so no deadline is slept through; if something is due now there is no plan. The code looks only at the heads of
  the two queues.
\<close>

theorem sleep_ends_at_first_deadline:
  assumes "links_inv cfg s" and "delay_ordered (current_tick s) s" and "timer_ordered (current_tick s) s"
    and "rts_power_sleep_is_allowed cfg s = Inr True"
    and "n = Min (insert (unat (RTS_TICKLESS_MAX_SLEEP_TICKS cfg))
      ((\<lambda>t. unat (wake_tick (tcbs s t) - current_tick s)) ` set (delay_q (lmem s)) \<union>
       (\<lambda>i. unat (tm_expiration_tick (timers s i) - current_tick s)) ` set (timer_q (lmem s))))"
  shows "\<exists>p. rts_power_plan_compute cfg s = Inr p \<and>
    (if n = 0 then p = None else \<exists>q. p = Some q \<and> unat (pp_sleep_ticks q) = n \<and> pp_wake_tick q = current_tick s + of_nat n)"
proof -
  let ?now = "current_tick s" and ?wake = "\<lambda>t. wake_tick (tcbs s t)" and ?expire = "\<lambda>i. tm_expiration_tick (timers s i)"
  let ?max = "RTS_TICKLESS_MAX_SLEEP_TICKS cfg"
  define p0 where "p0 = \<lparr>pp_current_tick = ?now, pp_wake_tick = ?now + ?max, pp_sleep_ticks = ?max, pp_source = RTS_POWER_DEADLINE_MAINTENANCE\<rparr>"
  have D: "\<forall>t \<in> set (delay_q (lmem s)). ?wake t \<in> tick_window ?now" "\<forall>i \<in> set (timer_q (lmem s)). ?expire i \<in> tick_window ?now"
    using assms(2,3) by (simp_all add: delay_ordered_def timer_ordered_def)
  have O: "ordered_by (\<lambda>x y. rts_tick_before (?wake x) (?wake y)) (delay_q (lmem s))"
    "ordered_by (\<lambda>x y. rts_tick_before (?expire x) (?expire y)) (timer_q (lmem s))"
    using assms(2,3) by (simp_all add: delay_ordered_def timer_ordered_def wake_before_def [abs_def] expires_before_def [abs_def])
  define n1 where "n1 = Min (insert (unat ?max) ((\<lambda>t. unat (?wake t - ?now)) ` set (delay_q (lmem s))))"
  obtain p1 where p1: "consider_opt cfg ?now (map_option ?wake (hd_or (delay_q (lmem s)) None)) RTS_POWER_DEADLINE_DELAY p0 = Inr p1"
    "pp_wake_tick p1 = ?now + pp_sleep_ticks p1" "unat (pp_sleep_ticks p1) = n1"
  proof (cases "hd_or (delay_q (lmem s)) None")
    case None
    then show ?thesis using that head_is_first [OF O(1) D(1), of "unat ?max"] by (simp add: consider_opt_def n1_def p0_def)
  next
    case (Some t)
    then have w: "?wake t \<in> tick_window ?now" using D(1) hd_or_SomeD by fast
    have p0: "pp_wake_tick p0 = ?now + pp_sleep_ticks p0" by (simp add: p0_def)
    show ?thesis
      by (rule consider_in_window [OF w p0, of cfg RTS_POWER_DEADLINE_DELAY], rule that)
        (use head_is_first [OF O(1) D(1), of "unat ?max"] Some in \<open>simp_all add: consider_opt_def n1_def p0_def\<close>)
  qed
  have n: "n = Min (insert n1 ((\<lambda>i. unat (?expire i - ?now)) ` set (timer_q (lmem s))))"
    unfolding assms(5) n1_def by (rule Min_insert_Un) simp_all
  obtain p2 where p2: "consider_opt cfg ?now (map_option ?expire (hd_or (timer_q (lmem s)) None)) RTS_POWER_DEADLINE_TIMER p1 = Inr p2"
    "pp_wake_tick p2 = ?now + pp_sleep_ticks p2" "unat (pp_sleep_ticks p2) = n"
  proof (cases "hd_or (timer_q (lmem s)) None")
    case None
    then show ?thesis using that p1 head_is_first [OF O(2) D(2), of n1] by (simp add: consider_opt_def n)
  next
    case (Some i)
    then have w: "?expire i \<in> tick_window ?now" using D(2) hd_or_SomeD by fast
    show ?thesis
      by (rule consider_in_window [OF w p1(2), of cfg RTS_POWER_DEADLINE_TIMER], rule that)
        (use head_is_first [OF O(2) D(2), of n1] Some p1(3) in \<open>simp_all add: consider_opt_def n\<close>)
  qed
  have "rts_power_plan_compute cfg s = Inr (if pp_sleep_ticks p2 \<noteq> 0 then Some p2 else None)"
    using assms(4) p1(1) p2(1) delay_next_deadline_ok [OF links_invD(3) [OF assms(1)]] timer_queue_next_deadline_ok [OF links_invD(4) [OF assms(1)]]
    by (simp add: rts_power_plan_compute_def p0_def)
  moreover have "(pp_sleep_ticks p2 = 0) = (n = 0)" "pp_sleep_ticks p2 = of_nat n" using p2(3) by (auto simp: unat_eq_0)
  ultimately show ?thesis using p2(2,3) by simp
qed

theorem sleep_ends_at_first_deadline_witness:
  "\<exists>s q. timer_q (lmem s) = [0] \<and> rts_power_plan_compute test_config s = Inr (Some q) \<and> unat (pp_sleep_ticks q) = 50"
proof -
  obtain s where s: "boot_inv test_config s" "ready_q test_config (lmem s) = [Idle]" "timer_q (lmem s) = []"
    by (rule init_law [OF test_config_ok ex_boots(1-3)]) blast
  let ?s = "started test_config True s"
  have h: "head_ready test_config s = Idle" using s(2) by (simp add: head_ready_def)
  note I = started_inv [OF s(1), where on = True] and R = thread_readyD [OF started_inv(3) [OF s(1), of True], unfolded h]
  note F = book_fields [OF book_started [of test_config s True]]
  have l: "lmem ?s = lmem s" using F(1) by (simp add: established_def upd_tcb_def)
  let ?t = "?s\<lparr>timers := (timers ?s)(0 := (timers ?s 0)\<lparr>tm_expiration_tick := current_tick ?s + 50\<rparr>)\<rparr>"
  have links: "links_inv test_config ?t" by (rule off_timers_links [OF sched_invD(1) [OF I(1)]]) simp_all
  obtain m where m: "links_inv test_config (?t\<lparr>lmem := m\<rparr>)" "timer_q m = stable_insert (expires_before ?t) 0 (timer_q (lmem ?t))"
    "ready_q test_config m = ready_q test_config (lmem ?t)" "delay_q m = delay_q (lmem ?t)"
    by (rule links_timer_insert [OF links, of 0]) (use s(3) l in \<open>simp_all add: test_config_def\<close>)
  let ?u = "?t\<lparr>lmem := m\<rparr>"
  have inv: "sched_inv test_config (current_tick ?u) ?u" by (rule off_timers_inv [OF I(1) _ m(1)]) (use m in simp_all)
  note D = sched_invD [OF inv]
  have q: "delay_q (lmem ?u) = []" "timer_q (lmem ?u) = [0]" using s(1,3) m by (simp_all add: l boot_inv_def)
  have "rts_policy_pick_next test_config ?u = Inr (Some Idle)" using links_pick [OF m(1)] s(2) m(3) by (simp add: l)
  then have allowed: "rts_power_sleep_is_allowed test_config ?u = Inr True"
    using R sched_running [OF inv] tasks_invD(1) [OF D(2)]
    by (simp add: rts_power_sleep_is_allowed_def rts_scheduler_current_get_def and_then_def)
  have t: "timer_ordered (current_tick ?u) ?u" using q(2) by (simp add: timer_ordered_def tick_window_def)
  have n: "50 = Min (insert (unat (RTS_TICKLESS_MAX_SLEEP_TICKS test_config))
      ((\<lambda>t. unat (wake_tick (tcbs ?u t) - current_tick ?u)) ` set (delay_q (lmem ?u)) \<union>
       (\<lambda>i. unat (tm_expiration_tick (timers ?u i) - current_tick ?u)) ` set (timer_q (lmem ?u))))"
    using q by (simp add: test_config_def)
  obtain p where p: "rts_power_plan_compute test_config ?u = Inr (Some p)" "unat (pp_sleep_ticks p) = 50"
    using sleep_ends_at_first_deadline [OF D(1,4) t allowed n] by auto
  show ?thesis by (intro exI [of _ ?u] exI [of _ p] conjI q(2) p)
qed

end
