(* ===== verification/Spec2Isabelle.thy ===== *)
theory Spec2Isabelle
  imports Kernel_Boot Kernel_Time Timer_Service Power_Manager Invariant_Check Fatal_Record Queue_Properties
    Target_Properties
begin

text \<open>
  A verification library for the real-time scheduler under \<^verbatim>\<open>src/\<close>: a preemptive single-processor kernel in C with fixed-priority,
  rate-monotonic and earliest-deadline-first scheduling, delays, software timers, semaphores, mutexes with priority inheritance
  and tickless idle, its ports to the Cortex-M4F and to a host simulation, and the NXP S32K148 target.

  \<^bold>\<open>The program and its model.\<close> The kernel is a set of C modules over one static state. The model is a state record
  \<open>rts_kernel_state\<close> (\<open>Kernel_State\<close>) and one function per C function, under the name it has in the source; a function
  that can stop the kernel returns \<open>rts_fatal + 'a\<close>, where \<open>Inl\<close> is the fatal event of \<^verbatim>\<open>RTS_ASSERT\<close> (in builds with assertions),
  \<^verbatim>\<open>RTS_FATAL_UNLESS\<close> (in every build) or an explicit call. Compile-time configuration is the record \<open>rts_config\<close>, with the
  \<^verbatim>\<open>#error\<close> and \<^verbatim>\<open>_Static_assert\<close> conditions as \<open>config_ok\<close>. Ticks, counters and addresses are 32-bit words and priorities 8-bit
  words, with their wrap-around. Pointers to tasks, timers, semaphores and mutexes are references; linked lists live in
  explicit memories (\<open>lmem\<close> for the ready, delay and timer lists, \<open>wmem\<close> for wait queues, \<open>omem\<close> for owned mutexes), because nodes are
  shared and the code relies on their owner fields. The bytes of the stacks are a memory indexed by addresses, taken to be
  disjoint from the kernel's own variables. The state also has what the kernel sees of the machine through the port: whether it runs in
  an exception, whether the tick source is on, and the requests for a context switch.

  \<^bold>\<open>Theories of the model.\<close>
  \<^item> \<open>RTS_Prelude\<close>, \<open>Tick_Time\<close>: types, configuration, results, list segments (\<^verbatim>\<open>include/rts/rts_types.h\<close>, \<^verbatim>\<open>kernel/config_internal.h\<close>,
    \<^verbatim>\<open>kernel/assert_internal.h\<close>); comparison of ticks (\<^verbatim>\<open>kernel/time_internal.h\<close>).
  \<^item> \<open>Intrusive_List\<close>, \<open>Ring_Buffer\<close>, \<open>Diagnostics\<close>, \<open>Callback_Queue\<close>, \<open>Slot_Pool\<close>: the containers (\<^verbatim>\<open>intrusive_list.c\<close>, \<^verbatim>\<open>trace.c\<close>,
    \<^verbatim>\<open>runtime_stats.c\<close>, \<^verbatim>\<open>timer_callback_queue.c\<close>, the slot search of \<^verbatim>\<open>task_pool.c\<close> and \<^verbatim>\<open>timer.c\<close>).
  \<^item> \<open>Kernel_State\<close>, \<open>Port_Interface\<close>: the state (\<^verbatim>\<open>scheduler_internal.h\<close>, \<^verbatim>\<open>task_internal.h\<close>, \<^verbatim>\<open>timer_internal.h\<close>) and the port as a record
    of functions (\<^verbatim>\<open>port.h\<close>).
  \<^item> \<open>Ready_Queue\<close>, \<open>Delay_Queue\<close>, \<open>Timer_Queue\<close>, \<open>Wait_Object\<close>, \<open>Policy\<close>, \<open>Stack_Check\<close>, \<open>Task_Pool\<close>, \<open>Scheduler\<close>, \<open>Priority_Inheritance\<close>,
    \<open>Semaphore\<close>, \<open>Mutex\<close>, \<open>Timer_Manager\<close>, \<open>Timer_Service\<close>, \<open>Kernel_Time\<close>, \<open>Task_Control\<close>, \<open>Kernel_Boot\<close>, \<open>Power_Manager\<close>,
    \<open>Invariant_Check\<close>, \<open>Fatal_Record\<close>: the modules of \<^verbatim>\<open>kernel/\<close> of the same names.
  \<^item> \<open>Cortex_M4F\<close>: \<^verbatim>\<open>ports/arm/cortex_m4f\<close>, the C bridges together with the SVC and PendSV handlers in assembly; \<open>Host_Port\<close>: \<^verbatim>\<open>ports/host\<close>;
    \<open>S32K148\<close>, \<open>S32K148_Port\<close>: \<^verbatim>\<open>targets/nxp/s32k148\<close>.

  \<^bold>\<open>Interfaces.\<close> Four contracts are locales, each interpreted on the definitions of the model. \<open>stable_order\<close> is what a sorted queue needs of
  its comparison; tick order inside a window and the deadline order are instances. \<open>ready_policy\<close> is what the scheduler
  relies on of a policy (a service order, and what insertion, removal and selection do to it); fixed priority, earliest deadline
  first and the dispatcher are instances. \<open>slot_pool\<close> is the reservation of slots of the task pool and the timer manager.
  \<open>critical_sections\<close> is the nesting of kernel locks, for the host port and for the target.

  \<^bold>\<open>What is shown.\<close>
  \<^item> Containers (\<open>Queue_Properties\<close>): the pointer operations refine lists, the rings are queues, the queues are sorted and
    stable under any wrap-around inside half the tick range, the policies pick what they promise.
  \<^item> The kernel invariant (\<open>Kernel_Links\<close>, \<open>Kernel_Tasks\<close>, \<open>Switch_Plan\<close>, \<open>Kernel_Sync\<close>, \<open>Kernel_Inv\<close>): \<open>sched_inv\<close> says that all linked
    structures are well formed, that each task is in exactly the queues its state names, that effective priorities are
    those inheritance requires, and that a planned switch leads from the current task to a ready one; \<open>plan_inv\<close> says it leads to
    the first task of the service order. \<open>boot_inv\<close> is its counterpart between \<^verbatim>\<open>rts_init\<close> and \<^verbatim>\<open>rts_start\<close>.
  \<^item> Operations (\<open>Task_Moves\<close>, \<open>Task_Blocking\<close>, \<open>Inheritance\<close>, \<open>Owned_Mutexes\<close>, \<open>Task_Laws\<close>, \<open>Boot_Laws\<close>, \<open>Task_Creation\<close>, with the properties in
    \<open>Kernel_Properties\<close>): initialisation establishes the invariant; creation, start, delay and yield keep it, never stop, and do what
    they say; failures roll back; the inheritance walk ends within its bound.
  \<^item> Ports (\<open>Context_Frames\<close>, \<open>Context_Switch\<close>, \<open>Service_Wake\<close>, \<open>Service_Sleep\<close>, \<open>Service_Race\<close>, \<open>Memory_Layout\<close>, with the properties in \<open>Port_Properties\<close> and
    \<open>Target_Properties\<close>): PendSV implements the planned switch and preserves the context of every task; the first task enters the
    frame creation built; a tick between the blocking of the timer service and its context switch stops the system when a timer
    expires in it; critical sections nest; the tick period is exact; the target sleeps for the ticks it was given with its tick stopped and
    restored; planned sleeps end at the first deadline; a failed start can be repeated on the host.
  Witnesses run the theorems on a system that is booted, populated and started by the operations themselves.

  \<^bold>\<open>Loops.\<close> Walks along lists and the loops of the kernel carry fuel, one unit more than the number of tasks or timers (or the bound
  the code itself counts to); running out is the distinguished value \<open>RTS_NO_RETURN\<close>, and under the invariants the lemmas give
  proper results, so it does not occur. The loop that drains timer callbacks depends on the application and is a partial function, \<open>None\<close>
  where it does not return; the endless loop of the service task is modelled as one round.

  \<^bold>\<open>Parameters.\<close> Application callbacks, the port's answers to the kernel, the response of the S32K148 registers to a write, what happens while
  the processor waits for an interrupt, and addresses chosen by the linker are arguments of the definitions. The sleep of the target is
  shown for devices that keep the control bits written to them (\<open>sleep_device\<close>). The host port is modelled with 32-bit pointers.

  \<^bold>\<open>Not modelled.\<close> The example applications (board bring-up, serial output and LEDs around calls of the kernel); the reset code and the
  vector table (data placement by the linker before C code runs); memory barriers and instruction timing, since accesses of one
  processor are in order; the kernel lock inside kernel operations, each of which is one step of the model (the ports'
  critical sections are modelled on their own). The kernel-wide laws cover the operations named above; semaphores, mutexes, timers and
  the tick are modelled completely, with laws for their queues, the inheritance walk and the timer service.
\<close>

section \<open>Properties\<close>

text \<open>
  C31. \<open>rts_tick_before\<close> (\<^verbatim>\<open>kernel/time_internal.h\<close>) is a comparison of distances: \<open>a\<close> is before \<open>b\<close>
  exactly when counting up from \<open>a\<close> reaches \<open>b\<close> after at least one and fewer than \<open>2 ^ 31\<close>
  ticks, whatever wrap-around lies between them.
\<close>

theorem tick_before_distance:
  "rts_tick_before a b \<longleftrightarrow> 0 < unat (b - a) \<and> unat (b - a) < 2 ^ 31"
  by (rule rts_tick_before_iff)

text \<open>
  C33. The fatal record (\<^verbatim>\<open>kernel/fatal.c\<close>) describes the first fatal event: after any sequence of
  fatal events the record is the one the first of them captured, and only the first reaches the
  target's hook.
\<close>

theorem first_fatal_event_wins:
  assumes "fr_valid r = 0" and "rts_kernel_fatal_at e reason ctx file line s r = (hook, r1)"
  shows "hook = Some r1 \<and> fr_reason r1 = Some reason \<and> fr_tick r1 = current_tick s \<and> fr_fatal_count r1 = 1 \<and>
    fold (\<lambda>(e, reason, ctx, file, line, s) r. snd (rts_kernel_fatal_at e reason ctx file line s r)) es r1 = r1 \<and>
    fst (rts_kernel_fatal_at e' reason' ctx' file' line' s' r1) = None"
proof -
  have v: "fr_valid r1 = 1" and first: "hook = Some r1" "fr_reason r1 = Some reason" "fr_tick r1 = current_tick s"
    "fr_fatal_count r1 = 1"
    using assms by (auto simp: rts_kernel_fatal_at_def rts_fatal_record_capture_def)
  then have stay: "rts_kernel_fatal_at e reason ctx src line s r1 = (None, r1)" for e reason ctx src line s
    by (simp add: rts_kernel_fatal_at_def rts_fatal_record_capture_def)
  have "fold (\<lambda>(e, reason, ctx, file, line, s) r. snd (rts_kernel_fatal_at e reason ctx file line s r)) es r1 = r1"
    by (induction es) (auto simp: stay)
  with first stay show ?thesis by simp
qed

theorem first_fatal_event_wins_witness:
  "fst (rts_kernel_fatal_at 3 RTS_FATAL_HARDFAULT 0 0 7 ex_kernel
     (snd (rts_kernel_fatal_at 0 RTS_FATAL_ASSERTION 1 2 42 ex_kernel rts_fatal_record_reset_for_test))) = None"
  using first_fatal_event_wins [of rts_fatal_record_reset_for_test 0 RTS_FATAL_ASSERTION 1 2 42 ex_kernel]
  by (simp add: rts_fatal_record_reset_for_test_def rts_kernel_fatal_at_def rts_fatal_record_capture_def)

text \<open>
  C34. The diagnostics snapshot (\<^verbatim>\<open>kernel/runtime_stats.c\<close>) accounts for every tick: idle and non-idle
  ticks always add up to the total, without wrapping, whatever the idle accounting has recorded.
\<close>

theorem snapshot_partitions_ticks:
  assumes "rts_diagnostics_snapshot_read cfg want r s = Inr (Some g)"
  shows "unat (dg_idle_ticks g) + unat (dg_non_idle_ticks g) =
    unat (if RTS_ENABLE_RUNTIME_STATS cfg then runtime_counters s scheduler_ticks else current_tick s)"
  using assms by (rule snapshot_accounts_ticks)

theorem snapshot_partitions_ticks_witness:
  "\<exists>g. rts_diagnostics_snapshot_read test_config True rts_fatal_record_reset_for_test ex_kernel = Inr (Some g) \<and>
    unat (dg_idle_ticks g) + unat (dg_non_idle_ticks g) = 0"
proof -
  obtain g where "rts_diagnostics_snapshot_read test_config True rts_fatal_record_reset_for_test ex_kernel = Inr (Some g)"
    by (simp add: rts_diagnostics_snapshot_read_def rts_task_pool_allocated_count_def ex_kernel_def Let_def)
  with snapshot_partitions_ticks [OF this] show ?thesis by (simp add: ex_kernel_def)
qed

end
